(* ===== verification/Prelude.thy ===== *)
theory Prelude
  imports Complex_Main
begin

text \<open>
  What every component of the development shares: the errors of the Python runtime as values,
  the insertion-ordered dictionary of Python as an association list with its laws, the counting
  and grouping idioms the code builds on it (\<open>d[k] = d.get(k, 0) + 1\<close>,
  \<open>defaultdict(list)\<close>), and the interfaces (locales) under which their clients are proved
  once.
\<close>

named_theorems dict_simps \<open>laws of the insertion-ordered dictionary\<close>
named_theorems str_simps \<open>evaluation rules of the string operations\<close>

section \<open>Errors of the Python runtime\<close>

datatype py_error =
    ValueError string
  | KeyError string
  | TypeError
  | StructError
  | ZeroDivisionError
  | OverflowError
  | OSError
  | RuntimeError string
  | IndexError
  | AttributeError

type_synonym 'a py = "py_error + 'a"

definition py_bind :: "'a py \<Rightarrow> ('a \<Rightarrow> 'b py) \<Rightarrow> 'b py" where
  "py_bind m f = (case m of Inl e \<Rightarrow> Inl e | Inr x \<Rightarrow> f x)"

lemma py_bind_simps [simp]:
  "py_bind (Inl e) f = Inl e"
  "py_bind (Inr x) f = f x"
  by (simp_all add: py_bind_def)

lemma py_bind_assoc: "py_bind (py_bind m f) g = py_bind m (\<lambda>x. py_bind (f x) g)"
  by (cases m) auto

lemma py_bind_eq_Inr:
  "py_bind m f = Inr y \<longleftrightarrow> (\<exists>x. m = Inr x \<and> f x = Inr y)"
  by (cases m) auto

text \<open>A loop whose body may raise: the first exception ends it.\<close>

fun py_mapM :: "('a \<Rightarrow> 'b py) \<Rightarrow> 'a list \<Rightarrow> 'b list py" where
  "py_mapM f [] = Inr []"
| "py_mapM f (x # xs) = py_bind (f x) (\<lambda>y. py_bind (py_mapM f xs) (\<lambda>ys. Inr (y # ys)))"

lemma py_mapM_total:
  "(\<And>x. x \<in> set xs \<Longrightarrow> f x = Inr (g x)) \<Longrightarrow> py_mapM f xs = Inr (map g xs)"
  by (induction xs) auto

lemma py_mapM_append:
  "py_mapM f (xs @ ys) = py_bind (py_mapM f xs) (\<lambda>us. py_bind (py_mapM f ys) (\<lambda>vs. Inr (us @ vs)))"
  by (induction xs) (auto simp: py_bind_def split: sum.split)

section \<open>Insertion-ordered dictionaries\<close>

text \<open>
  A Python dict keeps its keys in the order of first insertion; assigning to a present key
  changes the value in place. Several outputs of the program list a dict's items, so the order
  is part of the model.
\<close>

type_synonym ('k, 'v) dict = "('k \<times> 'v) list"

fun dset :: "'k \<Rightarrow> 'v \<Rightarrow> ('k, 'v) dict \<Rightarrow> ('k, 'v) dict" where
  "dset k v [] = [(k, v)]"
| "dset k v ((k', v') # d) = (if k = k' then (k', v) # d else (k', v') # dset k v d)"

fun dget :: "('k, 'v) dict \<Rightarrow> 'k \<Rightarrow> 'v option" where
  "dget [] k = None"
| "dget ((k', v) # d) k = (if k = k' then Some v else dget d k)"

definition ddel :: "'k \<Rightarrow> ('k, 'v) dict \<Rightarrow> ('k, 'v) dict" where
  "ddel k d = filter (\<lambda>kv. fst kv \<noteq> k) d"

definition dkeys :: "('k, 'v) dict \<Rightarrow> 'k list" where
  "dkeys d = map fst d"

definition dgetd :: "('k, 'v) dict \<Rightarrow> 'k \<Rightarrow> 'v \<Rightarrow> 'v" where
  "dgetd d k v0 = (case dget d k of None \<Rightarrow> v0 | Some v \<Rightarrow> v)"

definition dict_ok :: "('k, 'v) dict \<Rightarrow> bool" where
  "dict_ok d \<longleftrightarrow> distinct (dkeys d)"

lemma dget_dset [dict_simps, simp]: "dget (dset k v d) k' = (if k' = k then Some v else dget d k')"
  by (induction d) auto

lemma dget_ddel [dict_simps, simp]: "dget (ddel k d) k' = (if k' = k then None else dget d k')"
  by (induction d) (auto simp: ddel_def)

lemma dkeys_simps [simp]: "dkeys [] = []" "dkeys ((k, v) # d) = k # dkeys d"
  by (simp_all add: dkeys_def)

lemma dkeys_dset [dict_simps, simp]:
  "dkeys (dset k v d) = (if k \<in> set (dkeys d) then dkeys d else dkeys d @ [k])"
  by (induction d) auto

lemma dget_None_iff: "dget d k = None \<longleftrightarrow> k \<notin> set (dkeys d)"
  by (induction d) (auto split: if_splits)

lemma dget_in_keys: "dget d k \<noteq> None \<longleftrightarrow> k \<in> set (dkeys d)"
  by (simp add: dget_None_iff)

lemma dict_ok_Nil [simp]: "dict_ok []"
  by (simp add: dict_ok_def)

lemma dict_ok_dset [intro, simp]: "dict_ok d \<Longrightarrow> dict_ok (dset k v d)"
  by (simp add: dict_ok_def)

lemma dict_ok_ddel [intro, simp]: "dict_ok d \<Longrightarrow> dict_ok (ddel k d)"
  by (auto simp: dict_ok_def ddel_def dkeys_def distinct_map_filter)

lemma dget_Some_in: "dget d k = Some v \<Longrightarrow> (k, v) \<in> set d"
  by (induction d) (auto split: if_splits)

lemma dict_ok_in_dget: "dict_ok d \<Longrightarrow> (k, v) \<in> set d \<Longrightarrow> dget d k = Some v"
  by (induction d) (force simp: dict_ok_def dkeys_def)+

lemma dict_mem_iff: "dict_ok d \<Longrightarrow> (k, v) \<in> set d \<longleftrightarrow> dget d k = Some v"
  using dict_ok_in_dget dget_Some_in by metis

lemma dgetd_dset [simp]: "dgetd (dset k v d) k' v0 = (if k' = k then v else dgetd d k' v0)"
  by (simp add: dgetd_def)

lemma dgetd_Nil [simp]: "dgetd [] k v0 = v0"
  by (simp add: dgetd_def)

lemma dset_absent: "k \<notin> set (dkeys d) \<Longrightarrow> dset k v d = d @ [(k, v)]"
  by (induction d) auto

text \<open>A dictionary built entry by entry.\<close>

lemma fold_dset_ok: "dict_ok d \<Longrightarrow> dict_ok (fold (\<lambda>(k, v). dset k v) kvs d)"
  by (induction kvs arbitrary: d) auto

text \<open>Of two entries with one key the later one counts.\<close>

lemma fold_dset_cong:
  assumes "\<And>j. j \<notin> K \<Longrightarrow> dget d j = dget e j" "j \<notin> K"
  shows "dget (fold (\<lambda>(k, v). dset k v) kvs d) j = dget (fold (\<lambda>(k, v). dset k v) kvs e) j"
  using assms(1)
proof (induction kvs arbitrary: d e)
  case Nil
  then show ?case using assms(2) by simp
next
  case (Cons kv kvs)
  obtain k v where kv: "kv = (k, v)" by (cases kv)
  have "dget (dset k v d) i = dget (dset k v e) i" if "i \<notin> K" for i using Cons.prems[OF that] by simp
  from Cons.IH[OF this] show ?case by (simp add: kv)
qed

lemma fold_dset_last:
  "dget (fold (\<lambda>(k, v). dset k v) (xs @ (k, v) # ys @ (k, w) # zs) []) =
   dget (fold (\<lambda>(k, v). dset k v) (xs @ ys @ (k, w) # zs) [])"
proof
  fix j
  let ?f = "fold (\<lambda>(k, v). dset k v)"
  let ?d = "?f xs []"
  have "dget (?f ys (dset k v ?d)) i = dget (?f ys ?d) i" if "i \<noteq> k" for i
    using that by (intro fold_dset_cong[of "{k}"]) auto
  then have "dget (dset k w (?f ys (dset k v ?d))) i = dget (dset k w (?f ys ?d)) i" for i by simp
  then have "dget (?f zs (dset k w (?f ys (dset k v ?d)))) j = dget (?f zs (dset k w (?f ys ?d))) j"
    by (intro fold_dset_cong[of "{}"]) auto
  then show "dget (?f (xs @ (k, v) # ys @ (k, w) # zs) []) j = dget (?f (xs @ ys @ (k, w) # zs) []) j" by simp
qed

section \<open>Counting\<close>

text \<open>\<open>d[k] = d.get(k, 0) + 1\<close>\<close>

definition dbump :: "'k \<Rightarrow> ('k, int) dict \<Rightarrow> ('k, int) dict" where
  "dbump k d = dset k (dgetd d k 0 + 1) d"

text \<open>
  The interface of everything that counts: an operation that adds one to a key's count and
  leaves the others. Its client lemma: after a run of operations each key's count has grown by
  its number of occurrences.
\<close>

locale tally =
  fixes count :: "'d \<Rightarrow> 'k \<Rightarrow> int"
    and bump :: "'k \<Rightarrow> 'd \<Rightarrow> 'd"
  assumes count_bump: "count (bump k d) k' = (if k' = k then count d k' + 1 else count d k')"
begin

lemma count_run: "count (fold bump ks d) k = count d k + int (count_list ks k)"
  by (induction ks arbitrary: d) (auto simp: count_bump)

lemma count_mono: "count d k \<le> count (fold bump ks d) k"
  by (simp add: count_run)

lemma count_append: "count (fold bump (ks @ ks') d) k = count (fold bump (ks' @ ks) d) k"
  by (simp only: count_run count_list_append add.commute)

end

interpretation dt: tally "\<lambda>d k. dgetd d k 0" dbump
  by unfold_locales (simp add: dbump_def)

lemma dict_ok_fold_dbump [simp]: "dict_ok d \<Longrightarrow> dict_ok (fold dbump ks d)"
  by (induction ks arbitrary: d) (auto simp: dbump_def)

lemma dkeys_fold_dbump: "set (dkeys (fold dbump ks d)) = set (dkeys d) \<union> set ks"
  by (induction ks arbitrary: d) (auto simp: dbump_def)

lemma dget_fold_dbump:
  "dget (fold dbump ks []) k = (if k \<in> set ks then Some (int (count_list ks k)) else None)"
proof (cases "k \<in> set ks")
  case True
  then have "k \<in> set (dkeys (fold dbump ks []))"
    by (simp add: dkeys_fold_dbump)
  then obtain v where v: "dget (fold dbump ks []) k = Some v"
    using dget_in_keys by fastforce
  then have "v = dgetd (fold dbump ks []) k 0"
    by (simp add: dgetd_def)
  then show ?thesis using v True by (simp add: dt.count_run)
next
  case False
  then show ?thesis by (simp add: dget_None_iff dkeys_fold_dbump)
qed

section \<open>Grouping\<close>

text \<open>\<open>d = defaultdict(list); for x in xs: d[key(x)].append(x)\<close>\<close>

definition dappend :: "'k \<Rightarrow> 'v \<Rightarrow> ('k, 'v list) dict \<Rightarrow> ('k, 'v list) dict" where
  "dappend k v d = dset k (dgetd d k [] @ [v]) d"

definition group_by :: "('a \<Rightarrow> 'k) \<Rightarrow> 'a list \<Rightarrow> ('k, 'a list) dict" where
  "group_by f xs = fold (\<lambda>x d. dappend (f x) x d) xs []"

lemma fold_dappend_get:
  "dgetd (fold (\<lambda>x d. dappend (f x) x d) xs d) k [] = dgetd d k [] @ filter (\<lambda>x. f x = k) xs"
  by (induction xs arbitrary: d) (auto simp: dappend_def)

lemma fold_dappend_keys:
  "set (dkeys (fold (\<lambda>x d. dappend (f x) x d) xs d)) = set (dkeys d) \<union> f ` set xs"
  by (induction xs arbitrary: d) (auto simp: dappend_def)

lemma fold_dappend_ok: "dict_ok d \<Longrightarrow> dict_ok (fold (\<lambda>x d. dappend (f x) x d) xs d)"
  by (induction xs arbitrary: d) (auto simp: dappend_def)

lemma group_by_ok [simp]: "dict_ok (group_by f xs)"
  by (simp add: group_by_def fold_dappend_ok)

lemma group_by_keys [simp]: "set (dkeys (group_by f xs)) = f ` set xs"
  by (simp add: group_by_def fold_dappend_keys)

lemma group_by_get:
  "dget (group_by f xs) k = (if k \<in> f ` set xs then Some (filter (\<lambda>x. f x = k) xs) else None)"
proof (cases "k \<in> f ` set xs")
  case True
  then have "k \<in> set (dkeys (group_by f xs))" by simp
  then obtain ys where ys: "dget (group_by f xs) k = Some ys"
    using dget_in_keys by fastforce
  then have "ys = dgetd (group_by f xs) k []"
    by (simp add: dgetd_def)
  then show ?thesis using ys True by (simp add: group_by_def fold_dappend_get)
next
  case False
  then show ?thesis by (simp add: dget_None_iff)
qed

lemma group_by_mem:
  "(k, ys) \<in> set (group_by f xs) \<longleftrightarrow> k \<in> f ` set xs \<and> ys = filter (\<lambda>x. f x = k) xs"
proof
  assume "(k, ys) \<in> set (group_by f xs)"
  then have "dget (group_by f xs) k = Some ys"
    by (simp add: dict_ok_in_dget)
  then show "k \<in> f ` set xs \<and> ys = filter (\<lambda>x. f x = k) xs"
    by (auto simp: group_by_get split: if_splits)
next
  assume "k \<in> f ` set xs \<and> ys = filter (\<lambda>x. f x = k) xs"
  then have "dget (group_by f xs) k = Some ys"
    by (simp add: group_by_get)
  then show "(k, ys) \<in> set (group_by f xs)"
    by (rule dget_Some_in)
qed

lemma group_by_nonempty: "(k, ys) \<in> set (group_by f xs) \<Longrightarrow> ys \<noteq> []"
  by (auto simp: group_by_mem filter_empty_conv)

lemma group_by_concat:
  "x \<in> set (concat (map (\<lambda>(k, ys). F k ys) (group_by f xs))) \<longleftrightarrow>
     (\<exists>k \<in> f ` set xs. x \<in> set (F k (filter (\<lambda>x. f x = k) xs)))"
proof -
  have "x \<in> set (concat (map (\<lambda>(k, ys). F k ys) (group_by f xs))) \<longleftrightarrow>
      (\<exists>k ys. (k, ys) \<in> set (group_by f xs) \<and> x \<in> set (F k ys))"
    by force
  then show ?thesis by (auto simp: group_by_mem)
qed

end
