(* ===== verification/Ledger.thy ===== *)
theory Ledger
  imports Prelude
begin

text \<open>
  The contract of a program that runs again and again and reports what it has not reported before: a state
  kept between the runs, and a step that from an input gives the new state and the reports. The pollers of
  two event logs keep it: by record id (\<open>IpmiSel\<close>) and by a set of ids (\<open>Redfish\<close>). Both save the state
  in place and go on when the save fails, so what a later run starts from also depends on how each save ended
  (\<open>saved_ledger\<close>).
\<close>

text \<open>The reports of successive runs, and the state after them.\<close>

fun ledger_runs :: "('i \<Rightarrow> 's \<Rightarrow> 's \<times> 'o list) \<Rightarrow> 'i list \<Rightarrow> 's \<Rightarrow> 's \<times> 'o list list" where
  "ledger_runs step [] s = (s, [])"
| "ledger_runs step (i # is) s =
     (let later = ledger_runs step is (fst (step i s)) in (fst later, snd (step i s) # snd later))"

text \<open>\<open>known s\<close> is what a state counts as reported.\<close>

locale ledger =
  fixes step :: "'i \<Rightarrow> 's \<Rightarrow> 's \<times> 'o list"
    and known :: "'s \<Rightarrow> 'o set"
  assumes reports_new: "set (snd (step i s)) \<inter> known s = {}"
    and remembers: "set (snd (step i s)) \<subseteq> known (fst (step i s))"
    and forgets_nothing: "known s \<subseteq> known (fst (step i s))"
begin

lemma runs_known: "known s \<subseteq> known (fst (ledger_runs step is s))"
  by (induction "is" arbitrary: s) (auto simp: Let_def dest: subsetD[OF forgets_nothing])

lemma runs_new: "set (concat (snd (ledger_runs step is s))) \<inter> known s = {}"
proof (induction "is" arbitrary: s)
  case (Cons i "is")
  then show ?case
    using forgets_nothing[of s i] reports_new[of i s] Cons[of "fst (step i s)"] by (simp add: Let_def) blast
qed simp

lemma later_apart: "set (snd (step i s)) \<inter> set (concat (snd (ledger_runs step is (fst (step i s))))) = {}"
  using remembers[of i s] runs_new[of "is" "fst (step i s)"] by blast

lemma runs_apart: "sorted_wrt (\<lambda>a b. set a \<inter> set b = {}) (snd (ledger_runs step is s))"
proof (induction "is" arbitrary: s)
  case (Cons i "is")
  have "\<forall>b \<in> set (snd (ledger_runs step is (fst (step i s)))). set (snd (step i s)) \<inter> set b = {}"
    using later_apart[of i s "is"] by auto
  then show ?case using Cons[of "fst (step i s)"] by (simp add: Let_def)
qed simp

end

text \<open>A ledger that reports nothing twice within one run either.\<close>

locale strict_ledger = ledger +
  assumes distinct_report: "distinct (snd (step i s))"
begin

lemma runs_distinct: "distinct (concat (snd (ledger_runs step is s)))"
proof (induction "is" arbitrary: s)
  case (Cons i "is")
  then show ?case using later_apart[of i s "is"] distinct_report[of i s] by (simp add: Let_def)
qed simp

end

section \<open>Saves that may fail\<close>

text \<open>How the save at the end of a run went: written; not begun, because the directory or the file could not be
  opened; or begun, which empties the file, and not completed.\<close>

datatype save_result = Written | Untouched | CutShort

text \<open>What the next run loads: a file that does not hold the whole text counts as an empty one.\<close>

fun saved :: "'s \<Rightarrow> save_result \<Rightarrow> 's \<Rightarrow> 's \<Rightarrow> 's" where
  "saved init Written old new = new"
| "saved init Untouched old new = old"
| "saved init CutShort old new = init"

text \<open>A start of the program reports what the step reports, however the save ends.\<close>

locale saved_ledger = ledger step known for step :: "'i \<Rightarrow> 's \<Rightarrow> 's \<times> 'o list" and known :: "'s \<Rightarrow> 'o set" +
  fixes start :: "'i \<times> save_result \<Rightarrow> 's \<Rightarrow> 's \<times> 'o list"
  assumes start_reports: "snd (start (i, r) s) = snd (step i s)"
    and start_written: "fst (start (i, Written) s) = fst (step i s)"
    and start_untouched: "fst (start (i, Untouched) s) = s"
begin

text \<open>What the \<open>j\<close>-th run loads.\<close>

definition before :: "('i \<times> save_result) list \<Rightarrow> 's \<Rightarrow> nat \<Rightarrow> 's" where
  "before xs s j = fst (ledger_runs start (take j xs) s)"

lemma before_0: "before xs s 0 = s"
  by (simp add: before_def)

lemma before_Suc: "j < length xs \<Longrightarrow> before xs s (Suc j) = fst (start (xs ! j) (before xs s j))"
proof (induction xs arbitrary: s j)
  case (Cons x xs)
  then show ?case by (cases j) (auto simp: before_def Let_def)
qed simp

lemma before_written:
  "i < length xs \<Longrightarrow> snd (xs ! i) = Written \<Longrightarrow> before xs s (Suc i) = fst (step (fst (xs ! i)) (before xs s i))"
  by (cases "xs ! i") (simp add: before_Suc start_written)

lemma before_untouched: "i < length xs \<Longrightarrow> snd (xs ! i) = Untouched \<Longrightarrow> before xs s (Suc i) = before xs s i"
  by (cases "xs ! i") (simp add: before_Suc start_untouched)

lemma run_reports: "j < length xs \<Longrightarrow> snd (ledger_runs start xs s) ! j = snd (step (fst (xs ! j)) (before xs s j))"
proof (induction xs arbitrary: s j)
  case (Cons x xs)
  then show ?case
    using start_reports[of "fst x" "snd x"] by (cases j) (auto simp: before_def Let_def)
qed simp

lemma start_keeps: "r \<noteq> CutShort \<Longrightarrow> known s \<subseteq> known (fst (start (i, r) s))"
  using forgets_nothing[of s i] by (cases r) (simp_all add: start_written start_untouched)

lemma before_keeps:
  assumes "i \<le> j" "j \<le> length xs" "\<forall>k. i \<le> k \<and> k < j \<longrightarrow> snd (xs ! k) \<noteq> CutShort"
  shows "known (before xs s i) \<subseteq> known (before xs s j)"
  using assms
proof (induction rule: dec_induct)
  case (step j)
  have "known (before xs s j) \<subseteq> known (before xs s (Suc j))"
    using start_keeps[of "snd (xs ! j)" "before xs s j" "fst (xs ! j)"] step before_Suc[of j xs s] by simp
  then show ?case using step by auto
qed simp

lemma seen_not_reported:
  assumes "j < length xs" "\<forall>k < j. snd (xs ! k) \<noteq> CutShort"
  shows "set (snd (ledger_runs start xs s) ! j) \<inter> known s = {}"
  using before_keeps[of 0 j xs s] reports_new[of "fst (xs ! j)" "before xs s j"] assms
  by (auto simp: run_reports before_0)

lemma not_reported_twice:
  assumes "i < j" "j < length xs" "snd (xs ! i) = Written" "\<forall>k. i < k \<and> k < j \<longrightarrow> snd (xs ! k) \<noteq> CutShort"
  shows "set (snd (ledger_runs start xs s) ! i) \<inter> set (snd (ledger_runs start xs s) ! j) = {}"
proof -
  have "before xs s (Suc i) = fst (step (fst (xs ! i)) (before xs s i))"
    using assms(1-3) by (simp add: before_written)
  then have "set (snd (step (fst (xs ! i)) (before xs s i))) \<subseteq> known (before xs s (Suc i))"
    using remembers[of "fst (xs ! i)"] by simp
  then show ?thesis
    using before_keeps[of "Suc i" j xs s] reports_new[of "fst (xs ! j)" "before xs s j"] assms
    by (auto simp: run_reports)
qed

lemma repeated_after_failure:
  assumes "Suc i < length xs" "snd (xs ! i) = Untouched" "fst (xs ! Suc i) = fst (xs ! i)"
  shows "snd (ledger_runs start xs s) ! Suc i = snd (ledger_runs start xs s) ! i"
  using assms by (simp add: run_reports before_untouched)

end

end
