(* ===== verification/PyStr.thy ===== *)
theory PyStr
  imports Prelude "HOL-Library.Char_ord"
begin

text \<open>
  The string operations of Python the program uses. A \<open>str\<close> is a list of characters with code
  points below 256 (Isabelle's \<open>char\<close>); the classes below are those of Python on that range.
  Outside it the program's own tests on characters (digits, quotes, line breaks, separators)
  never hold.
\<close>

section \<open>Character classes\<close>

definition cp :: "char \<Rightarrow> int" where
  "cp c = of_char c"

definition is_space :: "char \<Rightarrow> bool" where
  "is_space c \<longleftrightarrow> (9 \<le> cp c \<and> cp c \<le> 13) \<or> (28 \<le> cp c \<and> cp c \<le> 32) \<or> cp c = 0x85 \<or> cp c = 0xA0"

definition is_digit :: "char \<Rightarrow> bool" where
  "is_digit c \<longleftrightarrow> 48 \<le> cp c \<and> cp c \<le> 57"

definition is_upper :: "char \<Rightarrow> bool" where
  "is_upper c \<longleftrightarrow> (65 \<le> cp c \<and> cp c \<le> 90) \<or> (0xC0 \<le> cp c \<and> cp c \<le> 0xDE \<and> cp c \<noteq> 0xD7)"

definition is_lower :: "char \<Rightarrow> bool" where
  "is_lower c \<longleftrightarrow> (97 \<le> cp c \<and> cp c \<le> 122) \<or> (0xE0 \<le> cp c \<and> cp c \<le> 0xFE \<and> cp c \<noteq> 0xF7)"

text \<open>The class \<open>\w\<close> of the regular expressions: alphanumeric or underscore.\<close>

definition is_word :: "char \<Rightarrow> bool" where
  "is_word c \<longleftrightarrow> is_digit c \<or> is_upper c \<or> is_lower c \<or> cp c = 95 \<or>
     cp c \<in> set [0xAA, 0xB2, 0xB3, 0xB5, 0xB9, 0xBA, 0xBC, 0xBD, 0xBE, 0xDF, 0xFF]"

definition to_lower :: "char \<Rightarrow> char" where
  "to_lower c = (if is_upper c then char_of (cp c + 32) else c)"

definition to_upper :: "char \<Rightarrow> char" where
  "to_upper c = (if is_lower c then char_of (cp c - 32) else c)"

definition lower :: "string \<Rightarrow> string" where
  "lower s = map to_lower s"

definition upper :: "string \<Rightarrow> string" where
  "upper s = map to_upper s"

lemma cp_char_of [simp]: "0 \<le> n \<Longrightarrow> n < 256 \<Longrightarrow> cp (char_of n) = n"
  by (simp add: cp_def)

lemma cp_nat: "cp c = int (of_char c)"
  by (simp add: cp_def of_char_def)

lemma cp_less [simp]: "cp c < 256" "0 \<le> cp c"
  unfolding cp_nat by (simp_all add: of_char_def)

lemma cp_eq [simp]: "cp c = cp d \<longleftrightarrow> c = d"
  by (simp add: cp_def)

lemma to_lower_not_upper: "\<not> is_upper (to_lower c)"
  by (auto simp: to_lower_def is_upper_def)

lemma lower_idem [simp]: "lower (lower s) = lower s"
  by (simp add: lower_def o_def to_lower_def) (use to_lower_not_upper to_lower_def in metis)

section \<open>Strip, split, join\<close>

definition lstrip :: "string \<Rightarrow> string" where
  "lstrip s = dropWhile is_space s"

definition rstrip_by :: "(char \<Rightarrow> bool) \<Rightarrow> string \<Rightarrow> string" where
  "rstrip_by p s = rev (dropWhile p (rev s))"

definition rstrip :: "string \<Rightarrow> string" where
  "rstrip s = rstrip_by is_space s"

definition strip :: "string \<Rightarrow> string" where
  "strip s = rstrip (lstrip s)"

definition rstrip_chr :: "char \<Rightarrow> string \<Rightarrow> string" where
  "rstrip_chr c s = rstrip_by (\<lambda>x. x = c) s"

lemma set_rstrip_by: "set (rstrip_by p s) \<subseteq> set s"
  by (metis rstrip_by_def set_dropWhileD set_rev subsetI)

lemma set_strip: "set (strip s) \<subseteq> set s"
  using set_rstrip_by[of is_space "lstrip s"] set_dropWhileD[of _ is_space s]
  by (auto simp: strip_def rstrip_def lstrip_def)

lemma rstrip_by_id: "s = [] \<or> \<not> p (last s) \<Longrightarrow> rstrip_by p s = s"
  by (cases s rule: rev_cases) (auto simp: rstrip_by_def)

lemma rstrip_by_last: "rstrip_by p s \<noteq> [] \<Longrightarrow> \<not> p (last (rstrip_by p s))"
  unfolding rstrip_by_def by (metis hd_dropWhile last_rev rev_is_Nil_conv)

lemma rstrip_by_snoc: "rstrip_by p (s @ [c]) = (if p c then rstrip_by p s else s @ [c])"
  by (simp add: rstrip_by_def)

lemma rstrip_by_Cons: "\<not> p c \<Longrightarrow> rstrip_by p (c # s) = c # rstrip_by p s"
  by (induction s rule: rev_induct) (auto simp: rstrip_by_def dropWhile_append)

lemma strip_no_space_ends:
  "strip s \<noteq> [] \<Longrightarrow> \<not> is_space (hd (strip s)) \<and> \<not> is_space (last (strip s))"
proof -
  assume ne: "strip s \<noteq> []"
  then have l: "\<not> is_space (last (strip s))"
    unfolding strip_def rstrip_def by (rule rstrip_by_last)
  have ls: "lstrip s \<noteq> []"
    using ne by (auto simp: strip_def rstrip_def rstrip_by_def)
  then obtain c t where ct0: "lstrip s = c # t"
    by (cases "lstrip s") auto
  with ls have "\<not> is_space c"
    unfolding lstrip_def by (metis hd_dropWhile list.sel(1))
  note ct = ct0 this
  then have "strip s = c # rstrip_by is_space t"
    by (simp add: strip_def rstrip_def rstrip_by_Cons)
  with ct l show ?thesis by simp
qed

lemma strip_id: "s = [] \<or> \<not> is_space (hd s) \<and> \<not> is_space (last s) \<Longrightarrow> strip s = s"
  by (cases s) (auto simp: strip_def lstrip_def rstrip_def rstrip_by_id)

lemma strip_idem [simp]: "strip (strip s) = strip s"
  using strip_id strip_no_space_ends by blast

text \<open>\<open>s.split(c)\<close> for a one-character separator, and \<open>c.join(xs)\<close>.\<close>

fun split_on :: "char \<Rightarrow> string \<Rightarrow> string list" where
  "split_on c [] = [[]]"
| "split_on c (x # s) =
     (if x = c then [] # split_on c s
      else (case split_on c s of [] \<Rightarrow> [[x]] | w # ws \<Rightarrow> (x # w) # ws))"

fun join :: "string \<Rightarrow> string list \<Rightarrow> string" where
  "join sep [] = []"
| "join sep [w] = w"
| "join sep (w # ws) = w @ sep @ join sep ws"

lemma split_on_nonempty [simp]: "split_on c s \<noteq> []"
  by (induction s) (auto split: list.splits)

lemma split_on_no_sep: "w \<in> set (split_on c s) \<Longrightarrow> c \<notin> set w"
  by (induction s arbitrary: w) (auto split: if_splits list.splits)

lemma split_on_single: "c \<notin> set w \<Longrightarrow> split_on c w = [w]"
  by (induction w) auto

lemma split_on_append: "c \<notin> set w \<Longrightarrow> split_on c (w @ c # s) = w # split_on c s"
  by (induction w) auto

lemma split_join:
  "ws \<noteq> [] \<Longrightarrow> (\<And>w. w \<in> set ws \<Longrightarrow> c \<notin> set w) \<Longrightarrow> split_on c (join [c] ws) = ws"
  by (induction "[c]" ws rule: join.induct) (auto simp: split_on_single split_on_append)

lemma join_split: "join [c] (split_on c s) = s"
proof (induction s)
  case Nil
  show ?case by simp
next
  case (Cons x s)
  obtain w ws where "split_on c s = w # ws"
    by (cases "split_on c s") auto
  with Cons show ?case by (cases ws) auto
qed

text \<open>\<open>s.split()\<close>: the maximal runs of characters that are not white space.\<close>

fun split_ws_acc :: "string \<Rightarrow> string \<Rightarrow> string list" where
  "split_ws_acc w [] = (if w = [] then [] else [rev w])"
| "split_ws_acc w (c # s) =
     (if is_space c then (if w = [] then split_ws_acc [] s else rev w # split_ws_acc [] s)
      else split_ws_acc (c # w) s)"

definition split_ws :: "string \<Rightarrow> string list" where
  "split_ws s = split_ws_acc [] s"

lemma split_ws_acc_words:
  "\<forall>c \<in> set w. \<not> is_space c \<Longrightarrow>
   \<forall>x \<in> set (split_ws_acc w s). x \<noteq> [] \<and> (\<forall>c \<in> set x. \<not> is_space c)"
proof (induction s arbitrary: w)
  case Nil
  then show ?case by simp
next
  case (Cons c s)
  show ?case
  proof (cases "is_space c")
    case True
    with Cons.IH[of "[]"] Cons.prems show ?thesis by simp
  next
    case False
    with Cons.IH[of "c # w"] Cons.prems show ?thesis by simp
  qed
qed

lemma split_ws_words: "x \<in> set (split_ws s) \<Longrightarrow> x \<noteq> [] \<and> (\<forall>c \<in> set x. \<not> is_space c)"
  using split_ws_acc_words[of "[]" s] by (simp add: split_ws_def)

section \<open>Tests and replacement\<close>

definition starts_with :: "string \<Rightarrow> string \<Rightarrow> bool" where
  "starts_with p s \<longleftrightarrow> take (length p) s = p"

definition ends_with :: "string \<Rightarrow> string \<Rightarrow> bool" where
  "ends_with p s \<longleftrightarrow> length p \<le> length s \<and> drop (length s - length p) s = p"

text \<open>\<open>sub in s\<close>\<close>

fun contains :: "string \<Rightarrow> string \<Rightarrow> bool" where
  "contains sub [] = (sub = [])"
| "contains sub (c # s) = (starts_with sub (c # s) \<or> contains sub s)"

text \<open>\<open>s.replace(c, new)\<close> for a one-character \<open>c\<close>.\<close>

definition replace_chr :: "char \<Rightarrow> string \<Rightarrow> string \<Rightarrow> string" where
  "replace_chr c new s = concat (map (\<lambda>x. if x = c then new else [x]) s)"

lemma starts_with_iff: "starts_with p s \<longleftrightarrow> (\<exists>t. s = p @ t)"
  by (metis append_eq_conv_conj append_take_drop_id starts_with_def)

lemma contains_iff: "contains sub s \<longleftrightarrow> (\<exists>a b. s = a @ sub @ b)"
proof (induction s)
  case Nil
  then show ?case by auto
next
  case (Cons c s)
  note IH = Cons.IH
  show ?case
  proof
    assume "contains sub (c # s)"
    then consider t where "c # s = sub @ t" | a b where "s = a @ sub @ b"
      using Cons by (auto simp: starts_with_iff)
    then show "\<exists>a b. c # s = a @ sub @ b"
      by cases (metis append_Nil, metis append_Cons)
  next
    assume "\<exists>a b. c # s = a @ sub @ b"
    then obtain a b where ab: "c # s = a @ sub @ b" by blast
    show "contains sub (c # s)"
    proof (cases a)
      case Nil
      with ab have "starts_with sub (c # s)"
        unfolding starts_with_iff by auto
      then show ?thesis by simp
    next
      case (Cons x a')
      with ab have "s = a' @ sub @ b" by simp
      then have "contains sub s" using IH by blast
      then show ?thesis by simp
    qed
  qed
qed

lemma replace_chr_mem:
  "x \<in> set (replace_chr c new s) \<longleftrightarrow> (x \<noteq> c \<and> x \<in> set s) \<or> (c \<in> set s \<and> x \<in> set new)"
  by (auto simp: replace_chr_def split: if_splits)

section \<open>Numbers\<close>

definition digit_chr :: "int \<Rightarrow> char" where
  "digit_chr d = (if d < 10 then char_of (48 + d) else char_of (87 + d))"

text \<open>
  The digits of a nonnegative integer: \<open>str(n)\<close>, and the lower-case ones of \<open>hex(n)\<close>.
\<close>

function digits_of :: "int \<Rightarrow> int \<Rightarrow> string" where
  "digits_of b n =
     (if b < 2 \<or> n < b then [digit_chr n] else digits_of b (n div b) @ [digit_chr (n mod b)])"
  by pat_completeness auto
termination
proof (relation "measure (\<lambda>(b, n). nat n)")
  fix b n :: int
  assume "\<not> (b < 2 \<or> n < b)"
  then have "n div b < n" "0 < n"
    by (auto intro: int_div_less_self)
  then show "((b, n div b), b, n) \<in> measure (\<lambda>(b, n). nat n)"
    by simp
qed simp

declare digits_of.simps [simp del]

definition str_int :: "int \<Rightarrow> string" where
  "str_int i = (if i < 0 then CHR ''-'' # digits_of 10 (- i) else digits_of 10 i)"

definition py_hex :: "int \<Rightarrow> string" where
  "py_hex i = (if i < 0 then ''-0x'' @ digits_of 16 (- i) else ''0x'' @ digits_of 16 i)"

text \<open>Digit values up to base 16, and \<open>int(s, base)\<close> with single underscores between digits.\<close>

definition digit_val :: "int \<Rightarrow> char \<Rightarrow> int option" where
  "digit_val b c =
     (let v = (if is_digit c then cp c - 48
               else if 97 \<le> cp c \<and> cp c \<le> 102 then cp c - 87
               else if 65 \<le> cp c \<and> cp c \<le> 70 then cp c - 55 else 99)
      in if v < b then Some v else None)"

fun parse_digits :: "int \<Rightarrow> int \<Rightarrow> string \<Rightarrow> int option" where
  "parse_digits b acc [] = Some acc"
| "parse_digits b acc (c # s) =
     (case digit_val b c of
        Some v \<Rightarrow> parse_digits b (acc * b + v) s
      | None \<Rightarrow>
          (if c = CHR ''_'' then
             (case s of [] \<Rightarrow> None
              | d # s' \<Rightarrow> (case digit_val b d of
                  Some v \<Rightarrow> parse_digits b (acc * b + v) s' | None \<Rightarrow> None))
           else None))"

definition parse_nat :: "int \<Rightarrow> string \<Rightarrow> int option" where
  "parse_nat b s =
     (case s of [] \<Rightarrow> None
      | c # t \<Rightarrow> (case digit_val b c of Some v \<Rightarrow> parse_digits b v t | None \<Rightarrow> None))"

definition drop_0x :: "string \<Rightarrow> string" where
  "drop_0x s =
     (if starts_with ''0x'' s \<or> starts_with ''0X'' s
      then (case drop 2 s of c # t \<Rightarrow> (if c = CHR ''_'' then t else c # t) | [] \<Rightarrow> []) else s)"

text \<open>\<open>int(s)\<close> (base 10) and \<open>int(s, 16)\<close>; \<open>None\<close> is \<open>ValueError\<close>.\<close>

definition py_int_base :: "int \<Rightarrow> string \<Rightarrow> int option" where
  "py_int_base b s =
     (let s = strip s;
          neg = starts_with ''-'' s;
          s = (if neg \<or> starts_with ''+'' s then tl s else s);
          s = (if b = 16 then drop_0x s else s)
      in map_option (\<lambda>n. if neg then - n else n) (parse_nat b s))"

text \<open>CPython 3.11 limits the conversion: more than 4300 decimal digits (underscores, sign and spaces do not
  count, leading zeros do) are a \<open>ValueError\<close>. Base 16 has no limit.\<close>

definition MAX_STR_DIGITS :: nat where "MAX_STR_DIGITS = 4300"

definition py_int :: "string \<Rightarrow> int option" where
  "py_int s = (if length (filter is_digit s) > MAX_STR_DIGITS then None else py_int_base 10 s)"

definition py_int16 :: "string \<Rightarrow> int option" where
  "py_int16 s = py_int_base 16 s"

lemma digit_chr_val: "0 \<le> v \<Longrightarrow> v < b \<Longrightarrow> b \<le> 16 \<Longrightarrow> digit_val b (digit_chr v) = Some v"
  by (auto simp: digit_val_def digit_chr_def is_digit_def Let_def)

lemma digit_val_digit: "is_digit c \<Longrightarrow> digit_val 10 c = Some (cp c - 48)"
  by (auto simp: digit_val_def is_digit_def Let_def)

lemma digit_val_nonneg: "digit_val b c = Some v \<Longrightarrow> 0 \<le> v \<and> v < b"
  by (auto simp: digit_val_def is_digit_def Let_def split: if_splits)

lemma parse_digits_append:
  "(\<And>c. c \<in> set s \<Longrightarrow> digit_val b c \<noteq> None) \<Longrightarrow>
   parse_digits b acc (s @ t) =
     (case parse_digits b acc s of Some n \<Rightarrow> parse_digits b n t | None \<Rightarrow> None)"
proof (induction s arbitrary: acc)
  case Nil
  then show ?case by simp
next
  case (Cons c s)
  then obtain v where "digit_val b c = Some v"
    by force
  with Cons show ?case by simp
qed

lemma parse_digits_total:
  "(\<And>c. c \<in> set s \<Longrightarrow> digit_val b c \<noteq> None) \<Longrightarrow> 0 \<le> acc \<Longrightarrow> 2 \<le> b \<Longrightarrow>
   \<exists>n \<ge> 0. parse_digits b acc s = Some n"
proof (induction s arbitrary: acc)
  case Nil
  then show ?case by simp
next
  case (Cons c s)
  then obtain v where v: "digit_val b c = Some v"
    by force
  then have "0 \<le> acc * b + v" using Cons.prems digit_val_nonneg by fastforce
  with Cons v show ?case by simp
qed

lemma digits_of_nonempty [simp]: "digits_of b n \<noteq> []"
  by (subst digits_of.simps) simp

lemma digits_of_digits:
  "2 \<le> b \<Longrightarrow> b \<le> 16 \<Longrightarrow> 0 \<le> n \<Longrightarrow> c \<in> set (digits_of b n) \<Longrightarrow> digit_val b c \<noteq> None"
proof (induction b n rule: digits_of.induct)
  case (1 b n)
  show ?case
  proof (cases "n < b")
    case True
    with "1.prems" show ?thesis
      by (auto simp: digit_chr_val digits_of.simps[of b n])
  next
    case False
    with "1.prems" have "c \<in> set (digits_of b (n div b)) \<or> c = digit_chr (n mod b)"
      by (auto simp: digits_of.simps[of b n])
    then show ?thesis
    proof
      assume "c \<in> set (digits_of b (n div b))"
      with 1 False show ?thesis by (simp add: pos_imp_zdiv_nonneg_iff)
    next
      assume "c = digit_chr (n mod b)"
      with "1.prems" show ?thesis by (simp add: digit_chr_val)
    qed
  qed
qed

lemma parse_digits_of: "2 \<le> b \<Longrightarrow> b \<le> 16 \<Longrightarrow> 0 \<le> n \<Longrightarrow> parse_nat b (digits_of b n) = Some n"
proof (induction b n rule: digits_of.induct)
  case (1 b n)
  show ?case
  proof (cases "n < b")
    case True
    then have "digits_of b n = [digit_chr n]"
      by (simp add: digits_of.simps[of b n])
    with True "1.prems" show ?thesis by (simp add: parse_nat_def digit_chr_val)
  next
    case False
    then have eq: "digits_of b n = digits_of b (n div b) @ [digit_chr (n mod b)]"
      using "1.prems" by (simp add: digits_of.simps[of b n])
    have nn: "0 \<le> n div b" using "1.prems" by (simp add: pos_imp_zdiv_nonneg_iff)
    then have IH: "parse_nat b (digits_of b (n div b)) = Some (n div b)"
      using 1 False by simp
    obtain c t where ct: "digits_of b (n div b) = c # t"
      by (cases "digits_of b (n div b)") auto
    have dg: "digit_val b x \<noteq> None" if "x \<in> set (c # t)" for x
      using that digits_of_digits "1.prems"(1,2) ct nn by metis
    then obtain v where v: "digit_val b c = Some v" by force
    with IH ct have "parse_digits b v t = Some (n div b)"
      by (simp add: parse_nat_def)
    moreover have "digit_val b (digit_chr (n mod b)) = Some (n mod b)"
      using "1.prems" by (intro digit_chr_val) auto
    ultimately have "parse_digits b v (t @ [digit_chr (n mod b)]) = Some (n div b * b + n mod b)"
      using dg by (subst parse_digits_append) auto
    with eq ct v show ?thesis by (simp add: parse_nat_def)
  qed
qed

text \<open>A digit is none of the characters the number syntax treats specially.\<close>

lemma digit_val_not_space: "b \<le> 16 \<Longrightarrow> digit_val b c \<noteq> None \<Longrightarrow> \<not> is_space c"
  by (auto simp: digit_val_def is_digit_def is_space_def Let_def split: if_splits)

lemma digit_val_not_sign: "b \<le> 16 \<Longrightarrow> digit_val b c \<noteq> None \<Longrightarrow> c \<noteq> CHR ''-'' \<and> c \<noteq> CHR ''+''"
  by (auto simp: digit_val_def is_digit_def cp_def Let_def split: if_splits)

lemma strip_digits:
  "b \<le> 16 \<Longrightarrow> (\<And>c. c \<in> set s \<Longrightarrow> digit_val b c \<noteq> None) \<Longrightarrow> strip s = s"
  by (rule strip_id) (metis digit_val_not_space last_in_set list.set_sel(1))

lemma py_int_base_digits:
  assumes "b < 16" "s \<noteq> []" "\<And>c. c \<in> set s \<Longrightarrow> digit_val b c \<noteq> None"
  shows "py_int_base b s = parse_nat b s"
proof -
  obtain c t where ct: "s = c # t" using assms(2) by (cases s) auto
  have "strip s = s" using assms(1,3) by (intro strip_digits[of b]) auto
  moreover have "\<not> starts_with ''-'' s" "\<not> starts_with ''+'' s"
    using digit_val_not_sign[of b c] assms(1,3) ct by (auto simp: starts_with_def)
  ultimately show ?thesis using assms(1) by (simp add: py_int_base_def Let_def option.map_ident)
qed

lemma drop_0x_digits:
  assumes "\<And>c. c \<in> set s \<Longrightarrow> digit_val 16 c \<noteq> None"
  shows "drop_0x s = s"
proof -
  have "digit_val 16 (CHR ''x'') = None" "digit_val 16 (CHR ''X'') = None"
    by code_simp+
  then have "CHR ''x'' \<notin> set s" "CHR ''X'' \<notin> set s"
    using assms by metis+
  then have "\<not> starts_with ''0x'' s" "\<not> starts_with ''0X'' s"
    by (auto simp: starts_with_iff)
  then show ?thesis by (simp add: drop_0x_def)
qed

lemma py_int16_digits:
  assumes "s \<noteq> []" "\<And>c. c \<in> set s \<Longrightarrow> digit_val 16 c \<noteq> None"
  shows "py_int16 s = parse_nat 16 s"
proof -
  obtain c t where ct: "s = c # t" using assms(1) by (cases s) auto
  have "strip s = s" using assms(2) by (intro strip_digits[of 16]) auto
  moreover have "\<not> starts_with ''-'' s" "\<not> starts_with ''+'' s"
    using digit_val_not_sign[of 16 c] assms(2) ct by (auto simp: starts_with_def)
  ultimately show ?thesis
    by (simp add: py_int16_def py_int_base_def Let_def drop_0x_digits[OF assms(2)] option.map_ident)
qed

lemma parse_nat_total:
  assumes "s \<noteq> []" "\<And>c. c \<in> set s \<Longrightarrow> digit_val b c \<noteq> None" "2 \<le> b"
  shows "\<exists>n \<ge> 0. parse_nat b s = Some n"
proof -
  obtain c t where ct: "s = c # t" using assms(1) by (cases s) auto
  then obtain v where v: "digit_val b c = Some v" using assms(2)[of c] by auto
  then have "\<exists>n \<ge> 0. parse_digits b v t = Some n"
    using ct assms digit_val_nonneg[OF v] by (intro parse_digits_total) auto
  with ct v show ?thesis by (simp add: parse_nat_def)
qed

lemma py_int_digits:
  assumes "s \<noteq> []" "\<forall>c \<in> set s. is_digit c"
  shows "if length s \<le> MAX_STR_DIGITS then \<exists>n \<ge> 0. py_int s = Some n else py_int s = None"
proof -
  have d: "digit_val 10 c \<noteq> None" if "c \<in> set s" for c
    using that assms(2) by (simp add: digit_val_digit)
  then have "py_int_base 10 s = parse_nat 10 s"
    using assms(1) by (intro py_int_base_digits) auto
  moreover have "\<exists>n \<ge> 0. parse_nat 10 s = Some n"
    using assms(1) d by (intro parse_nat_total) auto
  moreover have "filter is_digit s = s" using assms(2) by (simp add: filter_id_conv)
  ultimately show ?thesis by (auto simp: py_int_def)
qed

lemma digits10_digit: "0 \<le> n \<Longrightarrow> c \<in> set (digits_of 10 n) \<Longrightarrow> is_digit c"
proof -
  assume "0 \<le> n" "c \<in> set (digits_of 10 n)"
  then have "digit_val 10 c \<noteq> None"
    by (intro digits_of_digits) auto
  then show ?thesis
    by (auto simp: digit_val_def Let_def split: if_splits)
qed

text \<open>\<open>int(str(i)) == i\<close> and \<open>int(hex(i)[2:], 16) == i\<close>\<close>

lemma py_int_base_digits_of: "0 \<le> n \<Longrightarrow> py_int_base 10 (digits_of 10 n) = Some n"
proof -
  assume n: "0 \<le> n"
  have "digit_val 10 c \<noteq> None" if "c \<in> set (digits_of 10 n)" for c
    using digits_of_digits[OF _ _ n that] by simp
  then have "py_int_base 10 (digits_of 10 n) = parse_nat 10 (digits_of 10 n)"
    by (intro py_int_base_digits) auto
  with n show ?thesis by (simp add: parse_digits_of)
qed

lemma py_int16_digits_of: "0 \<le> n \<Longrightarrow> py_int16 (digits_of 16 n) = Some n"
proof -
  assume n: "0 \<le> n"
  have "digit_val 16 c \<noteq> None" if "c \<in> set (digits_of 16 n)" for c
    using digits_of_digits[OF _ _ n that] by simp
  then have "py_int16 (digits_of 16 n) = parse_nat 16 (digits_of 16 n)"
    by (intro py_int16_digits) auto
  with n show ?thesis by (simp add: parse_digits_of)
qed

lemma py_int_base_str_int: "py_int_base 10 (str_int i) = Some i"
proof (cases "i < 0")
  case False
  then show ?thesis by (simp add: str_int_def py_int_base_digits_of)
next
  case True
  let ?s = "digits_of 10 (- i)"
  have dg: "digit_val 10 c \<noteq> None" if "c \<in> set ?s" for c
    using that True digits10_digit[of "- i" c] by (auto simp: digit_val_digit)
  have "\<not> is_space (CHR ''-'')" by (simp add: is_space_def cp_def)
  moreover have "\<not> is_space (last ?s)"
    using dg[of "last ?s"] by (intro digit_val_not_space[of 10]) auto
  ultimately have "strip (CHR ''-'' # ?s) = CHR ''-'' # ?s"
    by (intro strip_id) auto
  then have "py_int_base 10 (CHR ''-'' # ?s) = map_option (\<lambda>n. - n) (parse_nat 10 ?s)"
    by (simp add: py_int_base_def starts_with_def Let_def)
  with True show ?thesis by (simp add: str_int_def parse_digits_of)
qed

text \<open>The integers that \<open>int()\<close> reads back from their decimal text.\<close>

definition small_int :: "int \<Rightarrow> bool" where
  "small_int i \<longleftrightarrow> length (digits_of 10 \<bar>i\<bar>) \<le> MAX_STR_DIGITS"

lemma digits_of_length: "0 \<le> n \<Longrightarrow> n < 10 ^ Suc k \<Longrightarrow> length (digits_of 10 n) \<le> Suc k"
proof (induction k arbitrary: n)
  case 0
  then show ?case by (simp add: digits_of.simps[of 10 n])
next
  case (Suc k)
  show ?case
  proof (cases "n < 10")
    case False
    then have "n div 10 < 10 ^ Suc k" using Suc.prems by auto
    then have "length (digits_of 10 (n div 10)) \<le> Suc k"
      using Suc by (simp add: pos_imp_zdiv_nonneg_iff)
    then show ?thesis using False by (simp add: digits_of.simps[of 10 n])
  qed (simp add: digits_of.simps[of 10 n])
qed

lemma small_int_bound: "\<bar>i\<bar> < 10 ^ Suc k \<Longrightarrow> Suc k \<le> 4300 \<Longrightarrow> small_int i"
  using digits_of_length[of "\<bar>i\<bar>" k] by (simp add: small_int_def MAX_STR_DIGITS_def)

lemma small_int_64: "\<bar>i\<bar> \<le> 2 ^ 64 \<Longrightarrow> small_int i"
  by (rule small_int_bound[of i 19]) auto

lemma py_int_str_int: "small_int i \<Longrightarrow> py_int (str_int i) = Some i"
proof -
  assume "small_int i"
  have d: "\<not> is_digit (CHR ''-'')" by (simp add: is_digit_def cp_def)
  have "filter is_digit (digits_of 10 n) = digits_of 10 n" if "0 \<le> n" for n
    using digits10_digit[OF that] by (simp add: filter_id_conv)
  then have "filter is_digit (str_int i) = digits_of 10 \<bar>i\<bar>"
    using d by (auto simp: str_int_def)
  then show ?thesis using \<open>small_int i\<close> by (simp add: py_int_def small_int_def py_int_base_str_int)
qed

lemma str_int_inj: "str_int i = str_int j \<Longrightarrow> i = j"
  by (metis option.inject py_int_base_str_int)

lemma str_int_chars: "c \<in> set (str_int i) \<Longrightarrow> is_digit c \<or> c = CHR ''-''"
  by (auto simp: str_int_def dest: digits10_digit[rotated] split: if_splits)

text \<open>Leading zeros do not change the value.\<close>

lemma parse_zeros: "parse_digits 10 0 (replicate k (CHR ''0'') @ s) = parse_digits 10 0 s"
proof -
  have "digit_val 10 (CHR ''0'') = Some 0" by code_simp
  then show ?thesis by (induction k) simp_all
qed

lemma parse_nat_digits:
  assumes "parse_nat b s = Some n"
  shows "parse_digits b 0 s = Some n"
proof (cases s)
  case (Cons c t)
  then obtain v where "digit_val b c = Some v" using assms by (auto simp only: parse_nat_def list.case split: option.splits)
  then show ?thesis using assms Cons by (simp add: parse_nat_def)
qed (use assms in \<open>simp add: parse_nat_def\<close>)

lemma parse_str_int: "0 \<le> n \<Longrightarrow> parse_digits 10 0 (str_int n) = Some n"
  by (rule parse_nat_digits) (simp add: str_int_def parse_digits_of)

end
