(* ===== verification/PyFloat.thy ===== *)
theory PyFloat
  imports PyStr
begin

text \<open>
  Python's \<open>float\<close>: IEEE 754 binary64, round to nearest, ties to even, with gradual underflow.
  A finite float is the rational number it denotes; every arithmetic operation is the exact one
  followed by \<open>rnd\<close>. Infinities, NaN and the sign of zero are not represented here: the
  components whose inputs may be one of them say how they are treated. The exponent is not
  bounded above (no operation of the modelled code gets near \<open>2 ^ 1024\<close>).
\<close>

section \<open>Round half to even\<close>

definition rne :: "rat \<Rightarrow> int" where
  "rne q =
     (let f = \<lfloor>q\<rfloor>; d = q - of_int f
      in if d < 1 / 2 then f else if d > 1 / 2 then f + 1 else if even f then f else f + 1)"

lemma rne_of_int [simp]: "rne (of_int n) = n"
  by (simp add: rne_def)

lemma rne_bounds: "of_int (rne q) \<le> q + 1 / 2" "q - 1 / 2 \<le> of_int (rne q)"
  unfolding rne_def Let_def by (auto simp: field_simps) linarith+

lemma rne_mono: "x \<le> y \<Longrightarrow> rne x \<le> rne y"
proof -
  assume xy: "x \<le> y"
  show ?thesis
  proof (cases "\<lfloor>x\<rfloor> = \<lfloor>y\<rfloor>")
    case True
    with xy show ?thesis by (auto simp: rne_def Let_def)
  next
    case False
    with xy have "\<lfloor>x\<rfloor> + 1 \<le> \<lfloor>y\<rfloor>" using floor_mono[OF xy] by simp
    moreover have "rne x \<le> \<lfloor>x\<rfloor> + 1" "\<lfloor>y\<rfloor> \<le> rne y"
      by (auto simp: rne_def Let_def)
    ultimately show ?thesis by linarith
  qed
qed

lemma rne_le: "x \<le> of_int n \<Longrightarrow> rne x \<le> n"
  using rne_mono[of x "of_int n"] by simp

lemma rne_ge: "of_int n \<le> x \<Longrightarrow> n \<le> rne x"
  using rne_mono[of "of_int n" x] by simp

lemma rne_minus: "rne (- x) = - rne x"
proof (cases "x = of_int \<lfloor>x\<rfloor>")
  case True
  then have "- x = of_int (- \<lfloor>x\<rfloor>)" by simp
  then show ?thesis using True by (metis rne_of_int)
next
  case False
  then have "\<lfloor>- x\<rfloor> = - \<lfloor>x\<rfloor> - 1"
    by (metis ceiling_altdef ceiling_def minus_diff_commute minus_minus minus_add_distrib
        uminus_add_conv_diff diff_minus_eq_add add.commute)
  then show ?thesis by (auto simp: rne_def Let_def)
qed

section \<open>The binary exponent\<close>

function ilog2 :: "int \<Rightarrow> int" where
  "ilog2 n = (if n < 2 then 0 else ilog2 (n div 2) + 1)"
  by pat_completeness auto
termination
  by (relation "measure nat") auto

declare ilog2.simps [simp del]

lemma ilog2_bounds: "0 < n \<Longrightarrow> 0 \<le> ilog2 n \<and> 2 ^ nat (ilog2 n) \<le> n \<and> n < 2 * 2 ^ nat (ilog2 n)"
proof (induction n rule: ilog2.induct)
  case (1 n)
  show ?case
  proof (cases "n < 2")
    case True
    with 1 show ?thesis by (simp add: ilog2.simps[of n])
  next
    case False
    let ?k = "ilog2 (n div 2)"
    have "0 \<le> ?k \<and> 2 ^ nat ?k \<le> n div 2 \<and> n div 2 < 2 * 2 ^ nat ?k"
      using 1 False by auto
    moreover have "ilog2 n = ?k + 1"
      using False by (simp add: ilog2.simps[of n])
    ultimately show ?thesis
      by (simp add: nat_add_distrib) linarith
  qed
qed

text \<open>\<open>2 ^ elog q \<le> q < 2 ^ (elog q + 1)\<close> for positive \<open>q\<close>.\<close>

definition elog :: "rat \<Rightarrow> int" where
  "elog q =
     (let (a, b) = quotient_of q;
          k = ilog2 a - ilog2 b
      in if 2 powi k \<le> q then k else k - 1)"

lemma elog_bounds:
  assumes "0 < q"
  shows "2 powi elog q \<le> q" "q < 2 powi (elog q + 1)"
proof -
  obtain a b where ab: "quotient_of q = (a, b)" by (cases "quotient_of q")
  have b0: "0 < b" and q: "q = of_int a / of_int b"
    using ab quotient_of_denom_pos quotient_of_div by auto
  with assms have a0: "0 < a"
    by (simp add: zero_less_divide_iff)
  obtain i j where ij: "ilog2 a = int i" "ilog2 b = int j"
    using ilog2_bounds a0 b0 by (metis nonneg_int_cases)
  have "2 ^ i \<le> a" "a < 2 * 2 ^ i" "2 ^ j \<le> b" "b < 2 * 2 ^ j"
    using ilog2_bounds[OF a0] ilog2_bounds[OF b0] ij by auto
  then have "of_int (2 ^ i) \<le> (of_int a :: rat)" "(of_int a :: rat) < of_int (2 * 2 ^ i)"
    "of_int (2 ^ j) \<le> (of_int b :: rat)" "(of_int b :: rat) < of_int (2 * 2 ^ j)"
    unfolding of_int_le_iff of_int_less_iff by simp_all
  then have r: "2 ^ i \<le> (of_int a :: rat)" "(of_int a :: rat) < 2 ^ Suc i"
    "2 ^ j \<le> (of_int b :: rat)" "(of_int b :: rat) < 2 ^ Suc j"
    by simp_all
  let ?k = "int i - int j"
  have pk: "(2 :: rat) powi ?k = 2 ^ i / 2 ^ j"
    by (simp add: power_int_diff)
  have "(2 :: rat) powi (?k - 1) = 2 ^ i / 2 ^ Suc j"
    by (simp add: power_int_diff pk)
  also have "\<dots> < q"
    unfolding q using r b0 by (intro frac_less2) auto
  finally have lo: "2 powi (?k - 1) < q" .
  have "q < 2 ^ Suc i / 2 ^ j"
    unfolding q using r b0 a0 by (intro frac_less) auto
  also have "\<dots> = (2 :: rat) powi (?k + 1)"
    by (simp add: power_int_add pk)
  finally have hi: "q < 2 powi (?k + 1)" .
  have "elog q = (if 2 powi ?k \<le> q then ?k else ?k - 1)"
    by (simp add: elog_def ab Let_def ij)
  then show "2 powi elog q \<le> q" "q < 2 powi (elog q + 1)"
    using lo hi by (auto split: if_splits)
qed

lemma elog_mono: "0 < x \<Longrightarrow> x \<le> y \<Longrightarrow> elog x \<le> elog y"
proof (rule ccontr)
  assume a: "0 < x" "x \<le> y" "\<not> elog x \<le> elog y"
  then have "(2 :: rat) powi (elog y + 1) \<le> 2 powi elog x"
    by (intro power_int_increasing) auto
  with a elog_bounds[of x] elog_bounds[of y] show False by linarith
qed

section \<open>Rounding to binary64\<close>

definition fexp :: "rat \<Rightarrow> int" where
  "fexp q = max (elog \<bar>q\<bar> - 52) (- 1074)"

definition rnd :: "rat \<Rightarrow> rat" where
  "rnd q = of_int (rne (q / 2 powi fexp q)) * 2 powi fexp q"

lemma rnd_0 [simp]: "rnd 0 = 0"
proof -
  have "rne 0 = 0" using rne_of_int[of 0] by simp
  then show ?thesis by (simp add: rnd_def)
qed

lemma rnd_minus: "rnd (- q) = - rnd q"
  by (simp add: rnd_def fexp_def rne_minus)

lemma rnd_nonneg: "0 \<le> q \<Longrightarrow> 0 \<le> rnd q"
  unfolding rnd_def using rne_ge[of 0 "q / 2 powi fexp q"] by simp

text \<open>Multiples of the unit in the last place bound the rounding.\<close>

lemma rnd_le_mult:
  assumes "q \<le> of_int n * 2 powi fexp q" shows "rnd q \<le> of_int n * 2 powi fexp q"
proof -
  have "q / 2 powi fexp q \<le> of_int n"
    using assms by (simp add: field_simps)
  then have "rne (q / 2 powi fexp q) \<le> n" by (rule rne_le)
  then show ?thesis by (simp add: rnd_def)
qed

lemma rnd_ge_mult:
  assumes "of_int n * 2 powi fexp q \<le> q" shows "of_int n * 2 powi fexp q \<le> rnd q"
proof -
  have "of_int n \<le> q / 2 powi fexp q"
    using assms by (simp add: field_simps)
  then have "n \<le> rne (q / 2 powi fexp q)" by (rule rne_ge)
  then show ?thesis by (simp add: rnd_def)
qed

lemma powi_as_mult:
  "k \<le> m \<Longrightarrow> (2 :: rat) powi m = of_int (2 ^ nat (m - k)) * 2 powi k"
proof -
  assume "k \<le> m"
  then have "(2 :: rat) powi m = 2 powi (int (nat (m - k)) + k)" by simp
  also have "\<dots> = 2 ^ nat (m - k) * 2 powi k"
    using power_int_add[of "2 :: rat" "int (nat (m - k))" k] by (simp only: power_int_of_nat) simp
  finally show ?thesis by simp
qed

lemma rnd_mono_pos:
  assumes "0 < x" "x \<le> y" shows "rnd x \<le> rnd y"
proof (cases "fexp x = fexp y")
  case True
  have "x / 2 powi fexp x \<le> y / 2 powi fexp x"
    using assms by (intro divide_right_mono) auto
  then have "rne (x / 2 powi fexp x) \<le> rne (y / 2 powi fexp x)" by (rule rne_mono)
  with True show ?thesis by (simp add: rnd_def)
next
  case False
  have em: "elog x \<le> elog y" using assms by (rule elog_mono)
  with False assms have f: "fexp x < fexp y" by (auto simp: fexp_def)
  with assms have fy: "fexp y = elog y - 52" by (auto simp: fexp_def)
  let ?m = "max (elog x + 1) (fexp x)"
  have "?m \<le> elog y"
    using f fy assms em by (auto simp: fexp_def max_def split: if_splits)
  have "x \<le> 2 powi ?m"
    using elog_bounds(2)[OF assms(1)] power_int_increasing[of "elog x + 1" ?m "2 :: rat"] by simp
  then have "rnd x \<le> 2 powi ?m"
    using powi_as_mult[of "fexp x" ?m] rnd_le_mult[of x "2 ^ nat (?m - fexp x)"] by simp
  also have "\<dots> \<le> 2 powi elog y"
    using \<open>?m \<le> elog y\<close> by (intro power_int_increasing) auto
  also have "\<dots> \<le> rnd y"
    using powi_as_mult[of "fexp y" "elog y"] rnd_ge_mult[of "2 ^ nat (elog y - fexp y)" y]
      elog_bounds(1)[of y] assms fy by simp
  finally show ?thesis .
qed

theorem rnd_mono: "x \<le> y \<Longrightarrow> rnd x \<le> rnd y"
proof -
  assume xy: "x \<le> y"
  consider "0 < x" | "x \<le> 0" "0 \<le> y" | "y < 0" by linarith
  then show ?thesis
  proof cases
    case 1
    from this xy show ?thesis by (rule rnd_mono_pos)
  next
    case 2
    then have "rnd x \<le> 0" using rnd_nonneg[of "- x"] by (simp add: rnd_minus)
    also have "0 \<le> rnd y" using 2 by (simp add: rnd_nonneg)
    finally show ?thesis .
  next
    case 3
    with xy have "rnd (- y) \<le> rnd (- x)" by (intro rnd_mono_pos) auto
    then show ?thesis by (simp add: rnd_minus)
  qed
qed

text \<open>A number with at most 53 significant bits is a float.\<close>

definition is_f64 :: "rat \<Rightarrow> bool" where
  "is_f64 q \<longleftrightarrow> rnd q = q"

lemma is_f64_mult:
  assumes "\<bar>m\<bar> < 2 ^ 53" "- 1074 \<le> k"
  shows "is_f64 (of_int m * 2 powi k)"
proof (cases "m = 0")
  case True
  then show ?thesis by (simp add: is_f64_def)
next
  case False
  let ?q = "of_int m * 2 powi k :: rat"
  have q0: "0 < \<bar>?q\<bar>" using False by simp
  have "\<bar>?q\<bar> < of_int (2 ^ 53) * 2 powi k"
    unfolding abs_mult using assms(1)
    by (intro mult_less_le_imp_less) (auto simp flip: of_int_abs simp: of_int_less_iff simp del: of_int_power)
  also have "\<dots> = 2 powi (53 + k)"
    by (subst power_int_add) auto
  finally have "2 powi elog \<bar>?q\<bar> < (2 :: rat) powi (53 + k)"
    using elog_bounds(1)[OF q0] by simp
  then have "elog \<bar>?q\<bar> < 53 + k"
    using power_int_increasing[of "53 + k" "elog \<bar>?q\<bar>" "2 :: rat"] by linarith  then have fk: "fexp ?q \<le> k" using assms(2) by (simp add: fexp_def)
  then have qm: "?q = of_int (m * 2 ^ nat (k - fexp ?q)) * 2 powi fexp ?q"
    using powi_as_mult[OF fk] by (simp add: mult.assoc)
  then have "?q / 2 powi fexp ?q = of_int (m * 2 ^ nat (k - fexp ?q))"
    by (metis nonzero_mult_div_cancel_right power_int_not_zero zero_neq_numeral)
  then have "rnd ?q = of_int (m * 2 ^ nat (k - fexp ?q)) * 2 powi fexp ?q"
    by (simp only: rnd_def rne_of_int)
  with qm show ?thesis by (simp only: is_f64_def)
qed

lemma is_f64_int: "\<bar>n\<bar> \<le> 2 ^ 53 \<Longrightarrow> is_f64 (of_int n)"
proof (cases "\<bar>n\<bar> = 2 ^ 53")
  case False
  assume "\<bar>n\<bar> \<le> 2 ^ 53"
  with False show ?thesis using is_f64_mult[of n 0] by simp
next
  case True
  then have "n = 2 ^ 53 \<or> n = - (2 ^ 53)" by linarith
  then show ?thesis
    using is_f64_mult[of "2 ^ 52" 1] is_f64_mult[of "- (2 ^ 52)" 1] by auto
qed

lemma is_f64_nonneg_int: "n \<le> 2 ^ 53 \<Longrightarrow> is_f64 (of_nat n)"
  using is_f64_int[of "int n"] by (simp del: of_nat_power add: of_nat_le_iff flip: of_nat_power)

lemma rnd_idem: "is_f64 (rnd q)"
proof -
  let ?m = "rne (q / 2 powi fexp q)" and ?k = "fexp q"
  have k: "- 1074 \<le> ?k" by (simp add: fexp_def)
  have "\<bar>q\<bar> \<le> of_int (2 ^ 53) * 2 powi ?k"
  proof (cases "q = 0")
    case False
    then have "\<bar>q\<bar> < 2 powi (elog \<bar>q\<bar> + 1)" by (intro elog_bounds) simp
    also have "\<dots> \<le> 2 powi (53 + ?k)"
      by (intro power_int_increasing) (auto simp: fexp_def)
    finally show ?thesis
      using powi_as_mult[of ?k "53 + ?k"] by simp
  qed simp
  then have "- of_int (2 ^ 53) \<le> q / 2 powi ?k" "q / 2 powi ?k \<le> of_int (2 ^ 53)"
    by (auto simp: abs_le_iff field_simps)
  then have "?m \<le> 2 ^ 53" "- (2 ^ 53) \<le> ?m"
    using rne_le[of "q / 2 powi ?k" "2 ^ 53"] rne_ge[of "- (2 ^ 53)" "q / 2 powi ?k"] by simp_all
  then consider "\<bar>?m\<bar> < 2 ^ 53" | "?m = 2 ^ 52 * 2" | "?m = - (2 ^ 52 * 2)"
    by fastforce
  then show ?thesis
  proof cases
    case 1
    then show ?thesis using is_f64_mult[OF _ k] by (simp add: rnd_def)
  next
    case 2
    then have "rnd q = of_int (2 ^ 52) * 2 powi (?k + 1)"
      by (simp add: rnd_def power_int_add)
    then show ?thesis using is_f64_mult[of "2 ^ 52" "?k + 1"] k by simp
  next
    case 3
    then have "rnd q = of_int (- (2 ^ 52)) * 2 powi (?k + 1)"
      by (simp add: rnd_def power_int_add)
    then show ?thesis using is_f64_mult[of "- (2 ^ 52)" "?k + 1"] k by simp
  qed
qed

lemma rnd_le: "is_f64 b \<Longrightarrow> q \<le> b \<Longrightarrow> rnd q \<le> b"
  using rnd_mono[of q b] by (simp add: is_f64_def)

lemma rnd_ge: "is_f64 b \<Longrightarrow> b \<le> q \<Longrightarrow> b \<le> rnd q"
  using rnd_mono[of b q] by (simp add: is_f64_def)

lemma is_f64_consts [simp]: "is_f64 0" "is_f64 1" "is_f64 100"
  using is_f64_int[of 0] is_f64_int[of 1] is_f64_int[of 100] by simp_all

section \<open>The operations\<close>

definition fadd :: "rat \<Rightarrow> rat \<Rightarrow> rat" where "fadd a b = rnd (a + b)"
definition fsub :: "rat \<Rightarrow> rat \<Rightarrow> rat" where "fsub a b = rnd (a - b)"
definition fmul :: "rat \<Rightarrow> rat \<Rightarrow> rat" where "fmul a b = rnd (a * b)"
definition fdiv :: "rat \<Rightarrow> rat \<Rightarrow> rat py" where
  "fdiv a b = (if b = 0 then Inl ZeroDivisionError else Inr (rnd (a / b)))"

text \<open>\<open>float(n)\<close> and the implicit conversion of an integer operand.\<close>

definition fint :: "int \<Rightarrow> rat" where "fint n = rnd (of_int n)"

text \<open>\<open>int(x)\<close> truncates towards zero.\<close>

definition ftrunc :: "rat \<Rightarrow> int" where
  "ftrunc q = (if 0 \<le> q then \<lfloor>q\<rfloor> else \<lceil>q\<rceil>)"

text \<open>\<open>sum(xs)\<close> of floats, from the left.\<close>

definition fsum :: "rat list \<Rightarrow> rat" where "fsum xs = foldl fadd 0 xs"

text \<open>\<open>f"{x:.nf}"\<close>: the exact value rounded half to even at the \<open>n\<close>-th decimal.\<close>

definition zpad :: "nat \<Rightarrow> string \<Rightarrow> string" where
  "zpad n s = replicate (n - length s) (CHR ''0'') @ s"

definition fmt_fixed :: "nat \<Rightarrow> rat \<Rightarrow> string" where
  "fmt_fixed n q =
     (let m = rne (\<bar>q\<bar> * 10 ^ n);
          digits = str_int (m div 10 ^ n) @
            (if n = 0 then [] else CHR ''.'' # zpad n (str_int (m mod 10 ^ n)))
      in if q < 0 then CHR ''-'' # digits else digits)"

lemma fsub_mono: "a \<le> b \<Longrightarrow> fsub a c \<le> fsub b c"
  by (simp add: fsub_def rnd_mono)

lemma fsub_antimono: "c \<le> d \<Longrightarrow> fsub a d \<le> fsub a c"
  by (simp add: fsub_def rnd_mono)

lemma fadd_nonneg: "0 \<le> a \<Longrightarrow> 0 \<le> b \<Longrightarrow> 0 \<le> fadd a b"
  by (simp add: fadd_def rnd_nonneg)

lemma fsub_self [simp]: "fsub a a = 0"
  by (simp add: fsub_def)

lemma fint_small: "\<bar>n\<bar> \<le> 2 ^ 53 \<Longrightarrow> fint n = of_int n"
  using is_f64_int[of n] by (simp add: fint_def is_f64_def)

lemma fint_mono: "m \<le> n \<Longrightarrow> fint m \<le> fint n"
  by (simp add: fint_def rnd_mono)


section \<open>Infinities, NaN and \<open>float(s)\<close>\<close>

text \<open>
  Where a value is read from outside it may be any float; \<open>pf\<close> is such a value. The sign of
  zero is left out: no comparison or arithmetic of the modelled code depends on it.
\<close>

datatype pf = Fin rat | PInf | NInf | NaN

text \<open>A rounded result whose exponent is out of range is an infinity.\<close>

definition pf_of :: "rat \<Rightarrow> pf" where
  "pf_of q = (let r = rnd q in if 2 ^ 1024 \<le> r then PInf else if r \<le> - (2 ^ 1024) then NInf else Fin r)"

fun pf_neg :: "pf \<Rightarrow> pf" where
  "pf_neg (Fin q) = Fin (- q)"
| "pf_neg PInf = NInf"
| "pf_neg NInf = PInf"
| "pf_neg NaN = NaN"

fun pf_less :: "pf \<Rightarrow> pf \<Rightarrow> bool" where
  "pf_less (Fin a) (Fin b) = (a < b)"
| "pf_less NaN _ = False"
| "pf_less _ NaN = False"
| "pf_less NInf b = (b \<noteq> NInf)"
| "pf_less _ NInf = False"
| "pf_less PInf _ = False"
| "pf_less (Fin _) PInf = True"

text \<open>\<open>x * c\<close> for a positive finite \<open>c\<close>, and \<open>int(x)\<close>.\<close>

fun pf_scale :: "rat \<Rightarrow> pf \<Rightarrow> pf" where
  "pf_scale c (Fin q) = pf_of (q * c)"
| "pf_scale c x = x"

fun pf_int :: "pf \<Rightarrow> int py" where
  "pf_int (Fin q) = Inr (ftrunc q)"
| "pf_int NaN = Inl (ValueError ''cannot convert float NaN to integer'')"
| "pf_int _ = Inl OverflowError"

definition pf_truthy :: "pf \<Rightarrow> bool" where
  "pf_truthy x \<longleftrightarrow> x \<noteq> Fin 0"

text \<open>
  The grammar of \<open>float(s)\<close>: white space, a sign, then \<open>inf\<close>, \<open>infinity\<close>, \<open>nan\<close> in any
  case, or digits (single underscores between them) with an optional point and exponent.
\<close>

definition dec_run :: "string \<Rightarrow> string \<times> string" where
  "dec_run s = (takeWhile (\<lambda>c. is_digit c \<or> c = CHR ''_'') s,
                dropWhile (\<lambda>c. is_digit c \<or> c = CHR ''_'') s)"

text \<open>The value of a run and its number of digits; an empty run is allowed and counts as 0.\<close>

definition run_val :: "string \<Rightarrow> (int \<times> nat) option" where
  "run_val r = (if r = [] then Some (0, 0)
     else map_option (\<lambda>n. (n, length (filter is_digit r))) (parse_nat 10 r))"

definition exp_val :: "string \<Rightarrow> int option" where
  "exp_val r =
     (case r of [] \<Rightarrow> Some 0
      | c # t \<Rightarrow>
          if c = CHR ''e'' \<or> c = CHR ''E'' then
            (if starts_with ''-'' t then map_option uminus (parse_nat 10 (tl t))
             else if starts_with ''+'' t then parse_nat 10 (tl t) else parse_nat 10 t)
          else None)"

definition py_decimal :: "string \<Rightarrow> rat option" where
  "py_decimal s =
     (let (ip, r1) = dec_run s;
          (fp, r2) = (case r1 of c # t \<Rightarrow> if c = CHR ''.'' then dec_run t else ([], r1) | [] \<Rightarrow> ([], r1))
      in if ip = [] \<and> fp = [] then None
         else case (run_val ip, run_val fp, exp_val r2) of
           (Some (i, _), Some (f, k), Some e) \<Rightarrow>
             Some ((of_int i + of_int f / 10 ^ k) * 10 powi e)
         | _ \<Rightarrow> None)"

definition py_float :: "string \<Rightarrow> pf option" where
  "py_float s =
     (let s = strip s;
          neg = starts_with ''-'' s;
          s = (if neg \<or> starts_with ''+'' s then tl s else s);
          sg = (if neg then pf_neg else id)
      in if lower s = ''inf'' \<or> lower s = ''infinity'' then Some (sg PInf)
         else if lower s = ''nan'' then Some NaN
         else map_option (\<lambda>q. sg (pf_of q)) (py_decimal s))"

lemma pf_of_small: "\<bar>q\<bar> \<le> 2 ^ 1000 \<Longrightarrow> pf_of q = Fin (rnd q)"
proof -
  assume "\<bar>q\<bar> \<le> 2 ^ 1000"
  moreover have f: "is_f64 (2 ^ 1000)" using is_f64_mult[of 1 1000] by simp
  then have "is_f64 (- (2 ^ 1000))" by (simp add: is_f64_def rnd_minus)
  with f have "rnd q \<le> 2 ^ 1000" "- (2 ^ 1000) \<le> rnd q"
    using calculation by (auto simp: abs_le_iff intro!: rnd_le rnd_ge)
  moreover have "(2 :: rat) ^ 1000 < 2 ^ 1024" by (intro power_strict_increasing) auto
  ultimately have "rnd q < 2 ^ 1024" "- (2 ^ 1024) < rnd q" by linarith+
  then show ?thesis unfolding pf_of_def Let_def by simp
qed

text \<open>For evaluation: no power of two is needed for values of ordinary size.\<close>

lemma pf_of_code [code]:
  "pf_of q = (if \<bar>q\<bar> \<le> 1000000000000 then Fin (rnd q)
     else let r = rnd q in if 2 ^ 1024 \<le> r then PInf else if r \<le> - (2 ^ 1024) then NInf else Fin r)"
proof (cases "\<bar>q\<bar> \<le> 1000000000000")
  case True
  have "(1000000000000 :: rat) \<le> 2 ^ 40" by simp
  also have "\<dots> \<le> 2 ^ 1000" by (intro power_increasing) auto
  finally show ?thesis using True pf_of_small[of q] by simp
next
  case False
  then show ?thesis by (simp only: pf_of_def if_False)
qed

end
