(* ===== verification/Json.thy ===== *)
theory Json
  imports Prelude
begin

text \<open>JSON documents after parsing, and the lookups the code makes on them.\<close>

datatype json =
    JNull
  | JBool bool
  | JInt int
  | JFloat rat
  | JStr string
  | JArr "json list"
  | JObj "(string \<times> json) list"

text \<open>\<open>body[k]\<close> on a parsed body.\<close>

definition jitem :: "json \<Rightarrow> string \<Rightarrow> json py" where
  "jitem j k =
     (case j of
        JObj kvs \<Rightarrow> (case dget kvs k of Some v \<Rightarrow> Inr v | None \<Rightarrow> Inl (KeyError k))
      | _ \<Rightarrow> Inl TypeError)"

text \<open>\<open>body.get(k, default)\<close>: only objects have \<open>get\<close>.\<close>

definition jget :: "json \<Rightarrow> string \<Rightarrow> json \<Rightarrow> json py" where
  "jget j k d = (case j of JObj kvs \<Rightarrow> Inr (dgetd kvs k d) | _ \<Rightarrow> Inl AttributeError)"

text \<open>The truth value of a parsed value.\<close>

fun jtruthy :: "json \<Rightarrow> bool" where
  "jtruthy JNull = False"
| "jtruthy (JBool b) = b"
| "jtruthy (JInt n) = (n \<noteq> 0)"
| "jtruthy (JFloat q) = (q \<noteq> 0)"
| "jtruthy (JStr s) = (s \<noteq> [])"
| "jtruthy (JArr xs) = (xs \<noteq> [])"
| "jtruthy (JObj kvs) = (kvs \<noteq> [])"

text \<open>\<open>for x in j\<close>\<close>

definition jiter :: "json \<Rightarrow> json list py" where
  "jiter j =
     (case j of JArr xs \<Rightarrow> Inr xs | JObj kvs \<Rightarrow> Inr (map (JStr \<circ> fst) kvs)
      | JStr s \<Rightarrow> Inr (map (\<lambda>c. JStr [c]) s) | _ \<Rightarrow> Inl TypeError)"

text \<open>\<open>f"{j}"\<close>: a text as it is, anything else as \<open>show\<close> says.\<close>

definition jstr :: "(json \<Rightarrow> string) \<Rightarrow> json \<Rightarrow> string" where
  "jstr show j = (case j of JStr s \<Rightarrow> s | _ \<Rightarrow> show j)"

end
