(* ===== verification/PyNum.thy ===== *)
theory PyNum
  imports PyFloat Json
begin

text \<open>
  Arithmetic on any Python float, infinities and NaN included, and the sums the regressions use.
  Division raises only for a zero divisor. The sign of zero is left out, as in \<open>PyFloat\<close>.
\<close>

definition pf_add :: "pf \<Rightarrow> pf \<Rightarrow> pf" where
  "pf_add x y =
     (case (x, y) of
        (Fin a, Fin b) \<Rightarrow> pf_of (a + b)
      | (NaN, _) \<Rightarrow> NaN
      | (_, NaN) \<Rightarrow> NaN
      | (PInf, NInf) \<Rightarrow> NaN
      | (NInf, PInf) \<Rightarrow> NaN
      | (PInf, _) \<Rightarrow> PInf
      | (_, PInf) \<Rightarrow> PInf
      | _ \<Rightarrow> NInf)"

definition pf_sub :: "pf \<Rightarrow> pf \<Rightarrow> pf" where
  "pf_sub x y = pf_add x (pf_neg y)"

text \<open>The sign, of a value that is not NaN.\<close>

fun pf_sgn :: "pf \<Rightarrow> int" where
  "pf_sgn (Fin a) = (if a < 0 then - 1 else if a = 0 then 0 else 1)"
| "pf_sgn PInf = 1"
| "pf_sgn NInf = - 1"
| "pf_sgn NaN = 0"

definition pf_inf :: "int \<Rightarrow> pf" where
  "pf_inf s = (if s = 0 then NaN else if s > 0 then PInf else NInf)"

definition pf_mul :: "pf \<Rightarrow> pf \<Rightarrow> pf" where
  "pf_mul x y =
     (case (x, y) of
        (Fin a, Fin b) \<Rightarrow> pf_of (a * b)
      | (NaN, _) \<Rightarrow> NaN
      | (_, NaN) \<Rightarrow> NaN
      | _ \<Rightarrow> pf_inf (pf_sgn x * pf_sgn y))"

text \<open>The quotient by anything but zero.\<close>

definition pf_quot :: "pf \<Rightarrow> pf \<Rightarrow> pf" where
  "pf_quot x y =
     (case (x, y) of
        (Fin a, Fin b) \<Rightarrow> pf_of (a / b)
      | (NaN, _) \<Rightarrow> NaN
      | (_, NaN) \<Rightarrow> NaN
      | (Fin a, _) \<Rightarrow> Fin 0
      | (_, Fin b) \<Rightarrow> pf_inf (pf_sgn x * pf_sgn y)
      | _ \<Rightarrow> NaN)"

definition pf_div :: "pf \<Rightarrow> pf \<Rightarrow> pf py" where
  "pf_div x y = (if y = Fin 0 then Inl ZeroDivisionError else Inr (pf_quot x y))"

definition pf_le :: "pf \<Rightarrow> pf \<Rightarrow> bool" where
  "pf_le x y \<longleftrightarrow> pf_less x y \<or> x = y \<and> x \<noteq> NaN"

definition pf_nat :: "nat \<Rightarrow> pf" where
  "pf_nat n = Fin (fint (int n))"

definition pf_sum :: "pf list \<Rightarrow> pf" where
  "pf_sum xs = foldl pf_add (Fin 0) xs"

text \<open>\<open>min(x, y)\<close> and \<open>max(x, y)\<close>: the first argument unless the second is strictly better.\<close>

definition pf_min :: "pf \<Rightarrow> pf \<Rightarrow> pf" where
  "pf_min x y = (if pf_less y x then y else x)"

definition pf_max :: "pf \<Rightarrow> pf \<Rightarrow> pf" where
  "pf_max x y = (if pf_less x y then y else x)"

definition fmt_pf :: "nat \<Rightarrow> pf \<Rightarrow> string" where
  "fmt_pf n x = (case x of Fin q \<Rightarrow> fmt_fixed n q | PInf \<Rightarrow> ''inf'' | NInf \<Rightarrow> ''-inf'' | NaN \<Rightarrow> ''nan'')"

text \<open>\<open>float(x)\<close> of a parsed JSON value; \<open>None\<close> is a \<open>TypeError\<close> or \<open>ValueError\<close>.\<close>

definition json_float :: "json \<Rightarrow> pf option py" where
  "json_float j =
     (case j of
        JStr s \<Rightarrow> Inr (py_float s)
      | JInt n \<Rightarrow> (case pf_of (of_int n) of Fin q \<Rightarrow> Inr (Some (Fin q)) | _ \<Rightarrow> Inl OverflowError)
      | JFloat q \<Rightarrow> Inr (Some (Fin q))
      | JBool b \<Rightarrow> Inr (Some (Fin (if b then 1 else 0)))
      | _ \<Rightarrow> Inr None)"

text \<open>\<open>int(x)\<close> of a parsed JSON value; \<open>None\<close> is a \<open>TypeError\<close> or \<open>ValueError\<close>.\<close>

definition json_int :: "json \<Rightarrow> int option" where
  "json_int j =
     (case j of
        JInt n \<Rightarrow> Some n
      | JFloat q \<Rightarrow> Some (ftrunc q)
      | JStr s \<Rightarrow> py_int s
      | JBool b \<Rightarrow> Some (if b then 1 else 0)
      | _ \<Rightarrow> None)"

section \<open>Order\<close>

lemma pf_le_Fin [simp]: "pf_le (Fin a) (Fin b) \<longleftrightarrow> a \<le> b"
  by (auto simp: pf_le_def)

lemma pf_not_le_zero: "\<not> pf_le x (Fin 0) \<longleftrightarrow> x = NaN \<or> x = PInf \<or> (\<exists>q > 0. x = Fin q)"
  by (cases x) (auto simp: pf_le_def)

lemma pf_div_nonzero: "y \<noteq> Fin 0 \<Longrightarrow> pf_div x y = Inr (pf_quot x y)"
  by (simp add: pf_div_def)

section \<open>Exact arithmetic on integers\<close>

text \<open>A rational is small when neither rounding nor overflow touches it.\<close>

definition exact :: "rat \<Rightarrow> bool" where
  "exact q \<longleftrightarrow> pf_of q = Fin q"

lemma exact_int: "\<bar>n\<bar> \<le> 2 ^ 53 \<Longrightarrow> exact (of_int n)"
proof -
  assume n: "\<bar>n\<bar> \<le> 2 ^ 53"
  then have "(of_int \<bar>n\<bar> :: rat) \<le> of_int (2 ^ 53)" by (rule iffD2[OF of_int_le_iff])
  then have "\<bar>of_int n :: rat\<bar> \<le> 2 ^ 53" by simp
  also have "(2 :: rat) ^ 53 \<le> 2 ^ 1000" by (intro power_increasing) auto
  finally show ?thesis using pf_of_small[of "of_int n"] is_f64_int[OF n] by (simp add: exact_def is_f64_def)
qed

lemma pf_of_int: "\<bar>n\<bar> \<le> 2 ^ 53 \<Longrightarrow> pf_of (of_int n) = Fin (of_int n)"
  using exact_int by (simp add: exact_def)

definition pf_ints :: "int list \<Rightarrow> pf list" where
  "pf_ints ns = map (\<lambda>n. Fin (of_int n)) ns"

lemma pf_add_ints: "\<bar>a + b\<bar> \<le> 2 ^ 53 \<Longrightarrow> pf_add (Fin (of_int a)) (Fin (of_int b)) = Fin (of_int (a + b))"
  using pf_of_int[of "a + b"] by (simp add: pf_add_def)

lemma pf_sub_ints: "\<bar>a - b\<bar> \<le> 2 ^ 53 \<Longrightarrow> pf_sub (Fin (of_int a)) (Fin (of_int b)) = Fin (of_int (a - b))"
  using pf_of_int[of "a - b"] by (simp add: pf_sub_def pf_add_def)

lemma pf_mul_ints: "\<bar>a * b\<bar> \<le> 2 ^ 53 \<Longrightarrow> pf_mul (Fin (of_int a)) (Fin (of_int b)) = Fin (of_int (a * b))"
  using pf_of_int[of "a * b"] by (simp add: pf_mul_def)

lemma pf_sum_ints:
  assumes "\<forall>n \<in> set ns. 0 \<le> n" "sum_list ns \<le> 2 ^ 53"
  shows "pf_sum (pf_ints ns) = Fin (of_int (sum_list ns))"
proof -
  have "foldl pf_add (Fin (of_int a)) (pf_ints ns) = Fin (of_int (a + sum_list ns))"
    if "0 \<le> a" "\<forall>n \<in> set ns. 0 \<le> n" "a + sum_list ns \<le> 2 ^ 53" for a ns
    using that
  proof (induction ns arbitrary: a)
    case (Cons n ns)
    then have s: "0 \<le> sum_list ns" by (intro sum_list_nonneg) auto
    then have "pf_add (Fin (of_int a)) (Fin (of_int n)) = Fin (of_int (a + n))"
      using Cons.prems by (intro pf_add_ints) auto
    then show ?case using Cons.IH[of "a + n"] Cons.prems by (simp add: pf_ints_def add.assoc)
  qed (simp add: pf_ints_def)
  from this[of 0 ns] assms show ?thesis by (simp add: pf_sum_def)
qed

lemma sum_list_prod_nonneg:
  "\<forall>n \<in> set ms \<union> set ns. (0 :: int) \<le> n \<Longrightarrow> \<forall>p \<in> set (map2 (*) ms ns). 0 \<le> p"
  by (auto elim!: in_set_zipE)

lemma pf_products_ints:
  assumes "\<forall>n \<in> set ms \<union> set ns. 0 \<le> n" "sum_list (map2 (*) ms ns) \<le> 2 ^ 53"
  shows "map2 pf_mul (pf_ints ms) (pf_ints ns) = pf_ints (map2 (*) ms ns)"
proof -
  have nn: "\<forall>p \<in> set (map2 (*) ms ns). 0 \<le> p" using assms(1) by (rule sum_list_prod_nonneg)
  have "p \<le> 2 ^ 53" if "p \<in> set (map2 (*) ms ns)" for p
    using member_le_sum_list[of p "map2 (*) ms ns"] nn that assms(2) by (meson order_trans)
  then have "pf_mul (Fin (of_int m)) (Fin (of_int n)) = Fin (of_int (m * n))" if "(m, n) \<in> set (zip ms ns)" for m n
    using that nn by (intro pf_mul_ints) (force simp: abs_of_nonneg)
  then show ?thesis by (simp add: pf_ints_def zip_map1 zip_map2 case_prod_unfold)
qed

end
