(* ===== verification/PyRegex.thy ===== *)
theory PyRegex
  imports PyStr
begin

text \<open>
  Python's \<open>re\<close>: a backtracking matcher as the list of its successes in the order in which the
  backtracking finds them, so that the head of the list is the match Python returns. A
  position is the character before it (for \<open>^\<close> and \<open>\b\<close>), the rest of the subject and the
  captures made so far, the last one first. \<open>words\<close> is the language of an expression, without
  its anchors; every match and every captured group lies in the language of its expression,
  and an expression without anchors is found in a subject exactly when a factor of the subject
  is in its language.
\<close>

section \<open>Expressions and the matcher\<close>

datatype regex =
    Eps
  | Cls "char \<Rightarrow> bool"
  | Seq regex regex
  | Alt regex regex
  | Star regex
  | Grp nat regex
  | Bol
  | WordB

type_synonym caps = "(nat, string) dict"
type_synonym rpos = "char option \<times> string \<times> caps"

definition word_opt :: "char option \<Rightarrow> bool" where
  "word_opt c = (case c of None \<Rightarrow> False | Some c \<Rightarrow> is_word c)"

definition hd_opt :: "'a list \<Rightarrow> 'a option" where
  "hd_opt s = (case s of [] \<Rightarrow> None | c # _ \<Rightarrow> Some c)"

abbreviation rest :: "rpos \<Rightarrow> string" where "rest p \<equiv> fst (snd p)"

text \<open>
  A round of a star must consume something, as in Python, where an empty round ends the loop.
\<close>

fun rmatch :: "regex \<Rightarrow> rpos \<Rightarrow> rpos list" where
  "rmatch Eps p = [p]"
| "rmatch (Cls f) p =
     (case p of (_, [], _) \<Rightarrow> [] | (_, c # t, cs) \<Rightarrow> (if f c then [(Some c, t, cs)] else []))"
| "rmatch (Seq a b) p = concat (map (rmatch b) (rmatch a p))"
| "rmatch (Alt a b) p = rmatch a p @ rmatch b p"
| "rmatch (Star r) p =
     concat (map (\<lambda>q. if length (rest q) < length (rest p) then rmatch (Star r) q else [])
       (rmatch r p)) @ [p]"
| "rmatch (Grp n r) p =
     map (\<lambda>(c, t, cs). (c, t, (n, take (length (rest p) - length t) (rest p)) # cs)) (rmatch r p)"
| "rmatch Bol p = (if fst p = None then [p] else [])"
| "rmatch WordB p = (if word_opt (fst p) \<noteq> word_opt (hd_opt (rest p)) then [p] else [])"

declare rmatch.simps(5) [simp del]

text \<open>Derived forms: \<open>r?\<close>, \<open>r+\<close>, \<open>r{n}\<close>, a literal, and a literal in any case.\<close>

definition Opt :: "regex \<Rightarrow> regex" where "Opt r = Alt r Eps"
definition Plus :: "regex \<Rightarrow> regex" where "Plus r = Seq r (Star r)"

fun Rep :: "nat \<Rightarrow> regex \<Rightarrow> regex" where
  "Rep 0 r = Eps"
| "Rep (Suc n) r = Seq r (Rep n r)"

definition Chr :: "char \<Rightarrow> regex" where "Chr c = Cls (\<lambda>x. x = c)"
definition IChr :: "char \<Rightarrow> regex" where "IChr c = Cls (\<lambda>x. to_lower x = to_lower c)"

fun Lit :: "string \<Rightarrow> regex" where
  "Lit [] = Eps"
| "Lit (c # s) = Seq (Chr c) (Lit s)"

fun ILit :: "string \<Rightarrow> regex" where
  "ILit [] = Eps"
| "ILit (c # s) = Seq (IChr c) (ILit s)"

fun Seqs :: "regex list \<Rightarrow> regex" where
  "Seqs [] = Eps"
| "Seqs [r] = r"
| "Seqs (r # rs) = Seq r (Seqs rs)"

abbreviation Digit :: regex where "Digit \<equiv> Cls is_digit"
abbreviation Space :: regex where "Space \<equiv> Cls is_space"
abbreviation Word :: regex where "Word \<equiv> Cls is_word"

definition is_hex :: "char \<Rightarrow> bool" where
  "is_hex c \<longleftrightarrow> digit_val 16 c \<noteq> None"

text \<open>\<open>.\<close> matches everything but a line feed.\<close>

definition not_nl :: "char \<Rightarrow> bool" where
  "not_nl c \<longleftrightarrow> cp c \<noteq> 10"

text \<open>A match object: the text before the match, the text of the match, the captures.\<close>

type_synonym rmatch_obj = "string \<times> string \<times> caps"

definition re_match :: "regex \<Rightarrow> string \<Rightarrow> rmatch_obj option" where
  "re_match r s =
     (case rmatch r (None, s, []) of [] \<Rightarrow> None
      | (_, t, cs) # _ \<Rightarrow> Some ([], take (length s - length t) s, cs))"

fun search_at :: "regex \<Rightarrow> string \<Rightarrow> string \<Rightarrow> rmatch_obj option" where
  "search_at r acc s =
     (case rmatch r (hd_opt acc, s, []) of
        (_, t, cs) # _ \<Rightarrow> Some (rev acc, take (length s - length t) s, cs)
      | [] \<Rightarrow> (case s of [] \<Rightarrow> None | c # s' \<Rightarrow> search_at r (c # acc) s'))"

declare search_at.simps [simp del]

definition re_search :: "regex \<Rightarrow> string \<Rightarrow> rmatch_obj option" where
  "re_search r s = search_at r [] s"

definition m_before :: "rmatch_obj \<Rightarrow> string" where "m_before m = fst m"
definition m_text :: "rmatch_obj \<Rightarrow> string" where "m_text m = fst (snd m)"
definition m_group :: "rmatch_obj \<Rightarrow> nat \<Rightarrow> string option" where
  "m_group m n = dget (snd (snd m)) n"

text \<open>\<open>re.sub("^...", "", s)\<close>: an expression anchored at the start matches once at most.\<close>

definition re_drop_prefix :: "regex \<Rightarrow> string \<Rightarrow> string" where
  "re_drop_prefix r s =
     (case re_match r s of None \<Rightarrow> s | Some m \<Rightarrow> drop (length (m_text m)) s)"

section \<open>Languages\<close>

inductive words :: "regex \<Rightarrow> string \<Rightarrow> bool" where
  w_eps: "words Eps []"
| w_cls: "f c \<Longrightarrow> words (Cls f) [c]"
| w_seq: "words a u \<Longrightarrow> words b v \<Longrightarrow> words (Seq a b) (u @ v)"
| w_alt1: "words a u \<Longrightarrow> words (Alt a b) u"
| w_alt2: "words b u \<Longrightarrow> words (Alt a b) u"
| w_star0: "words (Star r) []"
| w_star: "words r u \<Longrightarrow> words (Star r) v \<Longrightarrow> words (Star r) (u @ v)"
| w_grp: "words r u \<Longrightarrow> words (Grp n r) u"
| w_bol: "words Bol []"
| w_wordb: "words WordB []"

inductive_cases words_cases:
  "words Eps w" "words (Cls f) w" "words (Seq a b) w" "words (Alt a b) w" "words (Grp n r) w"
  "words Bol w" "words WordB w"

lemma words_simps [simp]:
  "words Eps w \<longleftrightarrow> w = []"
  "words (Cls f) w \<longleftrightarrow> (\<exists>c. w = [c] \<and> f c)"
  "words (Seq a b) w \<longleftrightarrow> (\<exists>u v. w = u @ v \<and> words a u \<and> words b v)"
  "words (Alt a b) w \<longleftrightarrow> words a w \<or> words b w"
  "words (Grp n r) w \<longleftrightarrow> words r w"
  "words Bol w \<longleftrightarrow> w = []" "words WordB w \<longleftrightarrow> w = []"
  by (auto elim!: words_cases intro: words.intros)

lemma words_seq_cls: "words (Seq (Cls f) r) w \<longleftrightarrow> (\<exists>c v. w = c # v \<and> f c \<and> words r v)"
  by (simp only: words_simps) (metis append_Cons append_Nil)

lemma words_star_cls: "words (Star (Cls f)) w \<longleftrightarrow> (\<forall>c \<in> set w. f c)"
proof
  assume "words (Star (Cls f)) w"
  then show "\<forall>c \<in> set w. f c"
    by (induction "Star (Cls f)" w rule: words.induct) auto
next
  assume "\<forall>c \<in> set w. f c"
  then show "words (Star (Cls f)) w"
  proof (induction w)
    case Nil
    show ?case by (rule w_star0)
  next
    case (Cons c w)
    then have "words (Star (Cls f)) ([c] @ w)" by (intro w_star) auto
    then show ?case by simp
  qed
qed

lemma words_plus_cls: "words (Plus (Cls f)) w \<longleftrightarrow> w \<noteq> [] \<and> (\<forall>c \<in> set w. f c)"
  unfolding Plus_def words_seq_cls words_star_cls by (cases w) auto

lemma words_Opt [simp]: "words (Opt r) w \<longleftrightarrow> words r w \<or> w = []"
  by (simp add: Opt_def)

lemma words_Lit [simp]: "words (Lit s) w \<longleftrightarrow> w = s"
  by (induction s arbitrary: w) (auto simp: Chr_def)

lemma words_ILit [simp]: "words (ILit s) w \<longleftrightarrow> lower w = lower s"
proof (induction s arbitrary: w)
  case Nil
  then show ?case by (simp add: lower_def)
next
  case (Cons c s)
  have "words (ILit (c # s)) w \<longleftrightarrow> (\<exists>x v. w = x # v \<and> to_lower x = to_lower c \<and> lower v = lower s)"
    unfolding ILit.simps IChr_def words_seq_cls Cons.IH by simp
  then show ?case by (cases w) (auto simp: lower_def)
qed

section \<open>Soundness\<close>

text \<open>The groups of an expression, with the expression each one captures.\<close>

fun groups :: "regex \<Rightarrow> (nat \<times> regex) set" where
  "groups Eps = {}"
| "groups (Cls f) = {}"
| "groups (Seq a b) = groups a \<union> groups b"
| "groups (Alt a b) = groups a \<union> groups b"
| "groups (Star r) = groups r"
| "groups (Grp n r) = insert (n, r) (groups r)"
| "groups Bol = {}"
| "groups WordB = {}"

text \<open>
  What a successful match from \<open>p\<close> to \<open>q\<close> guarantees: it consumed a word, and each capture was
  there before or is a word of its group.
\<close>

definition sound_step :: "regex \<Rightarrow> rpos \<Rightarrow> rpos \<Rightarrow> bool" where
  "sound_step r p q \<longleftrightarrow>
     (\<exists>w. rest p = w @ rest q \<and> words r w) \<and>
     (\<forall>n u. (n, u) \<in> set (snd (snd q)) \<longrightarrow>
        (n, u) \<in> set (snd (snd p)) \<or> (\<exists>b. (n, b) \<in> groups r \<and> words b u))"

lemma sound_step_trans:
  assumes "sound_step a p m" "sound_step b m q"
    and "\<And>u v. words a u \<Longrightarrow> words b v \<Longrightarrow> words r (u @ v)" "groups a \<subseteq> groups r" "groups b \<subseteq> groups r"
  shows "sound_step r p q"
proof -
  obtain u v where u: "rest p = u @ rest m" "words a u" and v: "rest m = v @ rest q" "words b v"
    using assms(1,2) by (auto simp: sound_step_def)
  then have "rest p = (u @ v) @ rest q" "words r (u @ v)"
    using assms(3) by simp_all
  moreover have "(n, w) \<in> set (snd (snd p)) \<or> (\<exists>b. (n, b) \<in> groups r \<and> words b w)"
    if nw: "(n, w) \<in> set (snd (snd q))" for n w
  proof -
    from assms(2) nw have "(n, w) \<in> set (snd (snd m)) \<or> (\<exists>d. (n, d) \<in> groups b \<and> words d w)"
      unfolding sound_step_def by blast
    moreover have "(n, w) \<in> set (snd (snd p)) \<or> (\<exists>d. (n, d) \<in> groups a \<and> words d w)"
      if "(n, w) \<in> set (snd (snd m))"
      using assms(1) that unfolding sound_step_def by blast
    ultimately show ?thesis using assms(4,5) by blast
  qed
  ultimately show ?thesis unfolding sound_step_def by blast
qed

lemma sound_step_mono:
  assumes "sound_step a p q" "\<And>w. words a w \<Longrightarrow> words r w" "groups a \<subseteq> groups r"
  shows "sound_step r p q"
  using assms unfolding sound_step_def by (meson subsetD)

lemma rmatch_sound: "q \<in> set (rmatch r p) \<Longrightarrow> sound_step r p q"
proof (induction r p arbitrary: q rule: rmatch.induct)
  case (3 a b p)
  then obtain m where m: "m \<in> set (rmatch a p)" "q \<in> set (rmatch b m)"
    by auto
  then have "sound_step a p m" "sound_step b m q"
    using "3.IH" by auto
  then show ?case by (rule sound_step_trans) auto
next
  case (4 a b p)
  then have "sound_step a p q \<or> sound_step b p q"
    by (metis Un_iff rmatch.simps(4) set_append)
  then show ?case
    by (auto elim: sound_step_mono)
next
  case (5 r p)
  show ?case
  proof (cases "q = p")
    case True
    then show ?thesis by (auto simp: sound_step_def intro: w_star0)
  next
    case False
    then obtain m where m: "m \<in> set (rmatch r p)" "length (rest m) < length (rest p)"
      "q \<in> set (rmatch (Star r) m)"
      using "5.prems" by (auto simp: rmatch.simps(5)[of r p] split: if_splits)
    then have "sound_step r p m" "sound_step (Star r) m q"
      using "5.IH" by auto
    then show ?thesis by (rule sound_step_trans) (auto intro: w_star)
  qed
next
  case (6 n r p)
  then obtain c t cs where m: "(c, t, cs) \<in> set (rmatch r p)"
    and q: "q = (c, t, (n, take (length (rest p) - length t) (rest p)) # cs)"
    by auto
  have s: "sound_step r p (c, t, cs)" using 6 m by auto
  then obtain w where w: "rest p = w @ t" "words r w" by (auto simp: sound_step_def)
  then have "take (length (rest p) - length t) (rest p) = w" by simp
  with s w q show ?case by (auto simp: sound_step_def)
qed (auto simp: sound_step_def split: list.splits if_splits prod.splits)

text \<open>The groups that take part in every match, and the captures a match cannot lose.\<close>

fun mandatory :: "regex \<Rightarrow> nat set" where
  "mandatory (Seq a b) = mandatory a \<union> mandatory b"
| "mandatory (Alt a b) = mandatory a \<inter> mandatory b"
| "mandatory (Grp n r) = insert n (mandatory r)"
| "mandatory _ = {}"

abbreviation caps_of :: "rpos \<Rightarrow> nat set" where
  "caps_of p \<equiv> set (dkeys (snd (snd p)))"

lemma rmatch_caps: "q \<in> set (rmatch r p) \<Longrightarrow> caps_of p \<union> mandatory r \<subseteq> caps_of q"
proof (induction r p arbitrary: q rule: rmatch.induct)
  case (3 a b p)
  then obtain m where "m \<in> set (rmatch a p)" "q \<in> set (rmatch b m)"
    by auto
  then have "caps_of p \<union> mandatory a \<subseteq> caps_of m" "caps_of m \<union> mandatory b \<subseteq> caps_of q"
    using "3.IH" by auto
  then show ?case by auto
next
  case (4 a b p)
  then have "caps_of p \<union> mandatory a \<subseteq> caps_of q \<or> caps_of p \<union> mandatory b \<subseteq> caps_of q"
    by (metis Un_iff rmatch.simps(4) set_append)
  then show ?case by auto
next
  case (5 r p)
  show ?case
  proof (cases "q = p")
    case False
    then obtain m where m: "m \<in> set (rmatch r p)" "length (rest m) < length (rest p)"
      "q \<in> set (rmatch (Star r) m)"
      using "5.prems" by (auto simp: rmatch.simps(5)[of r p] split: if_splits)
    then have "caps_of p \<union> mandatory r \<subseteq> caps_of m" "caps_of m \<subseteq> caps_of q"
      using "5.IH" by auto
    then show ?thesis by auto
  qed simp
next
  case (6 n r p)
  then obtain c t cs where m: "(c, t, cs) \<in> set (rmatch r p)"
    and q: "q = (c, t, (n, take (length (rest p) - length t) (rest p)) # cs)"
    by auto
  then show ?case using "6.IH"[OF m] by auto
qed (auto split: list.splits if_splits prod.splits)

section \<open>Completeness\<close>

fun anchor_free :: "regex \<Rightarrow> bool" where
  "anchor_free (Seq a b) = (anchor_free a \<and> anchor_free b)"
| "anchor_free (Alt a b) = (anchor_free a \<and> anchor_free b)"
| "anchor_free (Star r) = anchor_free r"
| "anchor_free (Grp n r) = anchor_free r"
| "anchor_free Bol = False"
| "anchor_free WordB = False"
| "anchor_free _ = True"

lemma rmatch_complete:
  "words r w \<Longrightarrow> anchor_free r \<Longrightarrow> \<exists>c' cs'. (c', t, cs') \<in> set (rmatch r (c, w @ t, cs))"
proof (induction r w arbitrary: c cs t rule: words.induct)
  case (w_seq a u b v)
  then obtain c1 cs1 where "(c1, v @ t, cs1) \<in> set (rmatch a (c, u @ v @ t, cs))"
    by fastforce
  moreover obtain c2 cs2 where "(c2, t, cs2) \<in> set (rmatch b (c1, v @ t, cs1))"
    using w_seq by fastforce
  ultimately show ?case by force
next
  case (w_alt1 a u b)
  then obtain c1 cs1 where "(c1, t, cs1) \<in> set (rmatch a (c, u @ t, cs))"
    by fastforce
  then show ?case by auto
next
  case (w_alt2 b u a)
  then obtain c1 cs1 where "(c1, t, cs1) \<in> set (rmatch b (c, u @ t, cs))"
    by fastforce
  then show ?case by auto
next
  case (w_star0 r)
  then show ?case by (auto simp: rmatch.simps(5)[of r "(c, t, cs)"])
next
  case (w_star r u v)
  show ?case
  proof (cases "u = []")
    case True
    with w_star show ?thesis by auto
  next
    case False
    obtain c1 cs1 where 1: "(c1, v @ t, cs1) \<in> set (rmatch r (c, u @ v @ t, cs))"
      using w_star by fastforce
    obtain c2 cs2 where 2: "(c2, t, cs2) \<in> set (rmatch (Star r) (c1, v @ t, cs1))"
      using w_star by fastforce
    have "(c2, t, cs2) \<in> set (rmatch (Star r) (c, u @ v @ t, cs))"
      using 1 2 False
      by (auto simp: rmatch.simps(5)[of r "(c, u @ v @ t, cs)"] intro!: bexI[of _ "(c1, v @ t, cs1)"])
    then show ?thesis by auto
  qed
next
  case (w_grp r u n)
  then obtain c1 cs1 where "(c1, t, cs1) \<in> set (rmatch r (c, u @ t, cs))"
    by fastforce
  then show ?case by force
qed auto

section \<open>Match objects\<close>

text \<open>The facts the clients use of a match object.\<close>

definition match_ok :: "regex \<Rightarrow> string \<Rightarrow> rmatch_obj \<Rightarrow> bool" where
  "match_ok r s m \<longleftrightarrow>
     (\<exists>after. s = m_before m @ m_text m @ after) \<and> words r (m_text m) \<and>
     (\<forall>n u. m_group m n = Some u \<longrightarrow> (\<exists>b. (n, b) \<in> groups r \<and> words b u)) \<and>
     (\<forall>n \<in> mandatory r. m_group m n \<noteq> None)"

lemma first_match_ok:
  assumes "rmatch r (c, s, []) = (c', t, cs) # ps"
  shows "match_ok r (acc @ s) (acc, take (length s - length t) s, cs)"
proof -
  have "sound_step r (c, s, []) (c', t, cs)"
    by (rule rmatch_sound) (simp add: assms)
  then obtain w where "s = w @ t" "words r w"
    and g: "\<And>n u. (n, u) \<in> set cs \<Longrightarrow> \<exists>b. (n, b) \<in> groups r \<and> words b u"
    by (fastforce simp: sound_step_def)
  moreover have "mandatory r \<subseteq> set (dkeys cs)"
    using rmatch_caps[of "(c', t, cs)" r "(c, s, [])"] assms by simp
  ultimately show ?thesis
    by (auto simp: match_ok_def m_before_def m_text_def m_group_def dget_in_keys simp del: not_None_eq
        dest: dget_Some_in)
qed

lemma search_at_ok: "search_at r acc s = Some m \<Longrightarrow> match_ok r (rev acc @ s) m"
proof (induction s arbitrary: acc)
  case Nil
  then show ?case
    by (subst (asm) search_at.simps) (auto split: list.splits dest: first_match_ok)
next
  case (Cons c s)
  show ?case
  proof (cases "rmatch r (hd_opt acc, c # s, [])")
    case Nil
    with Cons.prems have "search_at r (c # acc) s = Some m"
      by (subst (asm) search_at.simps) simp
    with Cons.IH show ?thesis by fastforce
  next
    case (Cons p ps)
    with \<open>search_at r acc (c # s) = Some m\<close> show ?thesis
      by (subst (asm) search_at.simps)
        (auto split: prod.splits simp del: take_Cons' dest!: first_match_ok)
  qed
qed

lemma re_search_ok: "re_search r s = Some m \<Longrightarrow> match_ok r s m"
  using search_at_ok[of r "[]" s m] by (simp add: re_search_def)

lemma re_match_ok: "re_match r s = Some m \<Longrightarrow> match_ok r s m \<and> m_before m = []"
  by (auto simp: re_match_def m_before_def split: list.splits dest!: first_match_ok[where acc = "[]"])

lemma search_at_Some:
  "words r w \<Longrightarrow> anchor_free r \<Longrightarrow> s = u @ w @ v \<Longrightarrow> \<exists>m. search_at r acc s = Some m"
proof (induction u arbitrary: s acc)
  case Nil
  then obtain c cs where "(c, v, cs) \<in> set (rmatch r (hd_opt acc, s, []))"
    using rmatch_complete[of r w v "hd_opt acc" "[]"] by auto
  then show ?case
    by (subst search_at.simps) (auto split: list.splits)
next
  case (Cons x u)
  then have "\<exists>m. search_at r (x # acc) (u @ w @ v) = Some m" by blast
  then show ?case
    using Cons.prems(3) by (subst search_at.simps) (auto split: list.splits)
qed

text \<open>An expression without anchors is found exactly where a factor is one of its words.\<close>

lemma re_search_iff:
  assumes "anchor_free r"
  shows "re_search r s \<noteq> None \<longleftrightarrow> (\<exists>u w v. s = u @ w @ v \<and> words r w)"
proof
  assume "re_search r s \<noteq> None"
  then show "\<exists>u w v. s = u @ w @ v \<and> words r w"
    using re_search_ok by (fastforce simp: match_ok_def)
next
  assume "\<exists>u w v. s = u @ w @ v \<and> words r w"
  then show "re_search r s \<noteq> None"
    using search_at_Some[OF _ assms] by (fastforce simp: re_search_def)
qed

lemma re_drop_prefix_suffix: "\<exists>w. s = w @ re_drop_prefix r s"
  by (auto simp: re_drop_prefix_def split: option.splits intro: exI[of _ "[]"])
    (metis append_take_drop_id)

text \<open>A mandatory group with one body: its capture is a word of that body.\<close>

lemma match_ok_group:
  assumes "match_ok r s m" "n \<in> mandatory r" "\<And>b. (n, b) \<in> groups r \<Longrightarrow> b = g"
  shows "\<exists>u. m_group m n = Some u \<and> words g u"
  using assms unfolding match_ok_def by (metis not_None_eq)

text \<open>Groups of the derived forms; a literal is kept folded in proofs.\<close>

declare Lit.simps [simp del] and ILit.simps [simp del]

lemma Chr_facts [simp]:
  "groups (Chr c) = {}" "groups (IChr c) = {}" "mandatory (Chr c) = {}" "mandatory (IChr c) = {}"
  "anchor_free (Chr c)" "anchor_free (IChr c)"
  by (simp_all add: Chr_def IChr_def)

lemma Plus_facts [simp]:
  "groups (Plus r) = groups r" "mandatory (Plus r) = mandatory r" "anchor_free (Plus r) = anchor_free r"
  "groups (Opt r) = groups r" "mandatory (Opt r) = {}" "anchor_free (Opt r) = anchor_free r"
  by (simp_all add: Plus_def Opt_def)

lemma Lit_facts [simp]: "groups (Lit s) = {}" "mandatory (Lit s) = {}" "anchor_free (Lit s)"
  by (induction s) (simp_all add: Lit.simps)

lemma ILit_facts [simp]: "groups (ILit s) = {}" "mandatory (ILit s) = {}" "anchor_free (ILit s)"
  by (induction s) (simp_all add: ILit.simps)

lemma groups_Rep [simp]: "groups (Rep n r) = (if n = 0 then {} else groups r)"
  by (induction n) auto

section \<open>Captures are factors\<close>

definition factor :: "string \<Rightarrow> string \<Rightarrow> bool" where
  "factor u s \<longleftrightarrow> (\<exists>a b. s = a @ u @ b)"

lemma factor_append: "factor u t \<Longrightarrow> factor u (w @ t)"
  unfolding factor_def by (metis append.assoc)

lemma rmatch_rest: "q \<in> set (rmatch r p) \<Longrightarrow> \<exists>w. rest p = w @ rest q"
  by (drule rmatch_sound) (auto simp: sound_step_def)

lemma rmatch_factors:
  "q \<in> set (rmatch r p) \<Longrightarrow> (n, u) \<in> set (snd (snd q)) \<Longrightarrow> (n, u) \<in> set (snd (snd p)) \<or> factor u (rest p)"
proof (induction r p arbitrary: q rule: rmatch.induct)
  case (3 a b p)
  then obtain m where m: "m \<in> set (rmatch a p)" "q \<in> set (rmatch b m)" by auto
  then obtain w where "rest p = w @ rest m" using rmatch_rest by blast
  then show ?case using "3.IH"(1)[OF m(1)] "3.IH"(2)[OF m] "3.prems"(2) factor_append by metis
next
  case (5 r p)
  show ?case
  proof (cases "q = p")
    case False
    then obtain m where m: "m \<in> set (rmatch r p)" "length (rest m) < length (rest p)"
      "q \<in> set (rmatch (Star r) m)"
      using "5.prems" by (auto simp: rmatch.simps(5)[of r p] split: if_splits)
    then obtain w where "rest p = w @ rest m" using rmatch_rest by blast
    then show ?thesis using "5.IH"(1)[OF m(1)] "5.IH"(2)[OF m] "5.prems"(2) factor_append by metis
  qed (use "5.prems" in simp)
next
  case (6 k r p)
  then obtain c t cs where m: "(c, t, cs) \<in> set (rmatch r p)"
    and q: "q = (c, t, (k, take (length (rest p) - length t) (rest p)) # cs)"
    by auto
  obtain w where "rest p = w @ t" using rmatch_rest[OF m] by auto
  then have "factor (take (length (rest p) - length t) (rest p)) (rest p)"
    unfolding factor_def by (intro exI[of _ "[]"] exI[of _ t]) simp
  then show ?case using "6.IH"[OF m] "6.prems"(2) q by auto
qed (auto split: list.splits if_splits prod.splits)

lemma first_match_factors:
  "rmatch r (c, s, []) = (c', t, cs) # ps \<Longrightarrow> (n, u) \<in> set cs \<Longrightarrow> factor u s"
  using rmatch_factors[of "(c', t, cs)" r "(c, s, [])" n u] by simp

lemma search_at_factors: "search_at r acc s = Some m \<Longrightarrow> m_group m n = Some u \<Longrightarrow> factor u s"
proof (induction s arbitrary: acc)
  case Nil
  then show ?case
    by (subst (asm) search_at.simps) (auto split: list.splits simp: m_group_def dest!: dget_Some_in first_match_factors)
next
  case (Cons c s)
  show ?case
  proof (cases "rmatch r (hd_opt acc, c # s, [])")
    case Nil
    with Cons.prems have "search_at r (c # acc) s = Some m"
      by (subst (asm) search_at.simps) simp
    then have "factor u s" using Cons by blast
    then show ?thesis using factor_append[of u s "[c]"] by simp
  next
    case (Cons p ps)
    with \<open>search_at r acc (c # s) = Some m\<close> \<open>m_group m n = Some u\<close> show ?thesis
      by (subst (asm) search_at.simps)
        (auto split: prod.splits simp: m_group_def simp del: take_Cons' dest!: dget_Some_in dest: first_match_factors)
  qed
qed

lemma re_search_factor: "re_search r s = Some m \<Longrightarrow> m_group m n = Some u \<Longrightarrow> factor u s"
  by (auto simp: re_search_def dest: search_at_factors)

section \<open>Greedy matches\<close>

text \<open>
  The match Python takes, composed: \<open>takes r p q\<close> says that from \<open>p\<close> the expression first ends at \<open>q\<close>.
  A run of a class is taken whole when what follows it is not in the class.
\<close>

definition takes :: "regex \<Rightarrow> rpos \<Rightarrow> rpos \<Rightarrow> bool" where
  "takes r p q \<longleftrightarrow> (\<exists>qs. rmatch r p = q # qs)"

definition before :: "char option \<Rightarrow> string \<Rightarrow> char option" where
  "before c w = (if w = [] then c else Some (last w))"

lemma before_simps [simp]: "before c [] = c" "before (Some x) w = Some (if w = [] then x else last w)"
  by (simp_all add: before_def)

lemma takes_Seq [intro]: "takes a p q \<Longrightarrow> takes b q r \<Longrightarrow> takes (Seq a b) p r"
  by (auto simp: takes_def)

lemma takes_Grp [intro]:
  "takes r (c, w @ t, cs) (d, t, cs') \<Longrightarrow> takes (Grp n r) (c, w @ t, cs) (d, t, (n, w) # cs')"
  by (auto simp: takes_def)

lemma takes_star_cls:
  "\<forall>c \<in> set w. f c \<Longrightarrow> t = [] \<or> \<not> f (hd t) \<Longrightarrow> takes (Star (Cls f)) (c, w @ t, cs) (before c w, t, cs)"
proof (induction w arbitrary: c)
  case Nil
  then show ?case by (cases t) (auto simp: takes_def rmatch.simps(5))
next
  case (Cons x w)
  then have "takes (Star (Cls f)) (Some x, w @ t, cs) (before (Some x) w, t, cs)"
    using Cons.IH[of "Some x"] Cons.prems by simp
  then obtain qs where "rmatch (Star (Cls f)) (Some x, w @ t, cs) = (before (Some x) w, t, cs) # qs"
    unfolding takes_def by blast
  then show ?case
    using Cons.prems(1) by (simp add: takes_def rmatch.simps(5)[of _ "(c, x # w @ t, cs)"] before_def)
qed

lemma takes_plus_cls:
  "w \<noteq> [] \<Longrightarrow> \<forall>c \<in> set w. f c \<Longrightarrow> t = [] \<or> \<not> f (hd t) \<Longrightarrow> takes (Plus (Cls f)) (c, w @ t, cs) (before c w, t, cs)"
proof -
  assume w: "w \<noteq> []" "\<forall>c \<in> set w. f c" "t = [] \<or> \<not> f (hd t)"
  then obtain x v where "w = x # v" by (cases w) auto
  then show ?thesis
    using takes_star_cls[of v f t "Some x" cs] w by (auto simp: takes_def Plus_def before_def)
qed

lemma takes_Lit: "takes (Lit s) (c, s @ t, cs) (before c s, t, cs)"
  by (induction s arbitrary: c) (auto simp: takes_def Lit.simps Chr_def before_def)

lemma takes_Bol: "takes Bol (None, s, cs) (None, s, cs)"
  by (simp add: takes_def)

lemma re_match_takes: "takes r (None, s, []) (c, t, cs) \<Longrightarrow> re_match r s = Some ([], take (length s - length t) s, cs)"
  by (auto simp: takes_def re_match_def)

end
