(* ===== verification/Exposition.thy ===== *)
theory Exposition
  imports PyStr
begin

text \<open>
  The Prometheus text format the collectors write: the label sanitiser that
  \<open>bmc/ipmi_sel_poller.py\<close>, \<open>bmc/ipmi_sensor_exporter.py\<close>, \<open>bmc/redfish_collector.py\<close> and
  \<open>ras/rasdaemon_exporter.py\<close> share word for word, sample lines, and the contract of a sanitiser
  under which a line can be read back.
\<close>

definition sanitize_label :: "string \<Rightarrow> string" where
  "sanitize_label val =
     (let s = strip (replace_chr (CHR 0x0A) '' ''
                (replace_chr (CHR 0x5C) ''/'' (replace_chr (CHR 0x22) [CHR 0x27] val)))
      in if s = [] then ''unknown'' else s)"

text \<open>\<open>f'{name}{{k="v",...}} {value}'\<close>\<close>

definition label_pair :: "string \<times> string \<Rightarrow> string" where
  "label_pair kv = fst kv @ ''='' @ [CHR 0x22] @ snd kv @ [CHR 0x22]"

definition sample_line :: "string \<Rightarrow> (string \<times> string) list \<Rightarrow> string \<Rightarrow> string" where
  "sample_line name ls value = name @ ''{'' @ join '','' (map label_pair ls) @ ''} '' @ value"

definition header_lines :: "string \<Rightarrow> string \<Rightarrow> string \<Rightarrow> string list" where
  "header_lines name help kind =
     [''# HELP '' @ name @ '' '' @ help, ''# TYPE '' @ name @ '' '' @ kind]"

definition nl :: string where "nl = [CHR 0x0A]"

definition render :: "string list \<Rightarrow> string" where
  "render lines = join nl lines @ nl"

text \<open>The name of the series a line is about; a comment line has the name \<open>#\<close>.\<close>

definition series_name :: "string \<Rightarrow> string" where
  "series_name line = takeWhile (\<lambda>c. c \<noteq> CHR ''{'' \<and> c \<noteq> CHR '' '') line"

text \<open>A line without labels.\<close>

definition value_line :: "string \<Rightarrow> string \<Rightarrow> string" where
  "value_line name value = name @ '' '' @ value"

definition metric_name :: "string \<Rightarrow> bool" where
  "metric_name name \<longleftrightarrow> list_all (\<lambda>c. c \<noteq> CHR ''{'' \<and> c \<noteq> CHR '' '') name"

lemma series_name_sample: "metric_name name \<Longrightarrow> series_name (sample_line name ls v) = name"
  by (simp add: series_name_def sample_line_def metric_name_def list_all_iff)

lemma series_name_value: "metric_name name \<Longrightarrow> series_name (value_line name v) = name"
  by (simp add: series_name_def value_line_def metric_name_def list_all_iff)

lemma series_name_header: "l \<in> set (header_lines name help kind) \<Longrightarrow> series_name l = ''#''"
  by (auto simp: header_lines_def series_name_def)

lemma series_names_header [simp]: "series_name ` set (header_lines name help kind) = {''#''}"
  by (auto simp: header_lines_def series_name_def)

section \<open>The contract of a sanitiser\<close>

locale sanitizer =
  fixes clean :: "string \<Rightarrow> string"
  assumes no_quote: "CHR 0x22 \<notin> set (clean v)"
    and no_newline: "CHR 0x0A \<notin> set (clean v)"
    and no_backslash: "CHR 0x5C \<notin> set (clean v)"
    and nonempty: "clean v \<noteq> []"
begin

lemma pair_prefix:
  assumes "label_pair (k, clean v) @ x = label_pair (k, clean v') @ y"
  shows "clean v = clean v' \<and> x = y"
proof -
  have "clean v @ CHR 0x22 # x = clean v' @ CHR 0x22 # y"
    using assms by (simp add: label_pair_def)
  moreover have "takeWhile (\<lambda>c. c \<noteq> CHR 0x22) (clean w @ CHR 0x22 # z) = clean w" for w z
    using no_quote[of w] by (subst takeWhile_append2) auto
  ultimately have "clean v = clean v'" by metis
  then show ?thesis using assms by simp
qed

text \<open>Two sample lines with the same name and label names are equal only when all their cleaned
  values are, and their sample values.\<close>

lemma pairs_inj:
  "length vs = length ks \<Longrightarrow> length ws = length ks \<Longrightarrow> ks \<noteq> [] \<Longrightarrow>
   join '','' (map label_pair (zip ks (map clean vs))) @ x = join '','' (map label_pair (zip ks (map clean ws))) @ y \<Longrightarrow>
   map clean vs = map clean ws \<and> x = y"
proof (induction ks arbitrary: vs ws)
  case (Cons k ks)
  obtain v vs' w ws' where vw: "vs = v # vs'" "ws = w # ws'"
    using Cons.prems(1,2) by (auto simp: length_Suc_conv)
  show ?case
  proof (cases "ks = []")
    case True
    then show ?thesis using Cons.prems pair_prefix[of k v x w y] vw by simp
  next
    case False
    then have ne: "map label_pair (zip ks (map clean vs')) \<noteq> []" "map label_pair (zip ks (map clean ws')) \<noteq> []"
      using Cons.prems(1,2) vw by (auto simp: zip_eq_Nil_iff)
    have j: "join '','' (a # ys) = a @ '','' @ join '','' ys" if "ys \<noteq> []" for a ys
      using that by (cases ys) simp_all
    have "label_pair (k, clean v) @ '','' @ join '','' (map label_pair (zip ks (map clean vs'))) @ x =
          label_pair (k, clean w) @ '','' @ join '','' (map label_pair (zip ks (map clean ws'))) @ y"
      using Cons.prems(4) vw by (simp add: j[OF ne(1)] j[OF ne(2)])
    from pair_prefix[OF this] have "clean v = clean w"
      and r: "join '','' (map label_pair (zip ks (map clean vs'))) @ x =
              join '','' (map label_pair (zip ks (map clean ws'))) @ y" by auto
    moreover have "map clean vs' = map clean ws' \<and> x = y"
      by (rule Cons.IH[OF _ _ False r]) (use Cons.prems(1,2) vw in auto)
    ultimately show ?thesis by (simp add: vw)
  qed
qed simp

lemma sample_line_inj:
  assumes "length vs = length ks" "length ws = length ks" "ks \<noteq> []"
    "sample_line name (zip ks (map clean vs)) x = sample_line name (zip ks (map clean ws)) y"
  shows "map clean vs = map clean ws \<and> x = y"
  using pairs_inj[OF assms(1-3), of "''} '' @ x" "''} '' @ y"] assms(4)
  by (simp add: sample_line_def)

lemma sample_line_no_newline:
  assumes "CHR 0x0A \<notin> set name" "\<forall>k \<in> set ks. CHR 0x0A \<notin> set k" "CHR 0x0A \<notin> set x"
  shows "CHR 0x0A \<notin> set (sample_line name (zip ks (map clean vs)) x)"
proof -
  have join: "c \<notin> set (join '','' xs)" if "\<forall>s \<in> set xs. c \<notin> set s" "c \<noteq> CHR '',''" for c :: char and xs
    using that by (induction "'',''" xs rule: join.induct) auto
  have "CHR 0x0A \<notin> set (label_pair kv)" if "kv \<in> set (zip ks (map clean vs))" for kv
  proof -
    have "fst kv \<in> set ks" "snd kv \<in> clean ` set vs"
      using set_zip_leftD[of "fst kv" "snd kv"] set_zip_rightD[of "fst kv" "snd kv"] that by fastforce+
    then show ?thesis using assms(2) no_newline by (auto simp: label_pair_def)
  qed
  then have "CHR 0x0A \<notin> set (join '','' (map label_pair (zip ks (map clean vs))))"
    by (intro join) auto
  then show ?thesis using assms by (simp add: sample_line_def)
qed

end

lemma sanitize_label_chars:
  "c \<in> {CHR 0x22, CHR 0x5C, CHR 0x0A} \<Longrightarrow> c \<notin> set (sanitize_label v)"
proof -
  assume c: "c \<in> {CHR 0x22, CHR 0x5C, CHR 0x0A}"
  let ?s = "replace_chr (CHR 0x0A) '' '' (replace_chr (CHR 0x5C) ''/'' (replace_chr (CHR 0x22) [CHR 0x27] v))"
  have "c \<notin> set ?s" using c by (auto simp: replace_chr_mem)
  then have "c \<notin> set (strip ?s)" using set_strip by blast
  moreover have "c \<notin> set ''unknown''" using c by auto
  ultimately show ?thesis by (simp add: sanitize_label_def Let_def)
qed

lemma sanitize_label_nonempty: "sanitize_label v \<noteq> []"
  by (simp add: sanitize_label_def Let_def)

interpretation sl: sanitizer sanitize_label
  by unfold_locales (simp_all add: sanitize_label_chars sanitize_label_nonempty)

end
