(* ===== verification/ToolText.thy ===== *)
theory ToolText
  imports PyRegex PyNum
begin

text \<open>
  Reading the text a tool prints: lines, cells, and the small idioms the collectors share
  (\<open>splitlines\<close>, \<open>split(":", 1)\<close>, \<open>replace\<close>, \<open>finditer\<close>, the last index of a column). The
  round-trip laws at the end are those the parsers are proved with.
\<close>

definition is_break :: "char \<Rightarrow> bool" where
  "is_break c \<longleftrightarrow> cp c \<in> {10, 11, 12, 13, 28, 29, 30, 133}"

definition newline :: char where "newline = CHR 0x0A"

text \<open>\<open>s.splitlines()\<close>; a carriage return and the line feed after it are one break.\<close>

fun splitlines_acc :: "string \<Rightarrow> string \<Rightarrow> string list" where
  "splitlines_acc acc [] = (if acc = [] then [] else [rev acc])"
| "splitlines_acc acc (c # cs) =
     (if is_break c
      then rev acc # splitlines_acc [] (if c = CHR 0x0D \<and> take 1 cs = [newline] then tl cs else cs)
      else splitlines_acc (c # acc) cs)"

definition splitlines :: "string \<Rightarrow> string list" where
  "splitlines s = splitlines_acc [] s"

text \<open>The non-empty stripped lines of a text.\<close>

definition text_lines_of :: "string \<Rightarrow> string list" where
  "text_lines_of s = filter (\<lambda>l. l \<noteq> []) (map strip (splitlines s))"

text \<open>\<open>s.split(c, 1)\<close> when \<open>c\<close> is in \<open>s\<close>\<close>

definition split_once :: "char \<Rightarrow> string \<Rightarrow> string \<times> string" where
  "split_once c s = (takeWhile (\<lambda>x. x \<noteq> c) s, tl (dropWhile (\<lambda>x. x \<noteq> c) s))"

text \<open>\<open>s.replace(old, new)\<close> for a non-empty \<open>old\<close>\<close>

function replace_sub :: "string \<Rightarrow> string \<Rightarrow> string \<Rightarrow> string" where
  "replace_sub old new s =
     (if s = [] \<or> old = [] then s
      else if starts_with old s then new @ replace_sub old new (drop (length old) s)
      else hd s # replace_sub old new (tl s))"
  by pat_completeness auto
termination by (relation "measure (\<lambda>(old, new, s). length s)") auto

text \<open>\<open>re.finditer\<close> for a pattern without anchors or word boundaries that matches no empty text.\<close>

function re_finditer :: "regex \<Rightarrow> string \<Rightarrow> rmatch_obj list" where
  "re_finditer r s =
     (case re_search r s of
        None \<Rightarrow> []
      | Some m \<Rightarrow> m # (if s = [] then [] else
          re_finditer r (drop (max 1 (length (m_before m) + length (m_text m))) s)))"
  by pat_completeness auto
termination by (relation "measure (\<lambda>(r, s). length s)") auto

declare splitlines_acc.simps [simp del] replace_sub.simps [simp del] re_finditer.simps [simp del]

text \<open>The index of the last item with a property: a loop that overwrites.\<close>

fun last_index :: "('a \<Rightarrow> bool) \<Rightarrow> nat \<Rightarrow> 'a list \<Rightarrow> nat option" where
  "last_index P i [] = None"
| "last_index P i (x # xs) =
     (case last_index P (Suc i) xs of Some j \<Rightarrow> Some j | None \<Rightarrow> if P x then Some i else None)"

definition cells :: "char \<Rightarrow> string \<Rightarrow> string list" where
  "cells sep line = map strip (split_on sep line)"

section \<open>Printing lines and reading them back\<close>

definition unlines :: "string list \<Rightarrow> string" where
  "unlines ls = concat (map (\<lambda>l. l @ [newline]) ls)"

definition clean_line :: "string \<Rightarrow> bool" where
  "clean_line l \<longleftrightarrow> l \<noteq> [] \<and> strip l = l \<and> (\<forall>c \<in> set l. \<not> is_break c)"

lemma splitlines_acc_line:
  "\<forall>c \<in> set l. \<not> is_break c \<Longrightarrow> splitlines_acc acc (l @ newline # t) = (rev acc @ l) # splitlines_acc [] t"
  by (induction l arbitrary: acc) (auto simp: splitlines_acc.simps newline_def is_break_def cp_def)

lemma splitlines_unlines: "list_all (\<lambda>l. \<forall>c \<in> set l. \<not> is_break c) ls \<Longrightarrow> splitlines (unlines ls) = ls"
proof (induction ls)
  case Nil
  then show ?case by (simp add: splitlines_def unlines_def splitlines_acc.simps)
next
  case (Cons l ls)
  then show ?case using splitlines_acc_line[of l "[]" "unlines ls"]
    by (simp add: splitlines_def unlines_def)
qed

lemma text_lines_unlines: "list_all clean_line ls \<Longrightarrow> text_lines_of (unlines ls) = ls"
proof -
  assume ls: "list_all clean_line ls"
  then have "splitlines (unlines ls) = ls" by (intro splitlines_unlines) (auto simp: list_all_iff clean_line_def)
  moreover have "filter (\<lambda>l. l \<noteq> []) (map strip ls) = ls"
    using ls by (induction ls) (auto simp: clean_line_def)
  ultimately show ?thesis by (simp add: text_lines_of_def)
qed

text \<open>Words: not empty and without white space.\<close>

definition wordy :: "string \<Rightarrow> bool" where
  "wordy w \<longleftrightarrow> w \<noteq> [] \<and> (\<forall>c \<in> set w. \<not> is_space c)"

lemma break_space: "is_break c \<Longrightarrow> is_space c"
  by (auto simp: is_break_def is_space_def)

lemma split_ws_acc_word:
  "\<forall>c \<in> set w. \<not> is_space c \<Longrightarrow> is_space d \<Longrightarrow> w \<noteq> [] \<or> acc \<noteq> [] \<Longrightarrow>
   split_ws_acc acc (w @ d # s) = (rev acc @ w) # split_ws_acc [] s"
  by (induction w arbitrary: acc) auto

lemma split_ws_acc_end:
  "\<forall>c \<in> set w. \<not> is_space c \<Longrightarrow> w \<noteq> [] \<or> acc \<noteq> [] \<Longrightarrow> split_ws_acc acc w = [rev acc @ w]"
  by (induction w arbitrary: acc) auto

lemma split_ws_join: "list_all wordy ws \<Longrightarrow> split_ws (join '' '' ws) = ws"
proof (induction "'' ''" ws rule: join.induct)
  case (2 w)
  then show ?case using split_ws_acc_end[of w "[]"] by (simp add: split_ws_def wordy_def)
next
  case (3 w v vs)
  then show ?case using split_ws_acc_word[of w "CHR '' ''" "[]" "join '' '' (v # vs)"]
    by (simp add: split_ws_def wordy_def is_space_def cp_def)
qed (simp add: split_ws_def)

lemma wordy_strip: "wordy w \<Longrightarrow> strip w = w"
  by (intro strip_id) (auto simp: wordy_def)

lemma join_ends:
  "list_all wordy ws \<Longrightarrow> ws \<noteq> [] \<Longrightarrow>
   join '' '' ws \<noteq> [] \<and> hd (join '' '' ws) = hd (hd ws) \<and> last (join '' '' ws) = last (last ws)"
  by (induction "'' ''" ws rule: join.induct) (auto simp: wordy_def)

lemma join_clean: "list_all wordy ws \<Longrightarrow> ws \<noteq> [] \<Longrightarrow> clean_line (join '' '' ws)"
proof -
  assume ws: "list_all wordy ws" "ws \<noteq> []"
  have "wordy (hd ws)" "wordy (last ws)" using ws by (auto simp: list_all_iff)
  then have "\<not> is_space (hd (hd ws))" "\<not> is_space (last (last ws))" by (auto simp: wordy_def)
  then have "strip (join '' '' ws) = join '' '' ws" using join_ends[OF ws] by (intro strip_id) auto
  moreover have "\<forall>c \<in> set (join '' '' ws). \<not> is_break c"
    using ws(1)
  proof (induction "'' ''" ws rule: join.induct)
    case (3 w v vs)
    have "\<not> is_break (CHR '' '')" by (simp add: is_break_def cp_def)
    then show ?case using 3 by (auto simp: wordy_def dest: break_space)
  qed (auto simp: wordy_def dest: break_space)
  ultimately show ?thesis using join_ends[OF ws] by (simp add: clean_line_def)
qed

lemma str_int_wordy: "wordy (str_int i)"
proof -
  have "\<not> is_space c" if "c \<in> set (str_int i)" for c
    using str_int_chars[OF that] by (auto simp: is_digit_def is_space_def cp_def)
  then show ?thesis by (auto simp: wordy_def str_int_def)
qed

section \<open>Padded cells and plain numbers\<close>

lemma dropWhile_all: "\<forall>c \<in> set u. P c \<Longrightarrow> dropWhile P (u @ s) = dropWhile P s"
  by (induction u) auto

lemma rstrip_by_pad: "\<forall>c \<in> set v. P c \<Longrightarrow> rstrip_by P (s @ v) = rstrip_by P s"
  by (simp add: rstrip_by_def dropWhile_all)

lemma strip_padded:
  assumes "clean_line x" "\<forall>c \<in> set u. is_space c" "\<forall>c \<in> set v. is_space c"
  shows "strip (u @ x @ v) = x"
proof -
  obtain c t where x: "x = c # t" "strip x = x" using assms(1) by (cases x) (auto simp: clean_line_def)
  then have c: "\<not> is_space c" using strip_no_space_ends[of x] by simp
  have "strip (u @ x @ v) = rstrip (x @ v)"
    using x c assms(2) by (simp add: strip_def lstrip_def dropWhile_all)
  also have "\<dots> = rstrip x" using assms(3) by (simp add: rstrip_def rstrip_by_pad)
  also have "\<dots> = x" using x c by (simp add: strip_def lstrip_def)
  finally show ?thesis .
qed

text \<open>A natural number in decimal, read as a float.\<close>

lemma dec_run_digits: "\<forall>c \<in> set s. is_digit c \<Longrightarrow> dec_run s = (s, [])"
  by (simp add: dec_run_def)

lemma str_int_digits: "0 \<le> n \<Longrightarrow> c \<in> set (str_int n) \<Longrightarrow> is_digit c"
  by (simp add: str_int_def digits10_digit)

lemma py_float_nat:
  assumes "0 \<le> n"
  shows "py_float (str_int n) = Some (pf_of (of_int n))"
proof -
  let ?s = "str_int n"
  have d: "\<forall>c \<in> set ?s. is_digit c" using str_int_digits[OF assms] by blast
  have ne: "?s \<noteq> []" using str_int_wordy by (simp add: wordy_def)
  have st: "strip ?s = ?s" by (rule wordy_strip[OF str_int_wordy])
  have sgn: "\<not> starts_with ''-'' ?s" "\<not> starts_with ''+'' ?s"
    using d ne by (auto simp: starts_with_iff is_digit_def cp_def)
  have low: "lower ?s = ?s"
    using d by (induction ?s) (auto simp: lower_def to_lower_def is_digit_def is_upper_def intro!: map_idI)
  have num: "?s \<noteq> ''inf''" "?s \<noteq> ''infinity''" "?s \<noteq> ''nan''"
    using d by (auto simp: is_digit_def cp_def)
  have "parse_nat 10 ?s = Some n" using assms by (simp add: str_int_def parse_digits_of)
  then have "py_decimal ?s = Some (of_int n)"
    using ne d by (simp add: py_decimal_def dec_run_digits run_val_def exp_val_def Let_def)
  then show ?thesis using sgn num by (simp add: py_float_def Let_def st low)
qed

end
