(* ===== verification/TraceParser.thy ===== *)
theory TraceParser
  imports PyRegex PyFloat
begin

text \<open>
  The kernel-log parser of \<open>replay/parse_edac_trace.py\<close>: its regular expressions, the event
  record, the line parser with its two look-aheads, and the loop over a file. A conversion that
  Python could refuse (\<open>int\<close>, \<open>float\<close>) is an error value, and the lemmas show which of
  them can happen.
\<close>

section \<open>Data\<close>

datatype event_type = CE | UE | AER_CE | AER_UE | MCE
datatype subsystem = EDAC | AER | MCE_sub

text \<open>The five types can be listed, so a statement about all of them can be computed.\<close>

instantiation event_type :: enum
begin

definition enum_event_type :: "event_type list" where
  "enum_event_type = [CE, UE, AER_CE, AER_UE, MCE]"

definition enum_all_event_type :: "(event_type \<Rightarrow> bool) \<Rightarrow> bool" where
  "enum_all_event_type P \<longleftrightarrow> list_all P [CE, UE, AER_CE, AER_UE, MCE]"

definition enum_ex_event_type :: "(event_type \<Rightarrow> bool) \<Rightarrow> bool" where
  "enum_ex_event_type P \<longleftrightarrow> list_ex P [CE, UE, AER_CE, AER_UE, MCE]"

instance
proof
  show "(UNIV :: event_type set) = set enum_class.enum"
    by (auto simp: enum_event_type_def intro: event_type.exhaust)
  show "distinct (enum_class.enum :: event_type list)"
    by (simp add: enum_event_type_def)
  show "enum_class.enum_all P \<longleftrightarrow> Ball UNIV P" for P :: "event_type \<Rightarrow> bool"
    by (auto simp: enum_all_event_type_def) (metis event_type.exhaust)
  show "enum_class.enum_ex P \<longleftrightarrow> Bex UNIV P" for P :: "event_type \<Rightarrow> bool"
    by (auto simp: enum_ex_event_type_def) (metis event_type.exhaust)
qed

end

record hw_event =
  ev_seq :: int
  ev_timestamp_str :: string
  ev_timestamp_ns :: int
  ev_monotonic_s :: "pf option"
  ev_type :: event_type
  ev_subsystem :: subsystem
  ev_controller :: string
  ev_csrow :: "int option"
  ev_channel :: "int option"
  ev_count :: int
  ev_page :: "int option"
  ev_offset :: "int option"
  ev_grain :: "int option"
  ev_syndrome :: "string option"
  ev_pci_device :: "string option"
  ev_aer_error_type :: "string option"
  ev_raw_message :: string

text \<open>
  The attributes of a \<open>TraceParser\<close>. \<open>event_types\<close> holds the names the caller asked for:
  they come from a command-line option, so they may name no event type at all.
\<close>

record parser =
  p_event_types :: "string list"
  p_seq :: int
  p_pending_aer_device :: "string option"
  p_pending_aer_severity :: "string option"

fun event_type_name :: "event_type \<Rightarrow> string" where
  "event_type_name CE = ''CE''"
| "event_type_name UE = ''UE''"
| "event_type_name AER_CE = ''AER_CE''"
| "event_type_name AER_UE = ''AER_UE''"
| "event_type_name MCE = ''MCE''"

definition parser_init :: "string list option \<Rightarrow> parser" where
  "parser_init event_types =
     \<lparr>p_event_types = (case event_types of Some ts \<Rightarrow> ts
        | None \<Rightarrow> [''CE'', ''UE'', ''AER_CE'', ''AER_UE'', ''MCE'']),
      p_seq = 0, p_pending_aer_device = None, p_pending_aer_severity = None\<rparr>"

section \<open>Regular expressions\<close>

definition RE_MONOTONIC :: regex where
  "RE_MONOTONIC = Seqs [Bol, Lit ''['', Star Space,
     Grp 1 (Seqs [Plus Digit, Lit ''.'', Plus Digit]), Lit '']'']"

definition RE_SYSLOG_TS :: regex where
  "RE_SYSLOG_TS = Seqs [Bol, Grp 1 (Seqs [Rep 3 Word, Plus Space, Plus Digit, Plus Space,
     Rep 2 Digit, Lit '':'', Rep 2 Digit, Lit '':'', Rep 2 Digit]), Space]"

definition RE_EDAC_CE :: regex where
  "RE_EDAC_CE = Seqs [Lit ''EDAC'', Plus Space, Grp 1 (Seq (Lit ''MC'') (Plus Digit)), Lit '':'',
     Plus Space, Grp 2 (Plus Digit), Plus Space, Lit ''CE'', WordB]"

definition RE_EDAC_UE :: regex where
  "RE_EDAC_UE = Seqs [Lit ''EDAC'', Plus Space, Grp 1 (Seq (Lit ''MC'') (Plus Digit)), Lit '':'',
     Plus Space, Grp 2 (Plus Digit), Plus Space, Lit ''UE'', WordB]"

definition RE_EDAC_DETAILS :: regex where
  "RE_EDAC_DETAILS = Seqs [Lit ''('',
     Opt (Seqs [Lit ''mc:'', Plus Digit, Plus Space]),
     Opt (Seqs [Lit ''page:0x'', Grp 1 (Plus (Cls is_hex)), Star Space]),
     Opt (Seqs [Lit ''offset:0x'', Grp 2 (Plus (Cls is_hex)), Star Space]),
     Opt (Seqs [Lit ''grain:'', Grp 3 (Plus Digit), Star Space]),
     Opt (Seqs [Lit ''syndrome:0x'', Grp 4 (Plus (Cls is_hex))])]"

definition RE_EDAC_LOCATION :: regex where
  "RE_EDAC_LOCATION = Seqs [Lit ''csrow:'', Grp 1 (Plus Digit), Plus Space,
     Lit ''channel:'', Grp 2 (Plus Digit)]"

text \<open>\<open>[\da-fA-F:.]\<close> and \<open>[\w-]\<close>\<close>

definition is_bdf :: "char \<Rightarrow> bool" where
  "is_bdf c \<longleftrightarrow> is_hex c \<or> c = CHR '':'' \<or> c = CHR ''.''"

definition is_sev :: "char \<Rightarrow> bool" where
  "is_sev c \<longleftrightarrow> is_word c \<or> c = CHR ''-''"

definition RE_AER_CORRECTED :: regex where
  "RE_AER_CORRECTED = Seqs [Lit ''AER:'', Plus Space, Lit ''Corrected error received:'',
     Plus Space, Grp 1 (Plus (Cls is_bdf))]"

definition RE_AER_UNCORRECTED :: regex where
  "RE_AER_UNCORRECTED = Seqs [Lit ''AER:'', Plus Space, Lit ''Uncorrected'', Plus Space,
     Lit ''('', Grp 1 (Plus (Cls is_sev)), Lit '')'', Plus Space, Lit ''error received:'',
     Plus Space, Grp 2 (Plus (Cls is_bdf))]"

definition RE_AER_ERROR_TYPE :: regex where
  "RE_AER_ERROR_TYPE = Seqs [Lit ''['', Star Space, Plus Digit, Lit '']'', Plus Space,
     Grp 1 (Plus (Cls not_nl))]"

definition RE_MCE :: regex where
  "RE_MCE = Seqs [Alt (ILit ''mce:'') (Alt (ILit ''Machine check'')
       (Seqs [ILit ''MCE'', Plus Space, Plus Digit])),
     Star (Cls not_nl), ILit ''Hardware Error'']"

text \<open>The two prefixes \<open>_parse_line\<close> strips: the monotonic and the syslog time stamp.\<close>

definition RE_STRIP_MONO :: regex where
  "RE_STRIP_MONO = Seqs [Bol, Lit ''['', Plus (Cls (\<lambda>c. is_space c \<or> is_digit c \<or> c = CHR ''.'')),
     Lit '']'', Star Space]"

definition RE_STRIP_SYSLOG :: regex where
  "RE_STRIP_SYSLOG = Seqs [Bol, Rep 3 Word, Plus Space, Plus Digit, Plus Space,
     Rep 2 Digit, Lit '':'', Rep 2 Digit, Lit '':'', Rep 2 Digit, Plus Space,
     Plus (Cls (\<lambda>c. \<not> is_space c)), Plus Space, Lit ''kernel:'', Star Space]"

section \<open>The line parser\<close>

text \<open>
  \<open>m.group(n)\<close>. A group that took no part is Python's \<open>None\<close>, here the empty string: every
  use of such a group in the code tests it for truth first, and both are false.
\<close>

definition grp :: "rmatch_obj \<Rightarrow> nat \<Rightarrow> string" where
  "grp m n = (case m_group m n of Some u \<Rightarrow> u | None \<Rightarrow> [])"

definition to_int :: "string \<Rightarrow> int py" where
  "to_int s = (case py_int s of Some i \<Rightarrow> Inr i | None \<Rightarrow> Inl (ValueError s))"

definition to_int16 :: "string \<Rightarrow> int py" where
  "to_int16 s = (case py_int16 s of Some i \<Rightarrow> Inr i | None \<Rightarrow> Inl (ValueError s))"

definition to_float :: "string \<Rightarrow> pf py" where
  "to_float s = (case py_float s of Some x \<Rightarrow> Inr x | None \<Rightarrow> Inl (ValueError s))"

text \<open>\<open>f(dm.group(n)) if dm and dm.group(n) else None\<close>\<close>

definition opt_group :: "(string \<Rightarrow> 'a py) \<Rightarrow> rmatch_obj option \<Rightarrow> nat \<Rightarrow> 'a option py" where
  "opt_group f dm n =
     (case dm of None \<Rightarrow> Inr None
      | Some m \<Rightarrow> (if grp m n = [] then Inr None else py_bind (f (grp m n)) (\<lambda>x. Inr (Some x))))"

definition extract_timestamp :: "string \<Rightarrow> (pf option \<times> string) py" where
  "extract_timestamp line =
     (case re_match RE_MONOTONIC line of
        Some m \<Rightarrow> py_bind (to_float (grp m 1)) (\<lambda>mts.
          Inr (Some mts, ''['' @ grp m 1 @ '']''))
      | None \<Rightarrow>
          (case re_match RE_SYSLOG_TS line of
             Some m \<Rightarrow> Inr (None, grp m 1)
           | None \<Rightarrow> Inr (None, [])))"

text \<open>The lines \<open>idx + 1 .. min(idx + lookahead, len - 1)\<close> both look-aheads scan.\<close>

definition window :: "string list \<Rightarrow> nat \<Rightarrow> nat \<Rightarrow> string list" where
  "window lines idx lookahead = take lookahead (drop (idx + 1) lines)"

fun first_aer_type :: "string list \<Rightarrow> string option" where
  "first_aer_type [] = None"
| "first_aer_type (l # ls) =
     (case re_search RE_AER_ERROR_TYPE l of
        Some m \<Rightarrow> Some (strip (grp m 1)) | None \<Rightarrow> first_aer_type ls)"

definition look_ahead_aer_type :: "string list \<Rightarrow> nat \<Rightarrow> string option" where
  "look_ahead_aer_type lines idx = first_aer_type (window lines idx 5)"

definition chomp :: "string \<Rightarrow> string" where
  "chomp l = rstrip_chr (char_of (10 :: int)) l"

fun first_location :: "string list \<Rightarrow> string" where
  "first_location [] = []"
| "first_location (l # ls) =
     (if re_search RE_EDAC_LOCATION (chomp l) \<noteq> None then chomp l else first_location ls)"

definition look_ahead_edac_location :: "string list \<Rightarrow> nat \<Rightarrow> string" where
  "look_ahead_edac_location lines idx = first_location (window lines idx 3)"

text \<open>\<open>int(monotonic_s * 1e9) if monotonic_s else 0\<close>\<close>

definition timestamp_ns :: "pf option \<Rightarrow> int py" where
  "timestamp_ns mts =
     (case mts of None \<Rightarrow> Inr 0
      | Some x \<Rightarrow> (if pf_truthy x then pf_int (pf_scale 1000000000 x) else Inr 0))"

definition bump_seq :: "parser \<Rightarrow> parser" where
  "bump_seq p = p\<lparr>p_seq := p_seq p + 1\<rparr>"

definition make_edac_event ::
    "parser \<Rightarrow> event_type \<Rightarrow> rmatch_obj \<Rightarrow> string \<Rightarrow> string \<Rightarrow> pf option \<Rightarrow> string \<Rightarrow>
     (hw_event \<times> parser) py" where
  "make_edac_event p etype m clean raw mts tstr =
     (let controller = grp m 1 in
      py_bind (to_int (grp m 2)) (\<lambda>count.
      let dm = re_search RE_EDAC_DETAILS clean in
      py_bind (opt_group to_int16 dm 1) (\<lambda>page.
      py_bind (opt_group to_int16 dm 2) (\<lambda>offset.
      py_bind (opt_group to_int dm 3) (\<lambda>grain.
      py_bind (opt_group Inr dm 4) (\<lambda>syndrome.
      py_bind (case re_search RE_EDAC_LOCATION clean of
                 None \<Rightarrow> Inr (None, None)
               | Some lm \<Rightarrow> py_bind (to_int (grp lm 1)) (\<lambda>r.
                   py_bind (to_int (grp lm 2)) (\<lambda>c. Inr (Some r, Some c)))) (\<lambda>(csrow, channel).
      py_bind (timestamp_ns mts) (\<lambda>ns.
        Inr (\<lparr>ev_seq = p_seq p, ev_timestamp_str = tstr, ev_timestamp_ns = ns,
              ev_monotonic_s = mts, ev_type = etype, ev_subsystem = EDAC,
              ev_controller = controller, ev_csrow = csrow, ev_channel = channel,
              ev_count = count, ev_page = page, ev_offset = offset, ev_grain = grain,
              ev_syndrome = syndrome, ev_pci_device = None, ev_aer_error_type = None,
              ev_raw_message = strip raw\<rparr>, bump_seq p)))))))))"

definition make_aer_event ::
    "parser \<Rightarrow> event_type \<Rightarrow> string \<Rightarrow> string option \<Rightarrow> string \<Rightarrow> pf option \<Rightarrow> string \<Rightarrow>
     (hw_event \<times> parser) py" where
  "make_aer_event p etype device aer_type raw mts tstr =
     py_bind (timestamp_ns mts) (\<lambda>ns.
        Inr (\<lparr>ev_seq = p_seq p, ev_timestamp_str = tstr, ev_timestamp_ns = ns,
              ev_monotonic_s = mts, ev_type = etype, ev_subsystem = AER,
              ev_controller = [], ev_csrow = None, ev_channel = None,
              ev_count = 1, ev_page = None, ev_offset = None, ev_grain = None,
              ev_syndrome = None, ev_pci_device = Some device, ev_aer_error_type = aer_type,
              ev_raw_message = strip raw\<rparr>, bump_seq p))"

definition make_mce_event ::
    "parser \<Rightarrow> string \<Rightarrow> pf option \<Rightarrow> string \<Rightarrow> (hw_event \<times> parser) py" where
  "make_mce_event p raw mts tstr =
     py_bind (timestamp_ns mts) (\<lambda>ns.
        Inr (\<lparr>ev_seq = p_seq p, ev_timestamp_str = tstr, ev_timestamp_ns = ns,
              ev_monotonic_s = mts, ev_type = MCE, ev_subsystem = MCE_sub,
              ev_controller = [], ev_csrow = None, ev_channel = None,
              ev_count = 1, ev_page = None, ev_offset = None, ev_grain = None,
              ev_syndrome = None, ev_pci_device = None, ev_aer_error_type = None,
              ev_raw_message = strip raw\<rparr>, bump_seq p))"

text \<open>The line without its time stamp.\<close>

definition clean_line :: "string \<Rightarrow> string" where
  "clean_line line = re_drop_prefix RE_STRIP_SYSLOG (re_drop_prefix RE_STRIP_MONO line)"

text \<open>What a line is, in the order in which \<open>_parse_line\<close> tries its patterns.\<close>

datatype line_class =
    Edac event_type rmatch_obj
  | Aer event_type string
  | Mce

definition or_else :: "'a option \<Rightarrow> 'a option \<Rightarrow> 'a option" where
  "or_else a b = (case a of Some x \<Rightarrow> Some x | None \<Rightarrow> b)"

definition classify_edac :: "string \<Rightarrow> line_class option" where
  "classify_edac clean =
     or_else
       (case re_search RE_EDAC_CE clean of
          Some m \<Rightarrow> (if \<not> contains ''UE'' (m_before m) then Some (Edac CE m) else None)
        | None \<Rightarrow> None)
       (map_option (Edac UE) (re_search RE_EDAC_UE clean))"

definition classify_aer :: "string \<Rightarrow> line_class option" where
  "classify_aer clean =
     or_else
       (map_option (\<lambda>m. Aer AER_CE (grp m 1)) (re_search RE_AER_CORRECTED clean))
       (map_option (\<lambda>m. Aer AER_UE (grp m 2)) (re_search RE_AER_UNCORRECTED clean))"

definition classify :: "string \<Rightarrow> line_class option" where
  "classify clean =
     or_else (if contains ''EDAC'' clean then classify_edac clean else None)
       (or_else (if contains ''AER'' clean then classify_aer clean else None)
         (if re_search RE_MCE clean \<noteq> None then Some Mce else None))"

definition parse_line ::
    "parser \<Rightarrow> string \<Rightarrow> string list \<Rightarrow> nat \<Rightarrow> (hw_event option \<times> parser) py" where
  "parse_line p line lines idx =
     py_bind (extract_timestamp line) (\<lambda>(mts, tstr).
     let clean = clean_line line;
         wrap = (\<lambda>r. py_bind r (\<lambda>(ev, p). Inr (Some ev, p)))
     in case classify clean of
          Some (Edac etype m) \<Rightarrow>
            wrap (make_edac_event p etype m
                    (clean @ '' '' @ look_ahead_edac_location lines idx) line mts tstr)
        | Some (Aer etype device) \<Rightarrow>
            (let p = (if etype = AER_CE
                      then p\<lparr>p_pending_aer_device := Some device,
                             p_pending_aer_severity := Some ''AER_CE''\<rparr> else p)
             in wrap (make_aer_event p etype device (look_ahead_aer_type lines idx) line mts tstr))
        | Some Mce \<Rightarrow> wrap (make_mce_event p line mts tstr)
        | None \<Rightarrow> Inr (None, p))"

text \<open>The loop of \<open>parse_file\<close> over the lines from index \<open>i\<close> on.\<close>

fun parse_lines :: "parser \<Rightarrow> string list \<Rightarrow> nat \<Rightarrow> string list \<Rightarrow> (hw_event list \<times> parser) py" where
  "parse_lines p lines i [] = Inr ([], p)"
| "parse_lines p lines i (l # ls) =
     (let line = chomp l in
      if strip line = [] then parse_lines p lines (i + 1) ls
      else py_bind (parse_line p line lines i) (\<lambda>(ev, p').
           py_bind (parse_lines p' lines (i + 1) ls) (\<lambda>(evs, p'').
             Inr (case ev of
                    Some e \<Rightarrow> (if event_type_name (ev_type e) \<in> set (p_event_types p)
                              then e # evs else evs)
                  | None \<Rightarrow> evs, p''))))"

definition parse_file :: "parser \<Rightarrow> string list \<Rightarrow> (hw_event list \<times> parser) py" where
  "parse_file p lines = parse_lines p lines 0 lines"

end
