(* ===== verification/TraceParserProps.thy ===== *)
theory TraceParserProps
  imports TraceParser "HOL-Library.Sublist"
begin

text \<open>
  What the kernel-log parser guarantees: no conversion fails, the shape of the events of each
  type, the numbering and order of the events, and that filtering by type is a filter of the
  unfiltered run.
\<close>

section \<open>The captures convert\<close>

abbreviation digits :: "string \<Rightarrow> bool" where
  "digits u \<equiv> u \<noteq> [] \<and> (\<forall>c \<in> set u. is_digit c)"

lemma re_groups:
  "groups RE_EDAC_CE = {(1, Seq (Lit ''MC'') (Plus Digit)), (2, Plus Digit)}"
  "groups RE_EDAC_UE = {(1, Seq (Lit ''MC'') (Plus Digit)), (2, Plus Digit)}"
  "groups RE_EDAC_LOCATION = {(1, Plus Digit), (2, Plus Digit)}"
  "groups RE_EDAC_DETAILS =
     {(1, Plus (Cls is_hex)), (2, Plus (Cls is_hex)), (3, Plus Digit), (4, Plus (Cls is_hex))}"
  "groups RE_AER_CORRECTED = {(1, Plus (Cls is_bdf))}"
  "groups RE_AER_UNCORRECTED = {(1, Plus (Cls is_sev)), (2, Plus (Cls is_bdf))}"
  "groups RE_MONOTONIC = {(1, Seqs [Plus Digit, Lit ''.'', Plus Digit])}"
  by (auto simp: RE_EDAC_CE_def RE_EDAC_UE_def RE_EDAC_LOCATION_def RE_EDAC_DETAILS_def
      RE_AER_CORRECTED_def RE_AER_UNCORRECTED_def RE_MONOTONIC_def)

lemma re_mandatory:
  "mandatory RE_EDAC_CE = {1, 2}" "mandatory RE_EDAC_UE = {1, 2}"
  "mandatory RE_EDAC_LOCATION = {1, 2}" "mandatory RE_AER_CORRECTED = {1}"
  "mandatory RE_AER_UNCORRECTED = {1, 2}" "mandatory RE_MONOTONIC = {1}"
  by (auto simp: RE_EDAC_CE_def RE_EDAC_UE_def RE_EDAC_LOCATION_def
      RE_AER_CORRECTED_def RE_AER_UNCORRECTED_def RE_MONOTONIC_def)

lemma grp_Some: "m_group m n = Some u \<Longrightarrow> grp m n = u"
  by (simp add: grp_def)

lemma grp_word:
  assumes "match_ok r s m" "n \<in> mandatory r" "\<And>b. (n, b) \<in> groups r \<Longrightarrow> b = g"
  shows "words g (grp m n)"
  using match_ok_group[OF assms] by (auto simp: grp_Some)

lemma edac_groups:
  assumes "re_search RE_EDAC_CE s = Some m \<or> re_search RE_EDAC_UE s = Some m"
  shows "\<exists>d. grp m 1 = ''MC'' @ d \<and> digits d" "digits (grp m 2)"
proof -
  from assms have ok: "match_ok RE_EDAC_CE s m \<or> match_ok RE_EDAC_UE s m"
    using re_search_ok by blast
  then have "words (Seq (Lit ''MC'') (Plus Digit)) (grp m 1)"
    by (elim disjE; elim grp_word; simp add: re_groups re_mandatory)
  then show "\<exists>d. grp m 1 = ''MC'' @ d \<and> digits d"
    by (auto simp: words_plus_cls)
  from ok have "words (Plus Digit) (grp m 2)"
    by (elim disjE; elim grp_word; simp add: re_groups re_mandatory)
  then show "digits (grp m 2)"
    by (simp add: words_plus_cls)
qed

lemma location_groups:
  assumes "re_search RE_EDAC_LOCATION s = Some m"
  shows "digits (grp m 1)" "digits (grp m 2)"
proof -
  from assms have ok: "match_ok RE_EDAC_LOCATION s m" by (rule re_search_ok)
  show "digits (grp m 1)" "digits (grp m 2)"
    using grp_word[OF ok, of 1 "Plus Digit"] grp_word[OF ok, of 2 "Plus Digit"]
    by (simp_all add: re_groups re_mandatory words_plus_cls)
qed

lemma details_groups:
  assumes "re_search RE_EDAC_DETAILS s = Some m"
  shows "n = 1 \<or> n = 2 \<or> n = 4 \<Longrightarrow> \<forall>c \<in> set (grp m n). is_hex c"
    and "\<forall>c \<in> set (grp m 3). is_digit c"
proof -
  from assms have ok: "match_ok RE_EDAC_DETAILS s m" by (rule re_search_ok)
  then have g: "\<exists>b. (n, b) \<in> groups RE_EDAC_DETAILS \<and> words b u" if "m_group m n = Some u" for n u
    using that unfolding match_ok_def by blast
  show "n = 1 \<or> n = 2 \<or> n = 4 \<Longrightarrow> \<forall>c \<in> set (grp m n). is_hex c"
    using g[of n] by (cases "m_group m n") (auto simp: grp_def re_groups words_plus_cls)
  show "\<forall>c \<in> set (grp m 3). is_digit c"
    using g[of 3] by (cases "m_group m 3") (auto simp: grp_def re_groups words_plus_cls)
qed

lemma to_int_digits: "digits u \<Longrightarrow> length u \<le> MAX_STR_DIGITS \<Longrightarrow> \<exists>n \<ge> 0. to_int u = Inr n"
  using py_int_digits[of u] by (auto simp: to_int_def)

text \<open>Beyond that length the conversion raises.\<close>

lemma to_int_long: "digits u \<Longrightarrow> MAX_STR_DIGITS < length u \<Longrightarrow> to_int u = Inl (ValueError u)"
  using py_int_digits[of u] by (auto simp: to_int_def)

text \<open>The longest run of digits in a text; a run that a group captures is no longer.\<close>

fun digit_run :: "nat \<Rightarrow> string \<Rightarrow> nat" where
  "digit_run n [] = n"
| "digit_run n (c # s) = (if is_digit c then digit_run (Suc n) s else max n (digit_run 0 s))"

lemma digit_run_ge: "n \<le> digit_run n s"
proof (induction s arbitrary: n)
  case (Cons c s)
  have "n \<le> digit_run (Suc n) s" using Cons[of "Suc n"] by simp
  then show ?case by simp
qed simp

lemma digit_run_mono: "n \<le> k \<Longrightarrow> digit_run n s \<le> digit_run k s"
  by (induction s arbitrary: n k) auto

lemma digit_run_suffix: "digit_run 0 b \<le> digit_run n (a @ b)"
proof (induction a arbitrary: n)
  case Nil
  then show ?case by (simp add: digit_run_mono)
next
  case (Cons c a)
  then show ?case by (auto simp: le_max_iff_disj)
qed

lemma digit_run_digits: "\<forall>c \<in> set u. is_digit c \<Longrightarrow> n + length u \<le> digit_run n (u @ b)"
proof (induction u arbitrary: n)
  case Nil
  then show ?case by (simp add: digit_run_ge)
next
  case (Cons c u)
  then show ?case using Cons.IH[of "Suc n"] by simp
qed

lemma digit_run_factor: "factor u s \<Longrightarrow> \<forall>c \<in> set u. is_digit c \<Longrightarrow> length u \<le> digit_run 0 s"
  unfolding factor_def using digit_run_digits[of u 0] digit_run_suffix order_trans by fastforce

lemma digit_run_join: "digit_run n (a @ CHR '' '' # b) = max (digit_run n a) (digit_run 0 b)"
proof -
  have "\<not> is_digit (CHR '' '')" by (simp add: is_digit_def cp_def)
  then show ?thesis by (induction a arbitrary: n) auto
qed

lemma grp_factor: "re_search r s = Some m \<Longrightarrow> factor (grp m n) s"
  using re_search_factor[of r s m n] by (cases "m_group m n") (auto simp: grp_def factor_def)

definition runs_ok :: "string \<Rightarrow> bool" where
  "runs_ok s \<longleftrightarrow> digit_run 0 s \<le> MAX_STR_DIGITS"

lemma grp_length:
  "re_search r s = Some m \<Longrightarrow> runs_ok s \<Longrightarrow> \<forall>c \<in> set (grp m n). is_digit c \<Longrightarrow> length (grp m n) \<le> MAX_STR_DIGITS"
  using digit_run_factor[OF grp_factor] by (fastforce simp: runs_ok_def)

lemma runs_ok_empty [simp]: "runs_ok []"
  by (simp add: runs_ok_def)

lemma runs_ok_join: "runs_ok a \<Longrightarrow> runs_ok b \<Longrightarrow> runs_ok (a @ '' '' @ b)"
  by (simp add: runs_ok_def digit_run_join)

lemma runs_ok_clean: "runs_ok line \<Longrightarrow> runs_ok (clean_line line)"
proof -
  have d: "runs_ok s \<Longrightarrow> runs_ok (re_drop_prefix r s)" for r s
    using re_drop_prefix_suffix[of s r] digit_run_suffix[of "re_drop_prefix r s" 0]
    unfolding runs_ok_def by (metis order_trans)
  show "runs_ok line \<Longrightarrow> runs_ok (clean_line line)" by (simp add: clean_line_def d)
qed

lemma runs_ok_location: "\<forall>l \<in> set lines. runs_ok (chomp l) \<Longrightarrow> runs_ok (look_ahead_edac_location lines idx)"
proof -
  have "runs_ok (first_location ls)" if "\<forall>l \<in> set ls. runs_ok (chomp l)" for ls
    using that by (induction ls) auto
  then show "\<forall>l \<in> set lines. runs_ok (chomp l) \<Longrightarrow> runs_ok (look_ahead_edac_location lines idx)"
    unfolding look_ahead_edac_location_def window_def by (meson in_set_dropD in_set_takeD)
qed

lemma to_int16_hex:
  assumes "u \<noteq> []" "\<forall>c \<in> set u. is_hex c"
  shows "\<exists>n \<ge> 0. to_int16 u = Inr n"
proof -
  have d: "digit_val 16 c \<noteq> None" if "c \<in> set u" for c
    using that assms(2) by (simp add: is_hex_def)
  then have "py_int16 u = parse_nat 16 u"
    using assms(1) by (intro py_int16_digits) auto
  moreover have "\<exists>n \<ge> 0. parse_nat 16 u = Some n"
    using assms(1) d by (intro parse_nat_total) auto
  ultimately show ?thesis by (auto simp: to_int16_def)
qed

definition opt_nonneg :: "int option \<Rightarrow> bool" where
  "opt_nonneg x = (case x of None \<Rightarrow> True | Some n \<Rightarrow> 0 \<le> n)"

lemma opt_nonneg_simps [simp]: "opt_nonneg None" "opt_nonneg (Some n) \<longleftrightarrow> 0 \<le> n"
  by (simp_all add: opt_nonneg_def)

lemma opt_group_hex:
  "n = 1 \<or> n = 2 \<Longrightarrow> \<exists>x. opt_group to_int16 (re_search RE_EDAC_DETAILS s) n = Inr x \<and> opt_nonneg x"
  using details_groups(1)[of s _ n] to_int16_hex
  by (fastforce simp: opt_group_def split: option.splits)

lemma opt_group_dec:
  assumes "runs_ok s"
  shows "\<exists>x. opt_group to_int (re_search RE_EDAC_DETAILS s) 3 = Inr x \<and> opt_nonneg x"
proof (cases "re_search RE_EDAC_DETAILS s")
  case (Some m)
  then have d: "\<forall>c \<in> set (grp m 3). is_digit c" by (rule details_groups(2))
  then have "length (grp m 3) \<le> MAX_STR_DIGITS" by (rule grp_length[OF Some assms])
  then show ?thesis using to_int_digits[of "grp m 3"] d Some by (auto simp: opt_group_def)
qed (simp add: opt_group_def)

lemma opt_group_str: "\<exists>x. opt_group Inr dm n = Inr x"
  by (auto simp: opt_group_def split: option.splits)

lemma location_total:
  assumes "runs_ok s"
  shows "\<exists>r c. (case re_search RE_EDAC_LOCATION s of
            None \<Rightarrow> Inr (None, None)
          | Some lm \<Rightarrow> py_bind (to_int (grp lm 1)) (\<lambda>r.
              py_bind (to_int (grp lm 2)) (\<lambda>c. Inr (Some r, Some c)))) = Inr (r, c) \<and>
         opt_nonneg r \<and> opt_nonneg c \<and> (r = None \<longleftrightarrow> c = None)"
proof (cases "re_search RE_EDAC_LOCATION s")
  case (Some lm)
  then obtain r c where "to_int (grp lm 1) = Inr r" "0 \<le> r" "to_int (grp lm 2) = Inr c" "0 \<le> c"
    using location_groups[OF Some] to_int_digits grp_length[OF Some assms] by metis
  with Some show ?thesis by auto
qed simp

section \<open>Time stamps\<close>

lemma parse_digits_bound:
  "\<forall>c \<in> set s. is_digit c \<Longrightarrow> 0 \<le> acc \<Longrightarrow>
   \<exists>n. parse_digits 10 acc s = Some n \<and> 0 \<le> n \<and> n < (acc + 1) * 10 ^ length s"
proof (induction s arbitrary: acc)
  case Nil
  then show ?case by simp
next
  case (Cons c s)
  let ?v = "cp c - 48"
  have v: "digit_val 10 c = Some ?v" "0 \<le> ?v" "?v < 10"
    using Cons.prems digit_val_digit[of c] digit_val_nonneg[of 10 c ?v] by auto
  have "0 \<le> acc * 10 + ?v" using v Cons.prems by simp
  then obtain n where n: "parse_digits 10 (acc * 10 + ?v) s = Some n" "0 \<le> n"
      "n < (acc * 10 + ?v + 1) * 10 ^ length s"
    using Cons.IH[of "acc * 10 + ?v"] Cons.prems by auto
  have "(acc * 10 + ?v + 1) * 10 ^ length s \<le> ((acc + 1) * 10) * 10 ^ length s"
    using v by (intro mult_right_mono) auto
  with n(3) have "n < ((acc + 1) * 10) * 10 ^ length s"
    by (rule less_le_trans)
  then have "n < (acc + 1) * 10 ^ length (c # s)"
    by (simp add: algebra_simps)
  with n v show ?case by auto
qed

lemma parse_nat_bound:
  assumes "digits s"
  shows "\<exists>n. parse_nat 10 s = Some n \<and> 0 \<le> n \<and> n < 10 ^ length s"
proof -
  obtain c t where ct: "s = c # t" using assms by (cases s) auto
  let ?v = "cp c - 48"
  have v: "digit_val 10 c = Some ?v" "0 \<le> ?v" "?v < 10"
    using assms ct digit_val_digit[of c] digit_val_nonneg[of 10 c ?v] by auto
  then obtain n where n: "parse_digits 10 ?v t = Some n" "0 \<le> n" "n < (?v + 1) * 10 ^ length t"
    using parse_digits_bound[of t ?v] assms ct by auto
  have "(?v + 1) * 10 ^ length t \<le> 10 * 10 ^ length t"
    using v by (intro mult_right_mono) auto
  with n(3) have "n < 10 * 10 ^ length t"
    by (rule less_le_trans)
  then have "n < 10 ^ length s"
    using ct by simp
  with n v ct show ?thesis by (auto simp: parse_nat_def)
qed

lemma span_digits:
  assumes "\<forall>c \<in> set u. is_digit c" "t = [] \<or> \<not> is_digit (hd t) \<and> hd t \<noteq> CHR ''_''"
  shows "dec_run (u @ t) = (u, t)"
proof -
  have "takeWhile (\<lambda>c. is_digit c \<or> c = CHR ''_'') (u @ t) = u"
    using assms by (cases t) (auto simp: takeWhile_append)
  moreover have "dropWhile (\<lambda>c. is_digit c \<or> c = CHR ''_'') (u @ t) = t"
    using assms by (cases t) (auto simp: dropWhile_append)
  ultimately show ?thesis by (simp add: dec_run_def)
qed

lemma not_digit_chars: "\<not> is_digit (CHR ''.'')" "\<not> is_digit (CHR ''i'')" "\<not> is_digit (CHR ''n'')"
  "\<not> is_digit (CHR ''-'')" "\<not> is_digit (CHR ''+'')"
  by code_simp+

lemma to_lower_digit: "is_digit c \<Longrightarrow> to_lower c = c"
  by (auto simp: to_lower_def is_upper_def is_digit_def)

text \<open>The text of a time stamp, \<open>\d+\.\d+\<close>, is a float of the expected size.\<close>

lemma py_float_decimal:
  assumes "digits u" "digits v"
  shows "\<exists>q. py_float (u @ CHR ''.'' # v) = Some (pf_of q) \<and> 0 \<le> q \<and> q < 10 ^ length u + 1"
proof -
  obtain c t where ct: "u = c # t" "is_digit c" using assms(1) by (cases u) auto
  let ?s = "u @ CHR ''.'' # v"
  have dig: "\<not> is_space x" if "is_digit x" for x
    using that by (auto simp: is_digit_def is_space_def)
  have st: "strip ?s = ?s"
    using ct assms(2) dig by (intro strip_id) auto
  have sign: "\<not> starts_with ''-'' ?s" "\<not> starts_with ''+'' ?s"
    using ct not_digit_chars by (auto simp: starts_with_def)
  have low: "lower ?s \<noteq> ''inf''" "lower ?s \<noteq> ''infinity''" "lower ?s \<noteq> ''nan''"
    using ct not_digit_chars to_lower_digit[of c] by (auto simp: lower_def)
  obtain i where i: "parse_nat 10 u = Some i" "0 \<le> i" "i < 10 ^ length u"
    using parse_nat_bound[OF assms(1)] by auto
  obtain f where f: "parse_nat 10 v = Some f" "0 \<le> f" "f < 10 ^ length v"
    using parse_nat_bound[OF assms(2)] by auto
  have "filter is_digit v = v" using assms(2) by (simp add: filter_id_conv)
  moreover have "dec_run ?s = (u, CHR ''.'' # v)" "dec_run v = (v, [])"
    using assms not_digit_chars span_digits[of u "CHR ''.'' # v"] span_digits[of v "[]"] by auto
  ultimately have "py_decimal ?s = Some (of_int i + of_int f / 10 ^ length v)"
    using assms i f by (simp add: py_decimal_def run_val_def exp_val_def)
  then have "py_float ?s = Some (pf_of (of_int i + of_int f / 10 ^ length v))"
    unfolding py_float_def Let_def using st sign low by simp
  moreover have "(of_int f :: rat) < of_int (10 ^ length v)" "(of_int i :: rat) < of_int (10 ^ length u)"
    using i(3) f(3) by (simp_all only: of_int_less_iff)
  then have "of_int f / 10 ^ length v < (1 :: rat)" "(of_int i :: rat) < 10 ^ length u"
    by (simp_all add: field_simps)
  moreover have "0 \<le> of_int f / (10 :: rat) ^ length v" "0 \<le> (of_int i :: rat)"
    using i f by simp_all
  ultimately show ?thesis
    by (intro exI[of _ "of_int i + of_int f / 10 ^ length v"]) linarith
qed

text \<open>
  The text between the brackets of the monotonic time stamp has at most 290 characters: then
  the time in nanoseconds is a finite float.
\<close>

definition short_stamp :: "string \<Rightarrow> bool" where
  "short_stamp line =
     (case re_match RE_MONOTONIC line of None \<Rightarrow> True | Some m \<Rightarrow> length (grp m 1) \<le> 290)"

lemma pow10_290: "(10 :: rat) ^ 288 + 1 \<le> 2 ^ 960"
proof -
  have "(10 :: int) ^ 288 + 1 \<le> 2 ^ 960" by simp
  then have "rat_of_int (10 ^ 288 + 1) \<le> rat_of_int (2 ^ 960)" by (simp only: of_int_le_iff)
  then show ?thesis by (simp only: of_int_add of_int_power of_int_numeral of_int_1)
qed

lemma stamp_total:
  assumes "0 \<le> q" "q < 2 ^ 960"
  shows "\<exists>n \<ge> 0. timestamp_ns (Some (pf_of q)) = Inr n"
proof -
  have le: "(2 :: rat) ^ 960 \<le> 2 ^ 1000" "(2 :: rat) ^ 960 * 1000000000 \<le> 2 ^ 1000"
    by simp_all
  then have q: "pf_of q = Fin (rnd q)" using assms by (intro pf_of_small) auto
  have f: "is_f64 (2 ^ 960)" using is_f64_mult[of 1 960] by simp
  then have r: "0 \<le> rnd q" "rnd q \<le> 2 ^ 960"
    using assms by (auto intro: rnd_le rnd_nonneg)
  have "rnd q * 1000000000 \<le> 2 ^ 960 * 1000000000"
    using r by (intro mult_right_mono) auto
  then have b: "rnd q * 1000000000 \<le> 2 ^ 1000" using le(2) by (rule order_trans)
  have "pf_of (rnd q * 1000000000) = Fin (rnd (rnd q * 1000000000))"
    using b r by (intro pf_of_small) (simp add: abs_le_iff)
  moreover have "0 \<le> rnd (rnd q * 1000000000)"
    using r by (intro rnd_nonneg) simp
  ultimately show ?thesis using q
    by (auto simp: timestamp_ns_def ftrunc_def pf_truthy_def)
qed

lemma extract_total:
  assumes "short_stamp line"
  shows "\<exists>mts tstr n. extract_timestamp line = Inr (mts, tstr) \<and> timestamp_ns mts = Inr n \<and> 0 \<le> n"
proof (cases "re_match RE_MONOTONIC line")
  case None
  then show ?thesis
    by (cases "re_match RE_SYSLOG_TS line") (auto simp: extract_timestamp_def timestamp_ns_def)
next
  case (Some m)
  then have "words (Seqs [Plus Digit, Lit ''.'', Plus Digit]) (grp m 1)"
    using grp_word[OF conjunct1[OF re_match_ok[OF Some]], of 1]
    by (simp add: re_groups re_mandatory del: Seqs.simps words_simps)
  then obtain u v where uv: "grp m 1 = u @ CHR ''.'' # v" "digits u" "digits v"
    by (auto simp: words_plus_cls)
  then obtain q where q: "py_float (grp m 1) = Some (pf_of q)" "0 \<le> q" "q < 10 ^ length u + 1"
    using py_float_decimal by metis
  have "length u + 1 + length v \<le> 290"
    using assms Some uv by (simp add: short_stamp_def)
  moreover have "1 \<le> length v" using uv by (cases v) auto
  ultimately have "length u \<le> 288" by linarith
  then have "(10 :: rat) ^ length u \<le> 10 ^ 288" by (intro power_increasing) auto
  then have "q < 2 ^ 960" using q(3) pow10_290 by linarith
  then show ?thesis
    using Some q stamp_total[of q] by (auto simp: extract_timestamp_def to_float_def)
qed

section \<open>The events\<close>

definition is_bdf_str :: "string \<Rightarrow> bool" where
  "is_bdf_str d \<longleftrightarrow> d \<noteq> [] \<and> (\<forall>c \<in> set d. is_bdf c)"

definition ev_wf :: "hw_event \<Rightarrow> bool" where
  "ev_wf e \<longleftrightarrow> 0 \<le> ev_timestamp_ns e \<and>
     (case ev_type e of
        MCE \<Rightarrow> ev_subsystem e = MCE_sub \<and> ev_controller e = [] \<and> ev_count e = 1 \<and>
               ev_csrow e = None \<and> ev_channel e = None \<and> ev_pci_device e = None
      | CE \<Rightarrow> ev_subsystem e = EDAC \<and> ev_pci_device e = None
      | UE \<Rightarrow> ev_subsystem e = EDAC \<and> ev_pci_device e = None
      | _ \<Rightarrow> ev_subsystem e = AER \<and> ev_controller e = [] \<and> ev_count e = 1 \<and>
             ev_csrow e = None \<and> ev_channel e = None \<and>
             (\<exists>d. ev_pci_device e = Some d \<and> is_bdf_str d)) \<and>
     (ev_subsystem e = EDAC \<longrightarrow>
        (\<exists>d. ev_controller e = ''MC'' @ d \<and> digits d) \<and> 0 \<le> ev_count e \<and>
        (ev_csrow e = None \<longleftrightarrow> ev_channel e = None) \<and> ev_aer_error_type e = None \<and>
        opt_nonneg (ev_csrow e) \<and> opt_nonneg (ev_channel e) \<and> opt_nonneg (ev_page e) \<and>
        opt_nonneg (ev_offset e) \<and> opt_nonneg (ev_grain e))"

lemma edac_event_total:
  assumes "re_search RE_EDAC_CE s = Some m \<or> re_search RE_EDAC_UE s = Some m"
    and "timestamp_ns mts = Inr ns" "0 \<le> ns" "t = CE \<or> t = UE" "runs_ok s" "runs_ok clean"
  shows "\<exists>e. make_edac_event p t m clean raw mts tstr = Inr (e, bump_seq p) \<and> ev_wf e \<and>
           ev_seq e = p_seq p \<and> ev_raw_message e = strip raw \<and> ev_type e = t"
proof -
  obtain n where n: "to_int (grp m 2) = Inr n" "0 \<le> n"
    using edac_groups(2)[OF assms(1)] to_int_digits grp_length assms(1,5) by metis
  let ?dm = "re_search RE_EDAC_DETAILS clean"
  obtain pg where pg: "opt_group to_int16 ?dm 1 = Inr pg" "opt_nonneg pg"
    using opt_group_hex[of 1] by auto
  obtain off where off: "opt_group to_int16 ?dm 2 = Inr off" "opt_nonneg off"
    using opt_group_hex[of 2] by auto
  obtain gr where gr: "opt_group to_int ?dm 3 = Inr gr" "opt_nonneg gr"
    using opt_group_dec[OF assms(6)] by auto
  obtain syn where syn: "opt_group Inr ?dm 4 = Inr syn"
    using opt_group_str by auto
  obtain r c where rc: "opt_nonneg r" "opt_nonneg c" "r = None \<longleftrightarrow> c = None"
    and loc: "(case re_search RE_EDAC_LOCATION clean of
            None \<Rightarrow> Inr (None, None)
          | Some lm \<Rightarrow> py_bind (to_int (grp lm 1)) (\<lambda>r.
              py_bind (to_int (grp lm 2)) (\<lambda>c. Inr (Some r, Some c)))) = Inr (r, c)"
    using location_total[OF assms(6)] by metis
  show ?thesis
    unfolding make_edac_event_def Let_def n pg off gr syn loc assms(2) py_bind_simps prod.case
    using assms(3,4) n pg off gr rc edac_groups[OF assms(1)] by (auto simp: ev_wf_def)
qed

lemma aer_event_total:
  assumes "timestamp_ns mts = Inr ns" "0 \<le> ns" "t = AER_CE \<or> t = AER_UE" "is_bdf_str d"
  shows "\<exists>e. make_aer_event p t d ty raw mts tstr = Inr (e, bump_seq p) \<and> ev_wf e \<and>
           ev_seq e = p_seq p \<and> ev_raw_message e = strip raw \<and> ev_type e = t"
  using assms by (auto simp: make_aer_event_def ev_wf_def)

lemma mce_event_total:
  assumes "timestamp_ns mts = Inr ns" "0 \<le> ns"
  shows "\<exists>e. make_mce_event p raw mts tstr = Inr (e, bump_seq p) \<and> ev_wf e \<and>
           ev_seq e = p_seq p \<and> ev_raw_message e = strip raw \<and> ev_type e = MCE"
  using assms by (auto simp: make_mce_event_def ev_wf_def)

text \<open>What \<open>classify\<close> can answer.\<close>

lemma or_else_eq_Some: "or_else a b = Some x \<longleftrightarrow> a = Some x \<or> (a = None \<and> b = Some x)"
  by (auto simp: or_else_def split: option.splits)

lemma classify_Edac:
  "classify clean = Some (Edac t m) \<Longrightarrow>
   (t = CE \<or> t = UE) \<and> (re_search RE_EDAC_CE clean = Some m \<or> re_search RE_EDAC_UE clean = Some m)"
  by (auto simp: classify_def classify_edac_def classify_aer_def or_else_eq_Some
      split: if_splits option.splits)

lemma classify_Aer:
  assumes "classify clean = Some (Aer t d)"
  shows "(t = AER_CE \<or> t = AER_UE) \<and> is_bdf_str d"
proof -
  from assms consider m where "re_search RE_AER_CORRECTED clean = Some m" "t = AER_CE" "d = grp m 1"
    | m where "re_search RE_AER_UNCORRECTED clean = Some m" "t = AER_UE" "d = grp m 2"
    by (auto simp: classify_def classify_edac_def classify_aer_def or_else_eq_Some
        split: if_splits option.splits)
  then show ?thesis
  proof cases
    case 1
    then have "words (Plus (Cls is_bdf)) d"
      using grp_word[OF re_search_ok[OF 1(1)], of 1 "Plus (Cls is_bdf)"]
      by (simp add: re_groups re_mandatory)
    with 1 show ?thesis by (simp add: words_plus_cls is_bdf_str_def)
  next
    case 2
    then have "words (Plus (Cls is_bdf)) d"
      using grp_word[OF re_search_ok[OF 2(1)], of 2 "Plus (Cls is_bdf)"]
      by (simp add: re_groups re_mandatory)
    with 2 show ?thesis by (simp add: words_plus_cls is_bdf_str_def)
  qed
qed

text \<open>One line: it never raises, and an event carries the parser's number and the line's text.\<close>

definition line_result_ok :: "parser \<Rightarrow> string \<Rightarrow> hw_event option \<times> parser \<Rightarrow> bool" where
  "line_result_ok p line r \<longleftrightarrow>
     p_event_types (snd r) = p_event_types p \<and>
     (case fst r of
        None \<Rightarrow> p_seq (snd r) = p_seq p
      | Some e \<Rightarrow> ev_wf e \<and> ev_seq e = p_seq p \<and> p_seq (snd r) = p_seq p + 1 \<and>
          ev_raw_message e = strip line)"

lemma bump_seq_simps [simp]:
  "p_seq (bump_seq p) = p_seq p + 1" "p_event_types (bump_seq p) = p_event_types p"
  by (simp_all add: bump_seq_def)

lemma parse_line_total:
  assumes "short_stamp line" "runs_ok line" "\<forall>l \<in> set lines. runs_ok (chomp l)"
  shows "\<exists>r. parse_line p line lines idx = Inr r \<and> line_result_ok p line r"
proof -
  obtain mts tstr n where x: "extract_timestamp line = Inr (mts, tstr)"
    "timestamp_ns mts = Inr n" "0 \<le> n"
    using extract_total[OF assms(1)] by blast
  show ?thesis
  proof (cases "classify (clean_line line)")
    case None
    with x show ?thesis by (simp add: parse_line_def Let_def line_result_ok_def)
  next
    case (Some k)
    show ?thesis
    proof (cases k)
      case (Edac t m)
      with Some have "t = CE \<or> t = UE"
        "re_search RE_EDAC_CE (clean_line line) = Some m \<or> re_search RE_EDAC_UE (clean_line line) = Some m"
        using classify_Edac by auto
      with x Some Edac show ?thesis
        using edac_event_total[of "clean_line line" m mts n t
            "clean_line line @ '' '' @ look_ahead_edac_location lines idx" p line tstr]
          runs_ok_join[OF runs_ok_clean[OF assms(2)] runs_ok_location[OF assms(3), of idx]]
          runs_ok_clean[OF assms(2)]
        by (auto simp: parse_line_def Let_def line_result_ok_def)
    next
      case (Aer t d)
      let ?p = "if t = AER_CE then p\<lparr>p_pending_aer_device := Some d,
                 p_pending_aer_severity := Some ''AER_CE''\<rparr> else p"
      from Aer Some classify_Aer have "t = AER_CE \<or> t = AER_UE" "is_bdf_str d" by auto
      with x obtain e where "make_aer_event ?p t d (look_ahead_aer_type lines idx) line mts tstr
            = Inr (e, bump_seq ?p)" "ev_wf e" "ev_seq e = p_seq ?p" "ev_raw_message e = strip line"
        using aer_event_total[of mts n t d ?p "look_ahead_aer_type lines idx" line tstr] by metis
      with x Some Aer show ?thesis
        by (simp add: parse_line_def Let_def line_result_ok_def split: if_splits)
    next
      case Mce
      with x Some show ?thesis
        using mce_event_total[of mts n p line tstr]
        by (auto simp: parse_line_def Let_def line_result_ok_def)
    qed
  qed
qed

section \<open>The loop over the file\<close>

lemma parse_line_types:
  "parse_line (p\<lparr>p_event_types := ts\<rparr>) line lines i =
   py_bind (parse_line p line lines i) (\<lambda>(r, p'). Inr (r, p'\<lparr>p_event_types := ts\<rparr>))"
proof -
  have m: "make_edac_event (p\<lparr>p_event_types := ts\<rparr>) t m c raw mts tstr =
        py_bind (make_edac_event p t m c raw mts tstr) (\<lambda>(e, p'). Inr (e, p'\<lparr>p_event_types := ts\<rparr>))"
    "make_aer_event (p\<lparr>p_event_types := ts\<rparr>) t d ty raw mts tstr =
        py_bind (make_aer_event p t d ty raw mts tstr) (\<lambda>(e, p'). Inr (e, p'\<lparr>p_event_types := ts\<rparr>))"
    "make_mce_event (p\<lparr>p_event_types := ts\<rparr>) raw mts tstr =
        py_bind (make_mce_event p raw mts tstr) (\<lambda>(e, p'). Inr (e, p'\<lparr>p_event_types := ts\<rparr>))"
    for p t m c raw mts tstr d ty
    by (auto simp: make_edac_event_def make_aer_event_def make_mce_event_def Let_def bump_seq_def
        py_bind_def split: sum.splits)
  have a: "p\<lparr>p_event_types := ts, p_pending_aer_device := d, p_pending_aer_severity := v\<rparr> =
      (p\<lparr>p_pending_aer_device := d, p_pending_aer_severity := v\<rparr>)\<lparr>p_event_types := ts\<rparr>" for d v
    by simp
  show ?thesis
    unfolding parse_line_def Let_def a if_distrib[symmetric] m
    by (cases "extract_timestamp line")
      (auto simp: m py_bind_def split: sum.splits option.splits line_class.splits)
qed

definition keep :: "string list \<Rightarrow> hw_event \<Rightarrow> bool" where
  "keep ts e \<longleftrightarrow> event_type_name (ev_type e) \<in> set ts"

lemma keep_all: "keep (p_event_types (parser_init None)) e"
proof -
  have "\<forall>t. event_type_name t \<in> set (p_event_types (parser_init None))" by code_simp
  then show ?thesis by (simp add: keep_def)
qed

lemma parse_lines_types:
  assumes "\<And>e. keep (p_event_types p) e" "\<forall>l \<in> set ls. short_stamp (chomp l) \<and> runs_ok (chomp l)"
    "\<forall>l \<in> set lines. runs_ok (chomp l)"
  shows "parse_lines (p\<lparr>p_event_types := ts\<rparr>) lines i ls =
     py_bind (parse_lines p lines i ls)
       (\<lambda>(evs, p'). Inr (filter (keep ts) evs, p'\<lparr>p_event_types := ts\<rparr>))"
  using assms
proof (induction ls arbitrary: p i)
  case Nil
  then show ?case by simp
next
  case (Cons l ls)
  show ?case
  proof (cases "strip (chomp l) = []")
    case True
    with Cons show ?thesis by simp
  next
    case False
    obtain r where r: "parse_line p (chomp l) lines i = Inr r" "line_result_ok p (chomp l) r"
      using parse_line_total Cons.prems(2,3) by (metis list.set_intros(1))
    obtain ev p' where ev: "r = (ev, p')" by (cases r)
    with r Cons.prems(1) have k: "keep (p_event_types p') e" for e by (simp add: line_result_ok_def)
    have IH: "parse_lines (p'\<lparr>p_event_types := ts\<rparr>) lines (i + 1) ls =
       py_bind (parse_lines p' lines (i + 1) ls)
         (\<lambda>(evs, p'). Inr (filter (keep ts) evs, p'\<lparr>p_event_types := ts\<rparr>))"
      using Cons.prems(2,3) k by (intro Cons.IH) auto
    have ka: "event_type_name (ev_type e) \<in> set (p_event_types p)" for e :: hw_event
      using Cons.prems(1)[of e] by (simp add: keep_def)
    show ?thesis
      using False r(1) ev IH ka
      by (simp add: parse_line_types Let_def)
        (auto simp: py_bind_def keep_def[abs_def] split: sum.splits option.splits)
  qed
qed

lemma parse_lines_result:
  assumes "\<forall>l \<in> set ls. short_stamp (chomp l) \<and> runs_ok (chomp l)" "\<forall>l \<in> set lines. runs_ok (chomp l)"
  shows "\<exists>evs p'. parse_lines p lines i ls = Inr (evs, p') \<and>
     (\<forall>e \<in> set evs. ev_wf e \<and> keep (p_event_types p) e \<and> p_seq p \<le> ev_seq e \<and> ev_seq e < p_seq p') \<and>
     sorted_wrt (<) (map ev_seq evs) \<and> p_seq p \<le> p_seq p' \<and> p_event_types p' = p_event_types p \<and>
     subseq (map ev_raw_message evs) (map (\<lambda>l. strip (chomp l)) ls) \<and>
     ((\<forall>e. keep (p_event_types p) e) \<longrightarrow> p_seq p' = p_seq p + int (length evs))"
  using assms
proof (induction ls arbitrary: p i)
  case Nil
  then show ?case by simp
next
  case (Cons l ls)
  show ?case
  proof (cases "strip (chomp l) = []")
    case True
    obtain evs p' where "parse_lines p lines (i + 1) ls = Inr (evs, p')"
      "\<forall>e \<in> set evs. ev_wf e \<and> keep (p_event_types p) e \<and> p_seq p \<le> ev_seq e \<and> ev_seq e < p_seq p'"
      "sorted_wrt (<) (map ev_seq evs)" "p_seq p \<le> p_seq p'" "p_event_types p' = p_event_types p"
      "subseq (map ev_raw_message evs) (map (\<lambda>l. strip (chomp l)) ls)"
      "(\<forall>e. keep (p_event_types p) e) \<longrightarrow> p_seq p' = p_seq p + int (length evs)"
      using Cons.IH[of p "i + 1"] Cons.prems by auto
    with True show ?thesis by (auto intro: list_emb_Cons)
  next
    case False
    obtain ev q where r: "parse_line p (chomp l) lines i = Inr (ev, q)"
      "line_result_ok p (chomp l) (ev, q)"
      using parse_line_total[of "chomp l" lines p i] Cons.prems by auto
    obtain evs p' where e: "parse_lines q lines (i + 1) ls = Inr (evs, p')"
      "\<forall>e \<in> set evs. ev_wf e \<and> keep (p_event_types q) e \<and> p_seq q \<le> ev_seq e \<and> ev_seq e < p_seq p'"
      "sorted_wrt (<) (map ev_seq evs)" "p_seq q \<le> p_seq p'" "p_event_types p' = p_event_types q"
      "subseq (map ev_raw_message evs) (map (\<lambda>l. strip (chomp l)) ls)"
      "(\<forall>e. keep (p_event_types q) e) \<longrightarrow> p_seq p' = p_seq q + int (length evs)"
      using Cons.IH[of q "i + 1"] Cons.prems by auto
    from r(2) have qt: "p_event_types q = p_event_types p" by (simp add: line_result_ok_def)
    show ?thesis
    proof (cases ev)
      case None
      with r have "p_seq q = p_seq p" by (simp add: line_result_ok_def)
      with False r(1) e qt None show ?thesis by (auto simp: Let_def intro: list_emb_Cons)
    next
      case (Some x)
      with r have x: "ev_wf x" "ev_seq x = p_seq p" "p_seq q = p_seq p + 1"
        "ev_raw_message x = strip (chomp l)" by (auto simp: line_result_ok_def)
      have lt: "\<forall>e \<in> set evs. ev_seq x < ev_seq e" using e(2) x by fastforce
      show ?thesis
      proof (cases "keep (p_event_types p) x")
        case True
        with False r(1) e qt Some x lt show ?thesis
          by (fastforce simp: Let_def keep_def)
      next
        case nk: False
        with False r(1) e qt Some x show ?thesis
          by (auto simp: Let_def keep_def intro: list_emb_Cons)
      qed
    qed
  qed
qed

lemma seq_exact:
  assumes "sorted_wrt (<) (map f xs)" "\<forall>x \<in> set xs. a \<le> f x \<and> f x < a + int (length xs)"
  shows "map f xs = map (\<lambda>i. a + int i) [0..<length xs]"
proof (rule nth_equalityI)
  show "length (map f xs) = length (map (\<lambda>i. a + int i) [0..<length xs])" by simp
next
  fix i assume i: "i < length (map f xs)"
  have up: "a + int j \<le> f (xs ! j)" if "j < length xs" for j
    using that
  proof (induction j)
    case 0
    with assms(2) show ?case by simp
  next
    case (Suc j)
    then have "f (xs ! j) < f (xs ! Suc j)"
      using assms(1) by (auto simp: sorted_wrt_iff_nth_less)
    with Suc show ?case by simp
  qed
  have down: "f (xs ! (length xs - 1 - j)) \<le> a + int (length xs - 1 - j)" if "j < length xs" for j
    using that
  proof (induction j)
    case 0
    then have "f (xs ! (length xs - 1)) < a + int (length xs)" using assms(2) by simp
    with 0 show ?case by simp
  next
    case (Suc j)
    then have "f (xs ! (length xs - 1 - Suc j)) < f (xs ! (length xs - 1 - j))"
      using assms(1) by (auto simp: sorted_wrt_iff_nth_less)
    with Suc show ?case by simp
  qed
  have "length xs - 1 - (length xs - 1 - i) = i" using i by simp
  then show "map f xs ! i = map (\<lambda>i. a + int i) [0..<length xs] ! i"
    using up[of i] down[of "length xs - 1 - i"] i by simp
qed

section \<open>The properties of \<open>parse_file\<close>\<close>

text \<open>No time stamp between brackets has more than 290 characters, and no run of digits in a line is longer
  than \<open>int()\<close> takes: longer counts, rows, channels or grains do raise (\<open>long_count_raises\<close>).\<close>

definition numbers_short :: "string list \<Rightarrow> bool" where
  "numbers_short lines = list_all (\<lambda>l. short_stamp (chomp l) \<and> runs_ok (chomp l)) lines"

definition demo_log :: "string list" where
  "demo_log =
     [''[   10.5] EDAC MC0: 1 CE on D0 (mc:0 page:0x12ab offset:0x0 grain:8 syndrome:0x1)'',
      ''[   10.5] EDAC MC0: CE error (csrow:0 channel:1)'',
      ''mce: [Hardware Error]: logged'']"

lemma demo_log_short: "numbers_short demo_log"
proof -
  have "list_all (\<lambda>l. short_stamp (chomp l)) demo_log" by code_simp
  moreover have "map (\<lambda>l. digit_run 0 (chomp l)) demo_log = [2, 2, 0]" by code_simp
  then have "list_all (\<lambda>n. n \<le> MAX_STR_DIGITS) (map (\<lambda>l. digit_run 0 (chomp l)) demo_log)"
    by (simp add: MAX_STR_DIGITS_def)
  ultimately show ?thesis by (auto simp: numbers_short_def runs_ok_def list_all_iff)
qed

text \<open>C14: a log whose numbers are short enough for \<open>int()\<close> (no run of more than 4300 digits) and whose
  bracketed time stamps have at most 290 characters is parsed without an exception, whatever else
  is in its lines, and every event returned is well formed.\<close>

theorem parse_file_total:
  assumes "numbers_short lines"
  shows "\<exists>evs p'. parse_file p lines = Inr (evs, p') \<and>
     (\<forall>e \<in> set evs. ev_wf e \<and> event_type_name (ev_type e) \<in> set (p_event_types p))"
  using parse_lines_result[of lines lines p 0] assms
  by (auto simp: parse_file_def numbers_short_def list_all_iff keep_def)

theorem parse_file_total_witness:
  "\<exists>evs p'. parse_file (parser_init None) demo_log = Inr (evs, p') \<and>
     (\<forall>e \<in> set evs. ev_wf e \<and> event_type_name (ev_type e) \<in> set (p_event_types (parser_init None)))"
  using parse_file_total[OF demo_log_short] by blast

text \<open>With the default types the events are numbered 0, 1, 2, ... without gaps.\<close>

theorem parse_file_numbering:
  assumes "numbers_short lines"
  shows "\<exists>evs p'. parse_file (parser_init None) lines = Inr (evs, p') \<and>
     map ev_seq evs = map int [0..<length evs] \<and> p_seq p' = int (length evs)"
proof -
  obtain evs p' where e: "parse_file (parser_init None) lines = Inr (evs, p')"
    "\<forall>e \<in> set evs. 0 \<le> ev_seq e \<and> ev_seq e < p_seq p'"
    "sorted_wrt (<) (map ev_seq evs)" "p_seq p' = int (length evs)"
    using parse_lines_result[of lines lines "parser_init None" 0] assms keep_all
    by (auto simp: parse_file_def numbers_short_def list_all_iff parser_init_def)
  then show ?thesis using seq_exact[of ev_seq evs 0] by auto
qed

theorem parse_file_numbering_witness:
  "\<exists>evs p'. parse_file (parser_init None) demo_log = Inr (evs, p') \<and>
     map ev_seq evs = map int [0..<length evs] \<and> p_seq p' = int (length evs)"
  using parse_file_numbering[OF demo_log_short] .

text \<open>
  Asking for some event types gives the events of those types of the unrestricted run, with
  the sequence numbers of that run.
\<close>

theorem parse_file_filter:
  assumes "numbers_short lines"
  shows "parse_file (parser_init (Some ts)) lines =
     py_bind (parse_file (parser_init None) lines)
       (\<lambda>(evs, p'). Inr (filter (\<lambda>e. event_type_name (ev_type e) \<in> set ts) evs,
                         p'\<lparr>p_event_types := ts\<rparr>))"
proof -
  have "parser_init (Some ts) = (parser_init None)\<lparr>p_event_types := ts\<rparr>"
    by (simp add: parser_init_def)
  then show ?thesis
    using parse_lines_types[OF keep_all, of lines lines ts 0] assms
    by (simp add: parse_file_def numbers_short_def list_all_iff keep_def[abs_def])
qed

theorem parse_file_filter_witness:
  "parse_file (parser_init (Some [''UE''])) demo_log =
     py_bind (parse_file (parser_init None) demo_log)
       (\<lambda>(evs, p'). Inr (filter (\<lambda>e. event_type_name (ev_type e) \<in> set [''UE'']) evs,
                         p'\<lparr>p_event_types := [''UE'']\<rparr>))"
  using parse_file_filter[OF demo_log_short, of "[''UE'']"] .

text \<open>
  The messages of the events are, in order, among the stripped lines of the log, and the
  sequence numbers increase along the list even when events are filtered out.
\<close>

theorem parse_file_order:
  assumes "numbers_short lines"
  shows "\<exists>evs p'. parse_file p lines = Inr (evs, p') \<and>
     subseq (map ev_raw_message evs) (map (\<lambda>l. strip (chomp l)) lines) \<and>
     sorted_wrt (<) (map ev_seq evs)"
  using parse_lines_result[of lines lines p 0] assms
  by (auto simp: parse_file_def numbers_short_def list_all_iff)

theorem parse_file_order_witness:
  "\<exists>evs p'. parse_file (parser_init (Some [''MCE''])) demo_log = Inr (evs, p') \<and>
     subseq (map ev_raw_message evs) (map (\<lambda>l. strip (chomp l)) demo_log) \<and>
     sorted_wrt (<) (map ev_seq evs)"
  using parse_file_order[OF demo_log_short, of "parser_init (Some [''MCE''])"] .

text \<open>
  The look-ahead takes the location of another event. The first error has no location line of
  its own; the parser gives it the row and channel printed for the second controller.
\<close>

theorem location_of_another_event:
  "\<exists>e1 e2 p'. parse_file (parser_init None)
      [''EDAC MC0: 1 CE on D0 (mc:0 page:0x1)'', ''EDAC MC1: 1 CE on D1 (mc:1) csrow:3 channel:1'']
      = Inr ([e1, e2], p') \<and>
     ev_controller e1 = ''MC0'' \<and> ev_csrow e1 = Some 3 \<and> ev_channel e1 = Some 1 \<and>
     ev_controller e2 = ''MC1'' \<and> ev_csrow e2 = Some 3 \<and> ev_channel e2 = Some 1"
proof -
  have "parse_file (parser_init None)
      [''EDAC MC0: 1 CE on D0 (mc:0 page:0x1)'', ''EDAC MC1: 1 CE on D1 (mc:1) csrow:3 channel:1'']
     = Inr ([\<lparr>ev_seq = 0, ev_timestamp_str = [], ev_timestamp_ns = 0, ev_monotonic_s = None,
              ev_type = CE, ev_subsystem = EDAC, ev_controller = ''MC0'', ev_csrow = Some 3,
              ev_channel = Some 1, ev_count = 1, ev_page = Some 1, ev_offset = None,
              ev_grain = None, ev_syndrome = None, ev_pci_device = None, ev_aer_error_type = None,
              ev_raw_message = ''EDAC MC0: 1 CE on D0 (mc:0 page:0x1)''\<rparr>,
             \<lparr>ev_seq = 1, ev_timestamp_str = [], ev_timestamp_ns = 0, ev_monotonic_s = None,
              ev_type = CE, ev_subsystem = EDAC, ev_controller = ''MC1'', ev_csrow = Some 3,
              ev_channel = Some 1, ev_count = 1, ev_page = None, ev_offset = None,
              ev_grain = None, ev_syndrome = None, ev_pci_device = None, ev_aer_error_type = None,
              ev_raw_message = ''EDAC MC1: 1 CE on D1 (mc:1) csrow:3 channel:1''\<rparr>],
            \<lparr>p_event_types = [''CE'', ''UE'', ''AER_CE'', ''AER_UE'', ''MCE''], p_seq = 2,
              p_pending_aer_device = None, p_pending_aer_severity = None\<rparr>)"
    by code_simp
  then show ?thesis by simp
qed

end
