(* ===== verification/Heartbeat.thy ===== *)
theory Heartbeat
  imports PyFloat "HOL-Library.Word"
begin

text \<open>
  The out-of-band heartbeat of \<open>network-resilience/oob-heartbeat.py\<close>: the CRC-8 and the frame,
  the health checks behind the status byte, and the sending loop. The files the checks read are
  arguments (their text, or the failure to open them), as are the two CPU samples and the answer
  of the kernel to signal 0.
\<close>

unbundle bit_operations_syntax

section \<open>CRC-8 and the frame\<close>

text \<open>
  Python integers are unbounded, so the CRC register is an \<open>int\<close>; the mask at the end of every
  bit step keeps it in a byte.
\<close>

definition crc8_bit :: "int \<Rightarrow> int" where
  "crc8_bit crc =
     (let crc = (if crc AND 0x80 \<noteq> 0 then (push_bit 1 crc) XOR 0x31 else push_bit 1 crc)
      in crc AND 0xFF)"

fun crc8_bits :: "nat \<Rightarrow> int \<Rightarrow> int" where
  "crc8_bits 0 crc = crc"
| "crc8_bits (Suc n) crc = crc8_bits n (crc8_bit crc)"

definition crc8_byte :: "int \<Rightarrow> int \<Rightarrow> int" where
  "crc8_byte b crc = crc8_bits 8 (crc XOR b)"

definition crc8 :: "int list \<Rightarrow> int" where
  "crc8 data = fold crc8_byte data 0"

text \<open>\<open>bytes(xs)\<close> refuses a value outside a byte.\<close>

definition py_bytes :: "int list \<Rightarrow> int list py" where
  "py_bytes xs = (if list_all (\<lambda>x. 0 \<le> x \<and> x < 256) xs then Inr xs
     else Inl (ValueError ''bytes must be in range(0, 256)''))"

definition build_frame :: "int \<Rightarrow> int \<Rightarrow> int \<Rightarrow> int list py" where
  "build_frame seq status_flags cpu_load =
     (let seq = seq AND 0xFFFF;
          cpu_load = max 0 (min 100 cpu_load)
      in py_bind (py_bytes
           [0xAA, 0x55, (drop_bit 8 seq) AND 0xFF, seq AND 0xFF,
            status_flags AND 0xFF, cpu_load, 0xFF]) (\<lambda>payload.
         let checksum = crc8 payload in
         py_bind (py_bytes [checksum]) (\<lambda>tail. Inr (payload @ tail))))"

section \<open>Health checks\<close>

text \<open>The text of a file, or why it could not be read.\<close>

datatype file_read = Contents string | NotFound | Denied | IOFailed

text \<open>\<open>f.readline()\<close>, and the lines \<open>for line in f\<close> yields.\<close>

definition newline :: char where "newline = char_of (10 :: int)"

definition file_lines :: "string \<Rightarrow> string list" where
  "file_lines s = split_on newline s"

definition first_line :: "string \<Rightarrow> string" where
  "first_line s = takeWhile (\<lambda>c. c \<noteq> newline) s"

definition int_of :: "string \<Rightarrow> int py" where
  "int_of s = (case py_int s of Some i \<Rightarrow> Inr i | None \<Rightarrow> Inl (ValueError s))"

definition read_stat :: "file_read \<Rightarrow> (int \<times> int) py" where
  "read_stat f =
     (case f of
        Contents s \<Rightarrow>
          py_bind (py_mapM int_of (tl (split_ws (first_line s)))) (\<lambda>fields.
            let idle = (if length fields > 3 then fields ! 3 else 0); tot = sum_list fields
            in Inr (idle, tot))
      | _ \<Rightarrow> Inr (0, 1))"

text \<open>\<open>max(0, min(100, int(100 * (1.0 - a / b))))\<close>\<close>

definition usage_percent :: "int \<Rightarrow> int \<Rightarrow> int" where
  "usage_percent a b =
     max 0 (min 100 (ftrunc (fmul 100 (fsub 1 (rnd (of_int a / of_int b))))))"

definition read_cpu_load :: "file_read \<Rightarrow> file_read \<Rightarrow> int py" where
  "read_cpu_load stat1 stat2 =
     py_bind (read_stat stat1) (\<lambda>(idle1, total1).
     py_bind (read_stat stat2) (\<lambda>(idle2, total2).
       let delta_total = total2 - total1; delta_idle = idle2 - idle1
       in if delta_total \<le> 0 then Inr 0 else Inr (usage_percent delta_idle delta_total)))"

definition check_kernel_health :: "file_read \<Rightarrow> bool" where
  "check_kernel_health f = (case f of Contents s \<Rightarrow> strip s = ''0'' | _ \<Rightarrow> True)"

text \<open>The count files found, each with its text; an unreadable or malformed one counts as 0.\<close>

definition ce_value :: "file_read \<Rightarrow> int" where
  "ce_value f =
     (case f of Contents s \<Rightarrow> (case py_int (strip s) of Some n \<Rightarrow> n | None \<Rightarrow> 0) | _ \<Rightarrow> 0)"

definition check_edac_health :: "int \<Rightarrow> file_read list \<Rightarrow> bool \<times> int" where
  "check_edac_health prev_ce paths =
     (if paths = [] then (True, prev_ce)
      else let tot = sum_list (map ce_value paths); delta = tot - prev_ce
           in (delta < 100, tot))"

text \<open>\<open>int(line.split()[1])\<close>\<close>

definition second_int :: "string \<Rightarrow> int py" where
  "second_int line =
     (case split_ws line of _ # w # _ \<Rightarrow> int_of w | _ \<Rightarrow> Inl IndexError)"

fun mem_scan :: "int option \<Rightarrow> int option \<Rightarrow> string list \<Rightarrow> (int option \<times> int option) py" where
  "mem_scan t a [] = Inr (t, a)"
| "mem_scan t a (l # ls) =
     py_bind
       (if starts_with ''MemTotal:'' l then py_bind (second_int l) (\<lambda>n. Inr (Some n, a))
        else if starts_with ''MemAvailable:'' l then py_bind (second_int l) (\<lambda>n. Inr (t, Some n))
        else Inr (t, a))
       (\<lambda>(t, a). if t \<noteq> None \<and> a \<noteq> None then Inr (t, a) else mem_scan t a ls)"

definition check_memory_pressure :: "file_read \<Rightarrow> bool py" where
  "check_memory_pressure f =
     (case f of
        Contents s \<Rightarrow>
          py_bind (mem_scan None None (file_lines s)) (\<lambda>r.
            case r of
              (Some tot, Some available) \<Rightarrow>
                (if tot = 0 then Inr True
                 else Inr (of_int available > fmul (fint tot) (rnd (1 / 10))))
            | _ \<Rightarrow> Inr True)
      | _ \<Rightarrow> Inr True)"

text \<open>The kernel's answer to \<open>os.kill(pid, 0)\<close>.\<close>

datatype kill_result = KillOk | NoSuchProcess | NotPermitted | PidTooLarge

definition check_wdt_alive :: "file_read \<Rightarrow> (int \<Rightarrow> kill_result) \<Rightarrow> bool py" where
  "check_wdt_alive f kill =
     (case f of
        NotFound \<Rightarrow> Inr False
      | Denied \<Rightarrow> Inr False
      | IOFailed \<Rightarrow> Inl OSError
      | Contents s \<Rightarrow>
          (case py_int (strip s) of
             None \<Rightarrow> Inr False
           | Some pid \<Rightarrow> (case kill pid of
               KillOk \<Rightarrow> Inr True | PidTooLarge \<Rightarrow> Inl OverflowError | _ \<Rightarrow> Inr False)))"

section \<open>The sending loop\<close>

text \<open>What one round of \<open>main\<close> reads from its surroundings.\<close>

record hb_inputs =
  hb_stat1 :: file_read
  hb_stat2 :: file_read
  hb_tainted :: file_read
  hb_ce_files :: "file_read list"
  hb_meminfo :: file_read
  hb_pidfile :: file_read
  hb_kill :: "int \<Rightarrow> kill_result"

definition status_flags :: "bool \<Rightarrow> bool \<Rightarrow> bool \<Rightarrow> bool \<Rightarrow> int" where
  "status_flags kernel_ok edac_ok mem_ok wdt_ok =
     (if kernel_ok then 1 else 0) OR (if edac_ok then 2 else 0) OR
     (if mem_ok then 4 else 0) OR (if wdt_ok then 8 else 0)"

text \<open>One round: \<open>(seq, prev_ce)\<close> to the frame written and the next \<open>(seq, prev_ce)\<close>.\<close>

definition hb_step :: "hb_inputs \<Rightarrow> int \<times> int \<Rightarrow> (int list \<times> (int \<times> int)) py" where
  "hb_step env st =
     (let (seq, prev_ce) = st in
      py_bind (read_cpu_load (hb_stat1 env) (hb_stat2 env)) (\<lambda>cpu_load.
      let kernel_ok = check_kernel_health (hb_tainted env);
          (edac_ok, prev_ce) = check_edac_health prev_ce (hb_ce_files env) in
      py_bind (check_memory_pressure (hb_meminfo env)) (\<lambda>mem_ok.
      py_bind (check_wdt_alive (hb_pidfile env) (hb_kill env)) (\<lambda>wdt_ok.
      py_bind (build_frame seq (status_flags kernel_ok edac_ok mem_ok wdt_ok) cpu_load) (\<lambda>frame.
        Inr (frame, ((seq + 1) AND 0xFFFF, prev_ce)))))))"

fun hb_run :: "hb_inputs list \<Rightarrow> int \<times> int \<Rightarrow> (int list list \<times> (int \<times> int)) py" where
  "hb_run [] st = Inr ([], st)"
| "hb_run (env # envs) st =
     py_bind (hb_step env st) (\<lambda>(frame, st').
     py_bind (hb_run envs st') (\<lambda>(frames, st''). Inr (frame # frames, st'')))"

text \<open>The one-shot reports: \<open>print_status\<close> and the dry run of \<open>main\<close>.\<close>

definition instant_cpu :: "file_read \<Rightarrow> int py" where
  "instant_cpu f =
     (case f of
        Contents s \<Rightarrow>
          py_bind (py_mapM int_of (tl (split_ws (first_line s)))) (\<lambda>parts.
            let tot = sum_list parts; idle = (if length parts > 3 then parts ! 3 else 0)
            in Inr (if tot \<noteq> 0 then usage_percent idle tot else 0))
      | _ \<Rightarrow> Inr 0)"

definition print_status :: "hb_inputs \<Rightarrow> int \<Rightarrow> (int \<times> int \<times> int) py" where
  "print_status env prev_ce =
     (let kernel_ok = check_kernel_health (hb_tainted env);
          (edac_ok, new_ce) = check_edac_health prev_ce (hb_ce_files env) in
      py_bind (check_memory_pressure (hb_meminfo env)) (\<lambda>mem_ok.
      py_bind (check_wdt_alive (hb_pidfile env) (hb_kill env)) (\<lambda>wdt_ok.
      py_bind (instant_cpu (hb_stat1 env)) (\<lambda>cpu.
        Inr (status_flags kernel_ok edac_ok mem_ok wdt_ok, cpu, new_ce)))))"

definition dry_run_frame :: "hb_inputs \<Rightarrow> int list py" where
  "dry_run_frame env =
     (let kernel_ok = check_kernel_health (hb_tainted env);
          (edac_ok, ce_count) = check_edac_health 0 (hb_ce_files env) in
      py_bind (check_memory_pressure (hb_meminfo env)) (\<lambda>mem_ok.
      py_bind (check_wdt_alive (hb_pidfile env) (hb_kill env)) (\<lambda>wdt_ok.
        build_frame 0 (status_flags kernel_ok edac_ok mem_ok wdt_ok) 0)))"

section \<open>The CRC on machine bytes\<close>

text \<open>The same register as a byte: the shift drops the top bit, no mask is needed.\<close>

definition crcw_bit :: "8 word \<Rightarrow> 8 word" where
  "crcw_bit w = (if bit w 7 then push_bit 1 w XOR 0x31 else push_bit 1 w)"

definition crcw_byte :: "8 word \<Rightarrow> 8 word \<Rightarrow> 8 word" where
  "crcw_byte b w = (crcw_bit ^^ 8) (w XOR b)"

definition crcw :: "8 word list \<Rightarrow> 8 word" where
  "crcw bs = fold crcw_byte bs 0"

lemma uint8: "0 \<le> uint (w :: 8 word) \<and> uint w < 256"
  using uint_bounded[of w] by simp

lemma uint8_in: "uint (w :: 8 word) \<in> set [0..255]"
  using uint8[of w] by simp

lemma xor_cancel_right: "x XOR a = y XOR a \<longleftrightarrow> x = (y :: 'a :: len word)"
  by (metis xor.assoc xor_self_eq xor.right_neutral)

lemma xor_cancel_left: "a XOR x = a XOR y \<longleftrightarrow> x = (y :: 'a :: len word)"
  by (metis xor.commute xor_cancel_right)

lemma crc8_bit_table: "list_all (\<lambda>n. crc8_bit n = uint (crcw_bit (word_of_int n))) [0..255]"
  by code_simp

lemma crc8_bit_word: "crc8_bit (uint w) = uint (crcw_bit w)"
proof -
  from crc8_bit_table uint8_in[of w] have "crc8_bit (uint w) = uint (crcw_bit (word_of_int (uint w)))"
    unfolding list_all_iff by blast
  then show ?thesis by simp
qed

lemma crc8_bits_word: "crc8_bits n (uint w) = uint ((crcw_bit ^^ n) w)"
  by (induction n arbitrary: w) (simp_all add: crc8_bit_word funpow_swap1)

lemma crc8_byte_word: "crc8_byte (uint b) (uint w) = uint (crcw_byte b w)"
proof -
  have "uint w XOR uint b = uint (w XOR b)"
    by (simp add: unsigned_xor_eq)
  then show ?thesis by (simp only: crc8_byte_def crcw_byte_def crc8_bits_word)
qed

lemma crc8_fold_word: "fold crc8_byte (map uint bs) (uint w) = uint (fold crcw_byte bs w)"
  by (induction bs arbitrary: w) (simp_all add: crc8_byte_word)

abbreviation byte :: "int \<Rightarrow> bool" where "byte x \<equiv> 0 \<le> x \<and> x < 256"

lemma bytes_as_words: "list_all byte xs \<Longrightarrow> \<exists>bs :: 8 word list. xs = map uint bs"
proof (induction xs)
  case Nil
  then show ?case by simp
next
  case (Cons x xs)
  then obtain bs :: "8 word list" where "xs = map uint bs" by auto
  moreover have "x = uint (word_of_int x :: 8 word)"
    using Cons.prems by (simp add: uint_word_of_int)
  ultimately have "x # xs = map uint ((word_of_int x :: 8 word) # bs)" by simp
  then show ?case by (rule exI)
qed

lemma crcw_bit_inj: "crcw_bit x = crcw_bit y \<Longrightarrow> x = y"
proof -
  assume eq: "crcw_bit x = crcw_bit y"
  have d: "distinct (map crc8_bit [0..255])" by code_simp
  have "uint x \<in> set [0..255]" "uint y \<in> set [0..255]"
    by (rule uint8_in)+
  moreover have "crc8_bit (uint x) = crc8_bit (uint y)"
    using eq by (simp add: crc8_bit_word)
  ultimately have "uint x = uint y"
    using d unfolding distinct_map inj_on_def by blast
  then show ?thesis by (rule word_uint_eqI)
qed

lemma crcw_byte_inj: "crcw_byte b x = crcw_byte c y \<longleftrightarrow> x XOR b = y XOR c"
proof -
  have "(crcw_bit ^^ n) u = (crcw_bit ^^ n) v \<longleftrightarrow> u = v" for n u v
    by (induction n arbitrary: u v) (auto simp: funpow_swap1 dest: crcw_bit_inj)
  then show ?thesis by (simp add: crcw_byte_def)
qed

lemma crcw_fold_inj: "fold crcw_byte bs x = fold crcw_byte bs y \<longleftrightarrow> x = y"
  by (induction bs arbitrary: x y) (auto simp: crcw_byte_inj xor_cancel_right)

lemma crcw_one_byte:
  "b \<noteq> c \<Longrightarrow> crcw (pre @ b # post) \<noteq> crcw (pre @ c # post)"
  by (simp add: crcw_def crcw_fold_inj crcw_byte_inj xor_cancel_left)

lemma crc8_byte_range: "list_all byte xs \<Longrightarrow> byte (crc8 xs)"
proof -
  assume "list_all byte xs"
  then obtain bs :: "8 word list" where "xs = map uint bs" using bytes_as_words by blast
  then have "crc8 xs = uint (crcw bs)"
    using crc8_fold_word[of bs 0] by (simp add: crc8_def crcw_def)
  then show ?thesis using uint8 by simp
qed

section \<open>Frames\<close>

lemma and_byte: "x AND 0xFF = x mod (256 :: int)"
  using take_bit_eq_mask[of 8 x] by (simp add: take_bit_eq_mod mask_eq_exp_minus_1)

lemma and_16: "x AND 0xFFFF = x mod (65536 :: int)"
  using take_bit_eq_mask[of 16 x] by (simp add: take_bit_eq_mod mask_eq_exp_minus_1)

lemma seq_split: "x mod 65536 = 256 * (x div 256 mod 256) + x mod (256 :: int)"
  using zmod_zmult2_eq[of 256 x 256] by simp

lemma seq_high: "drop_bit 8 (x AND 0xFFFF) AND 0xFF = x div 256 mod (256 :: int)"
  unfolding and_byte and_16 seq_split by (simp add: drop_bit_eq_div)

lemma seq_low: "(x AND 0xFFFF) AND 0xFF = x mod (256 :: int)"
  unfolding and_byte and_16 by (simp add: mod_mod_cancel)

lemma seq_wrap:
  "(x - 65536 * k) div 256 mod 256 = x div 256 mod (256 :: int)"
  "(x - 65536 * k) mod 256 = x mod (256 :: int)"
proof -
  have e: "x - 65536 * k = x + (- 256 * k) * 256" by simp
  show "(x - 65536 * k) mod 256 = x mod (256 :: int)" unfolding e by (rule mod_mult_self1)
  have "(x - 65536 * k) div 256 = x div 256 + (- k) * 256" unfolding e by simp
  then show "(x - 65536 * k) div 256 mod 256 = x div 256 mod (256 :: int)"
    by (simp only: mod_mult_self1)
qed

definition frame_payload :: "int \<Rightarrow> int \<Rightarrow> int \<Rightarrow> int list" where
  "frame_payload seq flags load =
     [0xAA, 0x55, seq div 256 mod 256, seq mod 256, flags mod 256, max 0 (min 100 load), 0xFF]"

lemma frame_payload_bytes: "list_all byte (frame_payload seq flags load)"
  by (simp add: frame_payload_def)

lemma build_frame_eq:
  "build_frame seq flags load =
     Inr (frame_payload seq flags load @ [crc8 (frame_payload seq flags load)])"
proof -
  have "list_all byte [crc8 (frame_payload seq flags load)]"
    using crc8_byte_range[OF frame_payload_bytes] by simp
  then show ?thesis
    using frame_payload_bytes[of seq flags load]
    by (simp only: build_frame_def Let_def seq_high seq_low and_byte[of flags]
        frame_payload_def[symmetric] py_bytes_def if_True py_bind_simps)
qed

lemma frame_payload_length [simp]: "length (frame_payload seq flags load) = 7"
  by (simp add: frame_payload_def)

lemma crc8_one_byte:
  assumes "list_all byte xs" "i < length xs" "byte x" "x \<noteq> xs ! i"
  shows "crc8 (xs[i := x]) \<noteq> crc8 xs"
proof -
  obtain bs :: "8 word list" where bs: "xs = map uint bs"
    using bytes_as_words[OF assms(1)] by blast
  define b :: "8 word" where "b = word_of_int x"
  have b: "uint b = x" using assms(3) by (simp add: b_def uint_word_of_int)
  have i: "i < length bs" using assms(2) bs by simp
  have ne: "b \<noteq> bs ! i" using assms(4) bs i b by auto
  have "crcw (bs[i := b]) \<noteq> crcw bs"
    using crcw_one_byte[OF ne, of "take i bs" "drop (Suc i) bs"] i
    by (simp add: upd_conv_take_nth_drop id_take_nth_drop[symmetric])
  moreover have "xs[i := x] = map uint (bs[i := b])" by (simp add: bs map_update b)
  ultimately show ?thesis
    using crc8_fold_word[of bs 0] crc8_fold_word[of "bs[i := b]" 0] bs
    by (simp add: crc8_def crcw_def word_uint_eq_iff)
qed

lemma hb_step_frame:
  assumes "hb_step env (seq, prev) = Inr (frame, st')"
  obtains load mem_ok wdt_ok where
    "read_cpu_load (hb_stat1 env) (hb_stat2 env) = Inr load"
    "check_memory_pressure (hb_meminfo env) = Inr mem_ok"
    "check_wdt_alive (hb_pidfile env) (hb_kill env) = Inr wdt_ok"
    "build_frame seq (status_flags (check_kernel_health (hb_tainted env))
       (fst (check_edac_health prev (hb_ce_files env))) mem_ok wdt_ok) load = Inr frame"
    "st' = ((seq + 1) AND 0xFFFF, snd (check_edac_health prev (hb_ce_files env)))"
  using assms
  by (cases "check_edac_health prev (hb_ce_files env)")
     (auto simp: hb_step_def Let_def py_bind_eq_Inr)

lemma status_flags_range: "0 \<le> status_flags a b c d \<and> status_flags a b c d < 16"
  by (cases a; cases b; cases c; cases d) (simp_all add: status_flags_def)

lemma status_flags_bits:
  "bit (status_flags a b c d) 0 = a" "bit (status_flags a b c d) 1 = b"
  "bit (status_flags a b c d) 2 = c" "bit (status_flags a b c d) 3 = d"
  by (cases a; cases b; cases c; cases d; simp add: status_flags_def bit_simps)+

lemma status_flags_mod: "status_flags a b c d mod 256 = status_flags a b c d"
  using status_flags_range[of a b c d] by simp

lemma hb_run_seq:
  "hb_run envs (seq, prev) = Inr (frames, st) \<Longrightarrow>
   length frames = length envs \<and>
   (\<forall>i < length frames. length (frames ! i) = 8 \<and>
      frames ! i ! 2 = (seq + int i) div 256 mod 256 \<and> frames ! i ! 3 = (seq + int i) mod 256)"
proof (induction envs arbitrary: seq prev frames st)
  case Nil
  then show ?case by simp
next
  case (Cons env envs)
  then obtain frame st' frames' where
    step: "hb_step env (seq, prev) = Inr (frame, st')"
    and run: "hb_run envs st' = Inr (frames', st)" and frames: "frames = frame # frames'"
    by (auto simp: py_bind_eq_Inr split: prod.splits)
  from step obtain prev' where st': "st' = ((seq + 1) AND 0xFFFF, prev')"
    and hd: "length frame = 8" "frame ! 2 = seq div 256 mod 256" "frame ! 3 = seq mod 256"
    by (elim hb_step_frame) (auto simp: build_frame_eq frame_payload_def)
  have wrap: "((seq + 1) AND 0xFFFF) + int i = (seq + int (Suc i)) - 65536 * ((seq + 1) div 65536)" for i
    by (simp add: and_16 minus_mult_div_eq_mod[symmetric])
  from Cons.IH[OF run[unfolded st']] show ?case
    by (auto simp: frames hd nth_Cons' wrap seq_wrap less_Suc_eq_0_disj)
qed

section \<open>Properties\<close>

text \<open>C25: the routine computes the byte-wise CRC.\<close>

theorem crc8_refines: "crc8 (map uint bs) = uint (crcw bs)"
  using crc8_fold_word[of bs 0] by (simp add: crc8_def crcw_def)


text \<open>A frame always builds: eight bytes with the two sync bytes, the sequence number modulo
  65536 in big-endian order, the low byte of the flags, the load clamped to 0-100, the end marker,
  and the CRC of the first seven.\<close>

theorem frame_layout:
  "\<exists>f. build_frame seq flags load = Inr f \<and> length f = 8 \<and> list_all byte f \<and>
     take 2 f = [0xAA, 0x55] \<and> 256 * (f ! 2) + f ! 3 = seq mod 65536 \<and> f ! 4 = flags mod 256 \<and>
     f ! 5 = max 0 (min 100 load) \<and> f ! 6 = 0xFF \<and> f ! 7 = crc8 (take 7 f)"
proof -
  let ?p = "frame_payload seq flags load"
  show ?thesis
    using crc8_byte_range[OF frame_payload_bytes[of seq flags load]]
    by (intro exI[of _ "?p @ [crc8 ?p]"]) (simp add: build_frame_eq frame_payload_def seq_split)
qed

text \<open>C1: a receiver that compares the last byte with the CRC of the first seven accepts every
  frame sent and rejects every frame in which one byte, the CRC byte included, was changed.\<close>

theorem frame_corruption_detected:
  assumes "build_frame seq flags load = Inr f" "i < 8" "0 \<le> x" "x < 256" "x \<noteq> f ! i"
  shows "crc8 (take 7 f) = f ! 7 \<and> crc8 (take 7 (f[i := x])) \<noteq> f[i := x] ! 7"
proof -
  let ?p = "frame_payload seq flags load"
  have f: "f = ?p @ [crc8 ?p]" using assms(1) by (simp add: build_frame_eq)
  have "crc8 (take 7 (f[i := x])) \<noteq> f[i := x] ! 7"
  proof (cases "i = 7")
    case True
    then show ?thesis using assms(5) by (simp add: f nth_append list_update_append)
  next
    case False
    then have i: "i < 7" using assms(2) by simp
    then have "x \<noteq> ?p ! i" using assms(5) by (simp add: f nth_append)
    then have "crc8 (?p[i := x]) \<noteq> crc8 ?p"
      using i assms(3,4) by (intro crc8_one_byte frame_payload_bytes) auto
    then show ?thesis using i by (simp add: f nth_append list_update_append)
  qed
  then show ?thesis by (simp add: f nth_append)
qed

theorem frame_corruption_detected_witness:
  "crc8 [0xAA, 0x55, 0, 7, 0x0F, 43, 0xFF] \<noteq> 0x13"
proof -
  have "build_frame 7 15 42 = Inr [0xAA, 0x55, 0, 7, 0x0F, 42, 0xFF, crc8 [0xAA, 0x55, 0, 7, 0x0F, 42, 0xFF]]"
    by (simp add: build_frame_eq frame_payload_def)
  from frame_corruption_detected[OF this, of 5 43] show ?thesis
    by (simp add: numeral_nat) code_simp
qed

text \<open>Of a run of rounds that completes, the i-th frame written is well formed and carries the
  i-th number after the first, modulo 65536: no number is skipped or sent twice in 65536 rounds.\<close>

theorem heartbeat_numbering:
  assumes "hb_run envs (seq, prev) = Inr (frames, st)"
  shows "length frames = length envs \<and>
    (\<forall>i < length frames. 256 * (frames ! i ! 2) + frames ! i ! 3 = (seq + int i) mod 65536)"
  using hb_run_seq[OF assms] by (simp add: seq_split)

definition idle_host :: hb_inputs where
  "idle_host = \<lparr>hb_stat1 = Contents ''cpu 1 0 1 8'', hb_stat2 = Contents ''cpu 5 0 5 16'',
     hb_tainted = Contents ''0'', hb_ce_files = [Contents ''7'', IOFailed], hb_meminfo = NotFound,
     hb_pidfile = Contents ''42'', hb_kill = (\<lambda>pid. if pid = 42 then KillOk else NoSuchProcess)\<rparr>"

lemma idle_host_run:
  "hb_run [idle_host, idle_host] (65535, 0) =
     Inr ([[170, 85, 255, 255, 15, 50, 255, crc8 [170, 85, 255, 255, 15, 50, 255]],
           [170, 85, 0, 0, 15, 50, 255, crc8 [170, 85, 0, 0, 15, 50, 255]]], (1, 7))"
  by code_simp

theorem heartbeat_numbering_witness:
  "\<exists>frames st. hb_run [idle_host, idle_host] (65535, 0) = Inr (frames, st) \<and>
     256 * (frames ! 1 ! 2) + frames ! 1 ! 3 = 0"
  using heartbeat_numbering[OF idle_host_run] idle_host_run by auto

text \<open>The flags byte of a frame says exactly what the four checks found in that round: bit 0 the
  taint file, bit 1 fewer than 100 correctable errors since the previous round (or no counter
  at all), bit 2 the memory check, bit 3 the watchdog check; the upper bits are clear, and the
  total of the counters is what the next round compares with.\<close>

theorem heartbeat_flags:
  assumes "hb_step env (seq, prev) = Inr (frame, (seq', prev'))"
  shows "bit (frame ! 4) 0 = check_kernel_health (hb_tainted env) \<and>
    bit (frame ! 4) 1 = (hb_ce_files env = [] \<or> sum_list (map ce_value (hb_ce_files env)) < prev + 100) \<and>
    check_memory_pressure (hb_meminfo env) = Inr (bit (frame ! 4) 2) \<and>
    check_wdt_alive (hb_pidfile env) (hb_kill env) = Inr (bit (frame ! 4) 3) \<and>
    0 \<le> frame ! 4 \<and> frame ! 4 < 16 \<and>
    prev' = (if hb_ce_files env = [] then prev else sum_list (map ce_value (hb_ce_files env)))"
  using assms
  by (elim hb_step_frame)
     (auto simp: build_frame_eq frame_payload_def status_flags_mod status_flags_bits status_flags_bits(2)[unfolded One_nat_def]
        status_flags_range check_edac_health_def Let_def)

theorem heartbeat_flags_witness:
  "\<exists>frame st. hb_step idle_host (0, 0) = Inr (frame, st) \<and> bit (frame ! 4) 1"
proof -
  have "hb_step idle_host (0, 0) = Inr ([170, 85, 0, 0, 15, 50, 255, crc8 [170, 85, 0, 0, 15, 50, 255]], (1, 7))"
    by code_simp
  moreover from heartbeat_flags[OF this] have
    "bit ([170, 85, 0, 0, 15, 50, 255, crc8 [170, 85, 0, 0, 15, 50, 255]] ! 4) 1"
    by (simp add: idle_host_def ce_value_def)
  ultimately show ?thesis by blast
qed

end
