(* ===== verification/BertReader.thy ===== *)
theory BertReader
  imports PyStr
begin

text \<open>
  The boot error record reader of \<open>apei/bert_reader.py\<close>: \<open>struct.unpack_from\<close> on little-endian
  fields, the table header, the loop over the error records, and the text-file metrics. Binary
  data is a list of integers, one per byte. The clock of the last metric is an argument.
\<close>

section \<open>Struct formats\<close>

text \<open>A little-endian format without padding is the list of its field widths.\<close>

definition calcsize :: "nat list \<Rightarrow> nat" where
  "calcsize fmt = sum_list fmt"

definition ACPI_TABLE_HEADER_FMT :: "nat list" where
  "ACPI_TABLE_HEADER_FMT = [4, 4, 1, 1, 6, 8, 4, 4, 4]"

definition ACPI_TABLE_HEADER_SIZE :: nat where
  "ACPI_TABLE_HEADER_SIZE = calcsize ACPI_TABLE_HEADER_FMT"

definition BERT_BODY_FMT :: "nat list" where
  "BERT_BODY_FMT = [4, 8]"

definition BERT_BODY_SIZE :: nat where
  "BERT_BODY_SIZE = calcsize BERT_BODY_FMT"

definition CPER_HEADER_FMT :: "nat list" where
  "CPER_HEADER_FMT = [16, 4, 2, 1, 1, 16, 8, 4, 4, 8, 8, 16, 4, 4, 4]"

definition CPER_HEADER_SIZE :: nat where
  "CPER_HEADER_SIZE = calcsize CPER_HEADER_FMT"

definition CPER_SECTION_DESC_FMT :: "nat list" where
  "CPER_SECTION_DESC_FMT = [4, 2, 16, 4, 4, 1, 1, 2, 4]"

definition CPER_SECTION_DESC_SIZE :: nat where
  "CPER_SECTION_DESC_SIZE = calcsize CPER_SECTION_DESC_FMT"

lemma sizes [simp]:
  "ACPI_TABLE_HEADER_SIZE = 36" "BERT_BODY_SIZE = 12"
  "CPER_HEADER_SIZE = 100" "CPER_SECTION_DESC_SIZE = 38"
  by (simp_all add: ACPI_TABLE_HEADER_SIZE_def ACPI_TABLE_HEADER_FMT_def BERT_BODY_SIZE_def
      BERT_BODY_FMT_def CPER_HEADER_SIZE_def CPER_HEADER_FMT_def CPER_SECTION_DESC_SIZE_def
      CPER_SECTION_DESC_FMT_def calcsize_def)

fun le_int :: "int list \<Rightarrow> int" where
  "le_int [] = 0"
| "le_int (b # bs) = b + 256 * le_int bs"

text \<open>\<open>data[i:j]\<close> for in-range or over-long slices.\<close>

definition slice :: "'a list \<Rightarrow> nat \<Rightarrow> nat \<Rightarrow> 'a list" where
  "slice data i j = take (j - i) (drop i data)"

text \<open>\<open>struct.unpack_from\<close>: the integer fields of the given widths, or \<open>struct.error\<close>.\<close>

fun split_fields :: "nat list \<Rightarrow> int list \<Rightarrow> int list" where
  "split_fields [] bs = []"
| "split_fields (w # ws) bs = le_int (take w bs) # split_fields ws (drop w bs)"

definition unpack_from :: "nat list \<Rightarrow> int list \<Rightarrow> nat \<Rightarrow> int list py" where
  "unpack_from fmt data off =
     (if off + calcsize fmt \<le> length data then Inr (split_fields fmt (drop off data))
      else Inl StructError)"

lemma unpack_from_ok [simp]:
  "off + sum_list fmt \<le> length data \<Longrightarrow>
   unpack_from fmt data off = Inr (split_fields fmt (drop off data))"
  by (simp add: unpack_from_def calcsize_def)

section \<open>The table\<close>

definition parse_bert_table :: "int list \<Rightarrow> (int \<times> int) py" where
  "parse_bert_table data =
     (if length data < ACPI_TABLE_HEADER_SIZE + BERT_BODY_SIZE
      then Inl (ValueError (''BERT table too short: '' @ str_int (int (length data)) @ '' bytes''))
      else py_bind (unpack_from BERT_BODY_FMT data ACPI_TABLE_HEADER_SIZE) (\<lambda>fs.
        Inr (fs ! 0, fs ! 1)))"

section \<open>Error records\<close>

text \<open>\<open>bytes.fromhex\<close> of the five section types.\<close>

definition CPER_SECTION_TYPES :: "(int list, string) dict" where
  "CPER_SECTION_TYPES =
     [([0xd9,0x95,0xe9,0x54,0x94,0x7c,0x43,0x53,0x97,0xc9,0xdc,0x3e,0x8a,0x69,0x24,0x0c],
         ''processor_generic''),
      ([0x1c,0x15,0x10,0x2f,0x5c,0xda,0x4f,0x43,0xb1,0x8a,0xdc,0xa4,0xa3,0xf9,0x36,0x0e],
         ''platform_memory''),
      ([0xe4,0x29,0xfa,0xf1,0xa2,0x38,0x40,0xdb,0xb1,0x0b,0x55,0xff,0x6a,0xaa,0x68,0xe4],
         ''pcie''),
      ([0x81,0x21,0x2a,0x96,0x64,0xc8,0x43,0xb2,0x9e,0xf1,0x9f,0x7d,0x28,0x85,0xb2,0xd0],
         ''firmware_error''),
      ([0x5b,0x51,0xfe,0x6c,0x76,0xd1,0x4e,0x9e,0x8c,0x1d,0xd2,0xb5,0xd4,0x82,0x0e,0x83],
         ''dmar_generic'')]"

definition SEVERITY_MAP :: "(int, string) dict" where
  "SEVERITY_MAP = [(0, ''recoverable''), (1, ''fatal''), (2, ''corrected''), (3, ''informational'')]"

record cper_section =
  cs_type :: string
  cs_length :: int
  cs_offset :: int

record cper_record =
  cr_severity :: string
  cr_section_count :: int
  cr_record_length :: int
  cr_sections :: "cper_section list"

definition severity_name :: "int \<Rightarrow> string" where
  "severity_name raw = dgetd SEVERITY_MAP raw (''unknown('' @ str_int raw @ '')'')"

definition parse_section :: "int list \<Rightarrow> nat \<Rightarrow> cper_section py" where
  "parse_section region desc_offset =
     py_bind (unpack_from [4, 2] region desc_offset) (\<lambda>fs.
       let guid = slice region (desc_offset + 4) (desc_offset + 20);
           sect_type = dgetd CPER_SECTION_TYPES (take 16 guid) ''unknown''
       in Inr \<lparr>cs_type = sect_type, cs_length = fs ! 1, cs_offset = fs ! 0\<rparr>)"

text \<open>\<open>for _ in range(section_count)\<close>, from the descriptor at \<open>desc_offset\<close> on.\<close>

fun parse_sections :: "nat \<Rightarrow> int list \<Rightarrow> nat \<Rightarrow> cper_section list py" where
  "parse_sections 0 region desc_offset = Inr []"
| "parse_sections (Suc n) region desc_offset =
     (if desc_offset + CPER_SECTION_DESC_SIZE > length region then Inr []
      else py_bind (parse_section region desc_offset) (\<lambda>s.
           py_bind (parse_sections n region (desc_offset + CPER_SECTION_DESC_SIZE)) (\<lambda>ss.
             Inr (s # ss))))"

text \<open>The body of the loop at a valid signature: the record read at \<open>offset\<close>.\<close>

definition parse_record :: "int list \<Rightarrow> nat \<Rightarrow> cper_record py" where
  "parse_record region offset =
     py_bind (unpack_from [4] region (offset + 20)) (\<lambda>len_f.
     py_bind (unpack_from [4] region (offset + 24)) (\<lambda>sev_f.
     py_bind (unpack_from [2] region (offset + 18)) (\<lambda>cnt_f.
     let record_length = len_f ! 0; severity = severity_name (sev_f ! 0); section_count = cnt_f ! 0
     in py_bind (parse_sections (nat section_count) region (offset + 128)) (\<lambda>sections.
        Inr \<lparr>cr_severity = severity, cr_section_count = section_count,
             cr_record_length = record_length, cr_sections = sections\<rparr>))))"

text \<open>
  The \<open>while\<close> loop from \<open>offset\<close> on. A record shorter than its header ends it, so each round moves
  on by at least the header size: that is its termination measure.
\<close>

definition CPER_SIG :: "int list" where
  "CPER_SIG = [67, 80, 69, 82]"

function parse_from :: "int list \<Rightarrow> nat \<Rightarrow> cper_record list py" where
  "parse_from region offset =
     (if offset + CPER_HEADER_SIZE \<le> length region then
        (case unpack_from CPER_HEADER_FMT region offset of
           Inl _ \<Rightarrow> Inr []
         | Inr _ \<Rightarrow>
             if slice region offset (offset + 4) \<noteq> CPER_SIG then Inr []
             else py_bind (parse_record region offset) (\<lambda>r.
               if cr_record_length r < int CPER_HEADER_SIZE then Inr [r]
               else py_bind (parse_from region (offset + nat (cr_record_length r))) (\<lambda>rs.
                 Inr (r # rs))))
      else Inr [])"
  by pat_completeness auto
termination
  by (relation "measure (\<lambda>(region, offset). length region - offset)") (auto simp: py_bind_def)

declare parse_from.simps [simp del]

definition parse_cper_records :: "int list \<Rightarrow> cper_record list py" where
  "parse_cper_records region = parse_from region 0"

section \<open>Output\<close>

definition severity_line :: "string \<times> int \<Rightarrow> string" where
  "severity_line kv = ''apei_bert_record_total{severity=\"'' @ fst kv @ ''\"} '' @ str_int (snd kv)"

definition section_line :: "string \<times> int \<Rightarrow> string" where
  "section_line kv = ''apei_bert_section_total{error_type=\"'' @ fst kv @ ''\"} '' @ str_int (snd kv)"

definition counts_by_severity :: "cper_record list \<Rightarrow> (string, int) dict" where
  "counts_by_severity records = fold (\<lambda>r. dbump (cr_severity r)) records []"

definition counts_by_type :: "cper_record list \<Rightarrow> (string, int) dict" where
  "counts_by_type records =
     fold (\<lambda>r d. fold (\<lambda>s. dbump (cs_type s)) (cr_sections r) d) records []"

text \<open>\<open>now\<close> is \<open>f"{time.time():.3f}"\<close>.\<close>

definition emit_lines :: "string \<Rightarrow> cper_record list \<Rightarrow> string list" where
  "emit_lines now records =
     [''# HELP apei_bert_record_total ACPI BERT boot error records by severity.'',
      ''# TYPE apei_bert_record_total gauge''] @
     map severity_line (counts_by_severity records) @
     (if counts_by_severity records = [] then [''apei_bert_record_total{severity=\"none\"} 0''] else []) @
     [''# HELP apei_bert_section_total ACPI BERT sections by error type.'',
      ''# TYPE apei_bert_section_total gauge''] @
     map section_line (counts_by_type records) @
     [''# HELP apei_bert_last_read_timestamp Unix timestamp of last BERT read.'',
      ''# TYPE apei_bert_last_read_timestamp gauge'',
      ''apei_bert_last_read_timestamp '' @ now]"

definition emit_prometheus :: "string \<Rightarrow> cper_record list \<Rightarrow> string" where
  "emit_prometheus now records = join [CHR 0x0A] (emit_lines now records) @ [CHR 0x0A]"

text \<open>The middle of \<open>main\<close>: the region of the raw table and its records.\<close>

definition bert_region :: "int list \<Rightarrow> int \<times> int \<Rightarrow> int list" where
  "bert_region raw lo =
     (let (region_length, region_offset) = lo in
      if region_offset > 0
      then slice raw (nat region_offset) (nat (region_offset + region_length))
      else drop (ACPI_TABLE_HEADER_SIZE + BERT_BODY_SIZE) raw)"

definition bert_records :: "int list \<Rightarrow> cper_record list py" where
  "bert_records raw =
     py_bind (parse_bert_table raw) (\<lambda>lo. parse_cper_records (bert_region raw lo))"

section \<open>Locality of the field reads\<close>

lemma split_fields_append:
  "sum_list fmt \<le> length bs \<Longrightarrow> split_fields fmt (bs @ t) = split_fields fmt bs"
  by (induction fmt bs rule: split_fields.induct) auto

lemma unpack_shift: "unpack_from fmt (a @ d) (length a + o') = unpack_from fmt d o'"
  by (simp add: unpack_from_def)

lemma unpack_prefix:
  "o' + sum_list fmt \<le> length d \<Longrightarrow> unpack_from fmt (d @ t) o' = unpack_from fmt d o'"
  by (simp add: split_fields_append)

lemma slice_shift: "slice (a @ d) (length a + i) (length a + j) = slice d i j"
  by (simp add: slice_def)

lemma slice_prefix: "j \<le> length d \<Longrightarrow> slice (d @ t) i j = slice d i j"
  by (cases "i \<le> length d") (simp_all add: slice_def)

lemma parse_section_shift: "parse_section (a @ d) (length a + o') = parse_section d o'"
  using slice_shift[of a d "o' + 4" "o' + 20"]
  by (simp add: parse_section_def unpack_shift add.assoc)

lemma parse_section_prefix:
  "o' + 38 \<le> length d \<Longrightarrow> parse_section (d @ t) o' = parse_section d o'"
  using unpack_prefix[of o' "[4, 2]" d t] slice_prefix[of "o' + 20" d t "o' + 4"]
  by (simp add: parse_section_def)

lemma parse_sections_shift:
  "parse_sections n (a @ d) (length a + o') = parse_sections n d o'"
proof (induction n arbitrary: o')
  case (Suc n)
  show ?case using Suc[of "o' + 38"] by (simp add: parse_section_shift add.assoc)
qed simp

lemma parse_sections_prefix:
  "o' + 38 * n \<le> length d \<Longrightarrow> parse_sections n (d @ t) o' = parse_sections n d o'"
proof (induction n arbitrary: o')
  case (Suc n)
  then show ?case using Suc.IH[of "o' + 38"] by (simp add: parse_section_prefix)
qed simp

lemma parse_record_shift: "parse_record (a @ d) (length a + o') = parse_record d o'"
  using parse_sections_shift[of _ a d "o' + 128"]
  by (simp add: parse_record_def unpack_shift add.assoc)

definition section_count_of :: "int list \<Rightarrow> int" where
  "section_count_of b = le_int (take 2 (drop 18 b))"

definition record_length_of :: "int list \<Rightarrow> int" where
  "record_length_of b = le_int (take 4 (drop 20 b))"

lemma parse_record_prefix:
  assumes "128 + 38 * nat (section_count_of d) \<le> length d"
  shows "parse_record (d @ t) 0 = parse_record d 0"
  using assms unpack_prefix[of _ _ d t] parse_sections_prefix[of 128 "nat (section_count_of d)" d t]
  by (simp add: parse_record_def section_count_of_def)

lemma parse_from_shift: "parse_from (a @ d) (length a + o') = parse_from d o'"
proof (induction d o' rule: parse_from.induct)
  case (1 d o')
  show ?case
    using 1 slice_shift[of a d o' "o' + 4"]
    by (subst (1 2) parse_from.simps)
       (auto simp: unpack_shift parse_record_shift add.assoc py_bind_def split: sum.splits)
qed

section \<open>Totality\<close>

lemma parse_sections_total:
  "\<exists>ss. parse_sections n region o' = Inr ss \<and> length ss \<le> n"
proof (induction n arbitrary: o')
  case (Suc n)
  show ?case using Suc[of "o' + 38"] by (auto simp: parse_section_def Let_def)
qed simp

lemma parse_record_total:
  assumes "o' + 100 \<le> length region"
  shows "\<exists>r. parse_record region o' = Inr r \<and> length (cr_sections r) \<le> nat (cr_section_count r) \<and>
     cr_record_length r = le_int (take 4 (drop (o' + 20) region))"
  using assms parse_sections_total[of _ region "o' + 128"]
  by (simp add: parse_record_def Let_def) (metis (no_types, lifting) py_bind_simps(2) cper_record.select_convs)

lemma parse_from_total:
  "\<exists>rs. parse_from region o' = Inr rs \<and> 100 * length rs \<le> length region - o' \<and>
     (\<forall>r \<in> set rs. length (cr_sections r) \<le> nat (cr_section_count r))"
proof (induction region o' rule: parse_from.induct)
  case (1 region o')
  show ?case
  proof (cases "o' + 100 \<le> length region \<and> slice region o' (o' + 4) = CPER_SIG")
    case False
    then show ?thesis by (subst parse_from.simps) (auto split: sum.splits)
  next
    case True
    then obtain r where r: "parse_record region o' = Inr r"
      "length (cr_sections r) \<le> nat (cr_section_count r)"
      using parse_record_total by blast
    obtain fs where fs: "unpack_from CPER_HEADER_FMT region o' = Inr fs"
      using True by (simp add: CPER_HEADER_FMT_def)
    show ?thesis
    proof (cases "cr_record_length r < 100")
      case True
      then show ?thesis
        using \<open>o' + 100 \<le> length region \<and> _\<close> r fs by (subst parse_from.simps) auto
    next
      case False
      let ?o = "o' + nat (cr_record_length r)"
      obtain rs where rs: "parse_from region ?o = Inr rs" "100 * length rs \<le> length region - ?o"
        "\<forall>r \<in> set rs. length (cr_sections r) \<le> nat (cr_section_count r)"
        using 1[OF _ fs] True r False by auto
      have "parse_from region o' = Inr (r # rs)"
        using True r fs False rs by (subst parse_from.simps) auto
      moreover have "100 * length (r # rs) \<le> length region - o'"
        using rs(2) False True by (cases "nat (cr_record_length r) < 100") (simp, simp add: not_less, arith)
      ultimately show ?thesis using rs(3) r(2) by auto
    qed
  qed
qed

text \<open>The parse of the records, by rounds.\<close>

lemma parse_from_step:
  assumes "o' + 100 \<le> length region" "slice region o' (o' + 4) = CPER_SIG"
    "parse_record region o' = Inr r" "cr_record_length r \<ge> 100"
  shows "parse_from region o' =
    py_bind (parse_from region (o' + nat (cr_record_length r))) (\<lambda>rs. Inr (r # rs))"
  using assms by (subst parse_from.simps) (auto simp: CPER_HEADER_FMT_def)

definition framed :: "int list \<Rightarrow> bool" where
  "framed b \<longleftrightarrow> 128 + 38 * nat (section_count_of b) \<le> length b \<and> take 4 b = CPER_SIG \<and>
     record_length_of b = int (length b)"

lemma parse_framed:
  assumes "framed b"
  shows "parse_cper_records (b @ rest) =
    py_bind (parse_record b 0) (\<lambda>r. py_bind (parse_cper_records rest) (\<lambda>rs. Inr (r # rs)))"
proof -
  have len: "128 \<le> length b" using assms by (simp add: framed_def)
  obtain r where r: "parse_record b 0 = Inr r" "cr_record_length r = record_length_of b"
    using parse_record_total[of 0 b] len by (auto simp: record_length_of_def)
  have l: "cr_record_length r = int (length b)" using r(2) assms by (simp add: framed_def)
  have "parse_record (b @ rest) 0 = Inr r"
    using parse_record_prefix[of b rest] assms r(1) by (simp add: framed_def)
  moreover have "slice (b @ rest) 0 (0 + 4) = CPER_SIG"
    using assms len by (simp add: framed_def slice_def)
  ultimately have "parse_from (b @ rest) 0 =
      py_bind (parse_from (b @ rest) (0 + nat (int (length b)))) (\<lambda>rs. Inr (r # rs))"
    using parse_from_step[of 0 "b @ rest" r] len l by simp
  then show ?thesis
    using parse_from_shift[of b rest 0] r(1) by (simp add: parse_cper_records_def)
qed

text \<open>Where a section's type is known, its GUID was read from the bytes after the first four.\<close>

definition guid_section :: "cper_section \<Rightarrow> bool" where
  "guid_section s \<longleftrightarrow> cs_type s = ''unknown'' \<or>
     (\<exists>g. (g, cs_type s) \<in> set CPER_SECTION_TYPES \<and> cs_length s = le_int (take 2 g))"

lemma parse_section_guid: "parse_section region o' = Inr s \<Longrightarrow> guid_section s"
proof -
  assume "parse_section region o' = Inr s"
  then have s: "cs_length s = le_int (take 2 (drop (o' + 4) region))"
      "cs_type s = dgetd CPER_SECTION_TYPES (take 16 (drop (o' + 4) region)) ''unknown''"
    by (auto simp: parse_section_def py_bind_eq_Inr unpack_from_def slice_def add.commute
        split: if_splits)
  show ?thesis
  proof (cases "dget CPER_SECTION_TYPES (take 16 (drop (o' + 4) region))")
    case None
    then show ?thesis using s by (simp add: guid_section_def dgetd_def)
  next
    case (Some t)
    then show ?thesis
      using dget_Some_in[OF Some] s unfolding guid_section_def
      by (intro disjI2 exI[of _ "take 16 (drop (o' + 4) region)"]) (simp add: dgetd_def)
  qed
qed

lemma parse_sections_guid:
  "parse_sections n region o' = Inr ss \<Longrightarrow> list_all guid_section ss"
  by (induction n arbitrary: o' ss)
     (auto simp: py_bind_eq_Inr parse_section_guid split: if_splits)

lemma parse_record_guid: "parse_record region o' = Inr r \<Longrightarrow> list_all guid_section (cr_sections r)"
  by (auto simp: parse_record_def Let_def py_bind_eq_Inr dest: parse_sections_guid)

lemma parse_from_guid:
  "parse_from region o' = Inr rs \<Longrightarrow> list_all (\<lambda>r. list_all guid_section (cr_sections r)) rs"
proof (induction region o' arbitrary: rs rule: parse_from.induct)
  case (1 region o')
  have IH: "list_all (\<lambda>r. list_all guid_section (cr_sections r)) rs'"
    if "parse_from region (o' + nat (cr_record_length r)) = Inr rs'" "\<not> cr_record_length r < 100"
      "o' + 100 \<le> length region" "slice region o' (o' + 4) = CPER_SIG" for r :: cper_record and rs'
    using that by (intro 1(1)[of "split_fields CPER_HEADER_FMT (drop o' region)" r])
      (simp_all add: CPER_HEADER_FMT_def)
  show ?case
    using 1(2) by (subst (asm) parse_from.simps)
      (auto simp: py_bind_eq_Inr parse_record_guid split: if_splits sum.splits intro: IH)
qed

lemma counts_by_severity_get:
  "dget (counts_by_severity rs) k =
     (if k \<in> cr_severity ` set rs then Some (int (count_list (map cr_severity rs) k)) else None)"
proof -
  have "counts_by_severity rs = fold dbump (map cr_severity rs) []"
    by (simp add: counts_by_severity_def fold_map comp_def)
  then show ?thesis by (simp add: dget_fold_dbump)
qed

lemma counts_by_type_eq:
  "counts_by_type rs = fold dbump (concat (map (\<lambda>r. map cs_type (cr_sections r)) rs)) []"
proof -
  have "fold (\<lambda>r d. fold (\<lambda>s. dbump (cs_type s)) (cr_sections r) d) rs d =
        fold dbump (concat (map (\<lambda>r. map cs_type (cr_sections r)) rs)) d" for d
    by (induction rs arbitrary: d) (simp_all add: fold_map comp_def)
  then show ?thesis by (simp add: counts_by_type_def)
qed

lemma counts_ok: "dict_ok (counts_by_severity rs)" "dict_ok (counts_by_type rs)"
  by (simp_all only: counts_by_type_eq dict_ok_fold_dbump dict_ok_Nil)
     (simp add: counts_by_severity_def fold_map[symmetric, of dbump cr_severity, unfolded comp_def])

section \<open>Properties\<close>

text \<open>C27: the record parser ends without an error on every region, returns at most one record
  for each hundred bytes, and never more sections than the record declares.\<close>

theorem cper_total_bounded:
  "\<exists>rs. parse_cper_records region = Inr rs \<and> 100 * length rs \<le> length region \<and>
     (\<forall>r \<in> set rs. length (cr_sections r) \<le> nat (cr_section_count r))"
  using parse_from_total[of region 0] by (simp add: parse_cper_records_def)

text \<open>A record of 166 bytes with one section of the PCIe type, and one without sections.\<close>

definition pcie_record :: "int list" where
  "pcie_record = CPER_SIG @ replicate 14 0 @ [1, 0] @ [166, 0, 0, 0] @ [1, 0, 0, 0] @ replicate 100 0 @
     [7, 0, 0, 0] @ [0xe4,0x29,0xfa,0xf1,0xa2,0x38,0x40,0xdb,0xb1,0x0b,0x55,0xff,0x6a,0xaa,0x68,0xe4] @
     replicate 18 0"

definition bare_record :: "int list" where
  "bare_record = CPER_SIG @ replicate 16 0 @ [128, 0, 0, 0] @ [2, 0, 0, 0] @ replicate 100 0"

theorem cper_total_bounded_witness:
  "\<exists>rs. parse_cper_records (pcie_record @ bare_record) = Inr rs \<and> 100 * length rs \<le> 294"
  using cper_total_bounded[of "pcie_record @ bare_record"]
  by (auto simp: pcie_record_def bare_record_def CPER_SIG_def)

lemma framed_samples: "framed pcie_record" "framed bare_record"
  by code_simp+

text \<open>C9: a region of records laid end to end, each with its length in its header, is read back
  record by record: none is lost, none is merged, and the bytes that follow do not change one.\<close>

theorem cper_framing:
  assumes "list_all framed bs"
  shows "parse_cper_records (concat bs) = py_mapM (\<lambda>b. parse_record b 0) bs"
  using assms
proof (induction bs)
  case Nil
  then show ?case by (simp add: parse_cper_records_def parse_from.simps)
next
  case (Cons b bs)
  then show ?case by (simp add: parse_framed)
qed

theorem cper_framing_witness:
  "parse_cper_records (concat [pcie_record, bare_record]) =
     py_mapM (\<lambda>b. parse_record b 0) [pcie_record, bare_record]"
  by (rule cper_framing) (simp add: framed_samples)

text \<open>The length reported for a section of a known type is no length: it is the first two
  bytes of the type's GUID, which the reader takes from the bytes it has just read as the
  length. Every PCIe section of every input is reported with the same length.\<close>

theorem cper_section_length_is_guid:
  assumes "parse_cper_records region = Inr rs" "r \<in> set rs" "s \<in> set (cr_sections r)"
    "cs_type s = ''pcie''"
  shows "cs_length s = 10724"
proof -
  have "guid_section s"
    using parse_from_guid[of region 0 rs] assms(1-3) by (auto simp: parse_cper_records_def list_all_iff)
  then show ?thesis using assms(4) by (auto simp: guid_section_def CPER_SECTION_TYPES_def)
qed

definition pcie_section :: cper_section where
  "pcie_section = \<lparr>cs_type = ''pcie'', cs_length = 10724, cs_offset = 7\<rparr>"

lemma pcie_record_parse:
  "parse_cper_records pcie_record =
     Inr [\<lparr>cr_severity = ''fatal'', cr_section_count = 1, cr_record_length = 166,
           cr_sections = [pcie_section]\<rparr>]"
  by code_simp

theorem cper_section_length_is_guid_witness: "cs_length pcie_section = 10724"
proof -
  obtain r where r: "parse_cper_records pcie_record = Inr [r]" "cr_sections r = [pcie_section]"
    using pcie_record_parse by simp
  show ?thesis
    by (rule cper_section_length_is_guid[OF r(1), of r]) (simp_all add: r(2) pcie_section_def)
qed

text \<open>The metrics of a run carry one line per severity and per section type that occurs, with
  the exact number of records and of sections.\<close>

theorem bert_metrics_counts:
  "((k, n) \<in> set (counts_by_severity rs) \<longleftrightarrow>
     k \<in> cr_severity ` set rs \<and> n = int (count_list (map cr_severity rs) k)) \<and>
   ((t, m) \<in> set (counts_by_type rs) \<longleftrightarrow>
     t \<in> set (concat (map (\<lambda>r. map cs_type (cr_sections r)) rs)) \<and>
     m = int (count_list (concat (map (\<lambda>r. map cs_type (cr_sections r)) rs)) t))"
proof -
  have "dget (counts_by_type rs) t = Some m \<longleftrightarrow>
      t \<in> set (concat (map (\<lambda>r. map cs_type (cr_sections r)) rs)) \<and>
      m = int (count_list (concat (map (\<lambda>r. map cs_type (cr_sections r)) rs)) t)"
    unfolding counts_by_type_eq dget_fold_dbump by auto
  moreover have "dget (counts_by_severity rs) k = Some n \<longleftrightarrow>
      k \<in> cr_severity ` set rs \<and> n = int (count_list (map cr_severity rs) k)"
    unfolding counts_by_severity_get by auto
  ultimately show ?thesis
    unfolding dict_mem_iff[OF counts_ok(1)] dict_mem_iff[OF counts_ok(2)] by blast
qed

end
