(* ===== verification/Bitflip.thy ===== *)
theory Bitflip
  imports PyFloat "HOL-Library.Word"
begin

text \<open>
  The syndrome analyser of \<open>ml/bitflip_analyzer.py\<close>: the set bits of a syndrome, stuck bits,
  multi-bit errors, row-hammer pairs and the fall-back class. Time stamps are finite floats.
\<close>

unbundle bit_operations_syntax

section \<open>Data\<close>

datatype pattern = STUCK_BIT | ROW_HAMMER | RANDOM_SEU | MULTI_BIT

record ce_event =
  ce_page :: int
  ce_offset :: int
  ce_syndrome :: int
  ce_timestamp :: rat
  ce_controller :: string
  ce_csrow :: int
  ce_channel :: int

record diagnosis =
  dg_page :: int
  dg_pattern :: pattern
  dg_bits :: "int list"
  dg_confidence :: rat
  dg_recommendation :: string

section \<open>The analysis\<close>

definition bit_positions :: "int \<Rightarrow> int list" where
  "bit_positions syndrome = filter (\<lambda>i. syndrome AND push_bit (nat i) 1 \<noteq> 0) [0..63]"

text \<open>The literals \<open>0.064\<close>, \<open>0.75\<close>, \<open>0.95\<close>, \<open>0.9\<close> and \<open>0.6\<close> are the floats nearest to them.\<close>

definition rh_diagnosis :: "ce_event \<Rightarrow> ce_event \<Rightarrow> diagnosis" where
  "rh_diagnosis a b =
     (let bits = remdups (bit_positions (ce_syndrome a) @ bit_positions (ce_syndrome b))
      in \<lparr>dg_page = ce_page a, dg_pattern = ROW_HAMMER, dg_bits = sort bits,
          dg_confidence = rnd (3 / 4),
          dg_recommendation = ''Remap adjacent rows; schedule DIMM replacement''\<rparr>)"

text \<open>The inner loop over the later events, left at the first one out of the window.\<close>

fun rh_inner :: "ce_event \<Rightarrow> ce_event list \<Rightarrow> diagnosis list" where
  "rh_inner a [] = []"
| "rh_inner a (b # bs) =
     (if fsub (ce_timestamp b) (ce_timestamp a) > rnd (64 / 1000) then []
      else (if \<bar>ce_csrow a - ce_csrow b\<bar> = 1 \<and> ce_page a \<noteq> ce_page b then [rh_diagnosis a b] else []) @
           rh_inner a bs)"

fun rh_outer :: "ce_event list \<Rightarrow> diagnosis list" where
  "rh_outer [] = []"
| "rh_outer (a # bs) = rh_inner a bs @ rh_outer bs"

definition bus_key :: "ce_event \<Rightarrow> string \<times> int" where
  "bus_key e = (ce_controller e, ce_channel e)"

definition check_row_hammer :: "ce_event list \<Rightarrow> diagnosis list" where
  "check_row_hammer events =
     (let by_controller = group_by bus_key events
      in concat (map (\<lambda>(key, evts). rh_outer (sort_key ce_timestamp evts)) by_controller))"

text \<open>The first loop: the multi-bit diagnoses and the bits seen on each page.\<close>

definition scan_event ::
    "ce_event \<Rightarrow> diagnosis list \<times> (int, int list) dict \<Rightarrow> diagnosis list \<times> (int, int list) dict" where
  "scan_event e st =
     (let (results, page_bits) = st; bits = bit_positions (ce_syndrome e);
          results = (if length bits > 1
            then results @ [\<lparr>dg_page = ce_page e, dg_pattern = MULTI_BIT, dg_bits = bits,
                   dg_confidence = rnd (95 / 100),
                   dg_recommendation = ''Offline DIMM immediately; imminent UE risk''\<rparr>]
            else results)
      in (results, dset (ce_page e) (dgetd page_bits (ce_page e) [] @ bits) page_bits))"

definition stuck_bits :: "int list \<Rightarrow> int list" where
  "stuck_bits bits = map fst (filter (\<lambda>(b, c). c > 5) (fold dbump bits []))"

definition stuck_page :: "int \<times> int list \<Rightarrow> diagnosis list" where
  "stuck_page pb =
     (let (page, bits) = pb; stuck = stuck_bits bits
      in if stuck \<noteq> []
         then [\<lparr>dg_page = page, dg_pattern = STUCK_BIT, dg_bits = sort stuck,
                dg_confidence = rnd (9 / 10),
                dg_recommendation = ''Page offline; permanent cell damage''\<rparr>]
         else [])"

definition random_page :: "int set \<Rightarrow> int \<times> int list \<Rightarrow> diagnosis list" where
  "random_page diagnosed pb =
     (let (page, bits) = pb
      in if page \<notin> diagnosed
         then [\<lparr>dg_page = page, dg_pattern = RANDOM_SEU, dg_bits = sort (remdups bits),
                dg_confidence = rnd (6 / 10),
                dg_recommendation = ''No action; cosmic ray / alpha particle''\<rparr>]
         else [])"

definition analyze_bitflips :: "ce_event list \<Rightarrow> diagnosis list" where
  "analyze_bitflips events =
     (if events = [] then []
      else let (results, page_bits) = fold scan_event events ([], []);
               results = results @ concat (map stuck_page page_bits);
               results = results @ check_row_hammer events;
               diagnosed_pages = set (map dg_page results)
           in results @ concat (map (random_page diagnosed_pages) page_bits))"

section \<open>Syndrome bits\<close>

lemma and_one_bit: "x AND push_bit n 1 \<noteq> 0 \<longleftrightarrow> bit (x :: int) n"
  by (simp add: push_bit_eq_mult and_exp_eq_0_iff_not_bit)

lemma bit_positions_mem: "b \<in> set (bit_positions s) \<longleftrightarrow> 0 \<le> b \<and> b < 64 \<and> bit s (nat b)"
  by (auto simp: bit_positions_def and_exp_eq_0_iff_not_bit)

lemma bit_positions_distinct [simp]: "distinct (bit_positions s)"
  by (simp add: bit_positions_def)

section \<open>The first loop\<close>

definition has_bit :: "int \<Rightarrow> int \<Rightarrow> ce_event \<Rightarrow> bool" where
  "has_bit p b e \<longleftrightarrow> ce_page e = p \<and> 0 \<le> b \<and> b < 64 \<and> bit (ce_syndrome e) (nat b)"

lemma scan_page_bits:
  "dgetd (snd (fold scan_event es (rs, pb))) p [] =
     dgetd pb p [] @ concat (map (\<lambda>e. bit_positions (ce_syndrome e)) (filter (\<lambda>e. ce_page e = p) es))"
  by (induction es arbitrary: rs pb) (auto simp: scan_event_def Let_def)

lemma scan_page_keys:
  "set (dkeys (snd (fold scan_event es (rs, pb)))) = set (dkeys pb) \<union> ce_page ` set es"
  by (induction es arbitrary: rs pb) (auto simp: scan_event_def Let_def)

lemma scan_page_ok: "dict_ok pb \<Longrightarrow> dict_ok (snd (fold scan_event es (rs, pb)))"
  by (induction es arbitrary: rs pb) (auto simp: scan_event_def Let_def)

lemma scan_results:
  "fst (fold scan_event es (rs, pb)) = rs @ concat (map (\<lambda>e. fst (scan_event e ([], []))) es)"
  by (induction es arbitrary: rs pb) (auto simp: scan_event_def Let_def)

abbreviation page_bits :: "ce_event list \<Rightarrow> (int, int list) dict" where
  "page_bits es \<equiv> snd (fold scan_event es ([], []))"

lemma page_bits_mem:
  "(p, bits) \<in> set (page_bits es) \<longleftrightarrow> p \<in> ce_page ` set es \<and>
     bits = concat (map (\<lambda>e. bit_positions (ce_syndrome e)) (filter (\<lambda>e. ce_page e = p) es))"
proof -
  have ok: "dict_ok (page_bits es)" by (simp add: scan_page_ok)
  have "(p, bits) \<in> set (page_bits es) \<longleftrightarrow> dget (page_bits es) p = Some bits"
    using ok dict_ok_in_dget dget_Some_in by metis
  also have "\<dots> \<longleftrightarrow> p \<in> ce_page ` set es \<and> bits = dgetd (page_bits es) p []"
    using dget_in_keys[of "page_bits es" p] scan_page_keys[of es "[]" "[]"]
    by (auto simp: dgetd_def split: option.splits)
  finally show ?thesis by (simp add: scan_page_bits)
qed

lemma count_distinct: "distinct xs \<Longrightarrow> count_list xs x = (if x \<in> set xs then 1 else 0)"
  by (induction xs) auto

lemma count_page_bits:
  "count_list (concat (map (\<lambda>e. bit_positions (ce_syndrome e)) (filter (\<lambda>e. ce_page e = p) es))) b =
     length (filter (has_bit p b) es)"
proof (induction es)
  case (Cons e es)
  have "count_list (bit_positions s) b = (if b \<in> set (bit_positions s) then 1 else 0)" for s
    by (rule count_distinct) simp
  then show ?case using Cons by (auto simp: has_bit_def bit_positions_mem)
qed simp

lemma stuck_bits_mem: "b \<in> set (stuck_bits bits) \<longleftrightarrow> 5 < count_list bits b"
proof -
  have "(b, c) \<in> set (fold dbump bits []) \<longleftrightarrow> dget (fold dbump bits []) b = Some c" for c
    using dict_ok_in_dget[of "fold dbump bits []"] dget_Some_in by fastforce
  then show ?thesis
    by (force simp: stuck_bits_def dget_fold_dbump count_list_0_iff split: if_splits)
qed

section \<open>Row-hammer pairs\<close>

definition rh_pair :: "ce_event \<Rightarrow> ce_event \<Rightarrow> bool" where
  "rh_pair a b \<longleftrightarrow> fsub (ce_timestamp b) (ce_timestamp a) \<le> rnd (64 / 1000) \<and>
     \<bar>ce_csrow a - ce_csrow b\<bar> = 1 \<and> ce_page a \<noteq> ce_page b"

text \<open>In time order the early exit loses nothing: the rounded difference only grows.\<close>

lemma rh_inner_sorted:
  "sorted (map ce_timestamp bs) \<Longrightarrow> set (rh_inner a bs) = rh_diagnosis a ` {b \<in> set bs. rh_pair a b}"
proof (induction bs)
  case (Cons b bs)
  show ?case
  proof (cases "fsub (ce_timestamp b) (ce_timestamp a) > rnd (64 / 1000)")
    case True
    have "\<not> rh_pair a c" if "c \<in> set (b # bs)" for c
    proof -
      have "ce_timestamp b \<le> ce_timestamp c" using Cons.prems that by auto
      then have "fsub (ce_timestamp b) (ce_timestamp a) \<le> fsub (ce_timestamp c) (ce_timestamp a)"
        by (rule fsub_mono)
      then show ?thesis using True by (simp add: rh_pair_def)
    qed
    then show ?thesis using True by auto
  next
    case False
    then show ?thesis using Cons by (auto simp: rh_pair_def)
  qed
qed simp

text \<open>The pairs of a list in order, and the same pairs after sorting by a key: sorting is stable, so of
  two elements with equal keys the earlier one comes first.\<close>

fun ordered_pairs :: "'a list \<Rightarrow> ('a \<times> 'a) set" where
  "ordered_pairs [] = {}"
| "ordered_pairs (x # xs) = Pair x ` set xs \<union> ordered_pairs xs"

fun keyed_pairs :: "('a \<Rightarrow> 'k :: linorder) \<Rightarrow> 'a list \<Rightarrow> ('a \<times> 'a) set" where
  "keyed_pairs f [] = {}"
| "keyed_pairs f (x # xs) =
     {(x, y) | y. y \<in> set xs \<and> f x \<le> f y} \<union> {(y, x) | y. y \<in> set xs \<and> f y < f x} \<union> keyed_pairs f xs"

lemma ordered_pairs_insort:
  "sorted (map f s) \<Longrightarrow> ordered_pairs (insort_key f x s) =
     {(x, y) | y. y \<in> set s \<and> f x \<le> f y} \<union> {(y, x) | y. y \<in> set s \<and> f y < f x} \<union> ordered_pairs s"
  by (induction s) (auto simp: set_insort_key)

lemma ordered_pairs_sort: "ordered_pairs (sort_key f xs) = keyed_pairs f xs"
  by (induction xs) (simp_all add: ordered_pairs_insort)

lemma keyed_pairs_filter: "keyed_pairs f (filter P xs) = {(a, b) \<in> keyed_pairs f xs. P a \<and> P b}"
  by (induction xs) auto

lemma keyed_pairs_nth:
  "(a, b) \<in> keyed_pairs f xs \<longleftrightarrow>
     (\<exists>i j. i < length xs \<and> j < length xs \<and> a = xs ! i \<and> b = xs ! j \<and>
        (f a < f b \<or> f a = f b \<and> i < j))"
proof (induction xs)
  case (Cons x xs)
  show ?case (is "?L \<longleftrightarrow> ?R")
  proof
    assume ?L
    then consider y where "a = x" "b = y" "y \<in> set xs" "f x \<le> f y" | y where "a = y" "b = x" "y \<in> set xs" "f y < f x"
      | "(a, b) \<in> keyed_pairs f xs" by auto
    then show ?R
    proof cases
      case 1
      then obtain j where "j < length xs" "b = xs ! j" by (auto simp: in_set_conv_nth)
      then show ?thesis using 1 by (intro exI[of _ 0] exI[of _ "Suc j"]) auto
    next
      case 2
      then obtain i where "i < length xs" "a = xs ! i" by (auto simp: in_set_conv_nth)
      then show ?thesis using 2 by (intro exI[of _ "Suc i"] exI[of _ 0]) auto
    next
      case 3
      then obtain i j where "i < length xs" "j < length xs" "a = xs ! i" "b = xs ! j"
        "f a < f b \<or> f a = f b \<and> i < j" using Cons by blast
      then show ?thesis by (intro exI[of _ "Suc i"] exI[of _ "Suc j"]) auto
    qed
  next
    assume ?R
    then obtain i j where ij: "i < length (x # xs)" "j < length (x # xs)" "a = (x # xs) ! i" "b = (x # xs) ! j"
      "f a < f b \<or> f a = f b \<and> i < j" by blast
    show ?L
    proof (cases i)
      case 0
      then show ?thesis using ij by (cases j) auto
    next
      case (Suc i')
      then show ?thesis using ij Cons by (cases j) auto
    qed
  qed
qed simp

lemma rh_outer_sorted:
  "sorted (map ce_timestamp es) \<Longrightarrow>
   set (rh_outer es) = {rh_diagnosis a b | a b. (a, b) \<in> ordered_pairs es \<and> rh_pair a b}"
  by (induction es) (auto simp: rh_inner_sorted)

text \<open>Two events of one bus in the order the check sees them: by time stamp, ties in the order they came.\<close>

definition rh_before :: "ce_event list \<Rightarrow> nat \<Rightarrow> nat \<Rightarrow> bool" where
  "rh_before es i j \<longleftrightarrow> i < length es \<and> j < length es \<and> bus_key (es ! i) = bus_key (es ! j) \<and>
     (ce_timestamp (es ! i) < ce_timestamp (es ! j) \<or> ce_timestamp (es ! i) = ce_timestamp (es ! j) \<and> i < j)"

lemma check_row_hammer_mem:
  "d \<in> set (check_row_hammer es) \<longleftrightarrow>
     (\<exists>k \<in> bus_key ` set es. d \<in> set (rh_outer (sort_key ce_timestamp (filter (\<lambda>e. bus_key e = k) es))))"
  unfolding check_row_hammer_def Let_def by (rule group_by_concat)

lemma check_row_hammer_exact:
  "set (check_row_hammer es) =
     {rh_diagnosis (es ! i) (es ! j) | i j. rh_before es i j \<and> rh_pair (es ! i) (es ! j)}"
proof -
  have "d \<in> set (check_row_hammer es) \<longleftrightarrow>
      (\<exists>k \<in> bus_key ` set es. \<exists>a b. (a, b) \<in> keyed_pairs ce_timestamp es \<and> bus_key a = k \<and> bus_key b = k \<and>
         rh_pair a b \<and> d = rh_diagnosis a b)" for d
    by (auto simp: check_row_hammer_mem rh_outer_sorted ordered_pairs_sort keyed_pairs_filter)
  also have "\<dots> d \<longleftrightarrow> (\<exists>a b. (a, b) \<in> keyed_pairs ce_timestamp es \<and> bus_key a = bus_key b \<and>
         rh_pair a b \<and> d = rh_diagnosis a b)" for d
  proof -
    have "(a, b) \<in> keyed_pairs ce_timestamp es \<Longrightarrow> a \<in> set es" for a b
      by (auto simp: keyed_pairs_nth)
    then show ?thesis by (smt (verit) image_eqI)
  qed
  also have "\<dots> d \<longleftrightarrow> (\<exists>i j. rh_before es i j \<and> rh_pair (es ! i) (es ! j) \<and> d = rh_diagnosis (es ! i) (es ! j))" for d
    unfolding keyed_pairs_nth rh_before_def by blast
  finally show ?thesis by blast
qed

section \<open>All results\<close>

definition multi_results :: "ce_event list \<Rightarrow> diagnosis list" where
  "multi_results es = concat (map (\<lambda>e. fst (scan_event e ([], []))) es)"

definition stuck_results :: "ce_event list \<Rightarrow> diagnosis list" where
  "stuck_results es = concat (map stuck_page (page_bits es))"

definition sure_pages :: "ce_event list \<Rightarrow> int set" where
  "sure_pages es = dg_page ` (set (multi_results es) \<union> set (stuck_results es) \<union> set (check_row_hammer es))"

definition random_results :: "ce_event list \<Rightarrow> diagnosis list" where
  "random_results es = concat (map (random_page (sure_pages es)) (page_bits es))"

lemma analyze_eq:
  "analyze_bitflips es = multi_results es @ stuck_results es @ check_row_hammer es @ random_results es"
proof (cases "es = []")
  case True
  then show ?thesis
    by (simp add: analyze_bitflips_def multi_results_def stuck_results_def random_results_def
        check_row_hammer_def group_by_def)
next
  case False
  obtain rs pb where f: "fold scan_event es ([], []) = (rs, pb)" by fastforce
  have rs: "rs = multi_results es"
    using scan_results[of es "[]" "[]"] f by (simp add: multi_results_def)
  have pb: "concat (map stuck_page pb) = stuck_results es"
    by (simp add: stuck_results_def f)
  have set: "set (map dg_page ((rs @ concat (map stuck_page pb)) @ check_row_hammer es)) = sure_pages es"
    unfolding rs pb by (simp add: sure_pages_def image_Un Un_assoc)
  have "analyze_bitflips es = ((rs @ concat (map stuck_page pb)) @ check_row_hammer es) @
      concat (map (random_page (sure_pages es)) pb)"
    using False by (simp only: analyze_bitflips_def if_False f Let_def prod.case set)
  then show ?thesis by (simp only: rs pb random_results_def f snd_conv append_assoc)
qed

lemma multi_results_mem:
  "d \<in> set (multi_results es) \<Longrightarrow> dg_pattern d = MULTI_BIT \<and> dg_page d \<in> ce_page ` set es"
  by (auto simp: multi_results_def scan_event_def Let_def split: if_splits)

lemma stuck_results_mem:
  "d \<in> set (stuck_results es) \<Longrightarrow> dg_pattern d = STUCK_BIT \<and> dg_page d \<in> ce_page ` set es \<and>
   (\<forall>b. b \<in> set (dg_bits d) \<longleftrightarrow> 5 < length (filter (has_bit (dg_page d) b) es))"
  by (auto simp: stuck_results_def stuck_page_def Let_def page_bits_mem stuck_bits_mem count_page_bits
      split: if_splits)

lemma row_hammer_mem:
  "d \<in> set (check_row_hammer es) \<Longrightarrow> dg_pattern d = ROW_HAMMER \<and> dg_page d \<in> ce_page ` set es"
  by (auto simp: check_row_hammer_exact rh_before_def rh_diagnosis_def Let_def)

lemma random_results_mem:
  "d \<in> set (random_results es) \<Longrightarrow> dg_pattern d = RANDOM_SEU"
  by (auto simp: random_results_def random_page_def split: if_splits)

lemma random_pages:
  "dg_page ` set (random_results es) = ce_page ` set es - sure_pages es"
proof -
  have "dg_page ` set (random_page D pb) = (if fst pb \<in> D then {} else {fst pb})" for D pb
    by (cases pb) (simp add: random_page_def)
  then have "dg_page ` set (random_results es) = fst ` set (page_bits es) - sure_pages es"
    by (auto simp: random_results_def image_UN)
  moreover have "fst ` set (page_bits es) = ce_page ` set es"
    using scan_page_keys[of es "[]" "[]"] by (simp add: dkeys_def)
  ultimately show ?thesis by simp
qed

lemma sure_pages_sub: "sure_pages es \<subseteq> ce_page ` set es"
  using multi_results_mem stuck_results_mem row_hammer_mem unfolding sure_pages_def by blast

lemma stuck_results_complete:
  assumes "5 < length (filter (has_bit p b) es)"
  shows "\<exists>d \<in> set (stuck_results es). dg_page d = p \<and> b \<in> set (dg_bits d)"
proof -
  define bits where "bits = concat (map (\<lambda>e. bit_positions (ce_syndrome e)) (filter (\<lambda>e. ce_page e = p) es))"
  have b: "b \<in> set (stuck_bits bits)" using assms by (simp only: bits_def stuck_bits_mem count_page_bits)
  have "filter (has_bit p b) es \<noteq> []" using assms by force
  then have m: "(p, bits) \<in> set (page_bits es)"
    unfolding page_bits_mem bits_def by (auto simp: filter_empty_conv has_bit_def)
  have "stuck_bits bits \<noteq> []" using b by auto
  then have "\<exists>d \<in> set (stuck_page (p, bits)). dg_page d = p \<and> b \<in> set (dg_bits d)"
    using b by (simp add: stuck_page_def Let_def)
  then show ?thesis using m unfolding stuck_results_def by auto
qed

lemma pattern_of_result:
  "d \<in> set (analyze_bitflips es) \<Longrightarrow> dg_pattern d = STUCK_BIT \<Longrightarrow> d \<in> set (stuck_results es)"
  "d \<in> set (analyze_bitflips es) \<Longrightarrow> dg_pattern d = ROW_HAMMER \<Longrightarrow> d \<in> set (check_row_hammer es)"
  using multi_results_mem[of d es] stuck_results_mem[of d es] row_hammer_mem[of d es]
    random_results_mem[of d es]
  by (auto simp: analyze_eq)

section \<open>Properties\<close>

text \<open>A page is reported with a stuck bit exactly when more than five of its events have that
  bit set in their syndrome, and the report lists exactly those bits.\<close>

theorem stuck_bit_exact:
  "(\<exists>d \<in> set (analyze_bitflips es). dg_pattern d = STUCK_BIT \<and> dg_page d = p \<and> b \<in> set (dg_bits d)) \<longleftrightarrow>
     5 < length (filter (has_bit p b) es)"
  (is "?L \<longleftrightarrow> ?R")
proof
  assume ?L
  then show ?R using pattern_of_result(1)[of _ es] stuck_results_mem[of _ es] by blast
next
  assume ?R
  then obtain d where "d \<in> set (stuck_results es)" "dg_page d = p" "b \<in> set (dg_bits d)"
    using stuck_results_complete by blast
  then show ?L using stuck_results_mem[of d es] by (auto simp: analyze_eq)
qed

text \<open>C10: the row-hammer reports are exactly those of the pairs of events of one controller and channel,
  in time order (events with equal time stamps in the order they came), in adjacent rows, on different
  pages and at most 64 ms apart in float arithmetic: no other report, and none of them missing.\<close>

theorem row_hammer_exact:
  "{d \<in> set (analyze_bitflips es). dg_pattern d = ROW_HAMMER} =
     {rh_diagnosis (es ! i) (es ! j) | i j. i < length es \<and> j < length es \<and>
        bus_key (es ! i) = bus_key (es ! j) \<and>
        (ce_timestamp (es ! i) < ce_timestamp (es ! j) \<or> ce_timestamp (es ! i) = ce_timestamp (es ! j) \<and> i < j) \<and>
        fsub (ce_timestamp (es ! j)) (ce_timestamp (es ! i)) \<le> rnd (64 / 1000) \<and>
        \<bar>ce_csrow (es ! i) - ce_csrow (es ! j)\<bar> = 1 \<and> ce_page (es ! i) \<noteq> ce_page (es ! j)}"
proof -
  have "{d \<in> set (analyze_bitflips es). dg_pattern d = ROW_HAMMER} = set (check_row_hammer es)"
    using pattern_of_result(2)[of _ es] row_hammer_mem[of _ es] by (auto simp: analyze_eq)
  then show ?thesis unfolding check_row_hammer_exact rh_before_def rh_pair_def by blast
qed

text \<open>Three events, the last two at the same instant: each is in a row next to that of the others' one.\<close>

definition hammer_events :: "ce_event list" where
  "hammer_events =
     [\<lparr>ce_page = 16, ce_offset = 0, ce_syndrome = 1, ce_timestamp = 1, ce_controller = ''mc0'',
        ce_csrow = 4, ce_channel = 0\<rparr>,
      \<lparr>ce_page = 17, ce_offset = 0, ce_syndrome = 4, ce_timestamp = 1 + 1 / 32,
        ce_controller = ''mc0'', ce_csrow = 5, ce_channel = 0\<rparr>,
      \<lparr>ce_page = 18, ce_offset = 0, ce_syndrome = 4, ce_timestamp = 1 + 1 / 32,
        ce_controller = ''mc0'', ce_csrow = 6, ce_channel = 0\<rparr>]"

theorem row_hammer_exact_witness:
  "rh_diagnosis (hammer_events ! 0) (hammer_events ! 1) \<in> set (analyze_bitflips hammer_events) \<and>
   rh_diagnosis (hammer_events ! 1) (hammer_events ! 2) \<in> set (analyze_bitflips hammer_events)"
proof -
  have p: "rh_pair (hammer_events ! 0) (hammer_events ! 1)" "rh_pair (hammer_events ! 1) (hammer_events ! 2)"
    by code_simp+
  have b: "rh_before hammer_events 0 1" "rh_before hammer_events 1 2"
    by (simp_all add: rh_before_def hammer_events_def bus_key_def)
  show ?thesis
    using row_hammer_exact[of hammer_events] p b unfolding rh_before_def rh_pair_def by blast
qed

text \<open>Every page with an event gets a diagnosis, no other page does, and a page is called random
  exactly when no other pattern was found for it.\<close>

theorem page_classified:
  "dg_page ` set (analyze_bitflips es) = ce_page ` set es \<and>
   ((\<exists>d \<in> set (analyze_bitflips es). dg_page d = p \<and> dg_pattern d = RANDOM_SEU) \<longleftrightarrow>
     p \<in> ce_page ` set es \<and> (\<forall>d \<in> set (analyze_bitflips es). dg_page d = p \<longrightarrow> dg_pattern d = RANDOM_SEU))"
proof -
  let ?S = "set (multi_results es) \<union> set (stuck_results es) \<union> set (check_row_hammer es)"
  let ?R = "set (random_results es)"
  have set: "set (analyze_bitflips es) = ?S \<union> ?R" by (auto simp: analyze_eq)
  have S: "dg_page ` ?S = sure_pages es" by (simp add: sure_pages_def)
  have sure: "d \<in> ?S \<Longrightarrow> dg_pattern d \<noteq> RANDOM_SEU" for d
    using multi_results_mem[of d es] stuck_results_mem[of d es] row_hammer_mem[of d es] by auto
  have all: "dg_page ` set (analyze_bitflips es) = ce_page ` set es"
    unfolding set image_Un[where B = ?R] S random_pages using sure_pages_sub by blast
  have "(\<exists>d \<in> set (analyze_bitflips es). dg_page d = p \<and> dg_pattern d = RANDOM_SEU) \<longleftrightarrow> p \<in> dg_page ` ?R"
    unfolding set using sure random_results_mem[of _ es] by blast
  moreover have "(\<forall>d \<in> set (analyze_bitflips es). dg_page d = p \<longrightarrow> dg_pattern d = RANDOM_SEU) \<longleftrightarrow>
      p \<notin> dg_page ` ?S"
    unfolding set using sure random_results_mem[of _ es] by blast
  ultimately show ?thesis using all by (simp add: S random_pages)
qed

theorem page_classified_witness:
  "17 \<in> dg_page ` set (analyze_bitflips hammer_events)"
  using page_classified[of hammer_events 17] by (simp add: hammer_events_def)

end
