(* ===== verification/DimmHealth.thy ===== *)
theory DimmHealth
  imports PyFloat
begin

text \<open>
  Two fleet-level analyses of memory modules: clusters of failing modules by vendor and date code
  (\<open>aging/dimm_cluster_analysis.py\<close>), and the page off-lining policy with its writer
  (\<open>recovery/proactive_offline.py\<close>). Probabilities and times are finite floats.
\<close>

section \<open>Clusters of failing modules\<close>

record dimm_record =
  dr_serial :: string
  dr_vendor :: string
  dr_part_number :: string
  dr_date_code :: string
  dr_node :: string
  dr_slot :: string
  dr_ce_count :: int
  dr_ue_count :: int
  dr_failure_probability :: rat

record cluster_alert =
  ca_key :: string
  ca_type :: string
  ca_affected :: int
  ca_fleet_rate :: rat
  ca_cluster_rate :: rat
  ca_severity :: string

definition THRESHOLD :: rat where "THRESHOLD = 3"

definition cluster_severity :: "rat \<Rightarrow> string" where
  "cluster_severity ratio =
     (if ratio \<ge> 10 then ''critical'' else if ratio \<ge> 5 then ''high'' else ''medium'')"

text \<open>\<open>sum(d.failure_probability for d in ds) / len(ds)\<close>\<close>

definition mean_probability :: "dimm_record list \<Rightarrow> rat py" where
  "mean_probability ds = fdiv (fsum (map dr_failure_probability ds)) (fint (int (length ds)))"

definition fleet_avg :: "dimm_record list \<Rightarrow> rat py" where
  "fleet_avg dimms = (if dimms = [] then Inr 0 else mean_probability dimms)"

definition check_one :: "rat \<Rightarrow> string \<Rightarrow> string \<times> dimm_record list \<Rightarrow> cluster_alert list py" where
  "check_one avg cluster_type grp =
     (let (key, members) = grp in
      py_bind (mean_probability members) (\<lambda>rate.
      py_bind (fdiv rate avg) (\<lambda>ratio.
        Inr (if ratio \<ge> THRESHOLD
             then [\<lparr>ca_key = key, ca_type = cluster_type, ca_affected = int (length members),
                    ca_fleet_rate = avg, ca_cluster_rate = rate, ca_severity = cluster_severity ratio\<rparr>]
             else []))))"

definition check_group ::
    "(string, dimm_record list) dict \<Rightarrow> rat \<Rightarrow> string \<Rightarrow> cluster_alert list py" where
  "check_group groups avg cluster_type =
     (if avg = 0 then Inr []
      else py_bind (py_mapM (check_one avg cluster_type) groups) (\<lambda>xs. Inr (concat xs)))"

definition vendor_key :: "dimm_record \<Rightarrow> string" where
  "vendor_key d = dr_vendor d @ ''|'' @ dr_part_number d"

definition analyze_clusters :: "dimm_record list \<Rightarrow> cluster_alert list py" where
  "analyze_clusters dimms =
     (if dimms = [] then Inr []
      else py_bind (fleet_avg dimms) (\<lambda>avg.
        let by_vendor = group_by vendor_key dimms; by_date = group_by dr_date_code dimms in
        py_bind (check_group by_vendor avg ''vendor'') (\<lambda>a1.
        py_bind (check_group by_date avg ''date_code'') (\<lambda>a2. Inr (a1 @ a2)))))"

section \<open>Page off-lining\<close>

record offline_policy =
  op_ce_threshold :: int
  op_time_window_s :: rat
  op_dry_run :: bool

definition default_policy :: offline_policy where
  "default_policy = \<lparr>op_ce_threshold = 10, op_time_window_s = 3600, op_dry_run = False\<rparr>"

record page_stats =
  ps_pfn :: int
  ps_ce_count :: int
  ps_last_ce_time :: rat
  ps_controller :: string
  ps_csrow :: int

record offline_action =
  oa_pfn :: int
  oa_reason :: string
  oa_ce_count :: int
  oa_recommended :: bool

text \<open>\<open>now\<close> is the clock read once before the loop.\<close>

definition evaluate_page :: "rat \<Rightarrow> offline_policy \<Rightarrow> int \<times> page_stats \<Rightarrow> offline_action list" where
  "evaluate_page now policy item =
     (let (pfn, stats) = item in
      if ps_ce_count stats > op_ce_threshold policy \<and>
         fsub now (ps_last_ce_time stats) < op_time_window_s policy
      then [\<lparr>oa_pfn = pfn,
             oa_reason = ''CE count '' @ str_int (ps_ce_count stats) @ '' exceeds threshold '' @
               str_int (op_ce_threshold policy),
             oa_ce_count = ps_ce_count stats, oa_recommended = True\<rparr>]
      else [])"

definition evaluate_pages ::
    "rat \<Rightarrow> (int, page_stats) dict \<Rightarrow> offline_policy option \<Rightarrow> offline_action list" where
  "evaluate_pages now page_stats policy =
     (let policy = (case policy of Some p \<Rightarrow> p | None \<Rightarrow> default_policy)
      in concat (map (evaluate_page now policy) page_stats))"

text \<open>
  \<open>execute_offline\<close>: what it returns, and the text it wrote to the kernel's file if it wrote.
  \<open>present\<close> tells whether the file is there, \<open>accepts\<close> whether the write goes through.
\<close>

definition execute_offline :: "bool \<Rightarrow> (string \<Rightarrow> bool) \<Rightarrow> int \<Rightarrow> bool \<Rightarrow> bool \<times> string option" where
  "execute_offline present accepts pfn dry_run =
     (if dry_run then (True, None)
      else if \<not> present then (False, None)
      else if accepts (py_hex pfn) then (True, Some (py_hex pfn)) else (False, None))"

section \<open>Lemmas\<close>

lemma fint_length_pos: "xs \<noteq> [] \<Longrightarrow> fint (int (length xs)) > 0"
proof -
  assume "xs \<noteq> []"
  then have "fint 1 \<le> fint (int (length xs))" by (intro fint_mono) (simp add: Suc_le_eq)
  then show ?thesis using fint_small[of 1] by simp
qed

lemma mean_probability_total: "ds \<noteq> [] \<Longrightarrow> \<exists>r. mean_probability ds = Inr r"
  using fint_length_pos[of ds] by (auto simp: mean_probability_def fdiv_def)

lemma py_mapM_concat_mem:
  "py_mapM f xs = Inr yss \<Longrightarrow> y \<in> set (concat yss) \<longleftrightarrow> (\<exists>x \<in> set xs. \<exists>ys. f x = Inr ys \<and> y \<in> set ys)"
  by (induction xs arbitrary: yss) (auto simp: py_bind_eq_Inr)

lemma py_mapM_ex: "\<forall>x \<in> set xs. \<exists>y. f x = Inr y \<Longrightarrow> \<exists>ys. py_mapM f xs = Inr ys"
  by (induction xs) fastforce+

lemma check_one_total:
  "members \<noteq> [] \<Longrightarrow> avg \<noteq> 0 \<Longrightarrow> \<exists>a. check_one avg ct (key, members) = Inr a"
  using mean_probability_total[of members] by (auto simp: check_one_def fdiv_def)

definition over_threshold :: "dimm_record list \<Rightarrow> dimm_record list \<Rightarrow> rat \<Rightarrow> rat \<Rightarrow> bool" where
  "over_threshold dimms members avg rate \<longleftrightarrow>
     mean_probability dimms = Inr avg \<and> mean_probability members = Inr rate \<and> avg \<noteq> 0 \<and>
     rnd (rate / avg) \<ge> 3"

lemma check_group_total: "\<exists>as. check_group (group_by f dimms) avg ct = Inr as"
proof (cases "avg = 0")
  case False
  then have "\<forall>g \<in> set (group_by f dimms). \<exists>a. check_one avg ct g = Inr a"
    using check_one_total group_by_nonempty[of _ _ f dimms] by fast
  then show ?thesis using py_mapM_ex False by (fastforce simp: check_group_def)
qed (simp add: check_group_def)

definition alert_for :: "string \<Rightarrow> string \<Rightarrow> dimm_record list \<Rightarrow> rat \<Rightarrow> rat \<Rightarrow> cluster_alert" where
  "alert_for ct key members avg rate =
     \<lparr>ca_key = key, ca_type = ct, ca_affected = int (length members), ca_fleet_rate = avg,
      ca_cluster_rate = rate, ca_severity = cluster_severity (rnd (rate / avg))\<rparr>"

lemma alert_for_sel [simp]:
  "ca_key (alert_for ct key ms avg rate) = key" "ca_type (alert_for ct key ms avg rate) = ct"
  by (simp_all add: alert_for_def)

lemma check_one_mem:
  assumes "avg \<noteq> 0"
  shows "(\<exists>al. check_one avg ct (k, ms) = Inr al \<and> a \<in> set al) \<longleftrightarrow>
     (\<exists>rate. mean_probability ms = Inr rate \<and> rnd (rate / avg) \<ge> 3 \<and> a = alert_for ct k ms avg rate)"
  using assms
  by (cases "mean_probability ms") (auto simp: check_one_def fdiv_def THRESHOLD_def alert_for_def)

lemma check_group_mem:
  assumes "check_group (group_by f dimms) avg ct = Inr as"
  shows "a \<in> set as \<longleftrightarrow> avg \<noteq> 0 \<and> (\<exists>k \<in> f ` set dimms. \<exists>rate.
     mean_probability (filter (\<lambda>x. f x = k) dimms) = Inr rate \<and> rnd (rate / avg) \<ge> 3 \<and>
     a = alert_for ct k (filter (\<lambda>x. f x = k) dimms) avg rate)"
proof (cases "avg = 0")
  case True
  then show ?thesis using assms by (simp add: check_group_def)
next
  case False
  then obtain yss where y: "py_mapM (check_one avg ct) (group_by f dimms) = Inr yss" "as = concat yss"
    using assms by (auto simp: check_group_def py_bind_eq_Inr)
  have "a \<in> set as \<longleftrightarrow> (\<exists>g \<in> set (group_by f dimms). \<exists>al. check_one avg ct g = Inr al \<and> a \<in> set al)"
    unfolding y(2) py_mapM_concat_mem[OF y(1)] ..
  also have "\<dots> \<longleftrightarrow> (\<exists>k \<in> f ` set dimms. \<exists>al.
      check_one avg ct (k, filter (\<lambda>x. f x = k) dimms) = Inr al \<and> a \<in> set al)"
    using group_by_mem[of _ _ f dimms] by (metis prod.collapse)
  finally show ?thesis using False by (simp add: check_one_mem)
qed

lemma analyze_groups:
  assumes "dimms \<noteq> []"
  obtains avg a1 a2 where "mean_probability dimms = Inr avg"
    "check_group (group_by vendor_key dimms) avg ''vendor'' = Inr a1"
    "check_group (group_by dr_date_code dimms) avg ''date_code'' = Inr a2"
    "analyze_clusters dimms = Inr (a1 @ a2)"
proof -
  obtain avg where avg: "mean_probability dimms = Inr avg" using mean_probability_total[OF assms] by blast
  obtain a1 where a1: "check_group (group_by vendor_key dimms) avg ''vendor'' = Inr a1"
    using check_group_total by blast
  obtain a2 where a2: "check_group (group_by dr_date_code dimms) avg ''date_code'' = Inr a2"
    using check_group_total by blast
  have "analyze_clusters dimms = Inr (a1 @ a2)"
    using assms avg a1 a2 by (simp add: analyze_clusters_def fleet_avg_def)
  then show ?thesis using that avg a1 a2 by blast
qed

section \<open>Properties\<close>

text \<open>The analysis never fails, whatever the probabilities, and raises an alert for a vendor and
  part number exactly when the mean of the group is at least three times the fleet's mean, with
  the group's size, both means and the severity of the ratio.\<close>

theorem vendor_alerts_exact:
  "\<exists>as. analyze_clusters dimms = Inr as \<and>
     (\<forall>key. (\<exists>a \<in> set as. ca_type a = ''vendor'' \<and> ca_key a = key) \<longleftrightarrow>
        (\<exists>avg rate. key \<in> vendor_key ` set dimms \<and>
           over_threshold dimms (filter (\<lambda>d. vendor_key d = key) dimms) avg rate))"
proof (cases "dimms = []")
  case True
  then show ?thesis by (simp add: analyze_clusters_def)
next
  case False
  then obtain avg a1 a2 where h: "mean_probability dimms = Inr avg"
    "check_group (group_by vendor_key dimms) avg ''vendor'' = Inr a1"
    "check_group (group_by dr_date_code dimms) avg ''date_code'' = Inr a2"
    "analyze_clusters dimms = Inr (a1 @ a2)" by (rule analyze_groups)
  have "(\<exists>a \<in> set (a1 @ a2). ca_type a = ''vendor'' \<and> ca_key a = key) \<longleftrightarrow>
      (\<exists>avg rate. key \<in> vendor_key ` set dimms \<and>
         over_threshold dimms (filter (\<lambda>d. vendor_key d = key) dimms) avg rate)" for key
  proof -
    have "(\<exists>a \<in> set a1. ca_type a = ''vendor'' \<and> ca_key a = key) \<longleftrightarrow>
      (\<exists>avg rate. key \<in> vendor_key ` set dimms \<and>
         over_threshold dimms (filter (\<lambda>d. vendor_key d = key) dimms) avg rate)"
      (is "?L \<longleftrightarrow> ?R")
    proof
      assume ?L
      then obtain a where a: "a \<in> set a1" "ca_key a = key" by blast
      then obtain rate where "key \<in> vendor_key ` set dimms" "avg \<noteq> 0" "rnd (rate / avg) \<ge> 3"
        "mean_probability (filter (\<lambda>d. vendor_key d = key) dimms) = Inr rate"
        unfolding check_group_mem[OF h(2)] by auto
      then show ?R using h(1) unfolding over_threshold_def by blast
    next
      assume ?R
      then obtain rate where "key \<in> vendor_key ` set dimms"
        "over_threshold dimms (filter (\<lambda>d. vendor_key d = key) dimms) avg rate"
        using h(1) unfolding over_threshold_def by auto
      then have "alert_for ''vendor'' key (filter (\<lambda>d. vendor_key d = key) dimms) avg rate \<in> set a1"
        unfolding check_group_mem[OF h(2)] over_threshold_def by blast
      then show ?L by (rule bexI[rotated]) simp
    qed
    moreover have "ca_type a \<noteq> ''vendor''" if "a \<in> set a2" for a
      using that unfolding check_group_mem[OF h(3)] by auto
    ultimately show ?thesis by (auto simp only: set_append)
  qed
  then show ?thesis using h(4) by blast
qed

text \<open>A fleet of one vendor, part number and date code raises no alert, however bad it is: the
  group's mean and the fleet's are then the same float.\<close>

theorem uniform_fleet_no_alert:
  assumes "\<forall>d \<in> set dimms. vendor_key d = v \<and> dr_date_code d = c"
  shows "analyze_clusters dimms = Inr []"
proof (cases "dimms = []")
  case False
  then obtain avg a1 a2 where h: "mean_probability dimms = Inr avg"
    "check_group (group_by vendor_key dimms) avg ''vendor'' = Inr a1"
    "check_group (group_by dr_date_code dimms) avg ''date_code'' = Inr a2"
    "analyze_clusters dimms = Inr (a1 @ a2)" by (rule analyze_groups)
  have one: "\<not> 3 \<le> rnd (avg / avg)"
    using is_f64_consts(2) by (cases "avg = 0") (simp_all add: is_f64_def)
  have all: "filter (\<lambda>x. vendor_key x = k) dimms = dimms" if "k \<in> vendor_key ` set dimms" for k
    using that assms by (auto intro: filter_True)
  have all2: "filter (\<lambda>x. dr_date_code x = k) dimms = dimms" if "k \<in> dr_date_code ` set dimms" for k
    using that assms by (auto intro: filter_True)
  have "set a1 = {}" "set a2 = {}"
    using check_group_mem[OF h(2)] check_group_mem[OF h(3)] all all2 h(1) one by force+
  then show ?thesis using h(4) by simp
qed (simp add: analyze_clusters_def)

definition sample_dimm :: "string \<Rightarrow> rat \<Rightarrow> dimm_record" where
  "sample_dimm n p = \<lparr>dr_serial = n, dr_vendor = ''V'', dr_part_number = ''P'', dr_date_code = ''2301'',
     dr_node = n, dr_slot = ''A1'', dr_ce_count = 9, dr_ue_count = 1, dr_failure_probability = p\<rparr>"

theorem uniform_fleet_no_alert_witness:
  "analyze_clusters [sample_dimm ''a'' 1, sample_dimm ''b'' (1 / 2)] = Inr []"
  by (rule uniform_fleet_no_alert[where v = "''V|P''" and c = "''2301''"])
     (simp add: sample_dimm_def vendor_key_def)

text \<open>A page is recommended for off-lining exactly when its count is over the threshold and its
  last error inside the window; the recommendation carries the page's own key and count.\<close>

theorem offline_recommendation_exact:
  assumes "dict_ok pages"
  shows "(\<exists>a \<in> set (evaluate_pages now pages (Some p)). oa_pfn a = pfn \<and> oa_ce_count a = n) \<longleftrightarrow>
     (\<exists>s. dget pages pfn = Some s \<and> n = ps_ce_count s \<and> op_ce_threshold p < n \<and>
        fsub now (ps_last_ce_time s) < op_time_window_s p)"
proof -
  have one: "(\<exists>a \<in> set (evaluate_page now p (k, s)). oa_pfn a = pfn \<and> oa_ce_count a = n) \<longleftrightarrow>
     k = pfn \<and> n = ps_ce_count s \<and> op_ce_threshold p < n \<and> fsub now (ps_last_ce_time s) < op_time_window_s p"
    for k s by (auto simp: evaluate_page_def)
  have "(\<exists>a \<in> set (evaluate_pages now pages (Some p)). oa_pfn a = pfn \<and> oa_ce_count a = n) \<longleftrightarrow>
     (\<exists>ks \<in> set pages. \<exists>a \<in> set (evaluate_page now p ks). oa_pfn a = pfn \<and> oa_ce_count a = n)"
    by (simp add: evaluate_pages_def)
  also have "\<dots> \<longleftrightarrow> (\<exists>k s. (k, s) \<in> set pages \<and>
     (\<exists>a \<in> set (evaluate_page now p (k, s)). oa_pfn a = pfn \<and> oa_ce_count a = n))"
    by (metis prod.collapse)
  finally show ?thesis unfolding one by (auto simp: dict_mem_iff[OF assms])
qed

theorem offline_recommendation_exact_witness:
  "\<exists>a \<in> set (evaluate_pages 100 [(7, \<lparr>ps_pfn = 7, ps_ce_count = 11, ps_last_ce_time = 40,
       ps_controller = ''mc0'', ps_csrow = 0\<rparr>)] (Some default_policy)). oa_pfn a = 7 \<and> oa_ce_count a = 11"
proof -
  have "fsub 100 40 < (3600 :: rat)" by code_simp
  then show ?thesis
    by (subst offline_recommendation_exact) (simp_all add: dict_ok_def default_policy_def)
qed

end
