(* ===== verification/Metrics.thy ===== *)
theory Metrics
  imports PyStr "HOL-Library.List_Lexorder" "HOL-Library.Product_Lexorder"
begin

text \<open>
  The hand-rolled Prometheus registry that \<open>remediation/remediation-controller.py\<close> and
  \<open>remediation/webhook-server.py\<close> each carry: counters and gauges by name and by sorted label
  tuple, and their text exposition. The way a float is printed is a parameter of the rendering.
\<close>

type_synonym labels = "(string, string) dict"
type_synonym label_key = "(string \<times> string) list"
type_synonym 'v registry = "(string, (label_key, 'v) dict) dict"

definition label_key :: "labels \<Rightarrow> label_key" where
  "label_key labels = sort labels"

definition labels_str :: "label_key \<Rightarrow> string" where
  "labels_str labels =
     (if labels = [] then []
      else ''{'' @ join '','' (map (\<lambda>(k, v). k @ ''=\"'' @ v @ ''\"'') (sort labels)) @ ''}'')"

text \<open>One more of a registered counter; an unregistered name is a \<open>KeyError\<close>.\<close>

definition counter_bump :: "string \<times> label_key \<Rightarrow> int registry \<Rightarrow> int registry" where
  "counter_bump nk r = dset (fst nk) (dbump (snd nk) (dgetd r (fst nk) [])) r"

definition counter_inc :: "string \<Rightarrow> labels \<Rightarrow> int registry \<Rightarrow> int registry py" where
  "counter_inc name labels r =
     (case dget r name of
        None \<Rightarrow> Inl (KeyError name)
      | Some _ \<Rightarrow> Inr (counter_bump (name, label_key labels) r))"

definition get_counter :: "string \<Rightarrow> labels \<Rightarrow> int registry \<Rightarrow> int py" where
  "get_counter name labels r =
     (case dget r name of
        None \<Rightarrow> Inl (KeyError name) | Some series \<Rightarrow> Inr (dgetd series (label_key labels) 0))"

definition gauge_set :: "string \<Rightarrow> rat \<Rightarrow> labels \<Rightarrow> rat registry \<Rightarrow> rat registry py" where
  "gauge_set name v labels r =
     (case dget r name of
        None \<Rightarrow> Inl (KeyError name)
      | Some series \<Rightarrow> Inr (dset name (dset (label_key labels) v series) r))"

definition render_series :: "string \<Rightarrow> ('v \<Rightarrow> string) \<Rightarrow> string \<times> (label_key, 'v) dict \<Rightarrow> string list" where
  "render_series kind show ns =
     (let (name, series) = ns in
      (''# TYPE '' @ name @ '' '' @ kind) #
      map (\<lambda>(key, val). name @ labels_str key @ '' '' @ show val) series)"

definition newline_chr :: string where "newline_chr = [CHR 0x0A]"

definition render_controller ::
    "(rat \<Rightarrow> string) \<Rightarrow> int registry \<Rightarrow> rat registry \<Rightarrow> string" where
  "render_controller show_float counters gauges =
     join newline_chr
       (concat (map (render_series ''counter'' str_int) counters) @
        concat (map (render_series ''gauge'' show_float) gauges)) @ newline_chr"

definition render_webhook :: "int registry \<Rightarrow> string" where
  "render_webhook counters =
     join newline_chr
       (concat (map (render_series ''counter'' str_int) counters) @
        [''# TYPE webhook_server_up gauge'', ''webhook_server_up 1'']) @ newline_chr"

section \<open>Counting\<close>

definition counter_value :: "int registry \<Rightarrow> string \<times> label_key \<Rightarrow> int" where
  "counter_value r nk = dgetd (dgetd r (fst nk) []) (snd nk) 0"

interpretation reg: tally counter_value counter_bump
  by unfold_locales (auto simp: counter_value_def counter_bump_def dbump_def prod_eq_iff)

lemma counter_inc_ok:
  "name \<in> set (dkeys r) \<Longrightarrow> counter_inc name labels r = Inr (counter_bump (name, label_key labels) r)"
  using dget_in_keys[of r name] by (auto simp: counter_inc_def)

lemma counter_bump_keys [simp]:
  "fst nk \<in> set (dkeys r) \<Longrightarrow> dkeys (counter_bump nk r) = dkeys r"
  by (simp add: counter_bump_def)

lemma get_counter_eq:
  "name \<in> set (dkeys r) \<Longrightarrow> get_counter name labels r = Inr (counter_value r (name, label_key labels))"
  using dget_in_keys[of r name] by (auto simp: get_counter_def counter_value_def dgetd_def)

text \<open>The order in which a label dict was built does not matter.\<close>

lemma label_key_perm: "distinct (dkeys l) \<Longrightarrow> set l = set l' \<Longrightarrow> distinct (dkeys l') \<Longrightarrow> label_key l = label_key l'"
  unfolding label_key_def
  by (metis distinct_map dkeys_def sorted_list_of_set_sort_remdups distinct_remdups_id)

definition gauge_value :: "rat registry \<Rightarrow> string \<Rightarrow> labels \<Rightarrow> rat option" where
  "gauge_value r name labels = dget (dgetd r name []) (label_key labels)"

lemma gauge_set_ok:
  "name \<in> set (dkeys r) \<Longrightarrow> \<exists>r'. gauge_set name v labels r = Inr r' \<and> dkeys r' = dkeys r \<and>
     gauge_value r' name labels = Some v"
  using dget_in_keys[of r name] by (auto simp: gauge_set_def gauge_value_def dgetd_def)

end
