(* ===== verification/Cooldown.thy ===== *)
theory Cooldown
  imports Prelude
begin

text \<open>
  The contract of a cooldown: a store in which an action on a key is marked with its time, and a
  test whether a key may be acted on at a time. Two components keep it: the alert webhook
  (per alert fingerprint) and the remediation controller (per node). The lemmas below hold for
  both.
\<close>

locale cooldown =
  fixes allowed :: "'s \<Rightarrow> 'k \<Rightarrow> 't :: linorder \<Rightarrow> bool"
    and mark :: "'k \<Rightarrow> 't \<Rightarrow> 's \<Rightarrow> 's"
    and near :: "'t \<Rightarrow> 't \<Rightarrow> bool"
  assumes mark_same: "near t t' \<Longrightarrow> \<not> allowed (mark k t s) k t'"
    and mark_other: "k' \<noteq> k \<Longrightarrow> allowed (mark k t s) k' t' = allowed s k' t'"
    and near_later: "near t t' \<Longrightarrow> t \<le> u \<Longrightarrow> u \<le> t' \<Longrightarrow> near u t'"
begin

text \<open>From time \<open>now\<close> on, the key is blocked wherever it is near to \<open>t\<close>.\<close>

definition covers :: "'s \<Rightarrow> 'k \<Rightarrow> 't \<Rightarrow> 't \<Rightarrow> bool" where
  "covers s k t now \<longleftrightarrow> (\<forall>t' \<ge> now. near t t' \<longrightarrow> \<not> allowed s k t')"

lemma covers_mark: "covers (mark k t s) k t now"
  by (simp add: covers_def mark_same)

lemma covers_later: "covers s k t now \<Longrightarrow> now \<le> now' \<Longrightarrow> covers s k t now'"
  by (auto simp: covers_def)

lemma covers_keep:
  assumes "covers s k t now" "t \<le> u" "u \<le> now"
  shows "covers (mark k' u s) k t now"
proof (cases "k = k'")
  case True
  then show ?thesis using assms near_later mark_same by (auto simp: covers_def)
next
  case False
  then show ?thesis using assms by (simp add: covers_def mark_other)
qed

lemma covers_blocks: "covers s k t now \<Longrightarrow> now \<le> t' \<Longrightarrow> allowed s k t' \<Longrightarrow> \<not> near t t'"
  by (auto simp: covers_def)

text \<open>A sequence of requests: the ones allowed are acted on and marked at once.\<close>

fun run :: "'s \<Rightarrow> ('k \<times> 't) list \<Rightarrow> ('k \<times> 't) list" where
  "run s [] = []"
| "run s ((k, t) # rs) = (if allowed s k t then (k, t) # run (mark k t s) rs else run s rs)"

lemma run_subset: "set (run s rs) \<subseteq> set rs"
  by (induction s rs rule: run.induct) auto

lemma run_covered:
  assumes "covers s k t now" "t \<le> now" "sorted (now # map snd rs)" "(k, t') \<in> set (run s rs)"
  shows "\<not> near t t'"
  using assms
proof (induction s rs arbitrary: now rule: run.induct)
  case (2 s k2 t2 rs)
  have now: "now \<le> t2" "t \<le> t2" "sorted (t2 # map snd rs)" using 2(4,5) by auto
  have c: "covers s k t t2" using covers_later 2(3) now by blast
  show ?case
  proof (cases "allowed s k2 t2")
    case True
    show ?thesis
    proof (cases "(k, t') = (k2, t2)")
      case same: True
      then show ?thesis using covers_blocks[OF c, of t2] True by simp
    next
      case False
      then have "(k, t') \<in> set (run (mark k2 t2 s) rs)" using 2(6) True by auto
      then show ?thesis using 2(1)[OF True covers_keep[OF c] _ _] now by blast
    qed
  next
    case False
    then show ?thesis using 2(2)[OF False c] 2(6) now by simp
  qed
qed simp

text \<open>No two actions on one key are near to each other.\<close>

lemma run_spaced:
  assumes "sorted (map snd rs)"
  shows "sorted_wrt (\<lambda>(k, t) (k', t'). k = k' \<longrightarrow> \<not> near t t') (run s rs)"
  using assms
proof (induction s rs rule: run.induct)
  case (2 s k t rs)
  have "\<not> near t t'" if "(k, t') \<in> set (run (mark k t s) rs)" for t'
    using run_covered[OF covers_mark order_refl 2(3)[unfolded list.map snd_conv] that] .
  then show ?case using 2 by auto
qed simp

end

end
