(* ===== verification/Effects.thy ===== *)
theory Effects
  imports Prelude
begin

text \<open>
  Code that changes a state and may raise: a function from the state to the result or exception
  and the state left behind. What was changed before an exception stays changed.
\<close>

type_synonym ('s, 'a) act = "'s \<Rightarrow> 'a py \<times> 's"

definition act_return :: "'a \<Rightarrow> ('s, 'a) act" where
  "act_return x s = (Inr x, s)"

definition act_raise :: "py_error \<Rightarrow> ('s, 'a) act" where
  "act_raise e s = (Inl e, s)"

definition act_bind :: "('s, 'a) act \<Rightarrow> ('a \<Rightarrow> ('s, 'b) act) \<Rightarrow> ('s, 'b) act" where
  "act_bind m f s = (case m s of (Inl e, s') \<Rightarrow> (Inl e, s') | (Inr x, s') \<Rightarrow> f x s')"

definition act_then :: "('s, 'a) act \<Rightarrow> ('s, 'b) act \<Rightarrow> ('s, 'b) act" where
  "act_then m n = act_bind m (\<lambda>_. n)"

text \<open>\<open>try: m except Exception: h\<close>\<close>

definition act_try :: "('s, unit) act \<Rightarrow> (py_error \<Rightarrow> ('s, unit) act) \<Rightarrow> ('s, unit) act" where
  "act_try m h s = (case m s of (Inl e, s') \<Rightarrow> h e s' | (Inr x, s') \<Rightarrow> (Inr x, s'))"

definition act_get :: "('s \<Rightarrow> 'a) \<Rightarrow> ('s, 'a) act" where
  "act_get f s = (Inr (f s), s)"

definition act_modify :: "('s \<Rightarrow> 's) \<Rightarrow> ('s, unit) act" where
  "act_modify f s = (Inr (), f s)"

text \<open>A result or exception of pure code.\<close>

definition act_of :: "'a py \<Rightarrow> ('s, 'a) act" where
  "act_of r s = (r, s)"

lemmas act_defs = act_return_def act_raise_def act_bind_def act_then_def act_try_def act_get_def
  act_modify_def act_of_def

section \<open>What every run of a computation keeps\<close>

definition keeps :: "('s \<Rightarrow> bool) \<Rightarrow> ('s, 'a) act \<Rightarrow> bool" where
  "keeps P m \<longleftrightarrow> (\<forall>s. P s \<longrightarrow> P (snd (m s)))"

named_theorems keeps_intros \<open>rules for what a computation keeps\<close>

lemma keepsD: "keeps P m \<Longrightarrow> P s \<Longrightarrow> P (snd (m s))"
  by (simp add: keeps_def)

lemma keeps_return [keeps_intros, simp]: "keeps P (act_return x)"
  by (simp add: keeps_def act_return_def)

lemma keeps_raise [keeps_intros, simp]: "keeps P (act_raise e)"
  by (simp add: keeps_def act_raise_def)

lemma keeps_of [keeps_intros, simp]: "keeps P (act_of r)"
  by (simp add: keeps_def act_of_def)

lemma keeps_get [keeps_intros, simp]: "keeps P (act_get f)"
  by (simp add: keeps_def act_get_def)

lemma keeps_bind [keeps_intros]: "keeps P m \<Longrightarrow> (\<And>x. keeps P (f x)) \<Longrightarrow> keeps P (act_bind m f)"
  unfolding keeps_def act_bind_def by (auto split: prod.splits sum.splits)

lemma keeps_then [keeps_intros]: "keeps P m \<Longrightarrow> keeps P n \<Longrightarrow> keeps P (act_then m n)"
  unfolding act_then_def by (intro keeps_bind)

lemma keeps_try [keeps_intros]: "keeps P m \<Longrightarrow> (\<And>e. keeps P (h e)) \<Longrightarrow> keeps P (act_try m h)"
  unfolding keeps_def act_try_def by (auto split: prod.splits sum.splits)

lemma keeps_modify: "(\<And>s. P s \<Longrightarrow> P (f s)) \<Longrightarrow> keeps P (act_modify f)"
  by (simp add: keeps_def act_modify_def)

lemma keeps_if [keeps_intros]: "keeps P m \<Longrightarrow> keeps P n \<Longrightarrow> keeps P (if b then m else n)"
  by simp

end
