(* ===== verification/RemState.thy ===== *)
theory RemState
  imports Metrics PyFloat Cooldown
begin

text \<open>
  The state file that \<open>remediation/remediation-controller.py\<close> and
  \<open>remediation/webhook-server.py\<close> share, and the cooldown test on it. JSON is modelled after
  parsing; an instant is a number of microseconds since the epoch, the resolution of
  \<open>datetime\<close>. The file is written from outside too, so an entry may be malformed.
\<close>

section \<open>State\<close>

text \<open>
  The value of \<open>last_action\<close>: missing or falsy, an ISO time (naive ones count as UTC), a string
  that is no time, or a value that is no string.
\<close>

datatype last_action = NoAction | IsoTime int | NotIso | NotText

datatype entry =
    Entry (e_last: last_action) (e_probability: pf) (e_dry_run: bool)
  | FalsyEntry
  | NotDict

type_synonym node_state = "(string, entry) dict"

text \<open>The file: absent or not JSON, or a document.\<close>

datatype state_file = NoFile | BadJson | StateDoc node_state

text \<open>The document as a dictionary; what is no document counts as an empty one.\<close>

definition file_state :: "state_file \<Rightarrow> node_state" where
  "file_state f = (case f of StateDoc s \<Rightarrow> s | _ \<Rightarrow> [])"

text \<open>Reading: only a missing file and text that is no JSON are caught. Any other failure - no permission, an
  I/O error, undecodable bytes - is the first argument and is raised.\<close>

definition load_state :: "py_error option \<Rightarrow> state_file \<Rightarrow> node_state py" where
  "load_state fault f = (case fault of Some e \<Rightarrow> Inl e | None \<Rightarrow> Inr (file_state f))"

text \<open>Writing goes to a temporary file that then replaces the state file. Whichever of its calls fails, the first
  argument, the exception is raised and the state file is as it was; the calls themselves, stopped and
  interleaved, are modelled in Files and StateFiles.\<close>

definition save_state :: "py_error option \<Rightarrow> node_state \<Rightarrow> state_file py" where
  "save_state fault s = (case fault of Some e \<Rightarrow> Inl e | None \<Rightarrow> Inr (StateDoc s))"

lemma file_state_doc [simp]: "file_state (StateDoc s) = s"
  by (simp add: file_state_def)

lemma load_save: "save_state None s = Inr f \<Longrightarrow> load_state None f = Inr s"
  by (auto simp: load_state_def save_state_def)

section \<open>Cooldown\<close>

text \<open>\<open>(now - last).total_seconds() / 3600\<close>\<close>

definition elapsed_hours :: "int \<Rightarrow> int \<Rightarrow> rat" where
  "elapsed_hours since now = rnd (rnd (of_int (now - since) / 1000000) / 3600)"

definition cooldown_active :: "rat \<Rightarrow> int \<Rightarrow> node_state \<Rightarrow> string \<Rightarrow> bool py" where
  "cooldown_active hours now state node =
     (case dget state node of
        None \<Rightarrow> Inr False
      | Some FalsyEntry \<Rightarrow> Inr False
      | Some NotDict \<Rightarrow> Inl AttributeError
      | Some (Entry since p d) \<Rightarrow>
          (case since of
             NoAction \<Rightarrow> Inr False
           | NotIso \<Rightarrow> Inr False
           | NotText \<Rightarrow> Inl TypeError
           | IsoTime t \<Rightarrow> Inr (elapsed_hours t now < hours)))"

definition update_state_entry :: "node_state \<Rightarrow> string \<Rightarrow> pf \<Rightarrow> bool \<Rightarrow> int \<Rightarrow> node_state" where
  "update_state_entry state node probability dry_run now =
     dset node (Entry (IsoTime now) probability dry_run) state"

section \<open>Well-formed state\<close>

fun entry_ok :: "entry \<Rightarrow> bool" where
  "entry_ok (Entry since p d) = (since \<noteq> NotText)"
| "entry_ok FalsyEntry = True"
| "entry_ok NotDict = False"

definition state_ok :: "node_state \<Rightarrow> bool" where
  "state_ok s \<longleftrightarrow> (\<forall>k e. dget s k = Some e \<longrightarrow> entry_ok e)"

lemma state_ok_update [simp]: "state_ok s \<Longrightarrow> state_ok (update_state_entry s n p d t)"
  by (auto simp: state_ok_def update_state_entry_def)

lemma state_ok_del [simp]: "state_ok s \<Longrightarrow> state_ok (ddel n s)"
  by (auto simp: state_ok_def)

lemma cooldown_active_total:
  "state_ok s \<Longrightarrow> \<exists>b. cooldown_active h now s n = Inr b"
proof (cases "dget s n")
  case (Some e)
  assume "state_ok s"
  then have "entry_ok e" using Some by (auto simp: state_ok_def)
  then show ?thesis using Some
    by (cases e) (auto simp: cooldown_active_def split: last_action.splits)
next
  case None
  then show ?thesis by (intro exI[of _ False]) (simp add: cooldown_active_def)
qed

lemma elapsed_mono: "since \<le> since' \<Longrightarrow> elapsed_hours since' now \<le> elapsed_hours since now"
  unfolding elapsed_hours_def by (intro rnd_mono divide_right_mono) simp_all

lemma elapsed_mono_now: "now \<le> now' \<Longrightarrow> elapsed_hours since now \<le> elapsed_hours since now'"
  unfolding elapsed_hours_def by (intro rnd_mono divide_right_mono) simp_all

text \<open>
  The cooldown contract: a marked entry blocks its node while the elapsed hours are below the
  limit. The mark carries the action's time; probability and dry-run flag do not matter to it.
\<close>

definition may_act :: "rat \<Rightarrow> node_state \<Rightarrow> string \<Rightarrow> int \<Rightarrow> bool" where
  "may_act hours s n now \<longleftrightarrow> cooldown_active hours now s n \<noteq> Inr True"

lemma may_act_update:
  "may_act h (update_state_entry s n p d t) n' now \<longleftrightarrow>
     (if n' = n then \<not> elapsed_hours t now < h else may_act h s n' now)"
  by (auto simp: may_act_def update_state_entry_def cooldown_active_def)

interpretation rc: cooldown "may_act h" "\<lambda>n t s. update_state_entry s n p d t"
  "\<lambda>t t'. elapsed_hours t t' < h" for h p d
  by unfold_locales (auto simp: may_act_update intro: le_less_trans[OF elapsed_mono])

end
