(* ===== verification/RemController.thy ===== *)
theory RemController
  imports RemState Effects Json
begin

text \<open>
  The remediation controller of \<open>remediation/remediation-controller.py\<close>: the Prometheus query, the
  patches and the event, \<open>remediate_node\<close>, and one poll with all its effects on the state file,
  the metrics and the Kubernetes API. The API is an oracle that lets a call return or raise,
  depending on everything called before; the calls made are recorded. Clock readings, the
  Prometheus response and the printing of dates are arguments.
\<close>

section \<open>Configuration and surroundings\<close>

text \<open>The module constants a poll depends on. A \<open>LOKI_URL\<close> without a scheme is the one
  configuration in which building the push request raises, outside the \<open>try\<close> block.\<close>

datatype loki = LokiOff | LokiUrl | LokiBadUrl

record rem_config =
  cfg_threshold :: rat
  cfg_cooldown_hours :: rat
  cfg_dry_run :: bool
  cfg_loki :: loki
  cfg_show_time :: "int \<Rightarrow> string"


datatype kube_call =
    PatchNode (kc_node: string) (kc_patch: json)
  | CreateEvent (kc_namespace: string) (kc_event: json)

type_synonym kube = "kube_call list \<Rightarrow> kube_call \<Rightarrow> bool"

record rem_world =
  w_file :: state_file
  w_state :: node_state
  w_counters :: "int registry"
  w_gauges :: "rat registry"
  w_calls :: "kube_call list"

definition init_counters :: "int registry" where
  "init_counters = [(''remediation_actions_total'', []), (''remediation_poll_errors_total'', [])]"

definition init_gauges :: "rat registry" where
  "init_gauges = [(''remediation_cooldown_active'', []), (''remediation_nodes_at_risk'', [([], 0)]),
     (''remediation_controller_last_poll_timestamp'', [([], 0)])]"

section \<open>The Prometheus query\<close>

text \<open>\<open>item["value"][1]\<close>: a string, missing (\<open>KeyError\<close>, \<open>IndexError\<close>), or \<open>null\<close>.\<close>

datatype prom_value = PvText string | PvMissing | PvNull

record prom_item =
  pi_node :: "string option"
  pi_instance :: "string option"
  pi_value :: prom_value

datatype prom_response = FetchFailed | Response "string option" "prom_item list"

definition item_node :: "prom_item \<Rightarrow> string" where
  "item_node i =
     (case pi_node i of
        Some n \<Rightarrow> (if n = [] then (case pi_instance i of Some m \<Rightarrow> m | None \<Rightarrow> []) else n)
      | None \<Rightarrow> (case pi_instance i of Some m \<Rightarrow> m | None \<Rightarrow> []))"

fun query_items :: "prom_item list \<Rightarrow> (string \<times> pf) list py" where
  "query_items [] = Inr []"
| "query_items (i # is) =
     (if item_node i = [] then query_items is
      else case pi_value i of
             PvMissing \<Rightarrow> query_items is
           | PvNull \<Rightarrow> Inl TypeError
           | PvText s \<Rightarrow> (case py_float s of
               None \<Rightarrow> query_items is
             | Some v \<Rightarrow> py_bind (query_items is) (\<lambda>rs. Inr ((item_node i, v) # rs))))"

definition query_prometheus :: "prom_response \<Rightarrow> (string \<times> pf) list py" where
  "query_prometheus r =
     (case r of
        FetchFailed \<Rightarrow> Inl (RuntimeError ''Prometheus query failed'')
      | Response status items \<Rightarrow>
          (if status \<noteq> Some ''success'' then Inl (RuntimeError ''Prometheus returned status'')
           else query_items items))"

section \<open>Patches and events\<close>

definition build_cordon_patch :: json where
  "build_cordon_patch = JObj [(''spec'', JObj [(''unschedulable'', JBool True)])]"

text \<open>\<open>f"P>{threshold:.0%}"\<close>\<close>

definition build_taint_patch :: "rat \<Rightarrow> json" where
  "build_taint_patch threshold =
     JObj [(''spec'', JObj [(''taints'', JArr [JObj
       [(''key'', JStr ''fault-resilience/predicted-failure''), (''effect'', JStr ''NoSchedule''),
        (''value'', JStr (''P>'' @ fmt_fixed 0 (fmul threshold 100) @ ''%''))]])])]"

definition fmt3 :: "pf \<Rightarrow> string" where
  "fmt3 v = (case v of Fin q \<Rightarrow> fmt_fixed 3 q | PInf \<Rightarrow> ''inf'' | NInf \<Rightarrow> ''-inf'' | NaN \<Rightarrow> ''nan'')"

definition build_event :: "rem_config \<Rightarrow> int \<Rightarrow> string \<Rightarrow> pf \<Rightarrow> bool \<Rightarrow> json" where
  "build_event cfg now node_name probability dry_run =
     (let t = JStr (cfg_show_time cfg now) in
      JObj [(''apiVersion'', JStr ''v1''), (''kind'', JStr ''Event''),
        (''metadata'', JObj
          [(''name'', JStr (''hw-fault-remediation-'' @ node_name @ ''-'' @ str_int (now div 1000000))),
           (''namespace'', JStr ''default'')]),
        (''involvedObject'', JObj
          [(''apiVersion'', JStr ''v1''), (''kind'', JStr ''Node''), (''name'', JStr node_name)]),
        (''reason'', JStr ''PredictedFailure''),
        (''message'', JStr ((if dry_run then ''[DRY-RUN] '' else []) @ ''Node '' @ node_name @
           '' cordoned: failure_probability_7d='' @ fmt3 probability @ '' > threshold='' @
           fmt_fixed 3 (cfg_threshold cfg))),
        (''type'', JStr ''Warning''), (''eventTime'', t),
        (''reportingComponent'', JStr ''hw-fault-remediation-controller''),
        (''reportingInstance'', JStr ''remediation-controller''),
        (''firstTimestamp'', t), (''lastTimestamp'', t), (''count'', JInt 1),
        (''source'', JObj [(''component'', JStr ''remediation-controller'')])])"

section \<open>Remediation\<close>

text \<open>A node over the threshold with the clock readings of its turn: the cooldown test, the event,
  and the state entry.\<close>

record sample =
  sm_node :: string
  sm_value :: pf
  sm_t_check :: int
  sm_t_event :: int
  sm_t_act :: int

definition kube_do :: "kube \<Rightarrow> kube_call \<Rightarrow> (rem_world, unit) act" where
  "kube_do kube c w =
     (if kube (w_calls w) c then (Inr (), w\<lparr>w_calls := w_calls w @ [c]\<rparr>)
      else (Inl (RuntimeError ''Kubernetes API''), w\<lparr>w_calls := w_calls w @ [c]\<rparr>))"

definition count :: "string \<Rightarrow> labels \<Rightarrow> (rem_world, unit) act" where
  "count name labels w =
     (case counter_inc name labels (w_counters w) of
        Inl e \<Rightarrow> (Inl e, w) | Inr r \<Rightarrow> (Inr (), w\<lparr>w_counters := r\<rparr>))"

definition set_gauge :: "string \<Rightarrow> rat \<Rightarrow> labels \<Rightarrow> (rem_world, unit) act" where
  "set_gauge name v labels w =
     (case gauge_set name v labels (w_gauges w) of
        Inl e \<Rightarrow> (Inl e, w) | Inr r \<Rightarrow> (Inr (), w\<lparr>w_gauges := r\<rparr>))"

text \<open>The request goes out or fails quietly; a bad URL raises while the request is built.\<close>

definition push_loki :: "rem_config \<Rightarrow> (rem_world, unit) act" where
  "push_loki cfg =
     (if cfg_loki cfg = LokiBadUrl then act_raise (ValueError ''unknown url type'') else act_return ())"

definition record_action :: "sample \<Rightarrow> bool \<Rightarrow> (rem_world, unit) act" where
  "record_action sm dry_run = act_modify (\<lambda>w. w\<lparr>w_state :=
     update_state_entry (w_state w) (sm_node sm) (sm_value sm) dry_run (sm_t_act sm)\<rparr>)"

definition action_labels :: "string \<Rightarrow> string \<Rightarrow> labels" where
  "action_labels node dry = [(''action'', ''cordon''), (''node'', node), (''dry_run'', dry)]"

definition remediate_node :: "rem_config \<Rightarrow> kube \<Rightarrow> sample \<Rightarrow> (rem_world, unit) act" where
  "remediate_node cfg kube sm =
     (if cfg_dry_run cfg
      then act_then (record_action sm True)
          (act_then (count ''remediation_actions_total'' (action_labels (sm_node sm) ''true''))
                    (push_loki cfg))
      else act_then (kube_do kube (PatchNode (sm_node sm) build_cordon_patch))
          (act_then (kube_do kube (PatchNode (sm_node sm) (build_taint_patch (cfg_threshold cfg))))
          (act_then (act_try (kube_do kube (CreateEvent ''default''
                (build_event cfg (sm_t_event sm) (sm_node sm) (sm_value sm) False)))
              (\<lambda>_. act_return ()))
          (act_then (push_loki cfg)
          (act_then (record_action sm False)
                    (count ''remediation_actions_total'' (action_labels (sm_node sm) ''false'')))))))"

section \<open>One poll\<close>

text \<open>The turn of one node: the new count of nodes at risk.\<close>

definition poll_sample :: "rem_config \<Rightarrow> kube \<Rightarrow> sample \<Rightarrow> int \<Rightarrow> (rem_world, int) act" where
  "poll_sample cfg kube sm at_risk =
     (if pf_less (Fin (cfg_threshold cfg)) (sm_value sm)
      then act_bind (act_bind (act_get w_state) (\<lambda>s.
             act_of (cooldown_active (cfg_cooldown_hours cfg) (sm_t_check sm) s (sm_node sm)))) (\<lambda>active.
           act_then (set_gauge ''remediation_cooldown_active'' (if active then 1 else 0)
                       [(''node'', sm_node sm)])
          (act_then (if active then act_return ()
                     else act_try (remediate_node cfg kube sm) (\<lambda>_. act_return ()))
                    (act_return (at_risk + 1))))
      else act_then (set_gauge ''remediation_cooldown_active'' 0 [(''node'', sm_node sm)])
                    (act_return at_risk))"

fun poll_samples :: "rem_config \<Rightarrow> kube \<Rightarrow> sample list \<Rightarrow> int \<Rightarrow> (rem_world, int) act" where
  "poll_samples cfg kube [] at_risk = act_return at_risk"
| "poll_samples cfg kube (sm # sms) at_risk =
     act_bind (poll_sample cfg kube sm at_risk) (poll_samples cfg kube sms)"

text \<open>The clock readings of the turns are given as a function of the position.\<close>

definition timed :: "(nat \<Rightarrow> int \<times> int \<times> int) \<Rightarrow> (string \<times> pf) list \<Rightarrow> sample list" where
  "timed clock results =
     map (\<lambda>(i, node, value). case clock i of (a, b, c) \<Rightarrow>
       \<lparr>sm_node = node, sm_value = value, sm_t_check = a, sm_t_event = b, sm_t_act = c\<rparr>)
       (enumerate 0 results)"

text \<open>What one round finds: the clock, the answer, the clocks of the turns, and the failures of the state file,
  if there are any.\<close>

record poll_input =
  pl_time :: rat
  pl_response :: prom_response
  pl_clock :: "nat \<Rightarrow> int \<times> int \<times> int"
  pl_load :: "py_error option"
  pl_save :: "py_error option"

definition load_into :: "py_error option \<Rightarrow> (rem_world, unit) act" where
  "load_into fault =
     act_bind (act_bind (act_get w_file) (\<lambda>f. act_of (load_state fault f))) (\<lambda>s. act_modify (\<lambda>w. w\<lparr>w_state := s\<rparr>))"

definition save_from :: "py_error option \<Rightarrow> (rem_world, unit) act" where
  "save_from fault =
     act_bind (act_bind (act_get w_state) (\<lambda>s. act_of (save_state fault s))) (\<lambda>f. act_modify (\<lambda>w. w\<lparr>w_file := f\<rparr>))"

definition poll_nodes ::
    "rem_config \<Rightarrow> kube \<Rightarrow> py_error option \<Rightarrow> py_error option \<Rightarrow> sample list \<Rightarrow> (rem_world, unit) act" where
  "poll_nodes cfg kube load_fault save_fault sms =
     act_then (load_into load_fault)
       (act_bind (poll_samples cfg kube sms 0) (\<lambda>at_risk.
        act_then (set_gauge ''remediation_nodes_at_risk'' (fint at_risk) [])
          (save_from save_fault)))"

definition poll_once :: "rem_config \<Rightarrow> kube \<Rightarrow> poll_input \<Rightarrow> (rem_world, unit) act" where
  "poll_once cfg kube inp =
     act_then (set_gauge ''remediation_controller_last_poll_timestamp'' (pl_time inp) [])
       (case query_prometheus (pl_response inp) of
          Inl e \<Rightarrow> count ''remediation_poll_errors_total'' []
        | Inr results \<Rightarrow> poll_nodes cfg kube (pl_load inp) (pl_save inp) (timed (pl_clock inp) results))"

text \<open>The loop of \<open>main\<close> for as many rounds as there are inputs; an exception ends it.\<close>

fun poll_loop :: "rem_config \<Rightarrow> kube \<Rightarrow> poll_input list \<Rightarrow> (rem_world, unit) act" where
  "poll_loop cfg kube [] = act_return ()"
| "poll_loop cfg kube (i # is) = act_then (poll_once cfg kube i) (poll_loop cfg kube is)"

end
