(* ===== verification/RemControllerProps.thy ===== *)
theory RemControllerProps
  imports RemController
begin

text \<open>
  What a poll of the remediation controller does: it always comes back on a well-formed state
  file, it refines a small specification over node state and API calls, a dry run calls nothing,
  and a node with a recent entry is left alone however many polls follow.
\<close>

section \<open>The registries\<close>

definition names_ok :: "rem_world \<Rightarrow> bool" where
  "names_ok w \<longleftrightarrow> dkeys (w_counters w) = dkeys init_counters \<and> dkeys (w_gauges w) = dkeys init_gauges"

lemma count_ok:
  assumes "names_ok w" "name = ''remediation_actions_total'' \<or> name = ''remediation_poll_errors_total''"
  shows "count name ls w = (Inr (), w\<lparr>w_counters := counter_bump (name, label_key ls) (w_counters w)\<rparr>)"
proof -
  have "name \<in> set (dkeys (w_counters w))" using assms by (auto simp: names_ok_def init_counters_def)
  then show ?thesis by (simp add: count_def counter_inc_ok)
qed

lemma names_ok_count [simp]:
  "names_ok w \<Longrightarrow> name = ''remediation_actions_total'' \<or> name = ''remediation_poll_errors_total'' \<Longrightarrow>
   names_ok (w\<lparr>w_counters := counter_bump (name, l) (w_counters w)\<rparr>)"
  by (auto simp: names_ok_def init_counters_def)

definition gauge_after :: "string \<Rightarrow> rat \<Rightarrow> labels \<Rightarrow> rat registry \<Rightarrow> rat registry" where
  "gauge_after name v ls r = dset name (dset (label_key ls) v (dgetd r name [])) r"

lemma set_gauge_ok:
  assumes "names_ok w" "name \<in> set (dkeys init_gauges)"
  shows "set_gauge name v ls w = (Inr (), w\<lparr>w_gauges := gauge_after name v ls (w_gauges w)\<rparr>)"
proof -
  have "dget (w_gauges w) name \<noteq> None" 
    using assms dget_in_keys[of "w_gauges w" name] by (auto simp: names_ok_def)
  then show ?thesis by (auto simp: set_gauge_def gauge_set_def gauge_after_def dgetd_def)
qed

lemma names_ok_gauge [simp]:
  "names_ok w \<Longrightarrow> name \<in> set (dkeys init_gauges) \<Longrightarrow>
   names_ok (w\<lparr>w_gauges := gauge_after name v ls (w_gauges w)\<rparr>)"
  by (simp add: names_ok_def gauge_after_def)

lemma gauge_names [simp]:
  "''remediation_cooldown_active'' \<in> set (dkeys init_gauges)"
  "''remediation_nodes_at_risk'' \<in> set (dkeys init_gauges)"
  "''remediation_controller_last_poll_timestamp'' \<in> set (dkeys init_gauges)"
  by (simp_all add: init_gauges_def)

section \<open>The specification of a turn\<close>

text \<open>Node state and calls made, as one turn changes them.\<close>

definition over :: "rem_config \<Rightarrow> sample \<Rightarrow> bool" where
  "over cfg sm \<longleftrightarrow> pf_less (Fin (cfg_threshold cfg)) (sm_value sm)"

definition cordon_calls :: "rem_config \<Rightarrow> sample \<Rightarrow> kube_call list" where
  "cordon_calls cfg sm =
     [PatchNode (sm_node sm) build_cordon_patch,
      PatchNode (sm_node sm) (build_taint_patch (cfg_threshold cfg)),
      CreateEvent ''default'' (build_event cfg (sm_t_event sm) (sm_node sm) (sm_value sm) False)]"

definition patched :: "rem_config \<Rightarrow> kube \<Rightarrow> sample \<Rightarrow> kube_call list \<Rightarrow> nat" where
  "patched cfg kube sm cs =
     (if \<not> kube cs (cordon_calls cfg sm ! 0) then 1
      else if \<not> kube (cs @ take 1 (cordon_calls cfg sm)) (cordon_calls cfg sm ! 1) then 2 else 3)"

definition spec_turn ::
    "rem_config \<Rightarrow> kube \<Rightarrow> sample \<Rightarrow> node_state \<times> kube_call list \<Rightarrow> node_state \<times> kube_call list" where
  "spec_turn cfg kube sm sc =
     (let (s, cs) = sc; n = patched cfg kube sm cs in
      if \<not> (over cfg sm \<and> may_act (cfg_cooldown_hours cfg) s (sm_node sm) (sm_t_check sm)) then (s, cs)
      else if cfg_dry_run cfg
      then (update_state_entry s (sm_node sm) (sm_value sm) True (sm_t_act sm), cs)
      else (if n = 3 \<and> cfg_loki cfg \<noteq> LokiBadUrl
            then update_state_entry s (sm_node sm) (sm_value sm) False (sm_t_act sm) else s,
            cs @ take n (cordon_calls cfg sm)))"

lemma remediate_spec:
  assumes "names_ok w" "over cfg sm" "may_act (cfg_cooldown_hours cfg) (w_state w) (sm_node sm) (sm_t_check sm)"
  obtains r w' where "remediate_node cfg kube sm w = (r, w')" "names_ok w'" "w_file w' = w_file w"
    "(w_state w', w_calls w') = spec_turn cfg kube sm (w_state w, w_calls w)"
proof -
  let ?p = "remediate_node cfg kube sm w"
  have "names_ok (snd ?p) \<and> w_file (snd ?p) = w_file w \<and>
      (w_state (snd ?p), w_calls (snd ?p)) = spec_turn cfg kube sm (w_state w, w_calls w)"
  proof (cases "cfg_dry_run cfg")
    case True
    then show ?thesis using assms
      by (simp add: remediate_node_def spec_turn_def act_then_def act_bind_def record_action_def
          act_modify_def count_ok push_loki_def act_raise_def act_return_def names_ok_def init_counters_def)
  next
    case False
    then show ?thesis using assms
      by (simp add: remediate_node_def spec_turn_def patched_def cordon_calls_def act_then_def
          act_bind_def act_try_def kube_do_def record_action_def act_modify_def count_ok push_loki_def
          act_raise_def act_return_def names_ok_def init_counters_def Let_def numeral_eq_Suc)
  qed
  then show ?thesis using that by (cases ?p) auto
qed

lemma spec_turn_state_ok:
  "state_ok (fst sc) \<Longrightarrow> state_ok (fst (spec_turn cfg kube sm sc))"
  by (cases sc) (simp add: spec_turn_def Let_def)

definition good :: "rem_world \<Rightarrow> bool" where
  "good w \<longleftrightarrow> names_ok w \<and> state_ok (w_state w)"

abbreviation view :: "rem_world \<Rightarrow> node_state \<times> kube_call list" where
  "view w \<equiv> (w_state w, w_calls w)"

lemma poll_sample_spec:
  assumes "good w"
  shows "\<exists>w'. poll_sample cfg kube sm n w = (Inr (n + (if over cfg sm then 1 else 0)), w') \<and> good w' \<and>
     w_file w' = w_file w \<and> view w' = spec_turn cfg kube sm (view w)"
proof (cases "over cfg sm")
  case False
  then show ?thesis using assms
    by (auto simp: poll_sample_def over_def act_then_def act_bind_def act_return_def set_gauge_ok
        good_def spec_turn_def Let_def)
next
  case True
  let ?g = "\<lambda>b. w\<lparr>w_gauges := gauge_after ''remediation_cooldown_active'' b [(''node'', sm_node sm)] (w_gauges w)\<rparr>"
  obtain a where a: "cooldown_active (cfg_cooldown_hours cfg) (sm_t_check sm) (w_state w) (sm_node sm) = Inr a"
    using assms cooldown_active_total[of "w_state w"] unfolding good_def by blast
  have g: "names_ok w" "state_ok (w_state w)" using assms by (simp_all add: good_def)
  show ?thesis
  proof (cases a)
    case active: True
    then show ?thesis using True a g
      by (auto simp: poll_sample_def over_def act_then_def act_bind_def act_return_def act_get_def
          act_of_def set_gauge_ok good_def spec_turn_def Let_def may_act_def)
  next
    case idle: False
    have may: "may_act (cfg_cooldown_hours cfg) (w_state (?g 0)) (sm_node sm) (sm_t_check sm)"
      using a idle by (simp add: may_act_def)
    have "names_ok (?g 0)" using g by simp
    then obtain r w' where rem: "remediate_node cfg kube sm (?g 0) = (r, w')" "names_ok w'"
        "w_file w' = w_file (?g 0)" "view w' = spec_turn cfg kube sm (view (?g 0))"
      by (rule remediate_spec[OF _ True may])
    have "state_ok (fst (view w'))" unfolding rem(4) by (rule spec_turn_state_ok) (simp add: g)
    then have "state_ok (w_state w')" by (simp only: fst_conv)
    moreover have "poll_sample cfg kube sm n w = (Inr (n + 1), w')"
      using True a idle rem(1) g(1) unfolding over_def
      by (cases r) (simp_all add: poll_sample_def act_then_def act_bind_def act_return_def act_get_def
          act_of_def act_try_def set_gauge_ok)
    ultimately show ?thesis using True rem by (simp add: good_def)
  qed
qed

lemma poll_samples_spec:
  assumes "good w"
  shows "\<exists>w'. poll_samples cfg kube sms n w = (Inr (n + int (length (filter (over cfg) sms))), w') \<and> good w' \<and>
     w_file w' = w_file w \<and> view w' = fold (spec_turn cfg kube) sms (view w)"
  using assms
proof (induction sms arbitrary: n w)
  case Nil
  then show ?case by (simp add: act_return_def)
next
  case (Cons sm sms)
  let ?n = "n + (if over cfg sm then 1 else 0)"
  from poll_sample_spec[OF Cons.prems, of cfg kube sm n] obtain w1 where
    w1: "poll_sample cfg kube sm n w = (Inr ?n, w1)" "good w1" "w_file w1 = w_file w"
      "view w1 = spec_turn cfg kube sm (view w)" by blast
  from Cons.IH[OF w1(2), of ?n] obtain w2 where
    w2: "poll_samples cfg kube sms ?n w1 = (Inr (?n + int (length (filter (over cfg) sms))), w2)" "good w2"
      "w_file w2 = w_file w1" "view w2 = fold (spec_turn cfg kube) sms (view w1)" by blast
  then show ?case using w1 by (auto simp: act_bind_def)
qed

section \<open>The specification of a poll\<close>

definition turns :: "poll_input \<Rightarrow> sample list" where
  "turns inp = (case query_prometheus (pl_response inp) of
     Inl _ \<Rightarrow> [] | Inr rs \<Rightarrow> timed (pl_clock inp) rs)"

text \<open>A failed query is a round without effect. Otherwise a failure to read the state file ends the poll
  before its first turn; one to write it ends the poll after its last, with the calls made and the
  file as it was.\<close>

definition spec_poll ::
    "rem_config \<Rightarrow> kube \<Rightarrow> poll_input \<Rightarrow> node_state \<times> kube_call list \<Rightarrow> unit py \<times> node_state \<times> kube_call list" where
  "spec_poll cfg kube inp sc =
     (if isl (query_prometheus (pl_response inp)) then (Inr (), sc)
      else case pl_load inp of
          Some e \<Rightarrow> (Inl e, sc)
        | None \<Rightarrow>
            (let (s, cs) = fold (spec_turn cfg kube) (turns inp) sc in
             case pl_save inp of Some e \<Rightarrow> (Inl e, (fst sc, cs)) | None \<Rightarrow> (Inr (), (s, cs))))"

fun spec_polls ::
    "rem_config \<Rightarrow> kube \<Rightarrow> poll_input list \<Rightarrow> node_state \<times> kube_call list \<Rightarrow> unit py \<times> node_state \<times> kube_call list" where
  "spec_polls cfg kube [] sc = (Inr (), sc)"
| "spec_polls cfg kube (i # is) sc =
     (case spec_poll cfg kube i sc of (Inl e, sc') \<Rightarrow> (Inl e, sc') | (Inr _, sc') \<Rightarrow> spec_polls cfg kube is sc')"

text \<open>The rounds in which nothing fails but, possibly, the query.\<close>

definition no_fault :: "poll_input \<Rightarrow> bool" where
  "no_fault inp \<longleftrightarrow> isl (query_prometheus (pl_response inp)) \<or> pl_load inp = None \<and> pl_save inp = None"

lemma spec_poll_normal: "fst (spec_poll cfg kube inp sc) = Inr () \<longleftrightarrow> no_fault inp"
  by (auto simp: spec_poll_def no_fault_def split: prod.splits option.splits)

lemma spec_poll_view:
  "no_fault inp \<Longrightarrow> spec_poll cfg kube inp sc = (Inr (), fold (spec_turn cfg kube) (turns inp) sc)"
  by (cases "query_prometheus (pl_response inp)") (auto simp: spec_poll_def no_fault_def turns_def split: prod.splits)

lemma spec_polls_normal: "fst (spec_polls cfg kube is sc) = Inr () \<longleftrightarrow> list_all no_fault is"
proof (induction "is" arbitrary: sc)
  case (Cons i "is")
  then show ?case using spec_poll_normal[of cfg kube i sc] by (auto split: prod.splits sum.splits)
qed simp

lemma spec_polls_view:
  "list_all no_fault is \<Longrightarrow> snd (spec_polls cfg kube is sc) = fold (spec_turn cfg kube) (concat (map turns is)) sc"
  by (induction "is" arbitrary: sc) (auto simp: spec_poll_view)

text \<open>What every turn keeps, every sequence of polls keeps, failures or not.\<close>

lemma spec_polls_keep:
  assumes "\<And>sm sc. sm \<in> set (concat (map turns is)) \<Longrightarrow> P (fst sc) \<and> Q (snd sc) \<Longrightarrow>
      P (fst (spec_turn cfg kube sm sc)) \<and> Q (snd (spec_turn cfg kube sm sc))"
    "P (fst sc)" "Q (snd sc)"
  shows "P (fst (snd (spec_polls cfg kube is sc))) \<and> Q (snd (snd (spec_polls cfg kube is sc)))"
  using assms
proof (induction "is" arbitrary: sc)
  case (Cons i "is")
  have turns: "P (fst (fold (spec_turn cfg kube) sms sc)) \<and> Q (snd (fold (spec_turn cfg kube) sms sc))"
    if "set sms \<subseteq> set (turns i)" for sms
    using that Cons.prems by (induction sms arbitrary: sc) auto
  have "P (fst (snd (spec_poll cfg kube i sc))) \<and> Q (snd (snd (spec_poll cfg kube i sc)))"
    using turns[of "turns i"] Cons.prems(2,3) by (auto simp: spec_poll_def split: prod.splits option.splits)
  moreover obtain r sc' where "spec_poll cfg kube i sc = (r, sc')" by (cases "spec_poll cfg kube i sc")
  ultimately show ?case using Cons.IH[of sc'] Cons.prems by (cases r) auto
qed simp

definition file_ok :: "rem_world \<Rightarrow> bool" where
  "file_ok w \<longleftrightarrow> names_ok w \<and> state_ok (file_state (w_file w))"

abbreviation file_view :: "rem_world \<Rightarrow> node_state \<times> kube_call list" where
  "file_view w \<equiv> (file_state (w_file w), w_calls w)"

lemma load_into_eq:
  "load_into fault w = (case fault of Some e \<Rightarrow> (Inl e, w) | None \<Rightarrow> (Inr (), w\<lparr>w_state := file_state (w_file w)\<rparr>))"
  by (simp add: load_into_def act_defs load_state_def split: option.split)

lemma save_from_eq:
  "save_from fault w = (case fault of Some e \<Rightarrow> (Inl e, w) | None \<Rightarrow> (Inr (), w\<lparr>w_file := StateDoc (w_state w)\<rparr>))"
  by (simp add: save_from_def act_defs save_state_def split: option.split)

lemma poll_nodes_spec:
  assumes "file_ok w"
  shows "\<exists>w'. poll_nodes cfg kube None save_fault sms w = ((case save_fault of Some e \<Rightarrow> Inl e | None \<Rightarrow> Inr ()), w') \<and>
     file_ok w' \<and>
     file_view w' = (if save_fault = None then fst (fold (spec_turn cfg kube) sms (file_view w)) else file_state (w_file w),
       snd (fold (spec_turn cfg kube) sms (file_view w))) \<and>
     gauge_value (w_gauges w') ''remediation_nodes_at_risk'' [] = Some (fint (int (length (filter (over cfg) sms))))"
proof -
  let ?w = "w\<lparr>w_state := file_state (w_file w)\<rparr>"
  have "good ?w" using assms by (simp add: good_def file_ok_def names_ok_def)
  from poll_samples_spec[OF this, of cfg kube sms 0] obtain w1 where
    w1: "poll_samples cfg kube sms 0 ?w = (Inr (int (length (filter (over cfg) sms))), w1)" "good w1"
      "w_file w1 = w_file w" "view w1 = fold (spec_turn cfg kube) sms (view ?w)" by auto
  let ?g = "gauge_after ''remediation_nodes_at_risk'' (fint (int (length (filter (over cfg) sms)))) [] (w_gauges w1)"
  let ?w2 = "w1\<lparr>w_gauges := ?g, w_file := (if save_fault = None then StateDoc (w_state w1) else w_file w1)\<rparr>"
  have v: "fold (spec_turn cfg kube) sms (file_view w) = (w_state w1, w_calls w1)" using w1(4) by simp
  have "poll_nodes cfg kube None save_fault sms w = ((case save_fault of Some e \<Rightarrow> Inl e | None \<Rightarrow> Inr ()), ?w2)"
    using w1 by (cases save_fault)
      (simp_all add: poll_nodes_def act_then_def act_bind_def load_into_eq save_from_eq set_gauge_ok good_def)
  moreover have "names_ok ?w2"
    using names_ok_gauge[of w1 "''remediation_nodes_at_risk''"] w1(2) by (simp add: good_def names_ok_def)
  moreover have "gauge_value ?g ''remediation_nodes_at_risk'' [] = Some (fint (int (length (filter (over cfg) sms))))"
    by (simp add: gauge_value_def gauge_after_def)
  moreover have "state_ok (file_state (w_file ?w2))" "file_view ?w2 =
      (if save_fault = None then fst (fold (spec_turn cfg kube) sms (file_view w)) else file_state (w_file w),
       snd (fold (spec_turn cfg kube) sms (file_view w)))"
    unfolding v using w1(2,3) assms by (simp_all add: good_def file_ok_def)
  ultimately show ?thesis by (intro exI[of _ ?w2]) (simp add: file_ok_def)
qed

lemma poll_once_spec:
  assumes "file_ok w"
  shows "\<exists>w'. poll_once cfg kube inp w = (fst (spec_poll cfg kube inp (file_view w)), w') \<and> file_ok w' \<and>
     file_view w' = snd (spec_poll cfg kube inp (file_view w)) \<and>
     (case query_prometheus (pl_response inp) of
        Inl e \<Rightarrow> w_file w' = w_file w \<and>
          counter_value (w_counters w') (''remediation_poll_errors_total'', []) =
          counter_value (w_counters w) (''remediation_poll_errors_total'', []) + 1
      | Inr rs \<Rightarrow> pl_load inp = None \<longrightarrow>
          gauge_value (w_gauges w') ''remediation_nodes_at_risk'' [] =
            Some (fint (int (length (filter (over cfg) (turns inp))))))"
proof -
  let ?n = "''remediation_controller_last_poll_timestamp''"
  let ?w = "w\<lparr>w_gauges := gauge_after ?n (pl_time inp) [] (w_gauges w)\<rparr>"
  have n: "names_ok w" using assms by (simp add: file_ok_def)
  have ok: "file_ok ?w" using assms by (simp add: file_ok_def)
  show ?thesis
  proof (cases "query_prometheus (pl_response inp)")
    case (Inl e)
    then show ?thesis
      using ok names_ok_count[of ?w "''remediation_poll_errors_total''" "[]"]
      by (simp add: poll_once_def act_then_def act_bind_def set_gauge_ok[OF n] count_ok file_ok_def
          reg.count_bump label_key_def spec_poll_def)
  next
    case (Inr rs)
    show ?thesis
    proof (cases "pl_load inp")
      case None
      from poll_nodes_spec[OF ok, of cfg kube "pl_save inp" "turns inp"] show ?thesis
        using Inr None by (cases "pl_save inp")
          (auto simp: poll_once_def act_then_def act_bind_def set_gauge_ok[OF n] spec_poll_def turns_def split: prod.splits)
    next
      case (Some e)
      then show ?thesis using Inr ok
        by (simp add: poll_once_def poll_nodes_def act_then_def act_bind_def set_gauge_ok[OF n] load_into_eq spec_poll_def)
    qed
  qed
qed

section \<open>Polls in sequence\<close>

lemma poll_loop_view:
  assumes "file_ok w"
  shows "\<exists>w'. poll_loop cfg kube is w = (fst (spec_polls cfg kube is (file_view w)), w') \<and> file_ok w' \<and>
     file_view w' = snd (spec_polls cfg kube is (file_view w))"
  using assms
proof (induction "is" arbitrary: w)
  case Nil
  then show ?case by (simp add: act_return_def)
next
  case (Cons i "is")
  from poll_once_spec[OF Cons.prems, of cfg kube i] obtain w1 where
    w1: "poll_once cfg kube i w = (fst (spec_poll cfg kube i (file_view w)), w1)" "file_ok w1"
      "file_view w1 = snd (spec_poll cfg kube i (file_view w))" by blast
  obtain r sc where p: "spec_poll cfg kube i (file_view w) = (r, sc)" by (cases "spec_poll cfg kube i (file_view w)")
  then show ?case using w1 Cons.IH[OF w1(2)] by (cases r) (auto simp: act_then_def act_bind_def)
qed

text \<open>The nodes patched by a list of calls.\<close>

definition patches_of :: "string \<Rightarrow> kube_call list \<Rightarrow> kube_call list" where
  "patches_of n cs = filter (\<lambda>c. case c of PatchNode m _ \<Rightarrow> m = n | CreateEvent _ _ \<Rightarrow> False) cs"

lemma patches_of_other: "sm_node sm \<noteq> n \<Longrightarrow> patches_of n (cs @ take k (cordon_calls cfg sm)) = patches_of n cs"
  by (auto simp: patches_of_def cordon_calls_def filter_empty_conv dest!: in_set_takeD)

text \<open>A node that may not act keeps its entry and gets no patch.\<close>

lemma spec_turn_blocked:
  assumes "sm_node sm = n \<Longrightarrow> elapsed_hours t (sm_t_check sm) < cfg_cooldown_hours cfg"
    "dget (fst sc) n = Some (Entry (IsoTime t) p d)"
  shows "dget (fst (spec_turn cfg kube sm sc)) n = Some (Entry (IsoTime t) p d) \<and>
     patches_of n (snd (spec_turn cfg kube sm sc)) = patches_of n (snd sc)"
proof (cases "sm_node sm = n")
  case True
  then have "\<not> may_act (cfg_cooldown_hours cfg) (fst sc) (sm_node sm) (sm_t_check sm)"
    using assms by (simp add: may_act_def cooldown_active_def)
  then show ?thesis using assms(2) by (cases sc) (simp add: spec_turn_def Let_def)
next
  case False
  then show ?thesis using assms(2)
    by (cases sc) (simp add: spec_turn_def Let_def update_state_entry_def patches_of_other)
qed

lemma fold_turns_blocked:
  assumes "\<And>sm. sm \<in> set sms \<Longrightarrow> sm_node sm = n \<Longrightarrow> elapsed_hours t (sm_t_check sm) < cfg_cooldown_hours cfg"
    "dget (fst sc) n = Some (Entry (IsoTime t) p d)"
  shows "dget (fst (fold (spec_turn cfg kube) sms sc)) n = Some (Entry (IsoTime t) p d) \<and>
     patches_of n (snd (fold (spec_turn cfg kube) sms sc)) = patches_of n (snd sc)"
  using assms
proof (induction sms arbitrary: sc)
  case (Cons sm sms)
  have "dget (fst (spec_turn cfg kube sm sc)) n = Some (Entry (IsoTime t) p d)"
    "patches_of n (snd (spec_turn cfg kube sm sc)) = patches_of n (snd sc)"
    using spec_turn_blocked[of sm n t cfg sc p d kube] Cons.prems by auto
  then show ?case using Cons.IH[of "spec_turn cfg kube sm sc"] Cons.prems(1) by auto
qed simp

lemma fold_turns_dry:
  "cfg_dry_run cfg \<Longrightarrow> snd (fold (spec_turn cfg kube) sms sc) = snd sc"
  by (induction sms arbitrary: sc) (auto simp: spec_turn_def Let_def split: prod.splits)

text \<open>With the API and Loki at work, a turn that may act patches, reports and marks its node.\<close>

lemma patched_all: "(\<And>cs c. kube cs c) \<Longrightarrow> patched cfg kube sm cs = 3"
  by (simp add: patched_def)

lemma take_cordon_calls [simp]: "take 3 (cordon_calls cfg sm) = cordon_calls cfg sm"
  by (simp add: cordon_calls_def)

lemma spec_turn_other_node:
  "sm_node sm \<noteq> n \<Longrightarrow> dget (fst (spec_turn cfg kube sm sc)) n = dget (fst sc) n"
  by (cases sc) (simp add: spec_turn_def Let_def update_state_entry_def)

lemma may_act_cong: "dget s n = dget s' n \<Longrightarrow> may_act h s n t = may_act h s' n t"
  by (simp add: may_act_def cooldown_active_def)

lemma fold_turns_calls:
  assumes "\<not> cfg_dry_run cfg" "\<And>cs c. kube cs c" "distinct (map sm_node sms)"
  shows "snd (fold (spec_turn cfg kube) sms (s, cs)) = cs @ concat (map (cordon_calls cfg)
     (filter (\<lambda>sm. over cfg sm \<and> may_act (cfg_cooldown_hours cfg) s (sm_node sm) (sm_t_check sm)) sms))"
  using assms(3)
proof (induction sms arbitrary: s cs)
  case (Cons sm sms)
  obtain s1 cs1 where t: "spec_turn cfg kube sm (s, cs) = (s1, cs1)" by fastforce
  have s1: "dget s1 (sm_node x) = dget s (sm_node x)" if "x \<in> set sms" for x
    using spec_turn_other_node[of sm "sm_node x" cfg kube "(s, cs)"] Cons.prems that t by force
  have "cs1 = cs @ (if over cfg sm \<and> may_act (cfg_cooldown_hours cfg) s (sm_node sm) (sm_t_check sm)
      then cordon_calls cfg sm else [])"
    using t assms(1) patched_all[of kube cfg sm cs, OF assms(2)]
    by (auto simp: spec_turn_def Let_def split: if_splits)
  moreover have "filter (\<lambda>sm. over cfg sm \<and> may_act (cfg_cooldown_hours cfg) s1 (sm_node sm) (sm_t_check sm)) sms =
      filter (\<lambda>sm. over cfg sm \<and> may_act (cfg_cooldown_hours cfg) s (sm_node sm) (sm_t_check sm)) sms"
    by (intro filter_cong refl conj_cong) (rule may_act_cong, rule s1)
  ultimately show ?case using Cons t by simp
qed simp

lemma timed_nodes: "map sm_node (timed clock rs) = map fst rs"
  by (rule nth_equalityI) (simp_all add: timed_def nth_enumerate_eq case_prod_unfold)

section \<open>Properties\<close>

text \<open>C5: started on a well-formed state file, a sequence of polls does exactly what its specification says,
  turn by turn, to the state file and the API, and keeps the file well formed. It returns normally
  exactly when no poll whose query succeeds fails to read or to write the state file, and then the
  effect is that of all its turns in order; the first such failure ends the loop with that
  exception - a poll that cannot write the file has made its calls by then, and its file still is
  the old one.\<close>

theorem poll_loop_refines:
  assumes "names_ok w" "state_ok (file_state (w_file w))"
  shows "\<exists>w'. poll_loop cfg kube inputs w = (fst (spec_polls cfg kube inputs (file_state (w_file w), w_calls w)), w') \<and>
     names_ok w' \<and> state_ok (file_state (w_file w')) \<and>
     (file_state (w_file w'), w_calls w') = snd (spec_polls cfg kube inputs (file_state (w_file w), w_calls w)) \<and>
     (fst (poll_loop cfg kube inputs w) = Inr () \<longleftrightarrow> (\<forall>inp \<in> set inputs. no_fault inp)) \<and>
     ((\<forall>inp \<in> set inputs. no_fault inp) \<longrightarrow> (file_state (w_file w'), w_calls w') =
        fold (spec_turn cfg kube) (concat (map turns inputs)) (file_state (w_file w), w_calls w))"
proof -
  obtain w' where w': "poll_loop cfg kube inputs w = (fst (spec_polls cfg kube inputs (file_view w)), w')" "file_ok w'"
    "file_view w' = snd (spec_polls cfg kube inputs (file_view w))"
    using poll_loop_view[of w cfg kube inputs] assms by (auto simp: file_ok_def)
  then show ?thesis
    using spec_polls_normal[of cfg kube inputs "file_view w"] spec_polls_view[of inputs cfg kube "file_view w"]
    by (auto simp: file_ok_def list_all_iff)
qed

definition demo_world :: rem_world where
  "demo_world = \<lparr>w_file = StateDoc [(''n2'', Entry (IsoTime 0) (Fin 1) False)], w_state = [],
     w_counters = init_counters, w_gauges = init_gauges, w_calls = []\<rparr>"

definition demo_cfg :: rem_config where
  "demo_cfg = \<lparr>cfg_threshold = rnd (8 / 10), cfg_cooldown_hours = 4, cfg_dry_run = False,
     cfg_loki = LokiOff, cfg_show_time = str_int\<rparr>"

definition demo_poll :: "int \<Rightarrow> poll_input" where
  "demo_poll t = \<lparr>pl_time = 0, pl_response = Response (Some ''success'')
       [\<lparr>pi_node = Some ''n1'', pi_instance = None, pi_value = PvText ''0.95''\<rparr>,
        \<lparr>pi_node = None, pi_instance = Some ''n2'', pi_value = PvText ''0.99''\<rparr>],
     pl_clock = (\<lambda>i. (t, t, t)), pl_load = None, pl_save = None\<rparr>"

lemma demo_ok: "names_ok demo_world" "state_ok (file_state (w_file demo_world))"
  by (auto simp: demo_world_def names_ok_def state_ok_def)

lemma demo_turns: "turns (demo_poll t) =
    [\<lparr>sm_node = ''n1'', sm_value = Fin (rnd (95 / 100)), sm_t_check = t, sm_t_event = t, sm_t_act = t\<rparr>,
     \<lparr>sm_node = ''n2'', sm_value = Fin (rnd (99 / 100)), sm_t_check = t, sm_t_event = t, sm_t_act = t\<rparr>]"
  "query_prometheus (pl_response (demo_poll t)) = Inr [(''n1'', Fin (rnd (95 / 100))), (''n2'', Fin (rnd (99 / 100)))]"
proof -
  show q: "query_prometheus (pl_response (demo_poll t)) =
      Inr [(''n1'', Fin (rnd (95 / 100))), (''n2'', Fin (rnd (99 / 100)))]"
    unfolding demo_poll_def poll_input.select_convs by code_simp
  show "turns (demo_poll t) =
    [\<lparr>sm_node = ''n1'', sm_value = Fin (rnd (95 / 100)), sm_t_check = t, sm_t_event = t, sm_t_act = t\<rparr>,
     \<lparr>sm_node = ''n2'', sm_value = Fin (rnd (99 / 100)), sm_t_check = t, sm_t_event = t, sm_t_act = t\<rparr>]"
    using q by (simp add: turns_def timed_def demo_poll_def)
qed

text \<open>Two polls go well; when the first one cannot write, the loop ends with the node cordoned and not recorded.\<close>

theorem poll_loop_refines_witness:
  "fst (poll_loop demo_cfg (\<lambda>cs c. True) [demo_poll 60000000, demo_poll 120000000] demo_world) = Inr () \<and>
   (\<exists>w'. poll_loop demo_cfg (\<lambda>cs c. True) [(demo_poll 60000000)\<lparr>pl_save := Some OSError\<rparr>, demo_poll 120000000] demo_world =
      (Inl OSError, w') \<and> length (w_calls w') = 3 \<and> dget (file_state (w_file w')) ''n1'' = None)"
proof
  have "no_fault (demo_poll t)" for t by (simp add: no_fault_def demo_poll_def)
  then show "fst (poll_loop demo_cfg (\<lambda>cs c. True) [demo_poll 60000000, demo_poll 120000000] demo_world) = Inr ()"
    using poll_loop_refines[OF demo_ok, of demo_cfg "\<lambda>cs c. True" "[demo_poll 60000000, demo_poll 120000000]"] by auto
  let ?i = "(demo_poll 60000000)\<lparr>pl_save := Some OSError\<rparr>"
  have "rnd (8 / 10) < rnd (95 / 100)" "elapsed_hours 0 60000000 < 4" by code_simp+
  moreover have "turns ?i = turns (demo_poll 60000000)"
    by (cases "query_prometheus (pl_response (demo_poll 60000000))") (simp_all add: turns_def)
  ultimately have "spec_polls demo_cfg (\<lambda>cs c. True) [?i, demo_poll 120000000] (file_state (w_file demo_world), w_calls demo_world) =
      (Inl OSError, file_state (w_file demo_world), cordon_calls demo_cfg (hd (turns (demo_poll 60000000))))"
    using demo_turns[of 60000000]
    by (simp add: spec_poll_def spec_turn_def patched_all demo_cfg_def over_def may_act_def cooldown_active_def demo_world_def
        update_state_entry_def demo_poll_def)
  then show "\<exists>w'. poll_loop demo_cfg (\<lambda>cs c. True) [?i, demo_poll 120000000] demo_world =
      (Inl OSError, w') \<and> length (w_calls w') = 3 \<and> dget (file_state (w_file w')) ''n1'' = None"
    using poll_loop_refines[OF demo_ok, of demo_cfg "\<lambda>cs c. True" "[?i, demo_poll 120000000]"]
    by (auto simp: cordon_calls_def demo_world_def)
qed

text \<open>C6: a dry run makes no API call, whatever the nodes' values and for however many polls.\<close>

theorem dry_run_calls_nothing:
  assumes "cfg_dry_run cfg" "names_ok w" "state_ok (file_state (w_file w))"
  shows "w_calls (snd (poll_loop cfg kube inputs w)) = w_calls w"
proof -
  obtain r w' where w': "poll_loop cfg kube inputs w = (r, w')" "file_view w' = snd (spec_polls cfg kube inputs (file_view w))"
    using poll_loop_view[of w cfg kube inputs] assms by (auto simp: file_ok_def)
  have "snd (snd (spec_polls cfg kube inputs (file_view w))) = w_calls w"
    using spec_polls_keep[of inputs "\<lambda>s. True" "\<lambda>cs. cs = w_calls w" cfg kube "file_view w"] assms(1)
    by (auto simp: spec_turn_def Let_def split: prod.splits)
  then show ?thesis using w' by (metis snd_conv)
qed

theorem dry_run_calls_nothing_witness:
  "w_calls (snd (poll_loop (demo_cfg\<lparr>cfg_dry_run := True\<rparr>) (\<lambda>cs c. True) [demo_poll 60000000] demo_world)) = []"
  by (subst dry_run_calls_nothing) (simp_all add: demo_ok demo_cfg_def, simp add: demo_world_def)

text \<open>C2: a node whose entry in the state file carries the time of an action is not patched, and its
  entry not changed, by any sequence of polls whose cooldown tests for it fall into the cooldown
  window, whatever the other nodes, the API and Loki do.\<close>

theorem cooldown_respected:
  assumes "names_ok w" "state_ok (file_state (w_file w))"
    "dget (file_state (w_file w)) n = Some (Entry (IsoTime t) p d)"
    "\<forall>sm \<in> set (concat (map turns inputs)). sm_node sm = n \<longrightarrow>
       elapsed_hours t (sm_t_check sm) < cfg_cooldown_hours cfg"
  shows "patches_of n (w_calls (snd (poll_loop cfg kube inputs w))) = patches_of n (w_calls w) \<and>
     dget (file_state (w_file (snd (poll_loop cfg kube inputs w)))) n = Some (Entry (IsoTime t) p d)"
proof -
  obtain r w' where w': "poll_loop cfg kube inputs w = (r, w')" "file_view w' = snd (spec_polls cfg kube inputs (file_view w))"
    using poll_loop_view[of w cfg kube inputs] assms by (auto simp: file_ok_def)
  have "dget (fst (snd (spec_polls cfg kube inputs (file_view w)))) n = Some (Entry (IsoTime t) p d) \<and>
     patches_of n (snd (snd (spec_polls cfg kube inputs (file_view w)))) = patches_of n (w_calls w)"
  proof (rule spec_polls_keep)
    fix sm sc assume "sm \<in> set (concat (map turns inputs))"
      "dget (fst sc) n = Some (Entry (IsoTime t) p d) \<and> patches_of n (snd sc) = patches_of n (w_calls w)"
    then show "dget (fst (spec_turn cfg kube sm sc)) n = Some (Entry (IsoTime t) p d) \<and>
        patches_of n (snd (spec_turn cfg kube sm sc)) = patches_of n (w_calls w)"
      using spec_turn_blocked[of sm n t cfg sc p d kube] assms(4) by auto
  qed (use assms(3) in simp_all)
  then show ?thesis using w' by (metis fst_conv snd_conv)
qed

theorem cooldown_respected_witness:
  "patches_of ''n2'' (w_calls (snd (poll_loop demo_cfg (\<lambda>cs c. True) [demo_poll 60000000] demo_world))) = []"
proof -
  have e: "elapsed_hours 0 60000000 < 4" by code_simp
  have d: "dget (file_state (w_file demo_world)) ''n2'' = Some (Entry (IsoTime 0) (Fin 1) False)"
    by (simp add: demo_world_def)
  from cooldown_respected[OF demo_ok d, of "[demo_poll 60000000]" demo_cfg "\<lambda>cs c. True"] e
  have "patches_of ''n2'' (w_calls (snd (poll_loop demo_cfg (\<lambda>cs c. True) [demo_poll 60000000] demo_world))) =
      patches_of ''n2'' (w_calls demo_world)"
    by (simp add: demo_turns(1) demo_cfg_def)
  then show ?thesis by (simp add: demo_world_def patches_of_def)
qed

text \<open>C3: a poll that is no dry run, over an answer of distinct nodes, with the state file readable and the API and
  Loki answering, cordons, taints and reports exactly the nodes over the threshold that are not in
  cooldown, in the order of the answer. The gauge of nodes at risk counts every node over the
  threshold, those in cooldown, on which nothing is done, included.\<close>

theorem poll_acts_exactly:
  assumes "names_ok w" "state_ok (file_state (w_file w))" "\<not> cfg_dry_run cfg" "\<forall>cs c. kube cs c"
    "query_prometheus (pl_response inp) = Inr rs" "distinct (map fst rs)" "pl_load inp = None"
  shows "w_calls (snd (poll_once cfg kube inp w)) = w_calls w @ concat (map (cordon_calls cfg)
       (filter (\<lambda>sm. over cfg sm \<and>
          may_act (cfg_cooldown_hours cfg) (file_state (w_file w)) (sm_node sm) (sm_t_check sm)) (turns inp))) \<and>
     gauge_value (w_gauges (snd (poll_once cfg kube inp w))) ''remediation_nodes_at_risk'' [] =
       Some (fint (int (length (filter (over cfg) (turns inp)))))"
proof -
  have t: "turns inp = timed (pl_clock inp) rs" using assms(5) by (simp add: turns_def)
  have "map sm_node (turns inp) = map fst rs"
    unfolding t by (rule timed_nodes)
  then have d: "distinct (map sm_node (turns inp))" using assms(6) by simp
  obtain r w' where w': "poll_once cfg kube inp w = (r, w')"
    "file_view w' = snd (spec_poll cfg kube inp (file_view w))"
    "gauge_value (w_gauges w') ''remediation_nodes_at_risk'' [] =
       Some (fint (int (length (filter (over cfg) (turns inp)))))"
    using poll_once_spec[of w cfg kube inp] assms by (auto simp: file_ok_def)
  have "w_calls w' = snd (fold (spec_turn cfg kube) (turns inp) (file_view w))"
    using w'(2) assms(5,7) by (auto simp: spec_poll_def split: prod.splits option.splits)
  then show ?thesis
    using w' fold_turns_calls[OF assms(3) _ d, of kube] assms(4) by simp
qed

text \<open>Of the two nodes over the threshold one is in cooldown: one is cordoned, the gauge shows two.\<close>

theorem poll_acts_exactly_witness:
  "gauge_value (w_gauges (snd (poll_once demo_cfg (\<lambda>cs c. True) (demo_poll 60000000) demo_world))) ''remediation_nodes_at_risk'' [] = Some 2 \<and>
   (\<exists>s. w_calls (snd (poll_once demo_cfg (\<lambda>cs c. True) (demo_poll 60000000) demo_world)) =
     cordon_calls demo_cfg s \<and> sm_node s = ''n1'')"
proof -
  have l: "pl_load (demo_poll 60000000) = None" by (simp add: demo_poll_def)
  have o1: "rnd (8 / 10) < rnd (95 / 100)" "rnd (8 / 10) < rnd (99 / 100)" "fint 2 = 2" by code_simp+
  have e: "elapsed_hours 0 60000000 < 4" by code_simp
  from poll_acts_exactly[OF demo_ok _ _ demo_turns(2) _ l, of demo_cfg "\<lambda>cs c. True"] o1 e
  show ?thesis
    by (auto simp: demo_turns(1) over_def demo_cfg_def may_act_def cooldown_active_def demo_world_def)
qed

end
