(* ===== verification/RemWebhook.thy ===== *)
theory RemWebhook
  imports RemState Effects
begin

text \<open>
  The operators' webhook of \<open>remediation/webhook-server.py\<close>: authentication, the two POST
  endpoints with their effects on the state file, the retrain marker, the audit log and the
  counters, and the GET endpoints. Fields of a JSON body are texts; whether a file operation
  goes through is an input.
\<close>

section \<open>Requests and surroundings\<close>

text \<open>The body after \<open>json.loads\<close>: no JSON, JSON that is no object, or an object's text fields.\<close>

datatype body = BadJsonBody | NotObject | Fields "(string, string) dict"

record http_request =
  rq_path :: string
  rq_authorization :: "string option"
  rq_content_length :: "string option"
  rq_body :: body

record io =
  io_load :: "py_error option"
  io_save :: "py_error option"
  io_touch :: bool
  io_append :: bool

type_synonym false_positive = "string \<times> string \<times> int"

record wh_world =
  wh_file :: state_file
  wh_retrain :: bool
  wh_audit :: "false_positive list"
  wh_counters :: "int registry"

type_synonym response = "int \<times> string"

definition wh_init_counters :: "int registry" where
  "wh_init_counters = [(''replacement_confirmed_total'', []), (''false_positive_total'', [])]"

section \<open>The handlers\<close>

definition wh_count :: "string \<Rightarrow> labels \<Rightarrow> (wh_world, unit) act" where
  "wh_count name labels w =
     (case counter_inc name labels (wh_counters w) of
        Inl e \<Rightarrow> (Inl e, w) | Inr r \<Rightarrow> (Inr (), w\<lparr>wh_counters := r\<rparr>))"

definition wh_save :: "io \<Rightarrow> node_state \<Rightarrow> (wh_world, unit) act" where
  "wh_save io s = act_bind (act_of (save_state (io_save io) s)) (\<lambda>f. act_modify (\<lambda>w. w\<lparr>wh_file := f\<rparr>))"

definition touch_retrain :: "io \<Rightarrow> (wh_world, unit) act" where
  "touch_retrain io = (if io_touch io then act_modify (\<lambda>w. w\<lparr>wh_retrain := True\<rparr>) else act_raise OSError)"

definition append_false_positive :: "io \<Rightarrow> false_positive \<Rightarrow> (wh_world, unit) act" where
  "append_false_positive io r =
     (if io_append io then act_modify (\<lambda>w. w\<lparr>wh_audit := wh_audit w @ [r]\<rparr>) else act_raise OSError)"

definition handle_replacement_confirmed :: "io \<Rightarrow> string \<Rightarrow> string \<Rightarrow> (wh_world, unit) act" where
  "handle_replacement_confirmed io node component =
     act_bind (act_bind (act_get wh_file) (\<lambda>f. act_of (load_state (io_load io) f))) (\<lambda>state.
     act_then (if node \<in> set (dkeys state) then wh_save io (ddel node state) else act_return ())
     (act_then (touch_retrain io)
               (wh_count ''replacement_confirmed_total'' [(''component'', component)])))"

definition handle_false_positive :: "io \<Rightarrow> int \<Rightarrow> string \<Rightarrow> string \<Rightarrow> (wh_world, unit) act" where
  "handle_false_positive io now alertname node =
     act_then (append_false_positive io (alertname, node, now))
              (wh_count ''false_positive_total'' [(''alertname'', alertname)])"

text \<open>\<open>_read_json\<close>: \<open>None\<close> for a body that does not parse; an unreadable length raises.\<close>

definition read_json :: "http_request \<Rightarrow> body py" where
  "read_json rq =
     (case rq_content_length rq of
        None \<Rightarrow> Inr (Fields [])
      | Some l \<Rightarrow> (case py_int l of
          None \<Rightarrow> Inl (ValueError l)
        | Some n \<Rightarrow> Inr (if n = 0 then Fields [] else rq_body rq)))"

definition check_auth :: "string option \<Rightarrow> http_request \<Rightarrow> bool" where
  "check_auth token rq =
     (case token of
        None \<Rightarrow> True
      | Some t \<Rightarrow> t = [] \<or> (case rq_authorization rq of Some a \<Rightarrow> a | None \<Rightarrow> []) = ''Bearer '' @ t)"

text \<open>\<open>try: m; except Exception as exc: 500\<close>, then \<open>200 ok\<close>. \<open>show_err\<close> is \<open>str(exc)\<close>.\<close>

definition respond :: "(py_error \<Rightarrow> string) \<Rightarrow> (wh_world, unit) act \<Rightarrow> (wh_world, response) act" where
  "respond show_err m w =
     (case m w of (Inl e, w') \<Rightarrow> (Inr (500, show_err e), w') | (Inr _, w') \<Rightarrow> (Inr (200, ''ok''), w'))"

definition post_fields ::
    "http_request \<Rightarrow> string \<Rightarrow> string \<Rightarrow> string \<Rightarrow> (string \<Rightarrow> string \<Rightarrow> (wh_world, response) act) \<Rightarrow>
     (wh_world, response) act" where
  "post_fields rq f1 f2 missing h =
     act_bind (act_of (read_json rq)) (\<lambda>payload.
       case payload of
         BadJsonBody \<Rightarrow> act_return (400, ''invalid JSON'')
       | NotObject \<Rightarrow> act_raise AttributeError
       | Fields d \<Rightarrow>
           (let a = dgetd d f1 []; b = dgetd d f2 [] in
            if a = [] \<or> b = [] then act_return (400, missing) else h a b))"

definition do_POST ::
    "string option \<Rightarrow> io \<Rightarrow> int \<Rightarrow> (py_error \<Rightarrow> string) \<Rightarrow> http_request \<Rightarrow> (wh_world, response) act" where
  "do_POST token io now show_err rq =
     (if \<not> check_auth token rq then act_return (401, ''Unauthorized'')
      else if rq_path rq = ''/webhook/replacement-confirmed''
      then post_fields rq ''node'' ''component'' ''missing node or component'' (\<lambda>node component.
             respond show_err (handle_replacement_confirmed io node component))
      else if rq_path rq = ''/webhook/false-positive''
      then post_fields rq ''alertname'' ''node'' ''missing alertname or node'' (\<lambda>alertname node.
             respond show_err (handle_false_positive io now alertname node))
      else act_return (404, ''not found''))"

definition do_GET :: "http_request \<Rightarrow> (wh_world, response) act" where
  "do_GET rq =
     (if rq_path rq = ''/metrics'' then act_get (\<lambda>w. (200, render_webhook (wh_counters w)))
      else if rq_path rq = ''/healthz'' then act_return (200, ''OK'')
      else act_return (404, ''not found''))"

section \<open>Lemmas\<close>

definition wh_names_ok :: "wh_world \<Rightarrow> bool" where
  "wh_names_ok w \<longleftrightarrow> dkeys (wh_counters w) = dkeys wh_init_counters"

lemma wh_count_ok:
  assumes "wh_names_ok w" "name \<in> set (dkeys wh_init_counters)"
  shows "wh_count name ls w = (Inr (), w\<lparr>wh_counters := counter_bump (name, label_key ls) (wh_counters w)\<rparr>)"
  using assms by (simp add: wh_count_def counter_inc_ok wh_names_ok_def)

lemma handler_names [simp]:
  "''replacement_confirmed_total'' \<in> set (dkeys wh_init_counters)"
  "''false_positive_total'' \<in> set (dkeys wh_init_counters)"
  by (simp_all add: wh_init_counters_def)

definition all_io :: io where
  "all_io = \<lparr>io_load = None, io_save = None, io_touch = True, io_append = True\<rparr>"

lemma handle_replacement_ok:
  assumes "wh_names_ok w"
  shows "handle_replacement_confirmed all_io node component w =
    (Inr (), w\<lparr>wh_file := (if node \<in> set (dkeys (file_state (wh_file w)))
                 then StateDoc (ddel node (file_state (wh_file w))) else wh_file w),
               wh_retrain := True,
               wh_counters := counter_bump (''replacement_confirmed_total'', [(''component'', component)]) (wh_counters w)\<rparr>)"
  using assms wh_count_ok[of _ "''replacement_confirmed_total''"]
  by (simp add: handle_replacement_confirmed_def act_bind_def act_then_def act_get_def act_of_def wh_save_def
      load_state_def save_state_def act_modify_def act_return_def touch_retrain_def all_io_def label_key_def wh_names_ok_def)

lemma ddel_absent: "n \<notin> set (dkeys d) \<Longrightarrow> ddel n d = d"
  by (auto simp: ddel_def dkeys_def intro!: filter_True)

lemma removed_file:
  "file_state (if n \<in> set (dkeys (file_state f)) then StateDoc (ddel n (file_state f)) else f) =
     ddel n (file_state f)"
  by (simp add: ddel_absent)

section \<open>Properties\<close>

text \<open>With a token set, a POST whose header is not exactly that bearer token is answered 401 and
  changes nothing, whatever its path and body.\<close>

theorem unauthorized_changes_nothing:
  assumes "t \<noteq> []" "rq_authorization rq \<noteq> Some (''Bearer '' @ t)"
  shows "do_POST (Some t) io now show_err rq w = (Inr (401, ''Unauthorized''), w)"
  using assms by (auto simp: do_POST_def check_auth_def act_return_def split: option.splits)

definition sample_request :: "string \<Rightarrow> http_request" where
  "sample_request auth = \<lparr>rq_path = ''/webhook/replacement-confirmed'',
     rq_authorization = Some auth, rq_content_length = Some ''37'',
     rq_body = Fields [(''node'', ''n1''), (''component'', ''dimm'')]\<rparr>"

definition wh_sample :: wh_world where
  "wh_sample = \<lparr>wh_file = StateDoc [(''n1'', Entry (IsoTime 5) (Fin 1) False), (''n2'', FalsyEntry)],
     wh_retrain = False, wh_audit = [], wh_counters = wh_init_counters\<rparr>"

theorem unauthorized_changes_nothing_witness:
  "do_POST (Some ''s3'') all_io 0 (\<lambda>e. []) (sample_request ''Bearer x'') wh_sample =
     (Inr (401, ''Unauthorized''), wh_sample)"
  by (rule unauthorized_changes_nothing) (simp_all add: sample_request_def)

text \<open>C8: an accepted replacement confirmation removes the node from the state file and leaves every
  other node's entry, asks for retraining, counts one replacement of that component and no other
  counter; from then on the node may be acted on again.\<close>

theorem replacement_confirmed_effect:
  assumes "check_auth token rq" "rq_path rq = ''/webhook/replacement-confirmed''"
    "read_json rq = Inr (Fields d)" "dgetd d ''node'' [] = node" "node \<noteq> []"
    "dgetd d ''component'' [] = component" "component \<noteq> []" "wh_names_ok w"
  shows "\<exists>w'. do_POST token all_io now show_err rq w = (Inr (200, ''ok''), w') \<and>
     dget (file_state (wh_file w')) node = None \<and> wh_retrain w' \<and> wh_audit w' = wh_audit w \<and>
     (\<forall>m. m \<noteq> node \<longrightarrow> dget (file_state (wh_file w')) m = dget (file_state (wh_file w)) m) \<and>
     (\<forall>k. counter_value (wh_counters w') k = counter_value (wh_counters w) k +
        (if k = (''replacement_confirmed_total'', [(''component'', component)]) then 1 else 0)) \<and>
     (\<forall>h t. may_act h (file_state (wh_file w')) node t)"
  using assms
  by (simp add: do_POST_def post_fields_def act_bind_def act_of_def respond_def Let_def
      handle_replacement_ok reg.count_bump may_act_def cooldown_active_def removed_file)

lemma py_int_37: "py_int ''37'' = Some 37"
  by code_simp

theorem replacement_confirmed_effect_witness:
  "\<exists>w'. do_POST None all_io 0 (\<lambda>e. []) (sample_request []) wh_sample = (Inr (200, ''ok''), w') \<and>
     dget (file_state (wh_file w')) ''n1'' = None"
proof -
  have j: "read_json (sample_request []) = Inr (Fields [(''node'', ''n1''), (''component'', ''dimm'')])"
    by (simp add: read_json_def sample_request_def py_int_37)
  have "\<exists>w'. do_POST None all_io 0 (\<lambda>e. []) (sample_request []) wh_sample = (Inr (200, ''ok''), w') \<and>
     dget (file_state (wh_file w')) ''n1'' = None \<and> wh_retrain w' \<and> wh_audit w' = wh_audit wh_sample \<and>
     (\<forall>m. m \<noteq> ''n1'' \<longrightarrow> dget (file_state (wh_file w')) m = dget (file_state (wh_file wh_sample)) m) \<and>
     (\<forall>k. counter_value (wh_counters w') k = counter_value (wh_counters wh_sample) k +
        (if k = (''replacement_confirmed_total'', [(''component'', ''dimm'')]) then 1 else 0)) \<and>
     (\<forall>h t. may_act h (file_state (wh_file w')) ''n1'' t)"
    by (rule replacement_confirmed_effect[OF _ _ j])
       (simp_all add: check_auth_def sample_request_def dgetd_def wh_names_ok_def wh_sample_def)
  then show ?thesis by blast
qed

text \<open>A request never changes more than it should, whatever it is: a POST leaves every node but
  the one it names in the state file, and the audit log only grows.\<close>

theorem post_frame:
  "(\<forall>r \<in> set (wh_audit w). r \<in> set (wh_audit (snd (do_POST token io now show_err rq w)))) \<and>
   (\<forall>m. (case rq_body rq of Fields d \<Rightarrow> dgetd d ''node'' [] \<noteq> m | _ \<Rightarrow> True) \<longrightarrow>
      dget (file_state (wh_file (snd (do_POST token io now show_err rq w)))) m = dget (file_state (wh_file w)) m)"
proof -
  define P :: "wh_world \<Rightarrow> bool" where "P = (\<lambda>w'. set (wh_audit w) \<subseteq> set (wh_audit w') \<and>
      (\<forall>m. (case rq_body rq of Fields d \<Rightarrow> dgetd d ''node'' [] \<noteq> m | _ \<Rightarrow> True) \<longrightarrow>
         dget (file_state (wh_file w')) m = dget (file_state (wh_file w)) m))"
  have count: "keeps P (wh_count n l)" for n l
    by (auto simp: keeps_def P_def wh_count_def split: sum.splits)
  have resp: "keeps P (respond show_err m)" if "keeps P m" for m
    using that by (auto simp: keeps_def respond_def split: prod.splits sum.splits)
  have fp: "keeps P (handle_false_positive io now a n)" for a n
    unfolding handle_false_positive_def append_false_positive_def
    by (intro keeps_then count keeps_if keeps_modify keeps_raise) (auto simp: P_def)
  have touch: "keeps P (touch_retrain io)"
    unfolding touch_retrain_def by (intro keeps_if keeps_modify keeps_raise) (simp add: P_def)
  have rep: "keeps P (handle_replacement_confirmed io (dgetd d ''node'' []) c)" if "rq_body rq = Fields d" for d c
  proof -
    have tail: "keeps P (act_then (touch_retrain io) (wh_count ''replacement_confirmed_total'' [(''component'', c)]))"
      by (intro keeps_then touch count)
    have "P (snd (handle_replacement_confirmed io (dgetd d ''node'' []) c s))" if "P s" for s
    proof -
      have "P (s\<lparr>wh_file := StateDoc (ddel (dgetd d ''node'' []) (file_state (wh_file s)))\<rparr>)"
        using that \<open>rq_body rq = Fields d\<close> by (auto simp: P_def)
      then show ?thesis using keepsD[OF tail] that
        by (cases "io_load io"; cases "io_save io"; cases "dgetd d ''node'' [] \<in> set (dkeys (file_state (wh_file s)))")
          (simp_all add: handle_replacement_confirmed_def act_bind_def act_get_def act_of_def load_state_def
            save_state_def wh_save_def act_modify_def act_return_def act_then_def)
    qed
    then show ?thesis by (simp add: keeps_def)
  qed
  have fields: "keeps P (post_fields rq f1 f2 miss h)"
    if "\<And>d. rq_body rq = Fields d \<Longrightarrow> keeps P (h (dgetd d f1 []) (dgetd d f2 []))" for f1 f2 miss h
  proof (cases "read_json rq")
    case (Inl e)
    then show ?thesis by (simp add: post_fields_def keeps_def act_bind_def act_of_def)
  next
    case (Inr b)
    then have "b = rq_body rq \<or> b = Fields []"
      by (auto simp: read_json_def split: option.splits if_splits)
    then show ?thesis using Inr that
      by (auto simp: post_fields_def keeps_def act_bind_def act_of_def act_return_def act_raise_def
          Let_def split: body.splits)
  qed
  have "keeps P (do_POST token io now show_err rq)"
    unfolding do_POST_def by (intro keeps_if fields resp fp rep keeps_return)
  then have "P (snd (do_POST token io now show_err rq w))" by (rule keepsD) (simp add: P_def)
  then show ?thesis by (auto simp: P_def)
qed

theorem post_frame_witness:
  "dget (file_state (wh_file (snd (do_POST None all_io 0 (\<lambda>e. []) (sample_request []) wh_sample)))) ''n2'' =
     Some FalsyEntry"
  using post_frame[of wh_sample None all_io 0 "\<lambda>e. []" "sample_request []"]
  by (simp add: sample_request_def dgetd_def) (simp add: wh_sample_def)

end
