(* ===== verification/RemShared.thy ===== *)
theory RemShared
  imports RemControllerProps RemWebhook
begin

text \<open>
  The controller and the webhook run as two processes over one state file. Each reads the whole
  file, changes its copy, and writes the whole file back through one and the same temporary file;
  nothing locks anything in between. The step relation interleaves their reads, turns and the single calls
  of their saves - open, write, rename - and lets each of them fail at any point.
\<close>

section \<open>The file\<close>

text \<open>What a file holds: nothing yet, the text of a document, or a text with the end of a longer one behind it, of
  some length, which is no JSON (shown on the texts themselves in StateFiles). \<open>len\<close> is the length of
  the text of a document, which is written in one piece.\<close>

datatype content = Blank | Whole node_state | Mixed nat

fun content_len :: "(node_state \<Rightarrow> nat) \<Rightarrow> content \<Rightarrow> nat" where
  "content_len len Blank = 0"
| "content_len len (Whole l) = len l"
| "content_len len (Mixed k) = k"

definition put_doc :: "(node_state \<Rightarrow> nat) \<Rightarrow> node_state \<Rightarrow> content \<Rightarrow> content" where
  "put_doc len l c = (if content_len len c \<le> len l then Whole l else Mixed (content_len len c))"

datatype controller_phase = CIdle | CPolling node_state | COpened node_state nat | CWritten
datatype webhook_phase = WIdle | WHolds string node_state | WOpened string node_state nat | WWritten

text \<open>The state file and the temporary file are names of numbered contents; an open file stays the content it was.\<close>

record shared =
  sh_path :: "nat option"
  sh_tmp :: "nat option"
  sh_data :: "nat \<Rightarrow> content"
  sh_next :: nat
  sh_calls :: "kube_call list"
  sh_controller :: controller_phase
  sh_webhook :: webhook_phase

definition sh_file :: "shared \<Rightarrow> state_file" where
  "sh_file s =
     (case sh_path s of
        None \<Rightarrow> NoFile
      | Some i \<Rightarrow> (case sh_data s i of Whole l \<Rightarrow> StateDoc l | _ \<Rightarrow> BadJson))"

text \<open>\<open>open(tmp, "w")\<close>, the write of a text to it, and \<open>os.replace(tmp, path)\<close>.\<close>

definition open_tmp :: "shared \<Rightarrow> nat \<times> shared" where
  "open_tmp s =
     (case sh_tmp s of
        Some i \<Rightarrow> (i, s\<lparr>sh_data := (sh_data s)(i := Blank)\<rparr>)
      | None \<Rightarrow> (sh_next s, s\<lparr>sh_tmp := Some (sh_next s), sh_data := (sh_data s)(sh_next s := Blank), sh_next := Suc (sh_next s)\<rparr>))"

definition write_doc :: "(node_state \<Rightarrow> nat) \<Rightarrow> nat \<Rightarrow> node_state \<Rightarrow> shared \<Rightarrow> shared" where
  "write_doc len i l s = s\<lparr>sh_data := (sh_data s)(i := put_doc len l (sh_data s i))\<rparr>"

definition rename_tmp :: "nat \<Rightarrow> shared \<Rightarrow> shared" where
  "rename_tmp i s = s\<lparr>sh_path := Some i, sh_tmp := None\<rparr>"

section \<open>The two processes\<close>

datatype event =
    CtlLoad
  | CtlTurn sample
  | CtlOpen
  | CtlWrite
  | CtlRename
  | CtlFail
  | WhLoad string
  | WhOpen
  | WhWrite
  | WhRename
  | WhFail

text \<open>
  The steps of \<open>poll_once\<close> (load, one turn per node, save) and of
  \<open>handle_replacement_confirmed\<close> (load, save without the node). A confirmation for a node that
  is not in the file makes no step on it. Renaming needs the temporary file to be there: the
  other process may have renamed it. An exception ends the poll, or the request, where it is.
\<close>

inductive step ::
    "(node_state \<Rightarrow> nat) \<Rightarrow> rem_config \<Rightarrow> kube \<Rightarrow> shared \<Rightarrow> event \<Rightarrow> shared \<Rightarrow> bool" for len cfg kube where
  ctl_load: "sh_controller s = CIdle \<Longrightarrow>
     step len cfg kube s CtlLoad (s\<lparr>sh_controller := CPolling (file_state (sh_file s))\<rparr>)"
| ctl_turn: "sh_controller s = CPolling l \<Longrightarrow> spec_turn cfg kube sm (l, sh_calls s) = (l', cs) \<Longrightarrow>
     step len cfg kube s (CtlTurn sm) (s\<lparr>sh_controller := CPolling l', sh_calls := cs\<rparr>)"
| ctl_open: "sh_controller s = CPolling l \<Longrightarrow> open_tmp s = (i, s') \<Longrightarrow>
     step len cfg kube s CtlOpen (s'\<lparr>sh_controller := COpened l i\<rparr>)"
| ctl_write: "sh_controller s = COpened l i \<Longrightarrow>
     step len cfg kube s CtlWrite ((write_doc len i l s)\<lparr>sh_controller := CWritten\<rparr>)"
| ctl_rename: "sh_controller s = CWritten \<Longrightarrow> sh_tmp s = Some i \<Longrightarrow>
     step len cfg kube s CtlRename ((rename_tmp i s)\<lparr>sh_controller := CIdle\<rparr>)"
| ctl_fail: "step len cfg kube s CtlFail (s\<lparr>sh_controller := CIdle\<rparr>)"
| wh_load: "sh_webhook s = WIdle \<Longrightarrow> n \<in> set (dkeys (file_state (sh_file s))) \<Longrightarrow>
     step len cfg kube s (WhLoad n) (s\<lparr>sh_webhook := WHolds n (file_state (sh_file s))\<rparr>)"
| wh_open: "sh_webhook s = WHolds n l \<Longrightarrow> open_tmp s = (i, s') \<Longrightarrow>
     step len cfg kube s WhOpen (s'\<lparr>sh_webhook := WOpened n l i\<rparr>)"
| wh_write: "sh_webhook s = WOpened n l i \<Longrightarrow>
     step len cfg kube s WhWrite ((write_doc len i (ddel n l) s)\<lparr>sh_webhook := WWritten\<rparr>)"
| wh_rename: "sh_webhook s = WWritten \<Longrightarrow> sh_tmp s = Some i \<Longrightarrow>
     step len cfg kube s WhRename ((rename_tmp i s)\<lparr>sh_webhook := WIdle\<rparr>)"
| wh_fail: "step len cfg kube s WhFail (s\<lparr>sh_webhook := WIdle\<rparr>)"

inductive_simps step_simps:
  "step len cfg kube s CtlLoad s'" "step len cfg kube s (CtlTurn sm) s'" "step len cfg kube s CtlOpen s'"
  "step len cfg kube s CtlWrite s'" "step len cfg kube s CtlRename s'" "step len cfg kube s CtlFail s'"
  "step len cfg kube s (WhLoad n) s'" "step len cfg kube s WhOpen s'" "step len cfg kube s WhWrite s'"
  "step len cfg kube s WhRename s'" "step len cfg kube s WhFail s'"

inductive run ::
    "(node_state \<Rightarrow> nat) \<Rightarrow> rem_config \<Rightarrow> kube \<Rightarrow> shared \<Rightarrow> event list \<Rightarrow> shared \<Rightarrow> bool" for len cfg kube where
  run_Nil: "run len cfg kube s [] s"
| run_Cons: "step len cfg kube s e s1 \<Longrightarrow> run len cfg kube s1 es s2 \<Longrightarrow> run len cfg kube s (e # es) s2"

inductive_simps run_simps: "run len cfg kube s [] s'" "run len cfg kube s (e # es) s'"

text \<open>A save that nothing falls into.\<close>

abbreviation ctl_save :: "event list" where "ctl_save \<equiv> [CtlOpen, CtlWrite, CtlRename]"
abbreviation wh_save_steps :: "event list" where "wh_save_steps \<equiv> [WhOpen, WhWrite, WhRename]"

lemmas save_defs = open_tmp_def write_doc_def rename_tmp_def put_doc_def

section \<open>What holds in every run\<close>

text \<open>Where the node is in no file and in nobody's copy, only a turn that acts on it brings it back.\<close>

definition free :: "string \<Rightarrow> content \<Rightarrow> bool" where
  "free n c \<longleftrightarrow> (\<forall>l. c = Whole l \<longrightarrow> dget l n = None)"

definition gone :: "string \<Rightarrow> shared \<Rightarrow> bool" where
  "gone n s \<longleftrightarrow>
     (\<forall>i. sh_path s = Some i \<or> sh_tmp s = Some i \<longrightarrow> free n (sh_data s i)) \<and>
     (case sh_controller s of CPolling l \<Rightarrow> dget l n = None | COpened l i \<Rightarrow> dget l n = None | _ \<Rightarrow> True) \<and>
     (case sh_webhook s of WHolds m l \<Rightarrow> m = n \<or> dget l n = None | WOpened m l i \<Rightarrow> m = n \<or> dget l n = None | _ \<Rightarrow> True)"

lemma free_simps [simp]: "free n Blank" "free n (Mixed k)" "free n (Whole l) \<longleftrightarrow> dget l n = None"
  by (simp_all add: free_def)

lemma free_put: "dget l n = None \<Longrightarrow> free n (put_doc len l c)"
  by (simp add: put_doc_def)

lemma gone_file: "gone n s \<Longrightarrow> dget (file_state (sh_file s)) n = None"
  by (cases "sh_path s") (auto simp: gone_def sh_file_def file_state_def split: content.splits)

lemma gone_open: "gone n s \<Longrightarrow> open_tmp s = (i, s') \<Longrightarrow> gone n s'"
  by (cases "sh_tmp s") (auto simp: gone_def open_tmp_def)

lemma gone_write: "gone n s \<Longrightarrow> dget l n = None \<Longrightarrow> gone n (write_doc len i l s)"
  by (auto simp: gone_def write_doc_def free_put)

lemma gone_rename: "gone n s \<Longrightarrow> sh_tmp s = Some i \<Longrightarrow> gone n (rename_tmp i s)"
  by (auto simp: gone_def rename_tmp_def)

lemma open_phases: "open_tmp s = (i, s') \<Longrightarrow> sh_controller s' = sh_controller s \<and> sh_webhook s' = sh_webhook s"
  by (auto simp: open_tmp_def split: option.splits)

lemma gone_phases:
  "gone n s \<Longrightarrow> (case p of CPolling l \<Rightarrow> dget l n = None | COpened l i \<Rightarrow> dget l n = None | _ \<Rightarrow> True) \<Longrightarrow>
     gone n (s\<lparr>sh_controller := p\<rparr>)"
  "gone n s \<Longrightarrow> (case q of WHolds m l \<Rightarrow> m = n \<or> dget l n = None | WOpened m l i \<Rightarrow> m = n \<or> dget l n = None | _ \<Rightarrow> True) \<Longrightarrow>
     gone n (s\<lparr>sh_webhook := q\<rparr>)"
  "gone n s \<Longrightarrow> gone n (s\<lparr>sh_calls := cs\<rparr>)"
  by (simp_all add: gone_def)

lemma gone_copies:
  "gone n s \<Longrightarrow> sh_controller s = CPolling l \<or> sh_controller s = COpened l i \<Longrightarrow> dget l n = None"
  "gone n s \<Longrightarrow> sh_webhook s = WHolds m l \<or> sh_webhook s = WOpened m l i \<Longrightarrow> m = n \<or> dget l n = None"
  by (auto simp: gone_def)

lemma step_gone:
  "step len cfg kube s e s' \<Longrightarrow> gone n s \<Longrightarrow> (\<forall>sm. e = CtlTurn sm \<longrightarrow> sm_node sm \<noteq> n) \<Longrightarrow> gone n s'"
proof (induction rule: step.induct)
  case (ctl_turn s l sm l' cs)
  then have "dget l' n = dget l n"
    using spec_turn_other_node[of sm n cfg kube "(l, sh_calls s)"] by simp
  then have "dget l' n = None" using ctl_turn gone_copies(1)[of n s l] by simp
  then have "gone n ((s\<lparr>sh_controller := CPolling l'\<rparr>)\<lparr>sh_calls := cs\<rparr>)"
    using ctl_turn.prems(1) by (intro gone_phases) simp_all
  then show ?case by simp
next
  case (ctl_open s l i s')
  then show ?case using gone_copies(1)[of n s l] gone_open by (intro gone_phases(1)) auto
next
  case (ctl_write s l i)
  then show ?case using gone_copies(1)[of n s l i] gone_write by (intro gone_phases(1)) auto
next
  case (wh_open s m l i s')
  then show ?case using gone_copies(2)[of n s m l] gone_open by (intro gone_phases(2)) auto
next
  case (wh_write s m l i)
  then have "dget (ddel m l) n = None" using gone_copies(2)[of n s m l i] by auto
  then show ?case using wh_write gone_write by (intro gone_phases(2)) auto
qed (auto intro!: gone_phases gone_file gone_rename)

lemma run_gone:
  "run len cfg kube s es s' \<Longrightarrow> gone n s \<Longrightarrow> (\<forall>sm. CtlTurn sm \<in> set es \<longrightarrow> sm_node sm \<noteq> n) \<Longrightarrow> gone n s'"
  by (induction rule: run.induct) (auto dest: step_gone)

section \<open>Properties\<close>

definition start :: shared where
  "start = \<lparr>sh_path = Some 0, sh_tmp = None, sh_data = (\<lambda>i. Whole [(''n1'', Entry (IsoTime 0) (Fin 1) False)]), sh_next = 1,
     sh_calls = [], sh_controller = CIdle, sh_webhook = WIdle\<rparr>"

text \<open>C4: when the controller is not in a poll, a confirmed replacement takes effect: from the
  webhook's write on, the node is out of the file until a turn of the controller is about it,
  however the calls of later polls and confirmations interleave and wherever they fail.\<close>

theorem replacement_lasts:
  assumes "sh_controller s = CIdle" "run len cfg kube s [WhLoad n, WhOpen, WhWrite, WhRename] s1" "run len cfg kube s1 es s2"
    "\<forall>sm. CtlTurn sm \<in> set es \<longrightarrow> sm_node sm \<noteq> n"
  shows "dget (file_state (sh_file s2)) n = None"
proof -
  have "gone n s1" using assms(1,2)
    by (cases "sh_tmp s") (auto simp: run_simps step_simps save_defs gone_def)
  then show ?thesis using run_gone[OF assms(3) _ assms(4)] by (intro gone_file)
qed

theorem replacement_lasts_witness:
  "\<exists>s. run length demo_cfg (\<lambda>cs c. True) start (WhLoad ''n1'' # wh_save_steps) s \<and>
     (\<exists>s2. run length demo_cfg (\<lambda>cs c. True) s (CtlLoad # ctl_save) s2 \<and> dget (file_state (sh_file s2)) ''n1'' = None)"
proof -
  have c: "sh_controller start = CIdle" by (simp add: start_def)
  obtain s where s: "run length demo_cfg (\<lambda>cs c. True) start (WhLoad ''n1'' # wh_save_steps) s"
    "sh_controller s = CIdle" "sh_tmp s = None"
    by (auto simp: run_simps step_simps start_def save_defs sh_file_def)
  obtain s2 where "run length demo_cfg (\<lambda>cs c. True) s (CtlLoad # ctl_save) s2"
    using s(2,3) by (auto simp: run_simps step_simps save_defs)
  then show ?thesis using replacement_lasts[OF c s(1)] s(1) by fastforce
qed

text \<open>During a poll it need not: there is a run in which the webhook confirms the replacement and
  removes the node, no turn of the controller is about the node, and yet the file has the old
  entry again, because the controller writes back the copy it read before.\<close>

theorem replacement_lost:
  "\<exists>s. run len cfg kube start ([CtlLoad, WhLoad ''n1''] @ wh_save_steps @ ctl_save) s \<and>
     dget (file_state (sh_file s)) ''n1'' = Some (Entry (IsoTime 0) (Fin 1) False)"
  by (simp add: run_simps step_simps start_def save_defs sh_file_def)

text \<open>And the other way round: a confirmation for one node can wipe out the cooldown of a node
  the controller has just acted on, so that the node may be acted on again at once.\<close>

theorem cooldown_lost:
  assumes "pf_less (Fin (cfg_threshold cfg)) (sm_value sm)" "\<not> cfg_dry_run cfg" "\<forall>cs c. kube cs c"
    "cfg_loki cfg \<noteq> LokiBadUrl" "sm_node sm = ''n2''"
  shows "\<exists>s1 s2. run len cfg kube start ([WhLoad ''n1'', CtlLoad, CtlTurn sm] @ ctl_save) s1 \<and>
     dget (file_state (sh_file s1)) ''n2'' = Some (Entry (IsoTime (sm_t_act sm)) (sm_value sm) False) \<and>
     run len cfg kube s1 wh_save_steps s2 \<and>
     may_act (cfg_cooldown_hours cfg) (file_state (sh_file s2)) ''n2'' t"
proof -
  let ?l = "[(''n1'', Entry (IsoTime 0) (Fin 1) False)]"
  let ?cs = "cordon_calls cfg sm"
  have "patched cfg kube sm [] = 3" using assms(3) by (intro patched_all) simp
  then have "spec_turn cfg kube sm (?l, []) = (update_state_entry ?l ''n2'' (sm_value sm) False (sm_t_act sm), ?cs)"
    using assms by (simp add: spec_turn_def over_def may_act_def cooldown_active_def)
  then show ?thesis
    by (simp add: run_simps step_simps start_def save_defs sh_file_def update_state_entry_def
        may_act_def cooldown_active_def ddel_def)
qed

theorem cooldown_lost_witness:
  "\<exists>s1 s2. run length demo_cfg (\<lambda>cs c. True) start ([WhLoad ''n1'', CtlLoad, CtlTurn
      \<lparr>sm_node = ''n2'', sm_value = PInf, sm_t_check = 1, sm_t_event = 2, sm_t_act = 3\<rparr>] @ ctl_save) s1 \<and>
     run length demo_cfg (\<lambda>cs c. True) s1 wh_save_steps s2 \<and>
     may_act 4 (file_state (sh_file s2)) ''n2'' 4"
  using cooldown_lost[of demo_cfg
      "\<lparr>sm_node = ''n2'', sm_value = PInf, sm_t_check = 1, sm_t_event = 2, sm_t_act = 3\<rparr>" "\<lambda>cs c. True" length 4]
  by (auto simp: demo_cfg_def)

text \<open>When the two saves overlap and the text of the webhook is the shorter one, the state file is no JSON, and the webhook
  cannot rename: the entries of all nodes are lost.\<close>

theorem overlap_loses_file:
  assumes "pf_less (Fin (cfg_threshold cfg)) (sm_value sm)" "\<not> cfg_dry_run cfg" "\<forall>cs c. kube cs c"
    "cfg_loki cfg \<noteq> LokiBadUrl" "sm_node sm = ''n2''"
    "len [] < len [(''n1'', Entry (IsoTime 0) (Fin 1) False), (''n2'', Entry (IsoTime (sm_t_act sm)) (sm_value sm) False)]"
  shows "\<exists>s. run len cfg kube start [WhLoad ''n1'', CtlLoad, CtlTurn sm, WhOpen, CtlOpen, CtlWrite, WhWrite, CtlRename, WhFail] s \<and>
     sh_file s = BadJson \<and> (\<forall>s'. \<not> step len cfg kube s WhRename s')"
proof -
  let ?l = "[(''n1'', Entry (IsoTime 0) (Fin 1) False)]"
  have "patched cfg kube sm [] = 3" using assms(3) by (intro patched_all) simp
  then have "spec_turn cfg kube sm (?l, []) = (update_state_entry ?l ''n2'' (sm_value sm) False (sm_t_act sm), cordon_calls cfg sm)"
    using assms by (simp add: spec_turn_def over_def may_act_def cooldown_active_def)
  then show ?thesis using assms(6)
    by (simp add: run_simps step_simps start_def save_defs sh_file_def update_state_entry_def ddel_def)
qed

end
