(* ===== verification/JsonText.thy ===== *)
theory JsonText
  imports Json PyFloat ToolText
begin

text \<open>
  JSON as text: \<open>json.dumps\<close> (plain, and with \<open>indent\<close>) and \<open>json.loads\<close> of the standard library, which the
  programs keep their state with. A number beyond the range of a float and the constants \<open>NaN\<close>
  and \<open>Infinity\<close> have no value in the model and are read as errors, as is a \<open>\u\<close> escape of a character
  above 255; \<open>repr\<close> of a float is an argument.
\<close>

section \<open>Reading\<close>

definition is_jws :: "char \<Rightarrow> bool" where
  "is_jws c \<longleftrightarrow> cp c \<in> {32, 9, 10, 13}"

definition jws :: "string \<Rightarrow> string" where
  "jws s = dropWhile is_jws s"

text \<open>\<open>\u\<close> and four hexadecimal digits\<close>

definition hex4 :: "string \<Rightarrow> char option" where
  "hex4 ds =
     (case those (map (digit_val 16) ds) of
        Some [a, b, c, d] \<Rightarrow> (let n = ((a * 16 + b) * 16 + c) * 16 + d in if n < 256 then Some (char_of n) else None)
      | _ \<Rightarrow> None)"

text \<open>The one-letter escapes.\<close>

definition escapes :: "(char \<times> char) list" where
  "escapes =
     [(CHR 0x22, CHR 0x22), (CHR 0x5C, CHR 0x5C), (CHR ''/'', CHR ''/''), (CHR ''b'', CHR 0x08), (CHR ''f'', CHR 0x0C),
      (CHR ''n'', CHR 0x0A), (CHR ''r'', CHR 0x0D), (CHR ''t'', CHR 0x09)]"

text \<open>One character of a string, and the rest of a string after its opening quote.\<close>

definition jescape :: "string \<Rightarrow> (char \<times> string) option" where
  "jescape s =
     (case s of
        [] \<Rightarrow> None
      | e # t \<Rightarrow>
          if e = CHR ''u'' then map_option (\<lambda>c. (c, drop 4 t)) (hex4 (take 4 t))
          else map_option (\<lambda>c. (c, t)) (map_of escapes e))"

definition jchar :: "char \<Rightarrow> string \<Rightarrow> (char \<times> string) option" where
  "jchar c s = (if c = CHR 0x5C then jescape s else if cp c < 32 then None else Some (c, s))"

lemma hex4_length: "hex4 t = Some c \<Longrightarrow> length t = 4"
proof -
  have "those xs = Some ys \<Longrightarrow> length ys = length xs" for xs :: "int option list" and ys
    by (induction xs arbitrary: ys) (auto split: option.splits)
  then show "hex4 t = Some c \<Longrightarrow> length t = 4" by (fastforce simp: hex4_def split: option.splits list.splits)
qed

lemma jchar_length: "jchar c s = Some (x, r) \<Longrightarrow> length r \<le> length s"
  by (cases s) (auto simp: jchar_def jescape_def split: if_splits dest: hex4_length)

function jstring :: "string \<Rightarrow> (string \<times> string) option" where
  "jstring [] = None"
| "jstring (c # s) =
     (if c = CHR 0x22 then Some ([], s)
      else Option.bind (jchar c s) (\<lambda>(x, r). map_option (\<lambda>(v, r'). (x # v, r')) (jstring r)))"
  by pat_completeness auto
termination
  by (relation "measure length") (auto dest!: jchar_length)

text \<open>The parts of a number: an optional sign, digits without a leading zero, fraction and exponent.\<close>

definition digits :: "string \<Rightarrow> string \<times> string" where
  "digits s = (takeWhile is_digit s, dropWhile is_digit s)"

definition whole_part :: "string \<Rightarrow> string \<times> string" where
  "whole_part s = (if starts_with ''0'' s then (''0'', tl s) else digits s)"

definition sign_part :: "string \<Rightarrow> string \<times> string" where
  "sign_part s = (if starts_with ''-'' s then (''-'', tl s) else ([], s))"

definition frac_part :: "string \<Rightarrow> string \<times> string" where
  "frac_part s =
     (if starts_with ''.'' s \<and> fst (digits (tl s)) \<noteq> [] then (CHR ''.'' # fst (digits (tl s)), snd (digits (tl s)))
      else ([], s))"

definition exp_sign :: "string \<Rightarrow> string \<times> string" where
  "exp_sign s = (if starts_with ''-'' s \<or> starts_with ''+'' s then ([hd s], tl s) else ([], s))"

definition exp_part :: "string \<Rightarrow> string \<times> string" where
  "exp_part s =
     (if starts_with ''e'' s \<or> starts_with ''E'' s
      then let (sg, t) = exp_sign (tl s); (ds, r) = digits t in if ds = [] then ([], s) else (hd s # sg @ ds, r)
      else ([], s))"

definition jnumber :: "string \<Rightarrow> (json \<times> string) option" where
  "jnumber s =
     (let (sg, t) = sign_part s; (ip, t) = whole_part t; (fp, t) = frac_part t; (ep, t) = exp_part t
      in if ip = [] then None
         else if fp = [] \<and> ep = [] then map_option (\<lambda>n. (JInt n, t)) (py_int_base 10 (sg @ ip))
         else (case py_float (sg @ ip @ fp @ ep) of Some (Fin q) \<Rightarrow> Some (JFloat q, t) | _ \<Rightarrow> None))"

text \<open>A value at the head of a text, the elements of an array after its bracket, the members of an object
  after its brace; the first argument is fuel.\<close>

fun jval :: "nat \<Rightarrow> string \<Rightarrow> (json \<times> string) option"
  and jelems :: "nat \<Rightarrow> string \<Rightarrow> (json list \<times> string) option"
  and jmembers :: "nat \<Rightarrow> (string, json) dict \<Rightarrow> string \<Rightarrow> ((string, json) dict \<times> string) option"
where
  "jval 0 s = None"
| "jval (Suc n) s =
     (case s of
        [] \<Rightarrow> None
      | c # t \<Rightarrow>
          if c = CHR 0x22 then map_option (\<lambda>(v, r). (JStr v, r)) (jstring t)
          else if c = CHR 0x7B
          then (if starts_with [CHR 0x7D] (jws t) then Some (JObj [], tl (jws t))
                else map_option (\<lambda>(d, r). (JObj d, r)) (jmembers n [] (jws t)))
          else if c = CHR ''[''
          then (if starts_with '']'' (jws t) then Some (JArr [], tl (jws t))
                else map_option (\<lambda>(vs, r). (JArr vs, r)) (jelems n (jws t)))
          else if starts_with ''null'' s then Some (JNull, drop 4 s)
          else if starts_with ''true'' s then Some (JBool True, drop 4 s)
          else if starts_with ''false'' s then Some (JBool False, drop 5 s)
          else jnumber s)"
| "jelems 0 s = None"
| "jelems (Suc n) s =
     Option.bind (jval n s) (\<lambda>(v, r). case jws r of
        [] \<Rightarrow> None
      | c # t \<Rightarrow>
          if c = CHR '']'' then Some ([v], t)
          else if c = CHR '','' then map_option (\<lambda>(vs, r). (v # vs, r)) (jelems n (jws t))
          else None)"
| "jmembers 0 d s = None"
| "jmembers (Suc n) d s =
     (case s of
        [] \<Rightarrow> None
      | q # s \<Rightarrow>
          if q \<noteq> CHR 0x22 then None
          else Option.bind (jstring s) (\<lambda>(k, r). case jws r of
              [] \<Rightarrow> None
            | c # t \<Rightarrow>
                if c \<noteq> CHR '':'' then None
                else Option.bind (jval n (jws t)) (\<lambda>(v, r). case jws r of
                    [] \<Rightarrow> None
                  | c # t \<Rightarrow>
                      if c = CHR 0x7D then Some (dset k v d, t)
                      else if c = CHR '','' then jmembers n (dset k v d) (jws t)
                      else None)))"

text \<open>\<open>json.loads\<close>: one value and white space.\<close>

definition loads :: "string \<Rightarrow> json option" where
  "loads s =
     (case jval (2 * length s + 1) (jws s) of
        Some (j, r) \<Rightarrow> if jws r = [] then Some j else None
      | None \<Rightarrow> None)"

section \<open>Writing\<close>

definition esc_chr :: "char \<Rightarrow> string" where
  "esc_chr c =
     (if c = CHR 0x22 \<or> c = CHR 0x5C then [CHR 0x5C, c]
      else if 32 \<le> cp c \<and> cp c \<le> 126 then [c]
      else case map_of (map prod.swap escapes) c of
          Some e \<Rightarrow> [CHR 0x5C, e]
        | None \<Rightarrow> [CHR 0x5C, CHR ''u'', CHR ''0'', CHR ''0'', digit_chr (cp c div 16), digit_chr (cp c mod 16)])"

definition quoted :: "string \<Rightarrow> string" where
  "quoted s = CHR 0x22 # concat (map esc_chr s) @ [CHR 0x22]"

text \<open>The layout: everything on a line, or every item on its own line behind \<open>k\<close> blanks a level.\<close>

type_synonym layout = "nat option"

definition gap :: "layout \<Rightarrow> nat \<Rightarrow> string" where
  "gap lay l = (case lay of None \<Rightarrow> [] | Some k \<Rightarrow> CHR 0x0A # replicate (k * l) (CHR '' ''))"

definition item_sep :: "layout \<Rightarrow> nat \<Rightarrow> string" where
  "item_sep lay l = CHR '','' # (case lay of None \<Rightarrow> '' '' | Some k \<Rightarrow> gap lay l)"

definition items :: "layout \<Rightarrow> nat \<Rightarrow> char \<Rightarrow> char \<Rightarrow> string list \<Rightarrow> string" where
  "items lay l a b xs =
     (if xs = [] then [a, b] else a # gap lay (Suc l) @ join (item_sep lay (Suc l)) xs @ gap lay l @ [b])"

fun jtext :: "(rat \<Rightarrow> string) \<Rightarrow> layout \<Rightarrow> nat \<Rightarrow> json \<Rightarrow> string" where
  "jtext repr lay l JNull = ''null''"
| "jtext repr lay l (JBool b) = (if b then ''true'' else ''false'')"
| "jtext repr lay l (JInt n) = str_int n"
| "jtext repr lay l (JFloat q) = repr q"
| "jtext repr lay l (JStr s) = quoted s"
| "jtext repr lay l (JArr vs) = items lay l (CHR ''['') (CHR '']'') (map (jtext repr lay (Suc l)) vs)"
| "jtext repr lay l (JObj kvs) =
     items lay l (CHR 0x7B) (CHR 0x7D) (map (\<lambda>kv. quoted (fst kv) @ '': '' @ jtext repr lay (Suc l) (snd kv)) kvs)"

definition dumps :: "(rat \<Rightarrow> string) \<Rightarrow> layout \<Rightarrow> json \<Rightarrow> string" where
  "dumps repr lay j = jtext repr lay 0 j"

end
