(* ===== verification/JsonTextProps.thy ===== *)
theory JsonTextProps
  imports JsonText
begin

text \<open>
  What is read and what is written: the fuel of the reader is enough, a document that was written is read
  back, and a document of which something is missing or to which something was added is not read.
\<close>

section \<open>White space, strings and numbers\<close>

lemma jws_length: "length (jws s) \<le> length s"
  by (simp add: jws_def length_dropWhile_le)

lemma jws_ext: "jws s \<noteq> [] \<Longrightarrow> jws (s @ q) = jws s @ q"
  by (induction s) (auto simp: jws_def)

lemma jws_skip: "list_all is_jws w \<Longrightarrow> jws (w @ s) = jws s"
  by (induction w) (simp_all add: jws_def)

lemma jws_here [simp]: "\<not> is_jws c \<Longrightarrow> jws (c # s) = c # s"
  by (simp add: jws_def)

lemma jws_idem [simp]: "jws (jws s) = jws s"
  by (simp add: jws_def)

lemma jchar_ext: "jchar c s = Some (x, r) \<Longrightarrow> jchar c (s @ q) = Some (x, r @ q)"
  by (cases s) (auto simp: jchar_def jescape_def split: if_splits, (frule hex4_length, simp)+)

lemma jstring_ext: "jstring s = Some (v, r) \<Longrightarrow> jstring (s @ q) = Some (v, r @ q)"
proof (induction s arbitrary: v rule: jstring.induct)
  case (2 c s)
  show ?case
  proof (cases "c = CHR 0x22")
    case False
    then obtain x r' v' where x: "jchar c s = Some (x, r')" "jstring r' = Some (v', r)" "v = x # v'"
      using 2(2) by (auto simp: bind_eq_Some_conv)
    then show ?thesis using 2(1)[OF False x(1) refl x(2)] False by (simp add: jchar_ext)
  qed (use 2(2) in simp)
qed simp

lemma jstring_length: "jstring s = Some (v, r) \<Longrightarrow> length r < length s"
proof (induction s arbitrary: v rule: jstring.induct)
  case (2 c s)
  show ?case
  proof (cases "c = CHR 0x22")
    case False
    then obtain x r' v' where x: "jchar c s = Some (x, r')" "jstring r' = Some (v', r)"
      using 2(2) by (auto simp: bind_eq_Some_conv)
    then show ?thesis using 2(1)[OF False x(1) refl x(2)] jchar_length[OF x(1)] by simp
  qed (use 2(2) in auto)
qed simp

text \<open>A text that ends a number.\<close>

definition ender :: "string \<Rightarrow> bool" where
  "ender r \<longleftrightarrow> r \<noteq> [] \<and> \<not> is_digit (hd r) \<and> hd r \<notin> set ''.eE+-''"

lemma starts_with_one: "starts_with [c] s \<longleftrightarrow> s \<noteq> [] \<and> hd s = c"
  by (cases s) (auto simp: starts_with_def)

lemma digits_ext: "snd (digits s) \<noteq> [] \<Longrightarrow> digits (s @ q) = (fst (digits s), snd (digits s) @ q)"
  by (induction s) (auto simp: digits_def)

lemma digits_length: "length (snd (digits s)) \<le> length s"
  by (simp add: digits_def length_dropWhile_le)

lemma exp_sign_ext: "s \<noteq> [] \<Longrightarrow> exp_sign (s @ q) = (fst (exp_sign s), snd (exp_sign s) @ q)"
  by (cases s) (simp_all add: exp_sign_def starts_with_one)

lemma exp_part_ext:
  assumes "exp_part s = (ep, r)" "ender r"
  shows "exp_part (s @ q) = (ep, r @ q) \<and> s \<noteq> [] \<and> hd s \<noteq> CHR ''.'' \<and> \<not> is_digit (hd s)"
proof (cases "s \<noteq> [] \<and> (hd s = CHR ''e'' \<or> hd s = CHR ''E'') \<and> fst (digits (snd (exp_sign (tl s)))) \<noteq> []")
  case True
  then obtain c t where s: "s = c # t" "c = CHR ''e'' \<or> c = CHR ''E''" by (cases s) auto
  have t: "t \<noteq> []" using True s by (auto simp: exp_sign_def starts_with_one digits_def)
  have e: "ep = c # fst (exp_sign t) @ fst (digits (snd (exp_sign t)))" "r = snd (digits (snd (exp_sign t)))"
    using assms(1) True s by (auto simp: exp_part_def starts_with_one Let_def case_prod_unfold)
  have "snd (digits (snd (exp_sign t))) \<noteq> []" using assms(2) e(2) by (auto simp: ender_def)
  then show ?thesis
    using s e t True by (auto simp: exp_part_def starts_with_one Let_def case_prod_unfold exp_sign_ext digits_ext is_digit_def cp_def)
next
  case False
  then have "ep = []" "r = s"
    using assms(1) by (auto simp: exp_part_def starts_with_one Let_def case_prod_unfold split: if_splits)
  then show ?thesis using assms(2) by (cases s) (auto simp: ender_def exp_part_def starts_with_one)
qed

lemma frac_part_ext:
  assumes "frac_part s = (fp, r)" "r \<noteq> []" "hd r \<noteq> CHR ''.''" "\<not> is_digit (hd r)"
  shows "frac_part (s @ q) = (fp, r @ q) \<and> s \<noteq> [] \<and> \<not> is_digit (hd s)"
proof (cases "s \<noteq> [] \<and> hd s = CHR ''.'' \<and> fst (digits (tl s)) \<noteq> []")
  case True
  then have "fp = CHR ''.'' # fst (digits (tl s))" "r = snd (digits (tl s))"
    using assms(1) by (auto simp: frac_part_def starts_with_one)
  with True assms(2) show ?thesis
    by (cases s) (auto simp: frac_part_def starts_with_one digits_ext is_digit_def cp_def)
next
  case False
  then have "fp = []" "r = s" using assms(1) by (auto simp: frac_part_def starts_with_one split: if_splits)
  then show ?thesis using assms by (cases s) (auto simp: frac_part_def starts_with_one)
qed

lemma whole_part_ext: "whole_part s = (ip, r) \<Longrightarrow> r \<noteq> [] \<Longrightarrow> whole_part (s @ q) = (ip, r @ q) \<and> s \<noteq> []"
  using digits_ext[of s q] by (cases s) (auto simp: whole_part_def starts_with_one digits_def split: if_splits)

lemma sign_part_ext: "sign_part s = (sg, r) \<Longrightarrow> s \<noteq> [] \<Longrightarrow> sign_part (s @ q) = (sg, r @ q)"
  by (cases s) (auto simp: sign_part_def starts_with_one split: if_splits)

lemma sign_part_nonempty: "sign_part s = (sg, r) \<Longrightarrow> r \<noteq> [] \<Longrightarrow> s \<noteq> []"
  by (auto simp: sign_part_def starts_with_one split: if_splits)

lemma jnumber_ext:
  assumes "jnumber s = Some (j, r)" "ender r"
  shows "jnumber (s @ q) = Some (j, r @ q)"
proof -
  obtain sg t1 where 1: "sign_part s = (sg, t1)" by fastforce
  obtain ip t2 where 2: "whole_part t1 = (ip, t2)" by fastforce
  obtain fp t3 where 3: "frac_part t2 = (fp, t3)" by fastforce
  obtain ep t4 where 4: "exp_part t3 = (ep, t4)" by fastforce
  have r: "r = t4"
    using assms(1) by (auto simp: jnumber_def 1 2 3 4 split: if_splits option.splits pf.splits)
  have e: "exp_part (t3 @ q) = (ep, t4 @ q)" "t3 \<noteq> []" "hd t3 \<noteq> CHR ''.''" "\<not> is_digit (hd t3)"
    using exp_part_ext[OF 4, of q] assms(2) r by auto
  have f: "frac_part (t2 @ q) = (fp, t3 @ q)" "t2 \<noteq> []" using frac_part_ext[OF 3 e(2-4), of q] by auto
  have w: "whole_part (t1 @ q) = (ip, t2 @ q)" "t1 \<noteq> []" using whole_part_ext[OF 2 f(2), of q] by auto
  have s: "sign_part (s @ q) = (sg, t1 @ q)" using sign_part_ext[OF 1] sign_part_nonempty[OF 1 w(2)] by simp
  show ?thesis
    using assms(1) r by (auto simp: jnumber_def 1 2 3 4 s w f e split: if_splits option.splits pf.splits)
qed

lemma jnumber_length: "jnumber s = Some (j, r) \<Longrightarrow> length r < length s"
proof -
  assume a: "jnumber s = Some (j, r)"
  obtain sg t1 where 1: "sign_part s = (sg, t1)" by fastforce
  obtain ip t2 where 2: "whole_part t1 = (ip, t2)" by fastforce
  obtain fp t3 where 3: "frac_part t2 = (fp, t3)" by fastforce
  obtain ep t4 where 4: "exp_part t3 = (ep, t4)" by fastforce
  have r: "r = t4" "ip \<noteq> []"
    using a by (auto simp: jnumber_def 1 2 3 4 split: if_splits option.splits pf.splits)
  have d: "snd (exp_sign u) = u \<or> snd (exp_sign u) = tl u" for u by (auto simp: exp_sign_def)
  have "length t4 \<le> length t3"
    using 4 digits_length[of "snd (exp_sign (tl t3))"] d[of "tl t3"]
    by (auto simp: exp_part_def Let_def case_prod_unfold split: if_splits)
  moreover have "length t3 \<le> length t2"
    using 3 digits_length[of "tl t2"] by (auto simp: frac_part_def split: if_splits)
  moreover have "length t2 < length t1"
  proof (cases t1)
    case Nil
    then show ?thesis using 2 r(2) by (auto simp: whole_part_def digits_def starts_with_def)
  next
    case (Cons c u)
    then show ?thesis using 2 r(2) digits_length[of u]
      by (auto simp: whole_part_def starts_with_one digits_def split: if_splits)
  qed
  moreover have "length t1 \<le> length s" using 1 by (auto simp: sign_part_def split: if_splits)
  ultimately show ?thesis using r by simp
qed

section \<open>Documents\<close>

lemma ender_jws: "jws r = c # t \<Longrightarrow> c = CHR '','' \<or> c = CHR '']'' \<or> c = CHR 0x7D \<Longrightarrow> ender r"
  by (cases r) (auto simp: ender_def jws_def is_jws_def is_digit_def cp_def split: if_splits)

lemma starts_with_ext: "starts_with p s \<Longrightarrow> starts_with p (s @ q) \<and> drop (length p) (s @ q) = drop (length p) s @ q"
  by (auto simp: starts_with_iff)

lemma starts_with_ext_one: "s \<noteq> [] \<Longrightarrow> starts_with [c] (s @ q) = starts_with [c] s"
  by (cases s) (simp_all add: starts_with_one)

definition delimited :: "json \<Rightarrow> bool" where
  "delimited j = (case j of JInt n \<Rightarrow> False | JFloat q \<Rightarrow> False | _ \<Rightarrow> True)"

text \<open>What was read is read in a longer text too, unless a number goes on in it.\<close>

lemma jnumber_start: "jnumber s = Some x \<Longrightarrow> s \<noteq> [] \<and> (is_digit (hd s) \<or> hd s = CHR ''-'')"
  by (cases s)
    (auto simp: jnumber_def sign_part_def whole_part_def digits_def starts_with_one Let_def is_digit_def cp_def case_prod_unfold
      split: if_splits)

lemma jnumber_open: "jnumber s = Some (j, r) \<Longrightarrow> \<not> delimited j"
  by (auto simp: jnumber_def delimited_def Let_def case_prod_unfold split: if_splits option.splits pf.splits)

text \<open>The shapes of a value, as rules.\<close>

lemma jval_rules:
  "jstring t = Some (v, r) \<Longrightarrow> jval (Suc n) (CHR 0x22 # t) = Some (JStr v, r)"
  "jws t = CHR 0x7D # r \<Longrightarrow> jval (Suc n) (CHR 0x7B # t) = Some (JObj [], r)"
  "jmembers n [] (jws t) = Some (d, r) \<Longrightarrow> \<not> starts_with [CHR 0x7D] (jws t) \<Longrightarrow> jval (Suc n) (CHR 0x7B # t) = Some (JObj d, r)"
  "jws t = CHR '']'' # r \<Longrightarrow> jval (Suc n) (CHR ''['' # t) = Some (JArr [], r)"
  "jelems n (jws t) = Some (vs, r) \<Longrightarrow> \<not> starts_with '']'' (jws t) \<Longrightarrow> jval (Suc n) (CHR ''['' # t) = Some (JArr vs, r)"
  "jval (Suc n) (''null'' @ r) = Some (JNull, r)"
  "jval (Suc n) (''true'' @ r) = Some (JBool True, r)"
  "jval (Suc n) (''false'' @ r) = Some (JBool False, r)"
  by (simp_all add: starts_with_one starts_with_iff)

lemma number_chars: "is_digit c \<or> c = CHR ''-'' \<Longrightarrow> c \<notin> set ''[ntf'' \<and> c \<noteq> CHR 0x22 \<and> c \<noteq> CHR 0x7B"
  by (auto simp: is_digit_def cp_def)

lemma jval_number: "jnumber s = Some (j, r) \<Longrightarrow> jval (Suc n) s = Some (j, r)"
proof -
  assume a: "jnumber s = Some (j, r)"
  then obtain c t where s: "s = c # t" "is_digit c \<or> c = CHR ''-''" using jnumber_start by (cases s) fastforce+
  have "c \<notin> set ''[ntf''" "c \<noteq> CHR 0x22" "c \<noteq> CHR 0x7B" using number_chars[OF s(2)] by auto
  then show ?thesis using a s(1) by (simp add: starts_with_def)
qed

lemma jval_cases:
  assumes "jval n s = Some (j, r)"
  obtains (str) m t v where "n = Suc m" "s = CHR 0x22 # t" "jstring t = Some (v, r)" "j = JStr v"
  | (empty_obj) m t where "n = Suc m" "s = CHR 0x7B # t" "jws t = CHR 0x7D # r" "j = JObj []"
  | (obj) m t d where "n = Suc m" "s = CHR 0x7B # t" "\<not> starts_with [CHR 0x7D] (jws t)" "jmembers m [] (jws t) = Some (d, r)" "j = JObj d"
  | (empty_arr) m t where "n = Suc m" "s = CHR ''['' # t" "jws t = CHR '']'' # r" "j = JArr []"
  | (arr) m t vs where "n = Suc m" "s = CHR ''['' # t" "\<not> starts_with '']'' (jws t)" "jelems m (jws t) = Some (vs, r)" "j = JArr vs"
  | (const) m w where "n = Suc m" "s = w @ r" "(w, j) \<in> {(''null'', JNull), (''true'', JBool True), (''false'', JBool False)}"
  | (num) m where "n = Suc m" "jnumber s = Some (j, r)"
  using assms
  by (cases n; cases s)
    (auto simp: starts_with_one starts_with_iff hd_Cons_tl[symmetric] split: if_splits simp del: hd_Cons_tl)

lemma jelems_rules:
  "jval n s = Some (v, r) \<Longrightarrow> jws r = CHR '']'' # t \<Longrightarrow> jelems (Suc n) s = Some ([v], t)"
  "jval n s = Some (v, r) \<Longrightarrow> jws r = CHR '','' # t \<Longrightarrow> jelems n (jws t) = Some (vs, r') \<Longrightarrow>
     jelems (Suc n) s = Some (v # vs, r')"
  by simp_all

lemma jelems_iff:
  "jelems (Suc n) s = Some (js, r') \<longleftrightarrow> (\<exists>v r. jval n s = Some (v, r) \<and>
     (jws r = CHR '']'' # r' \<and> js = [v] \<or> (\<exists>t vs. jws r = CHR '','' # t \<and> jelems n (jws t) = Some (vs, r') \<and> js = v # vs)))"
proof (cases "jval n s")
  case (Some x)
  obtain v r where x: "x = (v, r)" by (cases x)
  show ?thesis by (cases "jws r") (auto simp: Some x)
qed simp

lemma jelems_cases:
  assumes "jelems n s = Some (js, r')"
  obtains (one) m v r where "n = Suc m" "jval m s = Some (v, r)" "jws r = CHR '']'' # r'" "js = [v]"
  | (more) m v r t vs where "n = Suc m" "jval m s = Some (v, r)" "jws r = CHR '','' # t" "jelems m (jws t) = Some (vs, r')" "js = v # vs"
proof (cases n)
  case (Suc m)
  show ?thesis using assms that unfolding Suc jelems_iff by blast
qed (use assms in simp)

lemma jmembers_rules:
  "jstring s = Some (k, r) \<Longrightarrow> jws r = CHR '':'' # t \<Longrightarrow> jval n (jws t) = Some (v, r') \<Longrightarrow> jws r' = CHR 0x7D # u \<Longrightarrow>
     jmembers (Suc n) d (CHR 0x22 # s) = Some (dset k v d, u)"
  "jstring s = Some (k, r) \<Longrightarrow> jws r = CHR '':'' # t \<Longrightarrow> jval n (jws t) = Some (v, r') \<Longrightarrow> jws r' = CHR '','' # u \<Longrightarrow>
     jmembers n (dset k v d) (jws u) = x \<Longrightarrow> jmembers (Suc n) d (CHR 0x22 # s) = x"
  by simp_all

lemma jmembers_iff:
  "jmembers (Suc n) d (c # t) = Some (d', u') \<longleftrightarrow> c = CHR 0x22 \<and> (\<exists>k r t' v r'. jstring t = Some (k, r) \<and>
     jws r = CHR '':'' # t' \<and> jval n (jws t') = Some (v, r') \<and>
     (jws r' = CHR 0x7D # u' \<and> d' = dset k v d \<or>
      (\<exists>u. jws r' = CHR '','' # u \<and> jmembers n (dset k v d) (jws u) = Some (d', u'))))"
proof (cases "jstring t")
  case (Some x)
  obtain k r where x: "x = (k, r)" by (cases x)
  show ?thesis
  proof (cases "jws r")
    case (Cons b t')
    show ?thesis
    proof (cases "jval n (jws t')")
      case None
      then show ?thesis by (auto simp: Some x Cons)
    next
      case v: (Some y)
      obtain v r' where y: "y = (v, r')" by (cases y)
      show ?thesis by (cases "jws r'") (auto simp: Some x Cons v y)
    qed
  qed (simp add: Some x)
qed simp

lemma jmembers_cases:
  assumes "jmembers n d s = Some (d', u')"
  obtains (one) m t k r t' v r' where "n = Suc m" "s = CHR 0x22 # t" "jstring t = Some (k, r)" "jws r = CHR '':'' # t'"
      "jval m (jws t') = Some (v, r')" "jws r' = CHR 0x7D # u'" "d' = dset k v d"
  | (more) m t k r t' v r' u where "n = Suc m" "s = CHR 0x22 # t" "jstring t = Some (k, r)" "jws r = CHR '':'' # t'"
      "jval m (jws t') = Some (v, r')" "jws r' = CHR '','' # u" "jmembers m (dset k v d) (jws u) = Some (d', u')"
proof (cases n; cases s)
  fix m c t
  assume n: "n = Suc m" "s = c # t"
  from assms[unfolded n jmembers_iff] obtain k r t' v r' where x: "c = CHR 0x22" "jstring t = Some (k, r)"
    "jws r = CHR '':'' # t'" "jval m (jws t') = Some (v, r')"
    and d: "jws r' = CHR 0x7D # u' \<and> d' = dset k v d \<or>
      (\<exists>u. jws r' = CHR '','' # u \<and> jmembers m (dset k v d) (jws u) = Some (d', u'))" by blast
  from d show ?thesis
  proof
    assume "jws r' = CHR 0x7D # u' \<and> d' = dset k v d"
    then show ?thesis using one[OF n(1) _ x(2-4)] n(2) x(1) by simp
  next
    assume "\<exists>u. jws r' = CHR '','' # u \<and> jmembers m (dset k v d) (jws u) = Some (d', u')"
    then show ?thesis using more[OF n(1) _ x(2-4)] n(2) x(1) by blast
  qed
qed (use assms in simp_all)

lemma jmembers_start: "jmembers n d s = Some x \<Longrightarrow> s \<noteq> [] \<and> \<not> starts_with [CHR 0x7D] s"
  by (cases n; cases s) (auto simp: starts_with_one split: if_splits)

lemma jval_start: "jval n s = Some (j, r) \<Longrightarrow> s \<noteq> [] \<and> \<not> starts_with '']'' s"
  by (erule jval_cases) (auto simp: starts_with_one starts_with_iff is_digit_def cp_def dest!: jnumber_start)

lemma jelems_start: "jelems n s = Some (js, r) \<Longrightarrow> s \<noteq> [] \<and> \<not> starts_with '']'' s"
  by (erule jelems_cases) (auto dest: jval_start)

declare jval.simps(2) [simp del] jelems.simps(2) [simp del] jmembers.simps(2) [simp del]

text \<open>What was read is read in a longer text too, unless a number goes on in it.\<close>

lemma read_more:
  "jval n s = Some (j, r) \<Longrightarrow> delimited j \<or> ender r \<Longrightarrow> jval n (s @ q) = Some (j, r @ q)"
  "jelems n s = Some (js, r) \<Longrightarrow> jelems n (s @ q) = Some (js, r @ q)"
  "jmembers n d s = Some (d', r) \<Longrightarrow> jmembers n d (s @ q) = Some (d', r @ q)"
proof (induction n arbitrary: s j r js d d')
  case (Suc n)
  have ws: "jws t = c # u \<Longrightarrow> jws (t @ q) = c # u @ q" for t c u using jws_ext[of t q] by simp
  have nest: "jws t \<noteq> [] \<Longrightarrow> jws (t @ q) = jws t @ q \<and> starts_with [c] (jws t @ q) = starts_with [c] (jws t)" for t c
    using jws_ext[of t q] by (simp add: starts_with_ext_one)
  { case 1
    then show ?case
    proof (cases rule: jval_cases)
      case (str m t v)
      then show ?thesis using jval_rules(1)[OF jstring_ext] by auto
    next
      case (empty_obj m t)
      then show ?thesis using jval_rules(2)[OF ws] by auto
    next
      case (obj m t d)
      then show ?thesis using jval_rules(3)[of n "t @ q"] nest[of t] jmembers_start[OF obj(4)] Suc.IH(3) by auto
    next
      case (empty_arr m t)
      then show ?thesis using jval_rules(4)[OF ws] by auto
    next
      case (arr m t vs)
      then show ?thesis using jval_rules(5)[of n "t @ q"] nest[of t] jelems_start[OF arr(4)] Suc.IH(2) by auto
    next
      case (const m w)
      then show ?thesis using jval_rules(6-8)[of n "r @ q"] by auto
    next
      case (num m)
      then show ?thesis using jval_number[OF jnumber_ext] jnumber_open 1(2) by blast
    qed
  next
    case 2
    then show ?case
    proof (cases rule: jelems_cases)
      case (one m v r1)
      then show ?thesis using jelems_rules(1)[OF Suc.IH(1) ws] ender_jws by blast
    next
      case (more m v r1 t vs)
      then have "jws t \<noteq> []" using jelems_start by blast
      with more show ?thesis using jelems_rules(2)[OF Suc.IH(1) ws] Suc.IH(2) nest[of t] ender_jws[OF more(3)] by auto
    qed
  next
    case 3
    then show ?case
    proof (cases rule: jmembers_cases)
      case (one m t k r1 t' v r')
      then have "jws t' \<noteq> []" using jval_start by blast
      with one have "jval n (jws (t' @ q)) = Some (v, r' @ q)"
        using Suc.IH(1)[of "jws t'" v r'] nest[of t'] ender_jws[OF one(6)] by simp
      from jmembers_rules(1)[OF jstring_ext[OF one(3)] ws[OF one(4)] this ws[OF one(6)]] show ?thesis using one by simp
    next
      case (more m t k r1 t' v r' u)
      then have s: "jws t' \<noteq> []" "jws u \<noteq> []" using jval_start jmembers_start by blast+
      with more have v: "jval n (jws (t' @ q)) = Some (v, r' @ q)"
        using Suc.IH(1)[of "jws t'" v r'] nest[of t'] ender_jws[OF more(6)] by simp
      have "jmembers n (dset k v d) (jws (u @ q)) = Some (d', r @ q)"
        using more s(2) Suc.IH(3)[of "dset k v d" "jws u"] nest[of u] by simp
      from jmembers_rules(2)[OF jstring_ext[OF more(3)] ws[OF more(4)] v ws[OF more(6)] this] show ?thesis using more by simp
    qed }
qed simp_all

lemma read_length:
  "jval n s = Some (j, r) \<Longrightarrow> length r < length s"
  "jelems n s = Some (js, r) \<Longrightarrow> length r < length s"
  "jmembers n d s = Some (d', r) \<Longrightarrow> length r < length s"
proof (induction n arbitrary: s j r js d d')
  case (Suc n)
  have ws: "jws t = c # u \<Longrightarrow> length u < length t" for t c u
    using jws_length[of t] by simp
  { case 1
    then show ?case
    proof (cases rule: jval_cases)
      case (obj m t d)
      then show ?thesis using Suc.IH(3)[of "[]" "jws t" d r] jws_length[of t] by simp
    next
      case (arr m t vs)
      then show ?thesis using Suc.IH(2)[of "jws t" vs r] jws_length[of t] by simp
    next
      case (num m)
      then show ?thesis by (simp add: jnumber_length)
    qed (auto dest: jstring_length ws)
  next
    case 2
    then show ?case
    proof (cases rule: jelems_cases)
      case (one m v r1)
      then show ?thesis using Suc.IH(1)[of s v r1] ws[of r1] by simp
    next
      case (more m v r1 t vs)
      then show ?thesis using Suc.IH(1)[of s v r1] ws[of r1] Suc.IH(2)[of "jws t" vs r] jws_length[of t] by fastforce
    qed
  next
    case 3
    then show ?case
    proof (cases rule: jmembers_cases)
      case (one m t k r1 t' v r')
      then show ?thesis
        using jstring_length[of t k r1] ws[of r1] Suc.IH(1)[of "jws t'" v r'] ws[of r'] jws_length[of t'] by fastforce
    next
      case (more m t k r1 t' v r' u)
      then show ?thesis
        using jstring_length[of t k r1] ws[of r1] Suc.IH(1)[of "jws t'" v r'] ws[of r'] jws_length[of t'] jws_length[of u]
          Suc.IH(3)[of "dset k v d" "jws u" d' r] by fastforce
    qed }
qed simp_all

text \<open>More fuel changes nothing once something was read.\<close>

lemma read_fuel:
  "jval n s = Some (j, r) \<Longrightarrow> jval (Suc n) s = Some (j, r)"
  "jelems n s = Some (js, r) \<Longrightarrow> jelems (Suc n) s = Some (js, r)"
  "jmembers n d s = Some (d', r) \<Longrightarrow> jmembers (Suc n) d s = Some (d', r)"
proof (induction n arbitrary: s j r js d d')
  case (Suc n)
  { case 1
    then show ?case
    proof (cases rule: jval_cases)
      case (obj m t d)
      then show ?thesis using jval_rules(3)[OF Suc.IH(3)] by simp
    next
      case (arr m t vs)
      then show ?thesis using jval_rules(5)[OF Suc.IH(2)] by simp
    next
      case (num m)
      then show ?thesis by (rule_tac jval_number)
    next
      case (const m w)
      then show ?thesis using jval_rules(6-8)[of "Suc n" r] by auto
    qed (use jval_rules(1,2,4) in simp_all)
  next
    case 2
    then show ?case
    proof (cases rule: jelems_cases)
      case (one m v r1)
      then show ?thesis using jelems_rules(1)[OF Suc.IH(1)] by simp
    next
      case (more m v r1 t vs)
      then show ?thesis using jelems_rules(2)[OF Suc.IH(1) _ Suc.IH(2)] by simp
    qed
  next
    case 3
    then show ?case
    proof (cases rule: jmembers_cases)
      case (one m t k r1 t' v r')
      then show ?thesis using jmembers_rules(1)[OF one(3,4) Suc.IH(1)] by simp
    next
      case (more m t k r1 t' v r' u)
      then show ?thesis using jmembers_rules(2)[OF more(3,4) Suc.IH(1) more(6) Suc.IH(3)] by simp
    qed }
qed simp_all

lemma read_fuel_le: "n \<le> m \<Longrightarrow> jval n s = Some (j, r) \<Longrightarrow> jval m s = Some (j, r)"
  by (induction m rule: dec_induct) (auto dest: read_fuel(1))

text \<open>The fuel that \<open>loads\<close> gives is enough: more of it reads nothing more.\<close>

lemma fuel_enough:
  "2 * length s + 1 \<le> n \<Longrightarrow> jval (Suc n) s = Some (j, r) \<Longrightarrow> jval n s = Some (j, r)"
  "2 * length s + 2 \<le> n \<Longrightarrow> jelems (Suc n) s = Some (js, r) \<Longrightarrow> jelems n s = Some (js, r)"
  "2 * length s + 1 \<le> n \<Longrightarrow> jmembers (Suc n) d s = Some (d', r) \<Longrightarrow> jmembers n d s = Some (d', r)"
proof (induction n arbitrary: s j r js d d')
  case (Suc n)
  { case 1
    from 1(2) show ?case
    proof (cases rule: jval_cases)
      case (obj m t d)
      then have "jmembers n [] (jws t) = Some (d, r)" using Suc.IH(3)[of "jws t"] jws_length[of t] 1(1) by simp
      then show ?thesis using jval_rules(3)[of n t d r] obj by simp
    next
      case (arr m t vs)
      then have "jelems n (jws t) = Some (vs, r)" using Suc.IH(2)[of "jws t"] jws_length[of t] 1(1) by simp
      then show ?thesis using jval_rules(5)[of n t vs r] arr by simp
    next
      case (num m)
      then show ?thesis by (rule_tac jval_number)
    next
      case (const m w)
      then show ?thesis using jval_rules(6-8)[of n r] by auto
    qed (use jval_rules(1)[where n = n] jval_rules(2)[where n = n] jval_rules(4)[where n = n] in auto)
  next
    case 2
    from 2(2) show ?case
    proof (cases rule: jelems_cases)
      case (one m v r1)
      then show ?thesis using jelems_rules(1)[OF Suc.IH(1)] 2(1) by simp
    next
      case (more m v r1 t vs)
      have "length t < length r1" using more(3) jws_length[of r1] by simp
      then have "jelems n (jws t) = Some (vs, r)"
        using more read_length(1)[of n s v r1] read_length(1)[OF more(2)] jws_length[of t] 2(1) Suc.IH(2)[of "jws t"] by simp
      then show ?thesis using jelems_rules(2)[OF Suc.IH(1)] more 2(1) by simp
    qed
  next
    case 3
    from 3(2) show ?case
    proof (cases rule: jmembers_cases)
      case (one m t k r1 t' v r')
      have "length t' < length r1" using one(4) jws_length[of r1] by simp
      then have "jval n (jws t') = Some (v, r')"
        using one jstring_length[OF one(3)] jws_length[of t'] 3(1) Suc.IH(1)[of "jws t'"] by simp
      from jmembers_rules(1)[OF one(3,4) this one(6)] show ?thesis using one by simp
    next
      case (more m t k r1 t' v r' u)
      have l: "length t' < length r1" "length u < length r'" using more(4,6) jws_length[of r1] jws_length[of r'] by simp_all
      then have v: "jval n (jws t') = Some (v, r')"
        using more jstring_length[OF more(3)] jws_length[of t'] 3(1) Suc.IH(1)[of "jws t'"] by simp
      have "jmembers n (dset k v d) (jws u) = Some (d', r)"
        using more l jstring_length[OF more(3)] jws_length[of t'] jws_length[of u] read_length(1)[OF more(5)] 3(1)
          Suc.IH(3)[of "jws u"] by simp
      from jmembers_rules(2)[OF more(3,4) v more(6) this] show ?thesis using more by simp
    qed }
qed simp_all

lemma fuel_enough_le: "m \<le> k \<Longrightarrow> 2 * length s + 1 \<le> m \<Longrightarrow> jval k s = Some (j, r) \<Longrightarrow> jval m s = Some (j, r)"
proof (induction k rule: dec_induct)
  case (step k)
  then show ?case using fuel_enough(1)[of s k j r] by simp
qed

lemma read_any_fuel:
  assumes "jval n s = Some (j, r)" "2 * length s + 1 \<le> m"
  shows "jval m s = Some (j, r)"
  using assms read_fuel_le[of n m s j r] fuel_enough_le[of m n s j r] by (cases "n \<le> m") simp_all

lemma loads_read: "jval n (jws s) = Some (j, r) \<Longrightarrow> loads s = (if jws r = [] then Some j else None)"
  using read_any_fuel[of n "jws s" j r "2 * length s + 1"] jws_length[of s] by (simp add: loads_def)

text \<open>What is read from a beginning of a text is read from the text, with the rest left over.\<close>

lemma loads_prefix:
  assumes "loads p = Some j" "delimited j"
  shows "loads (p @ q) = (if jws q = [] then Some j else None)"
proof -
  obtain r where r: "jval (2 * length p + 1) (jws p) = Some (j, r)" "jws r = []"
    using assms(1) by (auto simp: loads_def split: option.splits if_splits)
  have "jws p \<noteq> []" using jval_start[OF r(1)] by simp
  then have "jval (2 * length p + 1) (jws (p @ q)) = Some (j, r @ q)"
    using read_more(1)[OF r(1)] assms(2) by (simp add: jws_ext)
  moreover have "list_all is_jws r" using r(2) by (simp add: jws_def list_all_iff dropWhile_eq_Nil_conv)
  ultimately show ?thesis by (simp add: loads_read jws_skip)
qed

end
