(* ===== verification/JsonRound.thy ===== *)
theory JsonRound
  imports JsonTextProps
begin

text \<open>
  A document that \<open>json.dumps\<close> writes, in either layout, is read back by \<open>json.loads\<close>; one that was cut
  short or has something behind it is refused.
\<close>

section \<open>Strings and numbers\<close>

lemma escapes_back: "map_of (map prod.swap escapes) c = Some e \<Longrightarrow> e \<noteq> CHR ''u'' \<and> map_of escapes e = Some c"
  by (auto simp: escapes_def split: if_splits)

lemma hex4_chr: "hex4 [CHR ''0'', CHR ''0'', digit_chr (cp c div 16), digit_chr (cp c mod 16)] = Some c"
proof -
  have "cp c div 16 < 16" using cp_less(1)[of c] by linarith
  moreover have "0 \<le> cp c div 16" "0 \<le> cp c mod 16" "cp c mod 16 < 16"
    by (simp_all add: pos_imp_zdiv_nonneg_iff)
  ultimately have "digit_val 16 (digit_chr (cp c div 16)) = Some (cp c div 16)"
    "digit_val 16 (digit_chr (cp c mod 16)) = Some (cp c mod 16)"
    by (simp_all add: digit_chr_val)
  moreover have "digit_val 16 (CHR ''0'') = Some 0" by code_simp
  moreover have "cp c div 16 * 16 + cp c mod 16 = cp c" by simp
  moreover have "char_of (cp c) = c" by (simp add: cp_def)
  ultimately show ?thesis by (simp add: hex4_def Let_def)
qed

lemma esc_chr_read: "\<exists>e w. esc_chr c = e # w \<and> e \<noteq> CHR 0x22 \<and> jchar e (w @ t) = Some (c, t)"
proof (cases "c = CHR 0x22 \<or> c = CHR 0x5C")
  case True
  then show ?thesis by (auto simp: esc_chr_def jchar_def jescape_def escapes_def)
next
  case other: False
  show ?thesis
  proof (cases "32 \<le> cp c \<and> cp c \<le> 126")
    case True
    then show ?thesis using other by (auto simp: esc_chr_def jchar_def)
  next
    case False
    show ?thesis
    proof (cases "map_of (map prod.swap escapes) c")
      case None
      then show ?thesis using other False hex4_chr[of c] by (auto simp: esc_chr_def jchar_def jescape_def)
    next
      case (Some e)
      then show ?thesis using other False escapes_back[OF Some] by (auto simp: esc_chr_def jchar_def jescape_def)
    qed
  qed
qed

lemma jstring_quoted: "jstring (concat (map esc_chr s) @ CHR 0x22 # r) = Some (s, r)"
proof (induction s)
  case (Cons c s)
  obtain e w where e: "esc_chr c = e # w" "e \<noteq> CHR 0x22"
    "jchar e (w @ concat (map esc_chr s) @ CHR 0x22 # r) = Some (c, concat (map esc_chr s) @ CHR 0x22 # r)"
    using esc_chr_read[of c "concat (map esc_chr s) @ CHR 0x22 # r"] by blast
  then show ?case by (simp add: Cons)
qed simp

lemma digits_of_zero: "0 \<le> n \<Longrightarrow> starts_with ''0'' (digits_of 10 n) \<Longrightarrow> n = 0"
proof (induction "10 :: int" n rule: digits_of.induct)
  case (1 n)
  show ?case
  proof (cases "n < 10")
    case True
    then have "digits_of 10 n = [char_of (48 + n)]" by (simp add: digits_of.simps[of 10 n] digit_chr_def)
    then have "char_of (48 + n) = CHR ''0''" using 1(3) by (simp add: starts_with_one)
    then have "cp (char_of (48 + n)) = cp (CHR ''0'')" by simp
    then show ?thesis using True 1(2) by (simp add: cp_def)
  next
    case False
    then have d: "digits_of 10 n = digits_of 10 (n div 10) @ [digit_chr (n mod 10)]" by (simp add: digits_of.simps[of 10 n])
    then have "starts_with ''0'' (digits_of 10 (n div 10))" using 1(3) by (simp add: starts_with_one)
    then have "n div 10 = 0" using 1(1) False 1(2) by (simp add: pos_imp_zdiv_nonneg_iff)
    then show ?thesis using False 1(2) by linarith
  qed
qed

lemma takeWhile_here: "list_all P s \<Longrightarrow> r = [] \<or> \<not> P (hd r) \<Longrightarrow> takeWhile P (s @ r) = s \<and> dropWhile P (s @ r) = r"
  by (induction s) (auto simp: dropWhile_eq_self_iff, cases r, auto)

definition ends :: "string \<Rightarrow> bool" where
  "ends r \<longleftrightarrow> r = [] \<or> ender r"

lemma whole_part_digits: "0 \<le> n \<Longrightarrow> ends r \<Longrightarrow> whole_part (digits_of 10 n @ r) = (digits_of 10 n, r)"
proof -
  assume a: "0 \<le> n" "ends r"
  have d: "list_all is_digit (digits_of 10 n)" using digits10_digit[OF a(1)] by (simp add: list_all_iff)
  have s: "starts_with ''0'' (digits_of 10 n @ r) = starts_with ''0'' (digits_of 10 n)"
    by (simp add: starts_with_ext_one)
  show ?thesis
  proof (cases "n = 0")
    case True
    moreover have "digits_of 10 0 = ''0''" by code_simp
    ultimately have "digits_of 10 n = ''0''" by simp
    then show ?thesis by (simp add: whole_part_def starts_with_def)
  next
    case False
    then have "\<not> starts_with ''0'' (digits_of 10 n)" using digits_of_zero[OF a(1)] by blast
    then show ?thesis
      using s takeWhile_here[OF d, of r] a(2) by (auto simp: whole_part_def digits_def ends_def ender_def)
  qed
qed

lemma no_fraction: "ends r \<Longrightarrow> frac_part r = ([], r) \<and> exp_part r = ([], r)"
  by (cases r) (auto simp: ends_def ender_def frac_part_def exp_part_def starts_with_one)

lemma digits_of_no_sign: "0 \<le> n \<Longrightarrow> \<not> starts_with ''-'' (digits_of 10 n @ r)"
  using digits10_digit[of n "hd (digits_of 10 n)"]
  by (cases "digits_of 10 n") (auto simp: starts_with_one is_digit_def cp_def)

lemma jnumber_int: "ends r \<Longrightarrow> jnumber (str_int n @ r) = Some (JInt n, r)"
proof (cases "n < 0")
  case True
  assume e: "ends r"
  have "py_int_base 10 (CHR ''-'' # digits_of 10 (- n)) = Some n" using py_int_base_str_int[of n] True by (simp add: str_int_def)
  then show ?thesis using True e whole_part_digits[of "- n" r]
    by (simp add: jnumber_def str_int_def sign_part_def starts_with_one no_fraction)
next
  case False
  assume e: "ends r"
  have "py_int_base 10 (digits_of 10 n) = Some n" using py_int_base_str_int[of n] False by (simp add: str_int_def)
  then show ?thesis using False e whole_part_digits[of n r] digits_of_no_sign[of n r]
    by (simp add: jnumber_def str_int_def sign_part_def no_fraction)
qed

section \<open>Reading with some fuel\<close>

definition reads :: "string \<Rightarrow> json \<Rightarrow> string \<Rightarrow> bool" where
  "reads s j r \<longleftrightarrow> (\<exists>n. jval n s = Some (j, r))"

definition reads_elems :: "string \<Rightarrow> json list \<Rightarrow> string \<Rightarrow> bool" where
  "reads_elems s js r \<longleftrightarrow> (\<exists>n. jelems n s = Some (js, r))"

definition reads_members :: "(string, json) dict \<Rightarrow> string \<Rightarrow> (string, json) dict \<Rightarrow> string \<Rightarrow> bool" where
  "reads_members d s d' r \<longleftrightarrow> (\<exists>n. jmembers n d s = Some (d', r))"

lemma elems_fuel_le: "n \<le> m \<Longrightarrow> jelems n s = Some (js, r) \<Longrightarrow> jelems m s = Some (js, r)"
  by (induction m rule: dec_induct) (auto dest: read_fuel(2))

lemma members_fuel_le: "n \<le> m \<Longrightarrow> jmembers n d s = Some (d', r) \<Longrightarrow> jmembers m d s = Some (d', r)"
  by (induction m rule: dec_induct) (auto dest: read_fuel(3))

lemma reads_start: "reads s j r \<Longrightarrow> s \<noteq> [] \<and> \<not> starts_with '']'' s"
  using jval_start by (auto simp: reads_def)

lemma reads_no_ws: "reads s j r \<Longrightarrow> jws s = s"
proof -
  assume "reads s j r"
  then obtain n where "jval n s = Some (j, r)" by (auto simp: reads_def)
  then have "s \<noteq> [] \<and> \<not> is_jws (hd s)"
    by (cases rule: jval_cases) (auto simp: is_jws_def cp_def is_digit_def dest!: jnumber_start)
  then show ?thesis by (cases s) simp_all
qed

lemma reads_elems_rules:
  "reads s v r \<Longrightarrow> jws r = CHR '']'' # t \<Longrightarrow> reads_elems s [v] t"
  "reads s v r \<Longrightarrow> jws r = CHR '','' # t \<Longrightarrow> reads_elems (jws t) vs u \<Longrightarrow> reads_elems s (v # vs) u"
proof -
  assume a: "reads s v r" "jws r = CHR '']'' # t"
  then obtain n where "jval n s = Some (v, r)" by (auto simp: reads_def)
  from jelems_rules(1)[OF this a(2)] show "reads_elems s [v] t" by (auto simp: reads_elems_def)
next
  assume a: "reads s v r" "jws r = CHR '','' # t" "reads_elems (jws t) vs u"
  then obtain n m where "jval n s = Some (v, r)" "jelems m (jws t) = Some (vs, u)" by (auto simp: reads_def reads_elems_def)
  then have "jval (max n m) s = Some (v, r)" "jelems (max n m) (jws t) = Some (vs, u)"
    using read_fuel_le[of n "max n m"] elems_fuel_le[of m "max n m"] by simp_all
  from jelems_rules(2)[OF this(1) a(2) this(2)] show "reads_elems s (v # vs) u" by (auto simp: reads_elems_def)
qed

lemma reads_members_rules:
  "jstring s = Some (k, r) \<Longrightarrow> jws r = CHR '':'' # t \<Longrightarrow> reads (jws t) v r' \<Longrightarrow> jws r' = CHR 0x7D # u \<Longrightarrow>
     reads_members d (CHR 0x22 # s) (dset k v d) u"
  "jstring s = Some (k, r) \<Longrightarrow> jws r = CHR '':'' # t \<Longrightarrow> reads (jws t) v r' \<Longrightarrow> jws r' = CHR '','' # u \<Longrightarrow>
     reads_members (dset k v d) (jws u) d' w \<Longrightarrow> reads_members d (CHR 0x22 # s) d' w"
proof -
  assume a: "jstring s = Some (k, r)" "jws r = CHR '':'' # t" "reads (jws t) v r'" "jws r' = CHR 0x7D # u"
  then obtain n where "jval n (jws t) = Some (v, r')" by (auto simp: reads_def)
  from jmembers_rules(1)[OF a(1,2) this a(4)] show "reads_members d (CHR 0x22 # s) (dset k v d) u"
    unfolding reads_members_def by blast
next
  assume a: "jstring s = Some (k, r)" "jws r = CHR '':'' # t" "reads (jws t) v r'" "jws r' = CHR '','' # u"
    "reads_members (dset k v d) (jws u) d' w"
  then obtain n m where "jval n (jws t) = Some (v, r')" "jmembers m (dset k v d) (jws u) = Some (d', w)"
    by (auto simp: reads_def reads_members_def)
  then have "jval (max n m) (jws t) = Some (v, r')" "jmembers (max n m) (dset k v d) (jws u) = Some (d', w)"
    using read_fuel_le[of n "max n m"] members_fuel_le[of m "max n m"] by simp_all
  from jmembers_rules(2)[OF a(1,2) this(1) a(4) this(2)] show "reads_members d (CHR 0x22 # s) d' w"
    unfolding reads_members_def by blast
qed

lemma reads_rules:
  "jstring t = Some (v, r) \<Longrightarrow> reads (CHR 0x22 # t) (JStr v) r"
  "jws t = CHR 0x7D # r \<Longrightarrow> reads (CHR 0x7B # t) (JObj []) r"
  "jws t = CHR '']'' # r \<Longrightarrow> reads (CHR ''['' # t) (JArr []) r"
  "reads (''null'' @ r) JNull r" "reads (''true'' @ r) (JBool True) r" "reads (''false'' @ r) (JBool False) r"
  "jnumber s = Some (j, r) \<Longrightarrow> reads s j r"
  unfolding reads_def
  by (rule exI[of _ "Suc 0"], erule jval_rules jval_number)+
    (rule exI[of _ "Suc 0"], (rule jval_rules | erule jval_number))+

lemma reads_array: "reads_elems (jws t) vs r \<Longrightarrow> reads (CHR ''['' # t) (JArr vs) r"
proof -
  assume "reads_elems (jws t) vs r"
  then obtain n where n: "jelems n (jws t) = Some (vs, r)" by (auto simp: reads_elems_def)
  from jval_rules(5)[OF n] jelems_start[OF n] show ?thesis unfolding reads_def by blast
qed

lemma reads_object: "reads_members [] (jws t) d r \<Longrightarrow> reads (CHR 0x7B # t) (JObj d) r"
proof -
  assume "reads_members [] (jws t) d r"
  then obtain n where n: "jmembers n [] (jws t) = Some (d, r)" by (auto simp: reads_members_def)
  from jval_rules(3)[OF n] jmembers_start[OF n] show ?thesis unfolding reads_def by blast
qed

section \<open>Round trip\<close>

text \<open>The law of \<open>repr\<close> for a float: its text is a number with that value.\<close>

definition float_text :: "(rat \<Rightarrow> string) \<Rightarrow> rat \<Rightarrow> bool" where
  "float_text repr q \<longleftrightarrow> (\<forall>r. ends r \<longrightarrow> jnumber (repr q @ r) = Some (JFloat q, r))"

fun json_ok :: "(rat \<Rightarrow> bool) \<Rightarrow> json \<Rightarrow> bool" where
  "json_ok fl (JFloat q) = fl q"
| "json_ok fl (JArr vs) = list_all (json_ok fl) vs"
| "json_ok fl (JObj kvs) = (dict_ok kvs \<and> list_all (\<lambda>kv. json_ok fl (snd kv)) kvs)"
| "json_ok fl j = True"

lemma json_ok_mono: "json_ok fl j \<Longrightarrow> (\<And>q. fl q \<Longrightarrow> fl' q) \<Longrightarrow> json_ok fl' j"
  by (induction j) (auto simp: list_all_iff snds.simps)

definition blank :: "string \<Rightarrow> bool" where
  "blank w \<longleftrightarrow> list_all is_jws w"

lemma blank_simps [simp]: "blank []" "blank (c # w) \<longleftrightarrow> is_jws c \<and> blank w" "blank (v @ w) \<longleftrightarrow> blank v \<and> blank w"
  by (simp_all add: blank_def)

lemma gap_blank [simp]: "blank (gap lay l)"
  by (auto simp: gap_def blank_def is_jws_def cp_def list_all_iff split: option.splits)

lemma item_sep_blank: "\<exists>w. item_sep lay l = CHR '','' # w \<and> blank w"
  using gap_blank[of lay l] by (auto simp: item_sep_def is_jws_def cp_def split: option.splits)

lemma jws_blank: "blank w \<Longrightarrow> jws (w @ s) = jws s"
  by (simp add: blank_def jws_skip)

lemma blank_ends: "blank w \<Longrightarrow> c \<in> {CHR '','', CHR '']'', CHR 0x7D} \<Longrightarrow> ends (w @ c # r)"
  by (cases w) (auto simp: ends_def ender_def is_jws_def is_digit_def cp_def)

lemma not_ws [simp]: "\<not> is_jws (CHR '','')" "\<not> is_jws (CHR '']'')" "\<not> is_jws (CHR 0x7D)" "\<not> is_jws (CHR 0x22)" "\<not> is_jws (CHR '':'')"
  "is_jws (CHR '' '')"
  by code_simp+

lemma reads_array_text:
  assumes "vs \<noteq> []" "\<And>v r. v \<in> set vs \<Longrightarrow> ends r \<Longrightarrow> reads (txt v @ r) v r" "blank w"
  shows "reads_elems (join (item_sep lay l) (map txt vs) @ w @ CHR '']'' # r) vs r"
  using assms(1,2)
proof (induction vs)
  case (Cons v vs)
  obtain u where u: "item_sep lay l = CHR '','' # u" "blank u" using item_sep_blank by blast
  show ?case
  proof (cases "vs = []")
    case True
    then show ?thesis
      using reads_elems_rules(1)[OF Cons.prems(2)[of v "w @ CHR '']'' # r"]] blank_ends[OF assms(3)] by (simp add: jws_blank[OF assms(3)])
  next
    case False
    let ?rest = "join (item_sep lay l) (map txt vs) @ w @ CHR '']'' # r"
    have e: "reads_elems ?rest vs r" using Cons.IH[OF False] Cons.prems(2) by simp
    obtain x xs where x: "vs = x # xs" using False by (cases vs) auto
    have j: "join (item_sep lay l) (map txt (v # vs)) = txt v @ item_sep lay l @ join (item_sep lay l) (map txt vs)"
      by (simp add: x)
    have "jws ?rest = ?rest"
    proof -
      obtain n where "jelems n ?rest = Some (vs, r)" using e by (auto simp: reads_elems_def)
      then have "\<exists>v r. reads ?rest v r" by (cases rule: jelems_cases) (auto simp: reads_def)
      then show ?thesis using reads_no_ws by blast
    qed
    then have "reads_elems (jws (u @ ?rest)) vs r" using e by (simp add: jws_blank[OF u(2)])
    moreover have "reads (txt v @ CHR '','' # u @ ?rest) v (CHR '','' # u @ ?rest)"
      using Cons.prems(2)[of v] blank_ends[of "[]"] by simp
    ultimately show ?thesis unfolding j using reads_elems_rules(2)[of _ v "CHR '','' # u @ ?rest"] by (simp add: u(1))
  qed
qed simp

lemma reads_object_text:
  assumes "kvs \<noteq> []" "\<And>kv r. kv \<in> set kvs \<Longrightarrow> ends r \<Longrightarrow> reads (txt (snd kv) @ r) (snd kv) r" "blank w" "dict_ok (d @ kvs)"
  shows "reads_members d (join (item_sep lay l) (map (\<lambda>kv. quoted (fst kv) @ '': '' @ txt (snd kv)) kvs) @ w @ CHR 0x7D # r) (d @ kvs) r"
  using assms(1,2,4)
proof (induction kvs arbitrary: d)
  case (Cons kv kvs)
  obtain k v where kv: "kv = (k, v)" by (cases kv)
  have k: "dset k v d = d @ [(k, v)]"
    using Cons.prems(3) by (intro dset_absent) (simp add: kv dict_ok_def dkeys_def)
  let ?line = "\<lambda>kv. quoted (fst kv) @ '': '' @ txt (snd kv)"
  have str: "jstring (concat (map esc_chr k) @ CHR 0x22 # '': '' @ u) = Some (k, CHR '':'' # '' '' @ u)" for u
    using jstring_quoted[of k "'': '' @ u"] by simp
  have val: "reads (jws ('' '' @ txt v @ u)) v u" if "ends u" for u
  proof -
    have v: "reads (txt v @ u) v u" using Cons.prems(2)[of kv u] that by (simp add: kv)
    show ?thesis using v reads_no_ws[OF v] jws_blank[of "'' ''"] by simp
  qed
  have colon: "jws (CHR '':'' # u) = CHR '':'' # u" for u by simp
  show ?case
  proof (cases "kvs = []")
    case True
    have v: "reads (jws ('' '' @ txt v @ w @ CHR 0x7D # r)) v (w @ CHR 0x7D # r)"
      by (rule val) (simp add: blank_ends[OF assms(3)])
    have "jws (w @ CHR 0x7D # r) = CHR 0x7D # r" by (simp add: jws_blank[OF assms(3)])
    from reads_members_rules(1)[OF str colon v this, of d]
    have "reads_members d (CHR 0x22 # concat (map esc_chr k) @ CHR 0x22 # '': '' @ txt v @ w @ CHR 0x7D # r) (dset k v d) r" .
    then show ?thesis using k by (simp add: True kv quoted_def)
  next
    case False
    obtain u where u: "item_sep lay l = CHR '','' # u" "blank u" using item_sep_blank by blast
    let ?rest = "join (item_sep lay l) (map ?line kvs) @ w @ CHR 0x7D # r"
    have e: "reads_members (dset k v d) ?rest (d @ kv # kvs) r"
      using Cons.IH[OF False, of "d @ [(k, v)]"] Cons.prems(2,3) k by (simp add: kv)
    obtain x xs where x: "kvs = x # xs" using False by (cases kvs) auto
    have j: "join (item_sep lay l) (map ?line (kv # kvs)) = ?line kv @ item_sep lay l @ join (item_sep lay l) (map ?line kvs)"
      by (simp add: x)
    have "\<exists>t. ?rest = CHR 0x22 # t" by (cases xs) (simp_all add: x quoted_def)
    then have "jws (u @ ?rest) = ?rest" by (auto simp: jws_blank[OF u(2)])
    then have "reads_members (dset k v d) (jws (u @ ?rest)) (d @ kv # kvs) r" using e by simp
    note more = this
    have v: "reads (jws ('' '' @ txt v @ CHR '','' # u @ ?rest)) v (CHR '','' # u @ ?rest)"
      by (rule val) (use blank_ends[of "[]" "CHR '',''"] in simp)
    have "jws (CHR '','' # u @ ?rest) = CHR '','' # u @ ?rest" by simp
    from reads_members_rules(2)[OF str colon v this more] show ?thesis
      unfolding j by (simp add: kv u(1) quoted_def)
  qed
qed simp

lemma reads_text: "json_ok (float_text repr) j \<Longrightarrow> ends r \<Longrightarrow> reads (jtext repr lay l j @ r) j r"
proof (induction j arbitrary: l r)
  case (JArr vs)
  show ?case
  proof (cases "vs = []")
    case True
    then show ?thesis using reads_rules(3) by (simp add: items_def)
  next
    case False
    let ?rest = "join (item_sep lay (Suc l)) (map (jtext repr lay (Suc l)) vs) @ gap lay l @ CHR '']'' # r"
    have e: "reads_elems ?rest vs r"
      using JArr by (intro reads_array_text[OF False]) (auto simp: list_all_iff)
    then obtain v u where "reads ?rest v u" unfolding reads_elems_def reads_def by (blast elim: jelems_cases)
    then have "jws ?rest = ?rest" by (rule reads_no_ws)
    then have "reads_elems (jws (gap lay (Suc l) @ ?rest)) vs r" using e by (simp add: jws_blank)
    then show ?thesis using False by (simp add: items_def reads_array)
  qed
next
  case (JObj kvs)
  let ?line = "\<lambda>kv. quoted (fst kv) @ '': '' @ jtext repr lay (Suc l) (snd kv)"
  show ?case
  proof (cases kvs)
    case Nil
    then show ?thesis using reads_rules(2) by (simp add: items_def)
  next
    case (Cons x xs)
    let ?rest = "join (item_sep lay (Suc l)) (map ?line kvs) @ gap lay l @ CHR 0x7D # r"
    have "reads_members [] ?rest ([] @ kvs) r"
    proof (rule reads_object_text)
      show "reads (jtext repr lay (Suc l) (snd kv) @ r) (snd kv) r" if "kv \<in> set kvs" "ends r" for kv r
        using JObj.IH[of kv "snd kv" r "Suc l"] JObj.prems(1) that by (auto simp: list_all_iff snds.simps)
    qed (use JObj.prems in \<open>simp_all add: Cons\<close>)
    moreover have "\<exists>t. ?rest = CHR 0x22 # t" by (cases xs) (simp_all add: Cons quoted_def)
    ultimately have "reads_members [] (jws (gap lay (Suc l) @ ?rest)) kvs r"
      by (auto simp: jws_blank)
    then show ?thesis using Cons by (simp add: items_def reads_object)
  qed
qed (use reads_rules jstring_quoted in \<open>auto simp: jnumber_int float_text_def quoted_def\<close>)

text \<open>The law of the two functions: what was written is read back.\<close>

lemma loads_dumps: "json_ok (float_text repr) j \<Longrightarrow> loads (dumps repr lay j) = Some j"
proof -
  assume "json_ok (float_text repr) j"
  then have "reads (dumps repr lay j @ []) j []" unfolding dumps_def by (rule reads_text) (simp add: ends_def)
  moreover from this have "jws (dumps repr lay j) = dumps repr lay j" using reads_no_ws by fastforce
  ultimately show ?thesis by (auto simp: reads_def loads_read jws_def)
qed

lemma object_text: "\<exists>t. dumps repr lay (JObj kvs) = CHR 0x7B # t @ [CHR 0x7D]"
  by (cases kvs) (auto simp: dumps_def items_def)

text \<open>With anything but white space behind it, an object is refused.\<close>

lemma loads_behind:
  "json_ok (float_text repr) (JObj kvs) \<Longrightarrow> jws q \<noteq> [] \<Longrightarrow> loads (dumps repr lay (JObj kvs) @ q) = None"
  using loads_prefix[OF loads_dumps[of repr "JObj kvs" lay], of q] by (simp add: delimited_def)

text \<open>Cut short by one character or more, it is refused, too.\<close>

lemma loads_cut:
  assumes "json_ok (float_text repr) (JObj kvs)" "dumps repr lay (JObj kvs) = p @ q" "q \<noteq> []"
  shows "loads p = None"
proof (rule ccontr)
  assume "loads p \<noteq> None"
  then obtain j where j: "loads p = Some j" by blast
  then obtain n r where n: "jval n (jws p) = Some (j, r)" by (auto simp: loads_def split: option.splits if_splits)
  obtain t where t: "p @ q = CHR 0x7B # t @ [CHR 0x7D]" using object_text[of repr lay kvs] assms(2) by auto
  have "p \<noteq> []" using jval_start[OF n] by (auto simp: jws_def)
  then obtain u where u: "p = CHR 0x7B # u" using t by (cases p) auto
  have "jval n p = Some (j, r)" using n by (simp add: u is_jws_def cp_def)
  then have "delimited j"
    by (cases rule: jval_cases) (auto simp: u delimited_def is_digit_def cp_def dest: jnumber_start)
  from loads_prefix[OF j this, of q] have "jws q = []"
    using loads_dumps[OF assms(1), of lay] unfolding assms(2) by (simp split: if_splits)
  moreover have "last q = CHR 0x7D" using t assms(3) by (metis last_appendR last_snoc append_Cons)
  ultimately show False using assms(3) last_in_set[of q] by (auto simp: jws_def dropWhile_eq_Nil_conv)
qed

text \<open>An instance of the law of \<open>repr\<close>.\<close>

lemma three_quarters: "float_text (\<lambda>q. ''0.75'') (3 / 4)"
  unfolding float_text_def
proof (intro allI impI)
  fix r assume r: "ends r"
  have py: "py_float ''0.75'' = Some (Fin (3 / 4))" by code_simp
  have n: "is_digit (CHR ''7'')" "is_digit (CHR ''5'')" by code_simp+
  have d: "digits (CHR ''7'' # CHR ''5'' # r) = (''75'', r)"
    using r n by (cases r) (auto simp: digits_def ends_def ender_def)
  show "jnumber (''0.75'' @ r) = Some (JFloat (3 / 4), r)"
    using no_fraction[OF r] by (simp add: jnumber_def sign_part_def whole_part_def frac_part_def starts_with_one d py)
qed

end
