(* ===== verification/AlertWebhook.thy ===== *)
theory AlertWebhook
  imports PyFloat Cooldown JsonRound "HOL-Library.List_Lexorder" "HOL-Library.Product_Lexorder"
begin

text \<open>
  The alert receiver of \<open>recovery/webhook-server.py\<close>: fingerprints, the cooldown table, the
  environment handed to a handler script, and the routing of a POST. The hash, the scripts
  present, what running a script gives, and the clock are arguments; label values are texts.
\<close>

section \<open>Fingerprints\<close>

text \<open>\<open>json.dumps(labels, sort_keys=True)\<close>.\<close>

type_synonym label_map = "(string, string) dict"

definition json_dumps :: "label_map \<Rightarrow> string" where
  "json_dumps labels = dumps (\<lambda>q. []) None (JObj (map (\<lambda>(k, v). (k, JStr v)) (sort_key fst labels)))"

record alert =
  al_status :: "string option"
  al_labels :: "label_map option"
  al_annotations :: "label_map option"
  al_starts_at :: "string option"

definition get_labels :: "alert \<Rightarrow> label_map" where
  "get_labels a = (case al_labels a of Some l \<Rightarrow> l | None \<Rightarrow> [])"

text \<open>\<open>sha256\<close> is the hexadecimal digest of the encoded text.\<close>

definition make_fingerprint :: "(string \<Rightarrow> string) \<Rightarrow> alert \<Rightarrow> string" where
  "make_fingerprint sha256 a = take 16 (sha256 (json_dumps (get_labels a)))"

section \<open>The cooldown table\<close>

definition COOLDOWN_SECONDS :: rat where "COOLDOWN_SECONDS = 300"

type_synonym recent = "(string, rat) dict"

definition allowed :: "string \<Rightarrow> rat \<Rightarrow> recent \<Rightarrow> bool \<times> recent" where
  "allowed fingerprint now recent =
     (if fsub now (dgetd recent fingerprint 0) < COOLDOWN_SECONDS then (False, recent)
      else (True, dset fingerprint now recent))"

section \<open>Handlers\<close>

text \<open>What \<open>subprocess.run\<close> does with the script.\<close>

datatype run_result = Exited int | TimedOut | RunFailed

definition handler_path :: "(string \<Rightarrow> bool) \<Rightarrow> string \<Rightarrow> string option" where
  "handler_path exists alert_name =
     (if exists (alert_name @ ''.sh'') then Some (alert_name @ ''.sh'') else None)"

definition handler_env :: "label_map \<Rightarrow> alert \<Rightarrow> label_map" where
  "handler_env environ a =
     (let env = fold (\<lambda>(k, v). dset (''ALERT_'' @ upper k) v) (get_labels a) environ;
          env = fold (\<lambda>(k, v). dset (''ALERT_ANNOTATION_'' @ upper k) v)
            (case al_annotations a of Some n \<Rightarrow> n | None \<Rightarrow> []) env;
          env = dset ''ALERT_STATUS'' (case al_status a of Some s \<Rightarrow> s | None \<Rightarrow> ''firing'') env
      in dset ''ALERT_STARTS_AT'' (case al_starts_at a of Some s \<Rightarrow> s | None \<Rightarrow> []) env)"

text \<open>A run: the fingerprint and the clock of its admission, the script and its environment.\<close>

record handler_run =
  hr_fp :: string
  hr_time :: rat
  hr_script :: string
  hr_env :: label_map

record aw_config =
  aw_exists :: "string \<Rightarrow> bool"
  aw_sha256 :: "string \<Rightarrow> string"
  aw_environ :: label_map
  aw_dry_run :: bool
  aw_exec :: "string \<Rightarrow> label_map \<Rightarrow> run_result"

record aw_state =
  aw_recent :: recent
  aw_admitted :: "(string \<times> rat) list"
  aw_runs :: "handler_run list"

definition run_handler :: "aw_config \<Rightarrow> string \<Rightarrow> alert \<Rightarrow> string \<times> rat \<Rightarrow> aw_state \<Rightarrow> int \<times> aw_state" where
  "run_handler cfg script a ft s =
     (let env = handler_env (aw_environ cfg) a in
      if aw_dry_run cfg then (0, s)
      else (case aw_exec cfg script env of Exited n \<Rightarrow> n | TimedOut \<Rightarrow> 1 | RunFailed \<Rightarrow> 1,
            s\<lparr>aw_runs := aw_runs s @
               [\<lparr>hr_fp = fst ft, hr_time = snd ft, hr_script = script, hr_env = env\<rparr>]\<rparr>))"

section \<open>Requests\<close>

definition alert_name :: "alert \<Rightarrow> string" where
  "alert_name a = dgetd (get_labels a) ''alertname'' []"

text \<open>The body of the loop over the alerts of a payload; \<open>now\<close> is the clock read by \<open>_allowed\<close>.\<close>

definition handle_alert :: "aw_config \<Rightarrow> rat \<times> alert \<Rightarrow> aw_state \<Rightarrow> aw_state" where
  "handle_alert cfg ta s =
     (let (now, a) = ta in
      if al_status a \<noteq> Some ''firing'' then s
      else let fp = make_fingerprint (aw_sha256 cfg) a
           in case handler_path (aw_exists cfg) (alert_name a) of
                None \<Rightarrow> s
              | Some script \<Rightarrow>
                  (let (ok, recent) = allowed fp now (aw_recent s) in
                   if \<not> ok then s
                   else snd (run_handler cfg script a (fp, now)
                     (s\<lparr>aw_recent := recent, aw_admitted := aw_admitted s @ [(fp, now)]\<rparr>))))"

datatype aw_body = BadBody | Alerts "(rat \<times> alert) list"

record aw_request =
  ar_path :: string
  ar_body :: aw_body

definition aw_do_POST :: "aw_config \<Rightarrow> aw_request \<Rightarrow> aw_state \<Rightarrow> int \<times> aw_state" where
  "aw_do_POST cfg rq s =
     (if ar_path rq \<noteq> ''/webhook'' then (404, s)
      else case ar_body rq of
        BadBody \<Rightarrow> (400, s)
      | Alerts as \<Rightarrow> (200, fold (handle_alert cfg) as s))"

definition aw_do_GET :: "string \<Rightarrow> int \<times> string" where
  "aw_do_GET path = (if path = ''/healthz'' then (200, ''ok'') else (404, []))"

fun aw_serve :: "aw_config \<Rightarrow> aw_request list \<Rightarrow> aw_state \<Rightarrow> aw_state" where
  "aw_serve cfg [] s = s"
| "aw_serve cfg (rq # rqs) s = aw_serve cfg rqs (snd (aw_do_POST cfg rq s))"

section \<open>The cooldown contract\<close>

definition aw_may :: "recent \<Rightarrow> string \<Rightarrow> rat \<Rightarrow> bool" where
  "aw_may recent fp now \<longleftrightarrow> \<not> fsub now (dgetd recent fp 0) < COOLDOWN_SECONDS"

interpretation aw: cooldown aw_may "\<lambda>fp t r. dset fp t r" "\<lambda>t t'. fsub t' t < COOLDOWN_SECONDS"
  by unfold_locales (auto simp: aw_may_def intro: le_less_trans[OF fsub_antimono])

text \<open>The requests for an admission: the firing alerts with a handler.\<close>

definition routed :: "aw_config \<Rightarrow> rat \<times> alert \<Rightarrow> bool" where
  "routed cfg ta \<longleftrightarrow> al_status (snd ta) = Some ''firing'' \<and> aw_exists cfg (alert_name (snd ta) @ ''.sh'')"

definition admission :: "aw_config \<Rightarrow> rat \<times> alert \<Rightarrow> string \<times> rat" where
  "admission cfg ta = (make_fingerprint (aw_sha256 cfg) (snd ta), fst ta)"

definition posted :: "aw_request \<Rightarrow> (rat \<times> alert) list" where
  "posted rq = (if ar_path rq = ''/webhook'' then case ar_body rq of BadBody \<Rightarrow> [] | Alerts as \<Rightarrow> as else [])"

lemma do_POST_posted: "snd (aw_do_POST cfg rq s) = fold (handle_alert cfg) (posted rq) s"
  by (simp add: aw_do_POST_def posted_def split: aw_body.splits)

lemma serve_posted: "aw_serve cfg rqs s = fold (handle_alert cfg) (concat (map posted rqs)) s"
  by (induction rqs arbitrary: s) (simp_all add: do_POST_posted)

lemma handle_alert_admitted:
  "aw_admitted (handle_alert cfg ta s) = aw_admitted s @
     (if routed cfg ta then aw.run (aw_recent s) [admission cfg ta] else [])"
  "aw_recent (handle_alert cfg ta s) =
     (if routed cfg ta \<and> aw_may (aw_recent s) (fst (admission cfg ta)) (fst ta)
      then dset (fst (admission cfg ta)) (fst ta) (aw_recent s) else aw_recent s)"
  by (cases ta; simp add: handle_alert_def handler_path_def routed_def admission_def allowed_def
      aw_may_def run_handler_def Let_def)+

lemma fold_alerts_admitted:
  "aw_admitted (fold (handle_alert cfg) as s) =
     aw_admitted s @ aw.run (aw_recent s) (map (admission cfg) (filter (routed cfg) as))"
proof (induction as arbitrary: s)
  case (Cons a as)
  show ?case using Cons[of "handle_alert cfg a s"]
    by (cases "admission cfg a") (auto simp: handle_alert_admitted admission_def)
qed simp

lemma handle_alert_runs:
  "map (\<lambda>r. (hr_fp r, hr_time r)) (aw_runs s) = aw_admitted s \<Longrightarrow> \<not> aw_dry_run cfg \<Longrightarrow>
   map (\<lambda>r. (hr_fp r, hr_time r)) (aw_runs (handle_alert cfg ta s)) = aw_admitted (handle_alert cfg ta s)"
  by (cases ta) (auto simp: handle_alert_def run_handler_def Let_def split: option.splits prod.splits)

lemma fold_alerts_runs:
  "map (\<lambda>r. (hr_fp r, hr_time r)) (aw_runs s) = aw_admitted s \<Longrightarrow> \<not> aw_dry_run cfg \<Longrightarrow>
   map (\<lambda>r. (hr_fp r, hr_time r)) (aw_runs (fold (handle_alert cfg) as s)) =
     aw_admitted (fold (handle_alert cfg) as s)"
  by (induction as arbitrary: s) (simp_all add: handle_alert_runs)

lemma fold_alerts_dry: "aw_dry_run cfg \<Longrightarrow> aw_runs (fold (handle_alert cfg) as s) = aw_runs s"
  by (induction as arbitrary: s)
     (auto simp: handle_alert_def run_handler_def Let_def split: option.splits prod.splits)

definition aw_init :: aw_state where
  "aw_init = \<lparr>aw_recent = [], aw_admitted = [], aw_runs = []\<rparr>"

section \<open>Properties\<close>

text \<open>C35: with a clock that does not run backwards, two handler runs of one fingerprint are at least
  the cooldown apart, over any sequence of requests.\<close>

theorem handler_runs_spaced:
  assumes "sorted (map fst (concat (map posted rqs)))"
  shows "sorted_wrt (\<lambda>r r'. hr_fp r = hr_fp r' \<longrightarrow> \<not> fsub (hr_time r') (hr_time r) < COOLDOWN_SECONDS)
     (aw_runs (aw_serve cfg rqs aw_init))"
proof (cases "aw_dry_run cfg")
  case True
  then show ?thesis by (simp add: serve_posted fold_alerts_dry aw_init_def)
next
  case False
  let ?as = "concat (map posted rqs)" and ?r = "aw_runs (aw_serve cfg rqs aw_init)"
  have "sorted (map fst (filter (routed cfg) ?as))" using assms by (rule sorted_filter)
  then have "sorted (map snd (map (admission cfg) (filter (routed cfg) ?as)))"
    by (simp add: admission_def comp_def)
  from aw.run_spaced[OF this, of "[]"]
  have "sorted_wrt (\<lambda>(k, t) (k', t'). k = k' \<longrightarrow> \<not> fsub t' t < COOLDOWN_SECONDS)
      (map (\<lambda>r. (hr_fp r, hr_time r)) ?r)"
    using fold_alerts_runs[of aw_init cfg ?as] False
    by (simp add: serve_posted fold_alerts_admitted aw_init_def)
  then show ?thesis by (simp add: sorted_wrt_map)
qed

definition fire :: "string \<Rightarrow> alert" where
  "fire n = \<lparr>al_status = Some ''firing'', al_labels = Some [(''alertname'', ''Fan''), (''node'', n)],
     al_annotations = None, al_starts_at = None\<rparr>"

definition aw_demo :: aw_config where
  "aw_demo = \<lparr>aw_exists = (\<lambda>p. p = ''Fan.sh''), aw_sha256 = (\<lambda>s. drop 28 s), aw_environ = [],
     aw_dry_run = False, aw_exec = (\<lambda>p e. Exited 0)\<rparr>"

definition aw_requests :: "aw_request list" where
  "aw_requests = [\<lparr>ar_path = ''/webhook'', ar_body = Alerts [(1000, fire ''a''), (1010, fire ''a'')]\<rparr>,
     \<lparr>ar_path = ''/webhook'', ar_body = Alerts [(1300, fire ''a'')]\<rparr>]"

theorem handler_runs_spaced_witness:
  "map hr_time (aw_runs (aw_serve aw_demo aw_requests aw_init)) = [1000, 1300] \<and>
   sorted_wrt (\<lambda>r r'. hr_fp r = hr_fp r' \<longrightarrow> \<not> fsub (hr_time r') (hr_time r) < COOLDOWN_SECONDS)
     (aw_runs (aw_serve aw_demo aw_requests aw_init))"
proof
  show "map hr_time (aw_runs (aw_serve aw_demo aw_requests aw_init)) = [1000, 1300]" by code_simp
  show "sorted_wrt (\<lambda>r r'. hr_fp r = hr_fp r' \<longrightarrow> \<not> fsub (hr_time r') (hr_time r) < COOLDOWN_SECONDS)
     (aw_runs (aw_serve aw_demo aw_requests aw_init))"
    by (rule handler_runs_spaced) (simp add: aw_requests_def posted_def)
qed

section \<open>The runs that are due\<close>

text \<open>Over the alerts in order: one is due when it fires, its script is there, and no alert with the same labels that was
  due came less than 300 seconds before it. Labels are compared as sets.\<close>

fun due :: "aw_config \<Rightarrow> (label_map \<times> rat) list \<Rightarrow> (rat \<times> alert) list \<Rightarrow> (rat \<times> alert) list" where
  "due cfg past [] = []"
| "due cfg past ((t, a) # as) =
     (if al_status a = Some ''firing'' \<and> aw_exists cfg (alert_name a @ ''.sh'') \<and>
         (\<forall>(l, u) \<in> set past. set l = set (get_labels a) \<longrightarrow> 300 \<le> fsub t u)
      then (t, a) # due cfg ((get_labels a, t) # past) as else due cfg past as)"

text \<open>What a script finds in its environment: the status, the time of the start, every label under \<open>ALERT_\<close> and
  its name in capitals (unless another name gives the same variable), and outside \<open>ALERT_\<close> what the server has.\<close>

definition told :: "label_map \<Rightarrow> alert \<Rightarrow> label_map \<Rightarrow> bool" where
  "told environ a env \<longleftrightarrow>
     dget env ''ALERT_STATUS'' = al_status a \<and>
     dget env ''ALERT_STARTS_AT'' = Some (case al_starts_at a of Some s \<Rightarrow> s | None \<Rightarrow> []) \<and>
     (\<forall>(k, v) \<in> set (get_labels a). (\<forall>(k', v') \<in> set (get_labels a). upper k' = upper k \<longrightarrow> k' = k) \<and>
        upper k \<notin> {''STATUS'', ''STARTS_AT''} \<and> \<not> starts_with ''ANNOTATION_'' (upper k) \<longrightarrow>
        dget env (''ALERT_'' @ upper k) = Some v) \<and>
     (\<forall>x. \<not> starts_with ''ALERT_'' x \<longrightarrow> dget env x = dget environ x)"

lemma fold_dset_other:
  "x \<notin> (\<lambda>(k, v). f k) ` set kvs \<Longrightarrow> dget (fold (\<lambda>(k, v). dset (f k) v) kvs env) x = dget env x"
  by (induction kvs arbitrary: env) auto

lemma fold_dset_at:
  "x \<in> (\<lambda>(k, v). f k) ` set kvs \<or> dget env x = Some v \<Longrightarrow> \<forall>(k', v') \<in> set kvs. f k' = x \<longrightarrow> v' = v \<Longrightarrow>
   dget (fold (\<lambda>(k, v). dset (f k) v) kvs env) x = Some v"
proof (induction kvs arbitrary: env)
  case (Cons kv kvs)
  show ?case using Cons.prems by (cases kv) (simp, rule Cons.IH, auto)
qed simp

lemma fold_dset_key:
  assumes "(k, v) \<in> set kvs" "\<And>k' v'. (k', v') \<in> set kvs \<Longrightarrow> f k' = f k \<Longrightarrow> v' = v"
  shows "dget (fold (\<lambda>(k, v). dset (f k) v) kvs env) (f k) = Some v"
proof (rule fold_dset_at)
  show "f k \<in> (\<lambda>(k, v). f k) ` set kvs \<or> dget env (f k) = Some v" using assms(1) by force
  show "\<forall>(k', v') \<in> set kvs. f k' = f k \<longrightarrow> v' = v" using assms(2) by blast
qed

lemma handler_env_told:
  assumes "dict_ok (get_labels a)" "al_status a = Some st"
  shows "told environ a (handler_env environ a)"
proof -
  let ?ls = "get_labels a" and ?as = "case al_annotations a of Some n \<Rightarrow> n | None \<Rightarrow> []"
  let ?e = "fold (\<lambda>(k, v). dset (''ALERT_ANNOTATION_'' @ upper k) v) ?as (fold (\<lambda>(k, v). dset (''ALERT_'' @ upper k) v) ?ls environ)"
  have e: "dget (handler_env environ a) x = (if x = ''ALERT_STARTS_AT'' then Some (case al_starts_at a of Some s \<Rightarrow> s | None \<Rightarrow> [])
      else if x = ''ALERT_STATUS'' then Some st else dget ?e x)" for x
    using assms(2) by (simp add: handler_env_def Let_def)
  have "dget (handler_env environ a) (''ALERT_'' @ upper k) = Some v"
    if "(k, v) \<in> set ?ls" "\<forall>(k', v') \<in> set ?ls. upper k' = upper k \<longrightarrow> k' = k" "upper k \<notin> {''STATUS'', ''STARTS_AT''}"
      "\<not> starts_with ''ANNOTATION_'' (upper k)" for k v
  proof -
    have "''ALERT_'' @ upper k \<notin> (\<lambda>(k, v). ''ALERT_ANNOTATION_'' @ upper k) ` set ?as"
      using that(4) by (auto simp: starts_with_iff)
    then have "dget ?e (''ALERT_'' @ upper k) = dget (fold (\<lambda>(k, v). dset (''ALERT_'' @ upper k) v) ?ls environ) (''ALERT_'' @ upper k)"
      by (rule fold_dset_other)
    moreover have "v' = v" if "(k', v') \<in> set ?ls" "''ALERT_'' @ upper k' = ''ALERT_'' @ upper k" for k' v'
    proof -
      have "k' = k" using that \<open>\<forall>(k', v') \<in> set ?ls. _\<close> by fastforce
      then show ?thesis
        using eq_key_imp_eq_value[OF assms(1)[unfolded dict_ok_def dkeys_def] _ \<open>(k, v) \<in> set ?ls\<close>] that(1) by blast
    qed
    then have "dget (fold (\<lambda>(k, v). dset (''ALERT_'' @ upper k) v) ?ls environ) (''ALERT_'' @ upper k) = Some v"
      by (rule fold_dset_key[where f = "\<lambda>k. ''ALERT_'' @ upper k", OF that(1)])
    ultimately show ?thesis using that(3) e by simp
  qed
  moreover have "dget (handler_env environ a) x = dget environ x" if "\<not> starts_with ''ALERT_'' x" for x
  proof -
    have "x \<notin> (\<lambda>(k, v). ''ALERT_ANNOTATION_'' @ upper k) ` set ?as" "x \<notin> (\<lambda>(k, v). ''ALERT_'' @ upper k) ` set ?ls"
      "x \<noteq> ''ALERT_STATUS''" "x \<noteq> ''ALERT_STARTS_AT''"
      using that by (auto simp: starts_with_iff)
    then show ?thesis unfolding e by (simp add: fold_dset_other)
  qed
  ultimately show ?thesis unfolding told_def using e assms(2) by auto
qed

text \<open>Texts of labels are equal exactly when the labels are.\<close>

lemma json_dumps_inj:
  assumes "dict_ok l" "dict_ok l'"
  shows "json_dumps l = json_dumps l' \<longleftrightarrow> set l = set l'"
proof -
  let ?j = "\<lambda>l. JObj (map (\<lambda>(k, v). (k, JStr v)) (sort_key fst l))"
  have ok: "json_ok (float_text (\<lambda>q. [])) (?j l)" if "dict_ok l" for l :: label_map
    using that by (auto simp: dict_ok_def dkeys_def comp_def case_prod_unfold list_all_iff distinct_map)
  have inj: "inj (\<lambda>(k :: string, v). (k, JStr v))" by (auto simp: inj_on_def)
  have "sort_key fst l = sort_key fst l' \<longleftrightarrow> set l = set l'"
  proof
    assume "set l = set l'"
    then have i: "inj_on fst (set l \<union> set l')" using assms by (simp add: dict_ok_def dkeys_def distinct_map)
    then show "sort_key fst l = sort_key fst l'"
      using assms \<open>set l = set l'\<close>
      by (intro map_sorted_distinct_set_unique[of fst]) (simp_all add: dict_ok_def dkeys_def distinct_map)
  qed (metis set_sort)
  moreover have "json_dumps l = json_dumps l' \<longleftrightarrow> ?j l = ?j l'"
    using loads_dumps[OF ok[OF assms(1)], of None] loads_dumps[OF ok[OF assms(2)], of None]
    unfolding json_dumps_def by (metis option.inject)
  moreover have "?j l = ?j l' \<longleftrightarrow> sort_key fst l = sort_key fst l'" using inj by (simp add: inj_map_eq_map)
  ultimately show ?thesis by simp
qed

lemma handle_alert_run:
  "aw_runs (handle_alert cfg (now, a) s) = aw_runs s @
     (if routed cfg (now, a) \<and> aw_may (aw_recent s) (make_fingerprint (aw_sha256 cfg) a) now \<and> \<not> aw_dry_run cfg
      then [\<lparr>hr_fp = make_fingerprint (aw_sha256 cfg) a, hr_time = now,
             hr_script = alert_name a @ ''.sh'', hr_env = handler_env (aw_environ cfg) a\<rparr>] else [])"
  by (auto simp: handle_alert_def run_handler_def handler_path_def allowed_def aw_may_def Let_def routed_def)

text \<open>The cooldown table holds, for the past admissions, the last time of each set of labels.\<close>

definition table_of :: "aw_config \<Rightarrow> (label_map \<times> rat) list \<Rightarrow> recent \<Rightarrow> bool" where
  "table_of cfg past r \<longleftrightarrow>
     (\<forall>(l, u) \<in> set past. \<exists>u'. dget r (take 16 (aw_sha256 cfg (json_dumps l))) = Some u' \<and> u \<le> u') \<and>
     (\<forall>fp u. dget r fp = Some u \<longrightarrow> (\<exists>l. (l, u) \<in> set past \<and> fp = take 16 (aw_sha256 cfg (json_dumps l))))"

lemma is_f64_300: "is_f64 300"
  by code_simp

lemma table_may:
  assumes "table_of cfg past r" "300 \<le> t" "inj_on (\<lambda>x. take 16 (aw_sha256 cfg x)) (json_dumps ` insert l (fst ` set past))"
    "dict_ok l" "\<forall>(l, u) \<in> set past. dict_ok l"
  shows "aw_may r (take 16 (aw_sha256 cfg (json_dumps l))) t \<longleftrightarrow> (\<forall>(l', u) \<in> set past. set l' = set l \<longrightarrow> 300 \<le> fsub t u)"
proof (cases "dget r (take 16 (aw_sha256 cfg (json_dumps l)))")
  case None
  have "set l' \<noteq> set l" if "(l', u) \<in> set past" for l' u
    using assms(1,4,5) that None json_dumps_inj[of l' l] by (fastforce simp: table_of_def)
  moreover have "300 \<le> fsub t 0" using rnd_ge[OF is_f64_300 assms(2)] by (simp add: fsub_def)
  ultimately show ?thesis using None by (auto simp: aw_may_def dgetd_def COOLDOWN_SECONDS_def)
next
  case (Some u')
  then obtain l' where l': "(l', u') \<in> set past" "take 16 (aw_sha256 cfg (json_dumps l)) = take 16 (aw_sha256 cfg (json_dumps l'))"
    using assms(1) unfolding table_of_def by blast
  then have "json_dumps l = json_dumps l'" using inj_onD[OF assms(3), of "json_dumps l" "json_dumps l'"] by force
  then have same: "set l' = set l" using json_dumps_inj[of l l'] assms(4,5) l' by auto
  have "u \<le> u'" if "(l2, u) \<in> set past" "set l2 = set l" for l2 u
  proof -
    have "json_dumps l2 = json_dumps l" using json_dumps_inj[of l2 l] that assms(4,5) by auto
    then show ?thesis using assms(1) that(1) Some by (auto simp: table_of_def)
  qed
  then have "300 \<le> fsub t u' \<Longrightarrow> (l2, u) \<in> set past \<Longrightarrow> set l2 = set l \<Longrightarrow> 300 \<le> fsub t u" for l2 u
    using fsub_antimono order_trans by blast
  then show ?thesis using Some l'(1) same by (fastforce simp: aw_may_def dgetd_def COOLDOWN_SECONDS_def)
qed

lemma table_mark:
  assumes "table_of cfg past r" "\<forall>(l, u) \<in> set past. u \<le> t"
  shows "table_of cfg ((l, t) # past) (dset (take 16 (aw_sha256 cfg (json_dumps l))) t r)"
  using assms unfolding table_of_def by (auto split: if_splits) blast+

definition run_of :: "label_map \<Rightarrow> handler_run \<Rightarrow> rat \<times> alert \<Rightarrow> bool" where
  "run_of environ r ta \<longleftrightarrow> hr_time r = fst ta \<and> hr_script r = alert_name (snd ta) @ ''.sh'' \<and> told environ (snd ta) (hr_env r)"

lemma told_run:
  "dict_ok (get_labels a) \<Longrightarrow> al_status a = Some st \<Longrightarrow>
   run_of environ \<lparr>hr_fp = fp, hr_time = t, hr_script = alert_name a @ ''.sh'', hr_env = handler_env environ a\<rparr> (t, a)"
  by (simp add: run_of_def handler_env_told)

lemma handle_alerts_due:
  assumes "sorted (map fst as)" "\<forall>(t, a) \<in> set as. 300 \<le> t \<and> dict_ok (get_labels a)" "\<forall>(l, u) \<in> set past. dict_ok l \<and> (\<forall>(t, a) \<in> set as. u \<le> t)"
    "inj_on (\<lambda>x. take 16 (aw_sha256 cfg x)) (json_dumps ` (fst ` set past \<union> (\<lambda>(t, a). get_labels a) ` set as))"
    "table_of cfg past (aw_recent s)" "\<not> aw_dry_run cfg"
  shows "\<exists>rs. aw_runs (fold (handle_alert cfg) as s) = aw_runs s @ rs \<and> list_all2 (run_of (aw_environ cfg)) rs (due cfg past as)"
  using assms
proof (induction as arbitrary: past s)
  case (Cons ta as)
  obtain t a where ta: "ta = (t, a)" by (cases ta)
  let ?fp = "take 16 (aw_sha256 cfg (json_dumps (get_labels a)))"
  have fp: "make_fingerprint (aw_sha256 cfg) a = ?fp" by (simp add: make_fingerprint_def)
  have inj: "inj_on (\<lambda>x. take 16 (aw_sha256 cfg x)) (json_dumps ` insert (get_labels a) (fst ` set past))"
    "inj_on (\<lambda>x. take 16 (aw_sha256 cfg x)) (json_dumps ` (fst ` set past \<union> (\<lambda>(t, a). get_labels a) ` set as))"
    by (rule inj_on_subset[OF Cons.prems(4)]; auto simp: ta)+
  have may: "aw_may (aw_recent s) ?fp t \<longleftrightarrow> (\<forall>(l', u) \<in> set past. set l' = set (get_labels a) \<longrightarrow> 300 \<le> fsub t u)"
    by (rule table_may[OF Cons.prems(5) _ inj(1)]) (use Cons.prems(2,3) in \<open>auto simp: ta\<close>)
  note IH = Cons.IH[OF _ _ _ _ _ Cons.prems(6)]
  show ?case
  proof (cases "routed cfg ta \<and> aw_may (aw_recent s) ?fp t")
    case True
    have "table_of cfg ((get_labels a, t) # past) (aw_recent (handle_alert cfg ta s))"
      using table_mark[OF Cons.prems(5), of t "get_labels a"] Cons.prems(3) True
      by (fastforce simp: handle_alert_admitted ta admission_def fp)
    then obtain rs where "aw_runs (fold (handle_alert cfg) as (handle_alert cfg ta s)) = aw_runs (handle_alert cfg ta s) @ rs"
      "list_all2 (run_of (aw_environ cfg)) rs (due cfg ((get_labels a, t) # past) as)"
      using IH[of "(get_labels a, t) # past" "handle_alert cfg ta s"] Cons.prems(1-4) by (auto simp: ta case_prod_unfold)
    then show ?thesis
      using True may Cons.prems(2,6)
      by (auto simp: ta handle_alert_run fp routed_def told_run)
  next
    case False
    have r: "aw_recent (handle_alert cfg ta s) = aw_recent s" "aw_runs (handle_alert cfg ta s) = aw_runs s"
      using False by (auto simp: ta handle_alert_admitted handle_alert_run admission_def fp)
    have "\<exists>rs. aw_runs (fold (handle_alert cfg) as (handle_alert cfg ta s)) = aw_runs (handle_alert cfg ta s) @ rs \<and>
      list_all2 (run_of (aw_environ cfg)) rs (due cfg past as)"
      by (rule IH) (use Cons.prems(1-3,5) r inj(2) in \<open>auto simp: ta\<close>)
    then show ?thesis using False may r by (auto simp: ta routed_def)
  qed
qed simp

text \<open>C36: over any sequence of requests, with a clock that does not run backwards and reads 300 seconds or more, labels
  with distinct names, and label texts that the first sixteen digits of the digest tell apart, the handler runs are exactly those of the alerts that are due: an alert that fires and has
  a script runs it unless one with the very same set of labels was run less than 300 seconds before; the script is the one
  named after the alert, and it is told the labels, the status and the start of its own alert. In dry-run
  mode nothing runs.\<close>

theorem handler_runs_exact:
  assumes "as = concat (map posted rqs)" "sorted (map fst as)" "\<forall>(t, a) \<in> set as. 300 \<le> t \<and> dict_ok (get_labels a)"
    "inj_on (\<lambda>x. take 16 (aw_sha256 cfg x)) ((\<lambda>(t, a). json_dumps (get_labels a)) ` set as)"
  shows "if aw_dry_run cfg then aw_runs (aw_serve cfg rqs aw_init) = []
    else list_all2 (\<lambda>r (t, a). hr_time r = t \<and> hr_script r = alert_name a @ ''.sh'' \<and> told (aw_environ cfg) a (hr_env r))
      (aw_runs (aw_serve cfg rqs aw_init)) (due cfg [] as)"
proof (cases "aw_dry_run cfg")
  case True
  then show ?thesis by (simp add: serve_posted fold_alerts_dry aw_init_def)
next
  case False
  have "\<exists>rs. aw_runs (fold (handle_alert cfg) as aw_init) = aw_runs aw_init @ rs \<and> list_all2 (run_of (aw_environ cfg)) rs (due cfg [] as)"
    by (rule handle_alerts_due)
       (use assms(2-4) False in \<open>simp_all add: table_of_def aw_init_def image_image case_prod_unfold\<close>)
  then show ?thesis
    using False unfolding serve_posted assms(1)[symmetric] by (simp add: aw_init_def run_of_def[abs_def] case_prod_unfold)
qed

definition two_nodes :: "aw_request list" where
  "two_nodes = [\<lparr>ar_path = ''/webhook'', ar_body = Alerts [(1000, fire ''a''), (1010, fire ''a''), (1020, fire ''b'')]\<rparr>,
     \<lparr>ar_path = ''/webhook'', ar_body = Alerts [(1290, fire ''a''), (1300, fire ''a'')]\<rparr>]"

theorem handler_runs_exact_witness:
  "map (\<lambda>r. (hr_time r, hr_script r, dget (hr_env r) ''ALERT_NODE'')) (aw_runs (aw_serve aw_demo two_nodes aw_init)) =
     [(1000, ''Fan.sh'', Some ''a''), (1020, ''Fan.sh'', Some ''b''), (1300, ''Fan.sh'', Some ''a'')]"
proof -
  let ?as = "concat (map posted two_nodes)"
  have as: "?as = [(1000, fire ''a''), (1010, fire ''a''), (1020, fire ''b''), (1290, fire ''a''), (1300, fire ''a'')]"
    by (simp add: two_nodes_def posted_def)
  have d: "due aw_demo [] ?as = [(1000, fire ''a''), (1020, fire ''b''), (1300, fire ''a'')]"
    unfolding two_nodes_def by code_simp
  have j: "take 16 (aw_sha256 aw_demo (json_dumps (get_labels (fire ''a'')))) \<noteq> take 16 (aw_sha256 aw_demo (json_dumps (get_labels (fire ''b''))))"
    by code_simp
  have n: "upper ''alertname'' = ''ALERTNAME''" "upper ''node'' = ''NODE''" by code_simp+
  have "dget env ''ALERT_NODE'' = Some x" if "told e (fire x) env" for e x env
    using that unfolding told_def by (simp add: fire_def get_labels_def starts_with_def n)
  moreover have "list_all2 (\<lambda>r (t, a). hr_time r = t \<and> hr_script r = alert_name a @ ''.sh'' \<and> told [] a (hr_env r))
      (aw_runs (aw_serve aw_demo two_nodes aw_init)) (due aw_demo [] ?as)"
    using handler_runs_exact[OF refl, of two_nodes aw_demo] j
    by (simp add: as aw_demo_def inj_on_def fire_def get_labels_def dict_ok_def)
  ultimately show ?thesis
    unfolding d by (auto simp: list_all2_Cons2 fire_def alert_name_def get_labels_def dgetd_def)
qed

end
