(* ===== verification/Correlation.thy ===== *)
theory Correlation
  imports PyRegex PyFloat
begin

text \<open>
  The event stream: \<open>correlation/dmesg_watcher.py\<close> turns kernel lines into events,
  \<open>correlation/event_correlator.py\<close> keeps them in a sliding window and reports bursts. JSON
  between the two is modelled after parsing; the clock is an argument of every operation that
  reads it. The dash in one description is written as a hyphen.
\<close>

section \<open>The watcher\<close>

definition RE_DMESG :: regex where
  "RE_DMESG = Seqs [Bol, Lit ''['', Star Space, Grp 1 (Seqs [Plus Digit, Lit ''.'', Plus Digit]),
     Lit '']'', Star Space, Grp 2 (Star (Cls not_nl))]"

abbreviation Any :: regex where "Any \<equiv> Star (Cls not_nl)"

text \<open>Pattern, number of its groups, event type, severity.\<close>

definition PATTERNS :: "(regex \<times> nat \<times> string \<times> string) list" where
  "PATTERNS =
     [(Seqs [Lit ''EDAC MC'', Grp 1 (Plus Digit), Lit '': '', Grp 2 (Plus Digit), Lit '' CE''],
         2, ''edac_ce'', ''warning''),
      (Seqs [Lit ''EDAC MC'', Grp 1 (Plus Digit), Lit '': '', Grp 2 (Plus Digit), Lit '' UE''],
         2, ''edac_ue'', ''critical''),
      (Lit ''mce: [Hardware Error]: Machine check events logged'', 0, ''mce'', ''critical''),
      (Seqs [Lit ''pcieport'', Any, Lit ''AER'', Any, Lit ''Corrected error''],
         0, ''pcie_aer_correctable'', ''info''),
      (Seqs [Lit ''pcieport'', Any, Lit ''AER'', Any, Lit ''Uncorrected '', Cls not_nl,
         Lit ''Non-Fatal'', Cls not_nl, Lit '' error''], 0, ''pcie_aer_nonfatal'', ''warning''),
      (Seqs [Lit ''pcieport'', Any, Lit ''AER'', Any, Lit ''Uncorrected '', Cls not_nl,
         Lit ''Fatal'', Cls not_nl, Lit '' error''], 0, ''pcie_aer_fatal'', ''critical''),
      (Seqs [Lit ''cxl'', Any, Lit ''correctable error''], 0, ''cxl_ce'', ''warning''),
      (Seqs [Lit ''cxl'', Any, Lit ''uncorrectable error''], 0, ''cxl_ue'', ''critical''),
      (Seqs [Lit ''thermal thermal_zone'', Grp 1 (Plus Digit),
         Lit '': critical temperature reached''], 1, ''thermal_critical'', ''critical''),
      (Lit ''Under-voltage detected'', 0, ''undervoltage'', ''warning'')]"

record dmesg_event =
  de_timestamp :: rat
  de_kernel_ts :: pf
  de_type :: string
  de_severity :: string
  de_message :: string
  de_groups :: "string option list"

text \<open>The first pattern that is found in the message.\<close>

fun first_pattern ::
    "(regex \<times> nat \<times> string \<times> string) list \<Rightarrow> string \<Rightarrow> (string \<times> string \<times> string option list) option" where
  "first_pattern [] message = None"
| "first_pattern ((r, n, etype, sev) # ps) message =
     (case re_search r message of
        Some m \<Rightarrow> Some (etype, sev, map (\<lambda>i. m_group m (Suc i)) [0..<n])
      | None \<Rightarrow> first_pattern ps message)"

definition group_text :: "rmatch_obj \<Rightarrow> nat \<Rightarrow> string" where
  "group_text m n = (case m_group m n of Some u \<Rightarrow> u | None \<Rightarrow> [])"

definition parse_dmesg_line :: "rat \<Rightarrow> string \<Rightarrow> dmesg_event option py" where
  "parse_dmesg_line now line =
     (case re_match RE_DMESG line of
        None \<Rightarrow> Inr None
      | Some m \<Rightarrow>
          (case py_float (group_text m 1) of
             None \<Rightarrow> Inl (ValueError (group_text m 1))
           | Some ts \<Rightarrow>
               (let message = strip (group_text m 2) in
                Inr (map_option (\<lambda>(etype, sev, gs).
                  \<lparr>de_timestamp = now, de_kernel_ts = ts, de_type = etype, de_severity = sev,
                   de_message = message, de_groups = gs\<rparr>) (first_pattern PATTERNS message)))))"

section \<open>The window\<close>

text \<open>A parsed event: its time stamp, if it has one, and its type.\<close>

record event =
  evt_timestamp :: "rat option"
  evt_type :: string

record event_buffer =
  eb_window :: rat
  eb_events :: "event list"

definition stamp :: "event \<Rightarrow> rat" where
  "stamp e = (case evt_timestamp e of Some t \<Rightarrow> t | None \<Rightarrow> 0)"

definition expire :: "rat \<Rightarrow> event_buffer \<Rightarrow> event_buffer" where
  "expire now b =
     (let cutoff = fsub now (eb_window b)
      in b\<lparr>eb_events := filter (\<lambda>e. stamp e \<ge> cutoff) (eb_events b)\<rparr>)"

definition add :: "rat \<Rightarrow> event \<Rightarrow> event_buffer \<Rightarrow> event_buffer" where
  "add now e b = expire now (b\<lparr>eb_events := eb_events b @ [e]\<rparr>)"

definition events_of_type :: "rat \<Rightarrow> string \<Rightarrow> event_buffer \<Rightarrow> event list \<times> event_buffer" where
  "events_of_type now t b = (let b = expire now b in (filter (\<lambda>e. evt_type e = t) (eb_events b), b))"

definition recent :: "rat \<Rightarrow> event_buffer \<Rightarrow> event list \<times> event_buffer" where
  "recent now b = (let b = expire now b in (eb_events b, b))"

definition count_by_type :: "rat \<Rightarrow> event_buffer \<Rightarrow> (string, int) dict \<times> event_buffer" where
  "count_by_type now b =
     (let b = expire now b in (fold (\<lambda>e. dbump (evt_type e)) (eb_events b) [], b))"

section \<open>Correlations\<close>

record correlation =
  co_type :: string
  co_severity :: string
  co_description :: string
  co_event_type :: "string option"
  co_count :: "int option"

definition CORRELATION_WINDOW_S :: int where "CORRELATION_WINDOW_S = 60"

definition storm :: "string \<times> int \<Rightarrow> correlation list" where
  "storm ec =
     (let (etype, cnt) = ec in
      if cnt \<ge> 3
      then [\<lparr>co_type = ''event_storm'', co_severity = ''warning'',
             co_description = etype @ '' storm: '' @ str_int cnt @ '' events in '' @
               str_int CORRELATION_WINDOW_S @ ''s'',
             co_event_type = Some etype, co_count = Some cnt\<rparr>]
      else [])"

definition correlations_of :: "(string, int) dict \<Rightarrow> correlation list" where
  "correlations_of by_type =
     (let n = (\<lambda>t. dgetd by_type t 0) in
      (if n ''edac_ce'' > 0 \<and> n ''mce'' > 0
       then [\<lparr>co_type = ''memory_multi_source'', co_severity = ''critical'',
              co_description = ''EDAC CE ('' @ str_int (n ''edac_ce'') @ '') + MCE ('' @
                str_int (n ''mce'') @ '') within '' @ str_int CORRELATION_WINDOW_S @ ''s'',
              co_event_type = None, co_count = None\<rparr>] else []) @
      (if n ''pcie_aer_fatal'' > 0 \<and> n ''edac_ue'' > 0
       then [\<lparr>co_type = ''pcie_memory_cascade'', co_severity = ''critical'',
              co_description = ''PCIe AER fatal + EDAC UE - possible interconnect failure'',
              co_event_type = None, co_count = None\<rparr>] else []) @
      concat (map storm by_type))"

definition detect_correlations :: "rat \<Rightarrow> event_buffer \<Rightarrow> correlation list \<times> event_buffer" where
  "detect_correlations now b = (let (by_type, b) = count_by_type now b in (correlations_of by_type, b))"

section \<open>The loop\<close>

text \<open>What a line of input holds after stripping and parsing; \<open>Skipped\<close> is an empty line, a line
  that is no JSON, or an object without a type. The two clocks are those of \<open>add\<close> and of
  \<open>count_by_type\<close>.\<close>

datatype input_line = Skipped | Got rat rat event

type_synonym corr_key = "string \<times> string"

definition corr_key :: "correlation \<Rightarrow> corr_key" where
  "corr_key c = (co_type c, case co_event_type c of Some t \<Rightarrow> t | None \<Rightarrow> [])"

text \<open>Each correlation not seen yet is pushed as an annotation.\<close>

fun push_new :: "corr_key list \<Rightarrow> correlation list \<Rightarrow> corr_key list \<times> correlation list" where
  "push_new seen [] = (seen, [])"
| "push_new seen (c # cs) =
     (if corr_key c \<in> set seen then push_new seen cs
      else let (seen', out) = push_new (corr_key c # seen) cs in (seen', c # out))"

definition correlate_line ::
    "input_line \<Rightarrow> event_buffer \<times> corr_key list \<Rightarrow> (event_buffer \<times> corr_key list) \<times> correlation list" where
  "correlate_line l st =
     (let (b, seen) = st in
      case l of
        Skipped \<Rightarrow> (st, [])
      | Got t1 t2 e \<Rightarrow>
          (let (cs, b) = detect_correlations t2 (add t1 e b); (seen, out) = push_new seen cs
           in ((b, if length seen > 100 then [] else seen), out)))"

fun correlate ::
    "input_line list \<Rightarrow> event_buffer \<times> corr_key list \<Rightarrow> (event_buffer \<times> corr_key list) \<times> correlation list" where
  "correlate [] st = (st, [])"
| "correlate (l # ls) st =
     (let (st, out) = correlate_line l st; (st, out') = correlate ls st in (st, out @ out'))"

definition new_buffer :: "rat \<Rightarrow> event_buffer" where
  "new_buffer window = \<lparr>eb_window = window, eb_events = []\<rparr>"

section \<open>The window keeps what it should\<close>

fun clocks :: "input_line list \<Rightarrow> rat list" where
  "clocks [] = []"
| "clocks (Skipped # ls) = clocks ls"
| "clocks (Got t1 t2 e # ls) = t1 # t2 # clocks ls"

fun inputs :: "input_line list \<Rightarrow> event list" where
  "inputs [] = []"
| "inputs (Skipped # ls) = inputs ls"
| "inputs (Got t1 t2 e # ls) = e # inputs ls"

text \<open>The buffer holds, of all events added, those inside the window of the last clock.\<close>

definition holds :: "event list \<Rightarrow> rat \<Rightarrow> event_buffer \<Rightarrow> bool" where
  "holds all now b \<longleftrightarrow> eb_events b = filter (\<lambda>e. stamp e \<ge> fsub now (eb_window b)) all"

lemma expire_window [simp]: "eb_window (expire now b) = eb_window b"
  by (simp add: expire_def Let_def)

lemma holds_expire: "holds all now b \<Longrightarrow> now \<le> now' \<Longrightarrow> holds all now' (expire now' b)"
  unfolding holds_def expire_def Let_def
  using fsub_mono[of now now' "eb_window b"] by (auto intro!: filter_cong)

lemma holds_add: "holds all now b \<Longrightarrow> now \<le> now' \<Longrightarrow> holds (all @ [e]) now' (add now' e b)"
  unfolding holds_def add_def expire_def Let_def
  using fsub_mono[of now now' "eb_window b"] by (auto intro!: filter_cong)

lemma add_window [simp]: "eb_window (add now e b) = eb_window b"
  by (simp add: add_def)

lemma correlate_line_buffer:
  "fst (fst (correlate_line l (b, seen))) =
     (case l of Skipped \<Rightarrow> b | Got t1 t2 e \<Rightarrow> expire t2 (add t1 e b))"
  by (auto simp: correlate_line_def detect_correlations_def count_by_type_def Let_def
      split: input_line.splits prod.splits)

lemma correlate_holds:
  "holds all now b \<Longrightarrow> sorted (now # clocks ls) \<Longrightarrow>
   holds (all @ inputs ls) (last (now # clocks ls)) (fst (fst (correlate ls (b, seen))))"
proof (induction ls arbitrary: all now b seen rule: clocks.induct)
  case (2 ls)
  then show ?case by (simp add: correlate_line_def Let_def split: prod.splits)
next
  case (3 t1 t2 e ls)
  obtain b' seen' out where l: "correlate_line (Got t1 t2 e) (b, seen) = ((b', seen'), out)"
    by (metis surj_pair)
  have b': "b' = expire t2 (add t1 e b)"
    using correlate_line_buffer[of "Got t1 t2 e" b seen] l by simp
  have "holds (all @ [e]) t2 b'"
    unfolding b' using 3(2,3) by (intro holds_expire[of _ t1] holds_add[of _ now]) auto
  from 3(1)[OF this, of seen'] 3(3) show ?case
    by (auto simp: l split: prod.splits)
qed simp

section \<open>What is reported\<close>

lemma count_by_type_fold:
  "fst (count_by_type now b) = fold dbump (map evt_type (eb_events (expire now b))) []"
  by (simp add: count_by_type_def Let_def fold_map comp_def)

lemma count_list_types: "count_list (map evt_type es) t = length (filter (\<lambda>e. evt_type e = t) es)"
  by (induction es) auto

lemma count_by_type_get:
  "dget (fst (count_by_type now b)) t =
     (let n = length (filter (\<lambda>e. evt_type e = t) (eb_events (expire now b)))
      in if n = 0 then None else Some (int n))"
  unfolding count_by_type_fold dget_fold_dbump count_list_types
  by (auto simp: filter_empty_conv)

lemma count_by_type_ok: "dict_ok (fst (count_by_type now b))"
  unfolding count_by_type_fold by simp

lemma count_by_type_keys: "(t, n) \<in> set (fst (count_by_type now b)) \<Longrightarrow> t \<in> evt_type ` set (eb_events b)"
  unfolding dict_mem_iff[OF count_by_type_ok] count_by_type_get
  by (force simp: Let_def expire_def filter_empty_conv split: if_splits)

lemma push_new_spec:
  "push_new seen cs = (seen', out) \<Longrightarrow> distinct seen \<Longrightarrow>
   seen' = rev (map corr_key out) @ seen \<and> distinct seen' \<and> set out \<subseteq> set cs"
  by (induction seen cs arbitrary: seen' out rule: push_new.induct)
     (auto split: if_splits prod.splits)

lemma correlation_keys:
  "c \<in> set (correlations_of d) \<Longrightarrow>
   corr_key c \<in> {(''memory_multi_source'', []), (''pcie_memory_cascade'', [])} \<union>
     (\<lambda>kv. (''event_storm'', fst kv)) ` set d"
  by (force simp: correlations_of_def Let_def storm_def corr_key_def split: if_splits)

definition possible_keys :: "string set \<Rightarrow> corr_key set" where
  "possible_keys T = {(''memory_multi_source'', []), (''pcie_memory_cascade'', [])} \<union>
     (\<lambda>t. (''event_storm'', t)) ` T"

lemma possible_keys_card: "finite T \<Longrightarrow> card T \<le> 98 \<Longrightarrow> finite (possible_keys T) \<and> card (possible_keys T) \<le> 100"
proof
  assume T: "finite T" "card T \<le> 98"
  show "finite (possible_keys T)" using T by (simp add: possible_keys_def)
  have "card (possible_keys T) \<le> card {(''memory_multi_source'', []), (''pcie_memory_cascade'', [] :: string)} +
      card ((\<lambda>t. (''event_storm'', t)) ` T)"
    unfolding possible_keys_def by (rule card_Un_le)
  also have "\<dots> \<le> 2 + card T" using card_image_le[OF T(1)] by (intro add_mono) auto
  finally show "card (possible_keys T) \<le> 100" using T(2) by simp
qed

lemma correlate_line_new:
  assumes "correlate_line l (b, seen) = ((b', seen'), out)" "distinct seen" "set seen \<subseteq> possible_keys T"
    "evt_type ` set (eb_events b) \<subseteq> T" "evt_type ` set (inputs [l]) \<subseteq> T" "finite T" "card T \<le> 98"
  shows "seen' = rev (map corr_key out) @ seen \<and> distinct seen' \<and> set seen' \<subseteq> possible_keys T \<and>
    evt_type ` set (eb_events b') \<subseteq> T"
proof (cases l)
  case Skipped
  then show ?thesis using assms by (simp add: correlate_line_def)
next
  case (Got t1 t2 e)
  let ?b = "add t1 e b"
  obtain s1 where p: "push_new seen (correlations_of (fst (count_by_type t2 ?b))) = (s1, out)"
    and s': "seen' = (if length s1 > 100 then [] else s1)" and b': "b' = expire t2 ?b"
    using assms(1) Got
    by (auto simp: correlate_line_def detect_correlations_def count_by_type_def Let_def split: prod.splits)
  have types: "evt_type ` set (eb_events ?b) \<subseteq> T"
    using assms(4,5) Got by (auto simp: add_def expire_def Let_def)
  have s1: "s1 = rev (map corr_key out) @ seen" "distinct s1"
    "set out \<subseteq> set (correlations_of (fst (count_by_type t2 ?b)))"
    using push_new_spec[OF p assms(2)] by blast+
  have "corr_key c \<in> possible_keys T" if "c \<in> set out" for c
    using correlation_keys[of c] that s1(3) types count_by_type_keys[of _ _ t2 ?b]
    unfolding possible_keys_def by fastforce
  then have sub: "set s1 \<subseteq> possible_keys T" unfolding s1(1) using assms(3) by auto
  have "length s1 = card (set s1)" using s1(2) by (simp add: distinct_card)
  also have "\<dots> \<le> card (possible_keys T)" using sub possible_keys_card assms(6,7) by (intro card_mono) auto
  also have "\<dots> \<le> 100" using possible_keys_card assms(6,7) by blast
  finally have seen': "seen' = s1" using s' by simp
  have "evt_type ` set (eb_events b') \<subseteq> T"
    using types unfolding b' by (auto simp: expire_def Let_def)
  then show ?thesis unfolding seen' by (intro conjI s1(1,2) sub)
qed

lemma correlate_new:
  assumes "correlate ls (b, seen) = ((b', seen'), out)" "distinct seen" "set seen \<subseteq> possible_keys T"
    "evt_type ` set (eb_events b) \<subseteq> T" "evt_type ` set (inputs ls) \<subseteq> T" "finite T" "card T \<le> 98"
  shows "seen' = rev (map corr_key out) @ seen \<and> distinct seen'"
  using assms(1-5)
proof (induction ls arbitrary: b seen out)
  case (Cons l ls)
  obtain b1 s1 o1 where l: "correlate_line l (b, seen) = ((b1, s1), o1)" by (metis surj_pair)
  obtain o2 where r: "correlate ls (b1, s1) = ((b', seen'), o2)" "out = o1 @ o2"
    using Cons.prems(1) l by (auto split: prod.splits)
  have "evt_type ` set (inputs [l]) \<subseteq> T" "evt_type ` set (inputs ls) \<subseteq> T"
    using Cons.prems(5) by (cases l; simp)+
  then have a: "s1 = rev (map corr_key o1) @ seen" "distinct s1" "set s1 \<subseteq> possible_keys T"
    "evt_type ` set (eb_events b1) \<subseteq> T" "evt_type ` set (inputs ls) \<subseteq> T"
    using correlate_line_new[OF l Cons.prems(2-4) _ assms(6,7)] by blast+
  have "seen' = rev (map corr_key o2) @ s1 \<and> distinct seen'" by (rule Cons.IH[OF r(1) a(2-5)])
  then show ?case unfolding r(2) by (metis a(1) append_assoc map_append rev_append)
qed simp

lemma storm_type: "c \<in> set (concat (map storm d)) \<Longrightarrow> co_type c = ''event_storm''"
  by (auto simp: storm_def Let_def split: if_splits)

lemma storm_mem:
  "(\<exists>c \<in> set (concat (map storm d)). co_type c = ''event_storm'' \<and> co_event_type c = Some t \<and>
     co_count c = Some (int n)) \<longleftrightarrow> (t, int n) \<in> set d \<and> n \<ge> 3"
proof -
  have "(\<exists>c \<in> set (storm kv). co_type c = ''event_storm'' \<and> co_event_type c = Some t \<and>
     co_count c = Some (int n)) \<longleftrightarrow> kv = (t, int n) \<and> n \<ge> 3" for kv
    by (cases kv) (auto simp: storm_def)
  moreover have "(\<exists>c \<in> set (concat (map storm d)). P c) \<longleftrightarrow> (\<exists>kv \<in> set d. \<exists>c \<in> set (storm kv). P c)" for P
    by auto
  ultimately show ?thesis by simp
qed

section \<open>Properties\<close>

text \<open>C37: with a clock that does not run backwards, the buffer always holds exactly those of all
  events ever added that lie in the window of the last clock reading: none is dropped early.\<close>

theorem window_exact:
  assumes "sorted (clocks ls)" "clocks ls \<noteq> []"
  shows "eb_events (fst (fst (correlate ls (new_buffer w, [])))) =
     filter (\<lambda>e. stamp e \<ge> fsub (last (clocks ls)) w) (inputs ls)"
proof -
  have line: "eb_window (fst (fst (correlate_line l st))) = eb_window (fst st)" for l st
    using correlate_line_buffer[of l "fst st" "snd st"] by (cases l) simp_all
  have win: "eb_window (fst (fst (correlate ls st))) = eb_window (fst st)" for st
  proof (induction ls arbitrary: st)
    case (Cons l ls)
    then show ?case using line[of l st] by (simp split: prod.splits) (metis fst_conv)
  qed simp
  have "sorted (hd (clocks ls) # clocks ls)" using assms by (cases "clocks ls") auto
  moreover have "holds [] (hd (clocks ls)) (new_buffer w)" by (simp add: holds_def new_buffer_def)
  ultimately have "holds ([] @ inputs ls) (last (hd (clocks ls) # clocks ls))
      (fst (fst (correlate ls (new_buffer w, []))))" by (intro correlate_holds)
  then show ?thesis using win[of "(new_buffer w, [])"] assms(2)
    by (simp add: holds_def new_buffer_def)
qed

definition demo_stream :: "input_line list" where
  "demo_stream =
     [Got 100 100 \<lparr>evt_timestamp = Some 99, evt_type = ''edac_ce''\<rparr>, Skipped,
      Got 200 201 \<lparr>evt_timestamp = Some 200, evt_type = ''mce''\<rparr>]"

theorem window_exact_witness:
  "map evt_type (eb_events (fst (fst (correlate demo_stream (new_buffer 60, []))))) = [''mce'']"
proof -
  have "fsub 201 60 = 141" by code_simp
  then show ?thesis
    using window_exact[of demo_stream 60] by (simp add: demo_stream_def stamp_def)
qed

text \<open>C38: the rules, as the code has them: all look at the events of one sliding window (60 s by
  default) and none at a node. A burst of memory errors is found exactly when both kinds are in the
  window, a cascade exactly when a fatal PCIe and an uncorrectable memory error are, and a storm of a
  type exactly when at least three of its events are, with their exact number. (The module's
  documentation describes 10 s on one node for the first rule and 30 s for the second; the main loop
  annotates each finding once, and again only after its memory of more than 100 findings was
  emptied.)\<close>

theorem correlations_exact:
  "(let es = filter (\<lambda>e. stamp e \<ge> fsub now (eb_window b)) (eb_events b);
        found = fst (detect_correlations now b)
    in (\<exists>c \<in> set found. co_type c = ''memory_multi_source'') =
         ((\<exists>e \<in> set es. evt_type e = ''edac_ce'') \<and> (\<exists>e \<in> set es. evt_type e = ''mce'')) \<and>
       (\<exists>c \<in> set found. co_type c = ''pcie_memory_cascade'') =
         ((\<exists>e \<in> set es. evt_type e = ''pcie_aer_fatal'') \<and> (\<exists>e \<in> set es. evt_type e = ''edac_ue'')) \<and>
       (\<exists>c \<in> set found. co_type c = ''event_storm'' \<and> co_event_type c = Some t \<and> co_count c = Some (int n)) =
         (n \<ge> 3 \<and> length (filter (\<lambda>e. evt_type e = t) es) = n))"
proof -
  let ?d = "fst (count_by_type now b)" and ?es = "eb_events (expire now b)"
  have detect: "fst (detect_correlations now b) = correlations_of ?d"
    by (simp add: detect_correlations_def split: prod.splits)
  have pos: "dgetd ?d k 0 > 0 \<longleftrightarrow> (\<exists>e \<in> set ?es. evt_type e = k)" for k
    unfolding dgetd_def count_by_type_get by (auto simp: Let_def filter_empty_conv)
  have A: "(\<exists>c \<in> set (correlations_of d). co_type c = ''memory_multi_source'') \<longleftrightarrow>
      dgetd d ''edac_ce'' 0 > 0 \<and> dgetd d ''mce'' 0 > 0" for d
    by (auto simp: correlations_of_def Let_def simp del: set_concat dest: storm_type)
  have B: "(\<exists>c \<in> set (correlations_of d). co_type c = ''pcie_memory_cascade'') \<longleftrightarrow>
      dgetd d ''pcie_aer_fatal'' 0 > 0 \<and> dgetd d ''edac_ue'' 0 > 0" for d
    by (auto simp: correlations_of_def Let_def simp del: set_concat dest: storm_type)
  have C: "(\<exists>c \<in> set (correlations_of d). co_type c = ''event_storm'' \<and> co_event_type c = Some t \<and>
        co_count c = Some (int n)) \<longleftrightarrow> (t, int n) \<in> set d \<and> n \<ge> 3" for d
    unfolding storm_mem[symmetric] by (auto simp: correlations_of_def Let_def simp del: set_concat)
  have mem: "(t, int n) \<in> set ?d \<and> n \<ge> 3 \<longleftrightarrow>
      n \<ge> 3 \<and> length (filter (\<lambda>e. evt_type e = t) ?es) = n"
    unfolding dict_mem_iff[OF count_by_type_ok] count_by_type_get by (auto simp: Let_def)
  have es: "filter (\<lambda>e. stamp e \<ge> fsub now (eb_window b)) (eb_events b) = ?es" by (simp add: expire_def)
  show ?thesis unfolding Let_def es detect A B C mem pos by blast
qed

text \<open>A corrected error and a machine check 49 s apart.\<close>

theorem correlations_exact_witness:
  "\<exists>c \<in> set (fst (detect_correlations 100 \<lparr>eb_window = 60, eb_events =
       [\<lparr>evt_timestamp = Some 50, evt_type = ''edac_ce''\<rparr>, \<lparr>evt_timestamp = Some 99, evt_type = ''mce''\<rparr>]\<rparr>)).
     co_type c = ''memory_multi_source''"
proof -
  have "fsub 100 60 = 40" by code_simp
  then show ?thesis
    by (subst correlations_exact[unfolded Let_def, THEN conjunct1]) (simp add: stamp_def)
qed

text \<open>With fewer than 99 event types (the watcher knows ten) every correlation is annotated at
  most once in the life of the process: the clearing that lets storms fire again is never
  reached.\<close>

theorem annotated_once:
  assumes "card (set (map evt_type (inputs ls))) \<le> 98"
  shows "distinct (map corr_key (snd (correlate ls (new_buffer w, []))))"
proof -
  obtain b' s' out where c: "correlate ls (new_buffer w, []) = ((b', s'), out)" by (metis surj_pair)
  have "s' = rev (map corr_key out) @ [] \<and> distinct s'"
    by (rule correlate_new[OF c _ _ _ _ _ assms]) (simp_all add: new_buffer_def)
  then show ?thesis using c by (metis append_Nil2 distinct_rev snd_conv)
qed

theorem annotated_once_witness:
  "distinct (map corr_key (snd (correlate demo_stream (new_buffer 60, []))))"
  by (rule annotated_once) (simp add: demo_stream_def card_insert_if)

text \<open>No kernel line is ever reported as an uncorrectable CXL error: the earlier pattern for
  correctable ones finds its text inside the word "uncorrectable".\<close>

theorem cxl_ue_never:
  "parse_dmesg_line now line = Inr (Some e) \<Longrightarrow> de_type e \<noteq> ''cxl_ue''"
proof -
  define ce where "ce = Seqs [Lit ''cxl'', Any, Lit ''correctable error'']"
  define ue where "ue = Seqs [Lit ''cxl'', Any, Lit ''uncorrectable error'']"
  have af: "anchor_free ce" "anchor_free ue" by (simp_all add: ce_def ue_def)
  have "re_search ce m \<noteq> None" if "re_search ue m \<noteq> None" for m
  proof -
    from that obtain u w v where m: "m = u @ w @ v" "words ue w"
      unfolding re_search_iff[OF af(2)] by blast
    then obtain x where x: "w = ''cxl'' @ x @ ''uncorrectable error''" "words Any x"
      unfolding ue_def Seqs.simps words_simps words_Lit by blast
    have "words Any (x @ ''un'')"
      using x(2) unfolding words_star_cls by (auto simp: not_nl_def cp_def)
    then have "words ce (''cxl'' @ (x @ ''un'') @ ''correctable error'')"
      unfolding ce_def Seqs.simps words_simps words_Lit by blast
    moreover have "m = u @ (''cxl'' @ (x @ ''un'') @ ''correctable error'') @ v"
      using m(1) x(1) by simp
    ultimately show ?thesis unfolding re_search_iff[OF af(1)] by blast
  qed
  then have ce_ue: "re_search ce m = None \<Longrightarrow> re_search ue m = None" for m by blast
  have never: "first_pattern PATTERNS m \<noteq> Some (''cxl_ue'', s, g)" for m s g
    unfolding PATTERNS_def ce_def[symmetric] ue_def[symmetric]
    by (auto simp: ce_ue split: option.splits)
  assume "parse_dmesg_line now line = Inr (Some e)"
  then show ?thesis using never
    by (auto simp: parse_dmesg_line_def Let_def split: option.splits)
qed

theorem cxl_ue_never_witness:
  "\<exists>e. parse_dmesg_line 0 ''[    1.5] cxl mem0: uncorrectable error'' = Inr (Some e) \<and> de_type e \<noteq> ''cxl_ue''"
proof -
  have p: "parse_dmesg_line 0 ''[    1.5] cxl mem0: uncorrectable error'' = Inr (Some
     \<lparr>de_timestamp = 0, de_kernel_ts = Fin (3 / 2), de_type = ''cxl_ce'', de_severity = ''warning'',
      de_message = ''cxl mem0: uncorrectable error'', de_groups = []\<rparr>)"
    by code_simp
  from cxl_ue_never[OF p] p show ?thesis by blast
qed

end
