(* ===== verification/Integrations.thy ===== *)
theory Integrations
  imports PyStr Json Effects
begin

text \<open>
  The outward connections of the remediation side: tickets (\<open>remediation/ticket_integration.py\<close>),
  cloud maintenance events (\<open>remediation/cloud_integration.py\<close>) and the lease of
  \<open>remediation/leader_election.py\<close>. What a server answers, and the clock, are arguments; XML is
  modelled after parsing.
\<close>

section \<open>Base64\<close>

text \<open>\<open>s.encode()\<close> for code points below 256.\<close>

definition utf8 :: "string \<Rightarrow> int list" where
  "utf8 s = concat (map (\<lambda>c. if cp c < 128 then [cp c] else [192 + cp c div 64, 128 + cp c mod 64]) s)"

definition b64_char :: "int \<Rightarrow> char" where
  "b64_char n =
     (if n < 26 then char_of (65 + n) else if n < 52 then char_of (71 + n)
      else if n < 62 then char_of (n - 4) else if n = 62 then CHR ''+'' else CHR ''/'')"

fun b64encode :: "int list \<Rightarrow> string" where
  "b64encode [] = []"
| "b64encode [a] = [b64_char (a div 4), b64_char (a mod 4 * 16), CHR ''='', CHR ''='']"
| "b64encode [a, b] =
     [b64_char (a div 4), b64_char (a mod 4 * 16 + b div 16), b64_char (b mod 16 * 4), CHR ''='']"
| "b64encode (a # b # c # bs) =
     b64_char (a div 4) # b64_char (a mod 4 * 16 + b div 16) # b64_char (b mod 16 * 4 + c div 64) #
     b64_char (c mod 64) # b64encode bs"

section \<open>Tickets\<close>

record ticket =
  tk_title :: string
  tk_description :: string
  tk_severity :: string
  tk_node :: string
  tk_component :: string
  tk_labels :: "string list"

record ticket_response =
  tr_id :: json
  tr_url :: json
  tr_status :: string

record request =
  rq_url :: string
  rq_headers :: "(string \<times> string) list"
  rq_data :: json

text \<open>What opening a request gives: the parsed body of the response, or an exception.\<close>

type_synonym opener = "request \<Rightarrow> json py"

type_synonym config = "(string, string) dict"

definition SEVERITY_MAP :: "(string, string) dict" where
  "SEVERITY_MAP = [(''critical'', ''1''), (''high'', ''2''), (''medium'', ''3''), (''low'', ''4'')]"

fun require_keys :: "config \<Rightarrow> string list \<Rightarrow> unit py" where
  "require_keys config [] = Inr ()"
| "require_keys config (k # ks) =
     (if k \<notin> set (dkeys config) then Inl (ValueError (''Missing config field: '' @ k))
      else require_keys config ks)"

definition cfg_item :: "config \<Rightarrow> string \<Rightarrow> string" where
  "cfg_item config k = dgetd config k []"

definition basic_auth :: "config \<Rightarrow> string" where
  "basic_auth config = ''Basic '' @ b64encode (utf8 (cfg_item config ''user'' @ '':'' @ cfg_item config ''token''))"

definition priority :: "ticket \<Rightarrow> string" where
  "priority t = dgetd SEVERITY_MAP (tk_severity t) ''3''"

text \<open>\<open>f"{x}"\<close> of a value from a response; only texts are modelled, others print as \<open>show\<close> says.\<close>

definition fmt :: "(json \<Rightarrow> string) \<Rightarrow> json \<Rightarrow> string" where
  "fmt show j = (case j of JStr s \<Rightarrow> s | _ \<Rightarrow> show j)"

type_synonym backend = "(json \<Rightarrow> string) \<Rightarrow> opener \<Rightarrow> config \<Rightarrow> ticket \<Rightarrow> ticket_response py"

definition jira :: backend where
  "jira show opener config t =
     py_bind (require_keys config [''url'', ''user'', ''token'', ''project'']) (\<lambda>_.
     let payload = JObj [(''fields'', JObj
           [(''project'', JObj [(''key'', JStr (cfg_item config ''project''))]),
            (''summary'', JStr (tk_title t)), (''description'', JStr (tk_description t)),
            (''priority'', JObj [(''id'', JStr (priority t))]),
            (''labels'', JArr (map JStr (tk_labels t))), (''issuetype'', JObj [(''name'', JStr ''Bug'')])])];
         req = \<lparr>rq_url = cfg_item config ''url'' @ ''/rest/api/2/issue'',
                rq_headers = [(''Authorization'', basic_auth config), (''Content-Type'', ''application/json'')],
                rq_data = payload\<rparr>
     in py_bind (opener req) (\<lambda>body. py_bind (jitem body ''key'') (\<lambda>key.
        Inr \<lparr>tr_id = key, tr_url = JStr (cfg_item config ''url'' @ ''/browse/'' @ fmt show key),
             tr_status = ''created''\<rparr>)))"

definition servicenow :: backend where
  "servicenow show opener config t =
     py_bind (require_keys config [''url'', ''user'', ''token'']) (\<lambda>_.
     let payload = JObj [(''short_description'', JStr (tk_title t)), (''description'', JStr (tk_description t)),
           (''urgency'', JStr (priority t)), (''node'', JStr (tk_node t))];
         req = \<lparr>rq_url = cfg_item config ''url'' @ ''/api/now/table/incident'',
                rq_headers = [(''Authorization'', basic_auth config), (''Content-Type'', ''application/json'')],
                rq_data = payload\<rparr>
     in py_bind (opener req) (\<lambda>body. py_bind (jget body ''result'' body) (\<lambda>r.
        py_bind (jitem r ''sys_id'') (\<lambda>i.
        Inr \<lparr>tr_id = i, tr_url = JStr (cfg_item config ''url'' @ ''/nav_to.do?uri=incident.do?sys_id='' @ fmt show i),
             tr_status = ''created''\<rparr>))))"

definition ticket_json :: "ticket \<Rightarrow> json" where
  "ticket_json t = JObj [(''title'', JStr (tk_title t)), (''description'', JStr (tk_description t)),
     (''severity'', JStr (tk_severity t)), (''node'', JStr (tk_node t)),
     (''component'', JStr (tk_component t)), (''labels'', JArr (map JStr (tk_labels t)))]"

definition webhook :: backend where
  "webhook show opener config t =
     py_bind (require_keys config [''url'']) (\<lambda>_.
     let req = \<lparr>rq_url = cfg_item config ''url'', rq_headers = [(''Content-Type'', ''application/json'')],
                rq_data = ticket_json t\<rparr>
     in py_bind (opener req) (\<lambda>body. py_bind (jget body ''id'' (JStr [])) (\<lambda>i.
        py_bind (jget body ''url'' (JStr (cfg_item config ''url''))) (\<lambda>u.
        Inr \<lparr>tr_id = i, tr_url = u, tr_status = ''accepted''\<rparr>))))"

definition BACKENDS :: "(string, backend) dict" where
  "BACKENDS = [(''jira'', jira), (''servicenow'', servicenow), (''webhook'', webhook)]"

definition create_ticket :: "(json \<Rightarrow> string) \<Rightarrow> opener \<Rightarrow> string \<Rightarrow> config \<Rightarrow> ticket \<Rightarrow> ticket_response py" where
  "create_ticket show opener backend config t =
     (case dget BACKENDS backend of
        None \<Rightarrow> Inl (ValueError (''Unknown backend: '' @ backend))
      | Some f \<Rightarrow> f show opener config t)"

section \<open>Cloud maintenance\<close>

record maintenance_event =
  me_instance :: string
  me_type :: string
  me_not_before :: string
  me_description :: string
  me_provider :: string

text \<open>A parsed XML element: tag, text if any, children.\<close>

datatype xml = Elem (x_tag: string) (x_text: "string option") (x_children: "xml list")

fun xml_iter :: "xml \<Rightarrow> xml list" where
  "xml_iter (Elem tag txt cs) = Elem tag txt cs # concat (map xml_iter cs)"

definition local_tag :: "string \<Rightarrow> string" where
  "local_tag tag = (if contains ''}'' tag then last (split_on (CHR ''}'') tag) else tag)"

definition text_of :: "xml \<Rightarrow> string" where
  "text_of e = (case x_text e of Some s \<Rightarrow> s | None \<Rightarrow> [])"

text \<open>Code, description and start of an event, the last child of each kind.\<close>

definition event_field :: "xml \<Rightarrow> string \<times> string \<times> string \<Rightarrow> string \<times> string \<times> string" where
  "event_field child st =
     (let (code, desc, not_before) = st; tag = local_tag (x_tag child) in
      if tag = ''code'' then (text_of child, desc, not_before)
      else if tag = ''description'' then (code, text_of child, not_before)
      else if tag = ''notBefore'' then (code, desc, text_of child)
      else st)"

definition aws_event :: "string \<Rightarrow> xml \<Rightarrow> maintenance_event list" where
  "aws_event instance_id e =
     (let (code, desc, not_before) = fold event_field (x_children e) ([], [], []) in
      if code \<noteq> []
      then [\<lparr>me_instance = instance_id, me_type = code, me_not_before = not_before,
             me_description = desc, me_provider = ''aws''\<rparr>]
      else [])"

definition parse_aws_response :: "xml \<Rightarrow> string \<Rightarrow> maintenance_event list" where
  "parse_aws_response doc instance_id =
     concat (map (\<lambda>item. if ends_with ''eventsSet'' (x_tag item)
       then concat (map (aws_event instance_id) (x_children item)) else []) (xml_iter doc))"

text \<open>What the metadata server and EC2 answer to a URL.\<close>

record cloud =
  cl_ec2 :: "string \<Rightarrow> xml py"
  cl_metadata :: "string \<Rightarrow> string py"

definition aws_check_events :: "cloud \<Rightarrow> config \<Rightarrow> maintenance_event list py" where
  "aws_check_events cl config =
     (let region = dgetd config ''region'' ''us-east-1''; instance_id = dgetd config ''instance_id'' [];
          url = ''https://ec2.'' @ region @ ''.amazonaws.com/?Action=DescribeInstanceStatus'' @
            ''&InstanceId.1='' @ instance_id @ ''&IncludeAllInstances=true&Version=2016-11-15''
      in py_bind (cl_ec2 cl url) (\<lambda>doc. Inr (parse_aws_response doc instance_id)))"

definition gcp_base :: string where
  "gcp_base = ''http://metadata.google.internal/computeMetadata/v1''"

definition gcp_check_events :: "cloud \<Rightarrow> config \<Rightarrow> maintenance_event list py" where
  "gcp_check_events cl config =
     py_bind (cl_metadata cl (gcp_base @ ''/instance/maintenance-event'')) (\<lambda>t.
     py_bind (cl_metadata cl (gcp_base @ ''/instance/id'')) (\<lambda>i.
     let event_type = strip t; iid = strip i in
     Inr (if event_type \<noteq> [] \<and> event_type \<noteq> ''NONE''
          then [\<lparr>me_instance = iid, me_type = event_type, me_not_before = [],
                 me_description = ''GCP scheduled maintenance'', me_provider = ''gcp''\<rparr>]
          else [])))"

definition check_maintenance_events :: "cloud \<Rightarrow> string \<Rightarrow> config \<Rightarrow> maintenance_event list py" where
  "check_maintenance_events cl provider config =
     (if provider = ''aws'' then aws_check_events cl config
      else if provider = ''gcp'' then gcp_check_events cl config
      else Inl (ValueError (''Unsupported provider: '' @ provider)))"

definition trigger_live_migration :: "string \<Rightarrow> config \<Rightarrow> string \<Rightarrow> bool py" where
  "trigger_live_migration provider config instance_id =
     (if provider = ''aws'' then Inr False
      else if provider = ''gcp'' then Inr True
      else Inl (ValueError (''Unsupported provider: '' @ provider)))"

section \<open>Leader election\<close>

record elector =
  el_namespace :: string
  el_lease_name :: string
  el_identity :: string
  el_duration_s :: int
  el_leader :: bool
  el_k8s :: bool

definition elector_init :: "bool \<Rightarrow> string \<Rightarrow> string \<Rightarrow> string \<Rightarrow> int \<Rightarrow> elector" where
  "elector_init in_cluster namespace lease_name identity duration_s =
     \<lparr>el_namespace = namespace, el_lease_name = lease_name, el_identity = identity,
      el_duration_s = duration_s, el_leader = \<not> in_cluster, el_k8s = in_cluster\<rparr>"

text \<open>The document of the PUT; \<open>now\<close> is the printed clock, read once per field.\<close>

definition lease_body :: "elector \<Rightarrow> string \<times> string \<Rightarrow> json" where
  "lease_body e now =
     JObj [(''apiVersion'', JStr ''coordination.k8s.io/v1''), (''kind'', JStr ''Lease''),
       (''metadata'', JObj [(''name'', JStr (el_lease_name e)), (''namespace'', JStr (el_namespace e))]),
       (''spec'', JObj [(''holderIdentity'', JStr (el_identity e)),
         (''leaseDurationSeconds'', JInt (el_duration_s e)),
         (''acquireTime'', JStr (fst now)), (''renewTime'', JStr (snd now))])]"

text \<open>How the PUT ends: accepted, an HTTP error, or another \<open>OSError\<close> (the token file included).\<close>

datatype put_result = PutOk | HttpError int | PutOSError

type_synonym lease_server = "json \<Rightarrow> put_result"

definition try_acquire :: "lease_server \<Rightarrow> string \<times> string \<Rightarrow> elector \<Rightarrow> bool \<times> elector" where
  "try_acquire server now e =
     (if \<not> el_k8s e then (True, e\<lparr>el_leader := True\<rparr>)
      else let leader = (case server (lease_body e now) of
                  PutOk \<Rightarrow> True | HttpError code \<Rightarrow> (if code = 409 then False else False) | PutOSError \<Rightarrow> False)
           in (leader, e\<lparr>el_leader := leader\<rparr>))"

definition is_leader :: "elector \<Rightarrow> bool" where
  "is_leader e = el_leader e"

definition release :: "elector \<Rightarrow> elector" where
  "release e = e\<lparr>el_leader := False\<rparr>"

section \<open>Lemmas\<close>

definition required :: "string \<Rightarrow> string list" where
  "required backend =
     (if backend = ''jira'' then [''url'', ''user'', ''token'', ''project'']
      else if backend = ''servicenow'' then [''url'', ''user'', ''token''] else [''url''])"

lemma require_keys_iff:
  "require_keys config ks = (case find (\<lambda>k. k \<notin> set (dkeys config)) ks of
     None \<Rightarrow> Inr () | Some k \<Rightarrow> Inl (ValueError (''Missing config field: '' @ k)))"
  by (induction ks) auto

lemma aws_event_mem:
  "m \<in> set (aws_event i e) \<longleftrightarrow> (\<exists>code desc nb.
     fold event_field (x_children e) ([], [], []) = (code, desc, nb) \<and> code \<noteq> [] \<and>
     m = \<lparr>me_instance = i, me_type = code, me_not_before = nb, me_description = desc, me_provider = ''aws''\<rparr>)"
  by (cases "fold event_field (x_children e) ([], [], [])") (auto simp: aws_event_def)

text \<open>A run of an elector: attempts with their clocks and releases.\<close>

datatype elector_op = Acquire "string \<times> string" | Release

fun elector_run :: "lease_server \<Rightarrow> elector_op list \<Rightarrow> elector \<Rightarrow> elector" where
  "elector_run server [] e = e"
| "elector_run server (Acquire now # ops) e = elector_run server ops (snd (try_acquire server now e))"
| "elector_run server (Release # ops) e = elector_run server ops (release e)"

lemma try_acquire_result: "snd (try_acquire server now e) = e\<lparr>el_leader := fst (try_acquire server now e)\<rparr>"
  by (simp add: try_acquire_def Let_def)

section \<open>Properties\<close>

text \<open>A ticket is only asked for with a known backend and a complete configuration; otherwise no
  request is made (the result is the same for every server) and the error names the backend or
  the first missing field.\<close>

theorem ticket_config_checked:
  "(backend \<notin> {''jira'', ''servicenow'', ''webhook''} \<longrightarrow>
      create_ticket show opener backend config t = Inl (ValueError (''Unknown backend: '' @ backend))) \<and>
   (backend \<in> {''jira'', ''servicenow'', ''webhook''} \<longrightarrow>
      find (\<lambda>k. k \<notin> set (dkeys config)) (required backend) = Some k \<longrightarrow>
      create_ticket show opener backend config t = Inl (ValueError (''Missing config field: '' @ k)))"
  by (auto simp: create_ticket_def BACKENDS_def required_def jira_def servicenow_def webhook_def
      require_keys_iff simp del: require_keys.simps find.simps)

definition no_server :: opener where "no_server r = Inl OSError"

definition sample_ticket :: ticket where
  "sample_ticket = \<lparr>tk_title = ''t'', tk_description = ''d'', tk_severity = ''high'', tk_node = ''n1'',
     tk_component = ''dimm'', tk_labels = []\<rparr>"

theorem ticket_config_checked_witness:
  "create_ticket (\<lambda>j. []) no_server ''jira'' [(''url'', ''u''), (''user'', ''x'')] sample_ticket =
     Inl (ValueError ''Missing config field: token'')"
  using ticket_config_checked[of "''jira''" "\<lambda>j. []" no_server "[(''url'', ''u''), (''user'', ''x'')]"
      sample_ticket "''token''"]
  by (simp add: required_def)

text \<open>The leader flag says how the elector's own last operation ended, nothing else: it does not
  run out with the lease, and another elector's success does not clear it. Against a server that
  accepts the document of two electors, both hold the lead.\<close>

theorem leader_flag:
  "is_leader (elector_run server (ops @ [Acquire now]) e) =
     (\<not> el_k8s e \<or> server (lease_body e now) = PutOk) \<and>
   \<not> is_leader (elector_run server (ops @ [Release]) e) \<and>
   (server (lease_body a now) = PutOk \<and> server (lease_body b now) = PutOk \<longrightarrow>
      is_leader (snd (try_acquire server now a)) \<and> is_leader (snd (try_acquire server now b)))"
proof -
  have body: "lease_body (e\<lparr>el_leader := l\<rparr>) now = lease_body e now" for e :: elector and l
    by (simp add: lease_body_def)
  have run: "\<exists>l. elector_run server ops e = e\<lparr>el_leader := l\<rparr>"
  proof (induction server ops e rule: elector_run.induct)
    case (1 server e)
    then show ?case by (intro exI[of _ "el_leader e"]) simp
  qed (simp_all add: try_acquire_result release_def)
  have app: "elector_run server (ops @ ops') e = elector_run server ops' (elector_run server ops e)" for ops'
    by (induction server ops e rule: elector_run.induct) simp_all
  obtain l where l: "elector_run server ops e = e\<lparr>el_leader := l\<rparr>" using run by blast
  show ?thesis
    by (auto simp: app l is_leader_def try_acquire_def release_def Let_def body split: put_result.splits)
qed

theorem leader_flag_witness:
  "is_leader (snd (try_acquire (\<lambda>j. PutOk) ([], []) (elector_init True ''ns'' ''l'' ''a'' 15))) \<and>
   is_leader (snd (try_acquire (\<lambda>j. PutOk) ([], []) (elector_init True ''ns'' ''l'' ''b'' 15)))"
  using leader_flag[of "\<lambda>j. PutOk" "[]" "([], [])" "elector_init True ''ns'' ''l'' ''a'' 15"
      "elector_init True ''ns'' ''l'' ''a'' 15" "elector_init True ''ns'' ''l'' ''b'' 15"] by blast

text \<open>The events read from an EC2 answer are those of the elements below an events set, wherever
  it is in the document, that have a code; each carries the asked instance.\<close>

theorem aws_events_exact:
  "m \<in> set (parse_aws_response doc i) \<longleftrightarrow>
     (\<exists>s \<in> set (xml_iter doc). ends_with ''eventsSet'' (x_tag s) \<and> (\<exists>e \<in> set (x_children s).
        \<exists>code desc nb. fold event_field (x_children e) ([], [], []) = (code, desc, nb) \<and> code \<noteq> [] \<and>
          m = \<lparr>me_instance = i, me_type = code, me_not_before = nb, me_description = desc,
               me_provider = ''aws''\<rparr>))"
proof -
  have "m \<in> set (parse_aws_response doc i) \<longleftrightarrow>
     (\<exists>s \<in> set (xml_iter doc). ends_with ''eventsSet'' (x_tag s) \<and> (\<exists>e \<in> set (x_children s). m \<in> set (aws_event i e)))"
    by (auto simp: parse_aws_response_def split: if_splits)
  then show ?thesis unfolding aws_event_mem .
qed

end
