(* ===== verification/IpmiSel.thy ===== *)
theory IpmiSel
  imports PyRegex PyFloat Exposition Ledger
begin

text \<open>
  The event-log poller of \<open>bmc/ipmi_sel_poller.py\<close>: the CSV reader of the Python library (default
  dialect), the parser of the log, the collection of one node with its last record, the metrics,
  and the round over the targets. What \<open>ipmitool\<close> prints, the conversion of a printed local time,
  and the clock are arguments.
\<close>

section \<open>CSV\<close>

datatype csv_state = StartRecord | StartField | InField | InQuoted | QuoteInQuoted | EatCrnl

record csv =
  cv_state :: csv_state
  cv_field :: string
  cv_row :: "string list"

definition csv_start :: csv where
  "csv_start = \<lparr>cv_state = StartRecord, cv_field = [], cv_row = []\<rparr>"

definition add_char :: "char \<Rightarrow> csv \<Rightarrow> csv" where
  "add_char c v = v\<lparr>cv_field := cv_field v @ [c], cv_state := InField\<rparr>"

definition save_field :: "csv_state \<Rightarrow> csv \<Rightarrow> csv" where
  "save_field st v = \<lparr>cv_state = st, cv_field = [], cv_row = cv_row v @ [cv_field v]\<rparr>"

definition is_eol :: "char \<Rightarrow> bool" where
  "is_eol c \<longleftrightarrow> c = CHR 0x0A \<or> c = CHR 0x0D"

text \<open>One character in the state at the start of a field.\<close>

definition csv_field_start :: "char \<Rightarrow> csv \<Rightarrow> csv" where
  "csv_field_start c v =
     (if is_eol c then save_field EatCrnl v
      else if c = CHR 0x22 then v\<lparr>cv_state := InQuoted\<rparr>
      else if c = CHR '','' then save_field StartField v
      else add_char c v)"

definition csv_char :: "char \<Rightarrow> csv \<Rightarrow> csv py" where
  "csv_char c v =
     (case cv_state v of
        StartRecord \<Rightarrow> Inr (if is_eol c then v\<lparr>cv_state := EatCrnl\<rparr> else csv_field_start c v)
      | StartField \<Rightarrow> Inr (csv_field_start c v)
      | InField \<Rightarrow> Inr (if is_eol c then save_field EatCrnl v
          else if c = CHR '','' then save_field StartField v else add_char c v)
      | InQuoted \<Rightarrow> Inr (if c = CHR 0x22 then v\<lparr>cv_state := QuoteInQuoted\<rparr>
          else v\<lparr>cv_field := cv_field v @ [c]\<rparr>)
      | QuoteInQuoted \<Rightarrow> Inr (if c = CHR 0x22 then (add_char c v)\<lparr>cv_state := InQuoted\<rparr>
          else if c = CHR '','' then save_field StartField v
          else if is_eol c then save_field EatCrnl v else add_char c v)
      | EatCrnl \<Rightarrow> (if is_eol c then Inr v
          else Inl (ValueError ''new-line character seen in unquoted field'')))"

text \<open>The end of a line of the source, after its characters.\<close>

definition csv_eol :: "csv \<Rightarrow> csv" where
  "csv_eol v =
     (case cv_state v of
        StartRecord \<Rightarrow> v
      | InQuoted \<Rightarrow> v
      | EatCrnl \<Rightarrow> v\<lparr>cv_state := StartRecord\<rparr>
      | _ \<Rightarrow> save_field StartRecord v)"

fun csv_chars :: "string \<Rightarrow> csv \<Rightarrow> csv py" where
  "csv_chars [] v = Inr v"
| "csv_chars (c # cs) v = py_bind (csv_char c v) (csv_chars cs)"

text \<open>The lines of a text stream, each with its line feed.\<close>

fun text_lines :: "string \<Rightarrow> string \<Rightarrow> string list" where
  "text_lines acc [] = (if acc = [] then [] else [rev acc])"
| "text_lines acc (c # cs) =
     (if c = CHR 0x0A then rev (c # acc) # text_lines [] cs else text_lines (c # acc) cs)"

text \<open>The rows of the remaining lines; a quoted field left open at the end is closed.\<close>

fun csv_rows :: "string list \<Rightarrow> csv \<Rightarrow> string list list py" where
  "csv_rows [] v =
     Inr (if cv_state v = StartRecord then [] else [cv_row (save_field StartRecord v)])"
| "csv_rows (l # ls) v =
     py_bind (csv_chars l v) (\<lambda>v.
       let v = csv_eol v in
       if cv_state v = StartRecord
       then py_bind (csv_rows ls csv_start) (\<lambda>rs. Inr (cv_row v # rs))
       else csv_rows ls v)"

definition csv_reader :: "string \<Rightarrow> string list list py" where
  "csv_reader raw = csv_rows (text_lines [] raw) csv_start"

section \<open>The event log\<close>

record sel_event =
  se_record_id :: int
  se_timestamp :: rat
  se_sensor_name :: string
  se_description :: string
  se_direction :: string
  se_severity_hint :: string

text \<open>\<open>strptime(s, "%m/%d/%Y %H:%M:%S").timestamp()\<close>, which depends on the local time zone.\<close>

type_synonym clock_reader = "string \<Rightarrow> rat option"

definition parse_record_id :: "string \<Rightarrow> int option" where
  "parse_record_id cell =
     (let s = strip cell in if starts_with ''0x'' s then py_int16 s else py_int s)"

definition parse_row :: "clock_reader \<Rightarrow> string list \<Rightarrow> sel_event option" where
  "parse_row clk row =
     (if length row < 6 then None
      else case parse_record_id (row ! 0) of
        None \<Rightarrow> None
      | Some record_id \<Rightarrow>
          Some \<lparr>se_record_id = record_id,
            se_timestamp = (case clk (strip (row ! 1)) of Some t \<Rightarrow> t | None \<Rightarrow> 0),
            se_sensor_name = strip (row ! 2), se_description = strip (row ! 3),
            se_direction = strip (row ! 4), se_severity_hint = strip (row ! 5)\<rparr>)"

definition parse_sel_csv :: "clock_reader \<Rightarrow> string \<Rightarrow> sel_event list py" where
  "parse_sel_csv clk raw = py_bind (csv_reader raw) (\<lambda>rows. Inr (List.map_filter (parse_row clk) rows))"

section \<open>Classification\<close>

definition CRITICAL_SENSOR_PATTERNS :: regex where
  "CRITICAL_SENSOR_PATTERNS = Alt (ILit ''CPU'') (Alt (ILit ''Memory'') (Alt (ILit ''Power'') (ILit ''Thermal'')))"

definition SENSOR_TYPE_PATTERNS :: "(regex \<times> string) list" where
  "SENSOR_TYPE_PATTERNS =
     [(ILit ''CPU'', ''cpu''), (ILit ''Mem'', ''memory''),
      (Alt (ILit ''Power'') (Alt (Seq (ILit ''PS'') Digit) (ILit ''PSU'')), ''power''),
      (Alt (ILit ''Therm'') (Alt (ILit ''Temp'') (ILit ''Fan'')), ''thermal'')]"

fun first_label :: "(regex \<times> string) list \<Rightarrow> string \<Rightarrow> string" where
  "first_label [] s = ''other''"
| "first_label ((r, l) # ps) s = (if re_search r s \<noteq> None then l else first_label ps s)"

definition sensor_type_for :: "string \<Rightarrow> string" where
  "sensor_type_for sensor_name = first_label SENSOR_TYPE_PATTERNS sensor_name"

definition classify_severity :: "string \<Rightarrow> string \<Rightarrow> string" where
  "classify_severity event_direction sensor_name =
     (if lower (strip event_direction) = ''assert'' \<and> re_search CRITICAL_SENSOR_PATTERNS sensor_name \<noteq> None
      then ''critical'' else ''warning'')"

section \<open>One node\<close>

record target =
  tg_node :: "string option"
  tg_ip :: "string option"
  tg_user :: "string option"
  tg_pass :: "string option"

text \<open>\<open>run_ipmitool_sel\<close>: the text, or the text of an error.\<close>

type_synonym ipmitool = "string \<Rightarrow> string \<Rightarrow> string \<Rightarrow> string + string"

record sel_result =
  sr_node :: string
  sr_up :: bool
  sr_error :: "string option"
  sr_new_events :: "sel_event list"
  sr_last_record_id :: int
  sr_last_event_ts :: "rat option"

definition field :: "string \<Rightarrow> string option \<Rightarrow> string py" where
  "field k v = (case v of Some s \<Rightarrow> Inr s | None \<Rightarrow> Inl (KeyError k))"

definition down :: "string \<Rightarrow> string \<Rightarrow> int \<Rightarrow> sel_result" where
  "down node err last_id =
     \<lparr>sr_node = node, sr_up = False, sr_error = Some err, sr_new_events = [],
      sr_last_record_id = last_id, sr_last_event_ts = None\<rparr>"

text \<open>\<open>max(xs, default=d)\<close>\<close>

definition max_default :: "int \<Rightarrow> int list \<Rightarrow> int" where
  "max_default d xs = (if xs = [] then d else Max (set xs))"

text \<open>An error text that is empty is falsy: the output counts as read and empty.\<close>

definition collect_node_sel ::
    "clock_reader \<Rightarrow> ipmitool \<Rightarrow> target \<Rightarrow> int \<Rightarrow> sel_result py" where
  "collect_node_sel clk tool tg last_id =
     py_bind (field ''node'' (tg_node tg)) (\<lambda>node.
     py_bind (field ''ip'' (tg_ip tg)) (\<lambda>ip. py_bind (field ''user'' (tg_user tg)) (\<lambda>user.
     py_bind (field ''pass'' (tg_pass tg)) (\<lambda>pass.
     let out = tool ip user pass in
     if (case out of Inr err \<Rightarrow> err \<noteq> [] | Inl _ \<Rightarrow> False)
     then Inr (down node (case out of Inr err \<Rightarrow> err | Inl _ \<Rightarrow> []) last_id)
     else py_bind (parse_sel_csv clk (case out of Inl raw \<Rightarrow> raw | Inr _ \<Rightarrow> [])) (\<lambda>all_events.
       let new_events = filter (\<lambda>e. se_record_id e > last_id) all_events
       in Inr \<lparr>sr_node = node, sr_up = True, sr_error = None, sr_new_events = new_events,
            sr_last_record_id = max_default last_id (map se_record_id new_events),
            sr_last_event_ts = (if all_events = [] then None
                                else Some (Max (set (map se_timestamp all_events))))\<rparr>)))))"

section \<open>Metrics\<close>

definition event_line :: "string \<Rightarrow> sel_event \<Rightarrow> string" where
  "event_line node e = sample_line ''ipmi_sel_event_total''
     [(''node'', sanitize_label node),
      (''sensor_type'', sanitize_label (sensor_type_for (se_sensor_name e))),
      (''severity'', sanitize_label (classify_severity (se_direction e) (se_sensor_name e)))] ''1''"

definition node_line :: "string \<Rightarrow> string \<Rightarrow> string \<Rightarrow> string" where
  "node_line name node value = sample_line name [(''node'', sanitize_label node)] value"

definition sel_metric_lines :: "rat \<Rightarrow> sel_result list \<Rightarrow> (string, int) dict \<Rightarrow> string list" where
  "sel_metric_lines now results poll_errors =
     header_lines ''ipmi_sel_event_total'' ''Total IPMI SEL events observed per node.'' ''counter'' @
     concat (map (\<lambda>r. map (event_line (sr_node r)) (sr_new_events r)) results) @
     header_lines ''ipmi_sel_last_event_timestamp'' ''Unix timestamp of the most recent SEL event.'' ''gauge'' @
     concat (map (\<lambda>r. case sr_last_event_ts r of None \<Rightarrow> []
       | Some t \<Rightarrow> [node_line ''ipmi_sel_last_event_timestamp'' (sr_node r) (fmt_fixed 3 t)]) results) @
     header_lines ''ipmi_sel_last_record_id'' ''Last SEL record ID seen per node.'' ''gauge'' @
     map (\<lambda>r. node_line ''ipmi_sel_last_record_id'' (sr_node r) (str_int (sr_last_record_id r))) results @
     header_lines ''ipmi_bmc_poll_error_total'' ''Total ipmitool poll errors per node.'' ''counter'' @
     map (\<lambda>r. node_line ''ipmi_bmc_poll_error_total'' (sr_node r)
       (str_int (dgetd poll_errors (sr_node r) 0))) results @
     header_lines ''ipmi_bmc_collector_up'' ''1 if the BMC was reachable on the last poll.'' ''gauge'' @
     map (\<lambda>r. node_line ''ipmi_bmc_collector_up'' (sr_node r) (if sr_up r then ''1'' else ''0'')) results @
     header_lines ''ipmi_bmc_collector_last_run_timestamp'' ''Unix timestamp of the last collector run.'' ''gauge'' @
     [value_line ''ipmi_bmc_collector_last_run_timestamp'' (fmt_fixed 3 now)]"

definition emit_metrics :: "rat \<Rightarrow> sel_result list \<Rightarrow> (string, int) dict \<Rightarrow> string" where
  "emit_metrics now results poll_errors = render (sel_metric_lines now results poll_errors)"

section \<open>A run over the targets\<close>

type_synonym sel_state = "(string, int) dict"

record sel_run =
  sn_state :: sel_state
  sn_results :: "sel_result list"
  sn_errors :: "(string, int) dict"

definition node_name :: "target \<Rightarrow> string" where
  "node_name tg = (case tg_node tg of Some n \<Rightarrow> n | None \<Rightarrow> ''unknown'')"

definition poll_target :: "clock_reader \<Rightarrow> ipmitool option \<Rightarrow> target \<Rightarrow> sel_run \<Rightarrow> sel_run py" where
  "poll_target clk tool tg s =
     (let node = node_name tg; last_id = dgetd (sn_state s) node 0 in
      case tool of
        None \<Rightarrow> Inr (s\<lparr>sn_results := sn_results s @ [down node ''ipmitool not found'' last_id],
                     sn_errors := dbump node (sn_errors s)\<rparr>)
      | Some run \<Rightarrow>
          py_bind (collect_node_sel clk run tg last_id) (\<lambda>r.
          let s = s\<lparr>sn_results := sn_results s @ [r]\<rparr> in
          Inr (if \<not> sr_up r then s\<lparr>sn_errors := dbump node (sn_errors s)\<rparr>
               else s\<lparr>sn_errors := (if node \<in> set (dkeys (sn_errors s)) then sn_errors s
                                   else dset node 0 (sn_errors s)),
                      sn_state := dset node (sr_last_record_id r) (sn_state s)\<rparr>)))"

fun poll_targets :: "clock_reader \<Rightarrow> ipmitool option \<Rightarrow> target list \<Rightarrow> sel_run \<Rightarrow> sel_run py" where
  "poll_targets clk tool [] s = Inr s"
| "poll_targets clk tool (tg # tgs) s = py_bind (poll_target clk tool tg s) (poll_targets clk tool tgs)"

text \<open>\<open>main\<close>: the state file read at the start, what the save is given (the old state when there is none),
  and the text of the output.\<close>

definition sel_main ::
    "clock_reader \<Rightarrow> rat \<Rightarrow> ipmitool option \<Rightarrow> target list \<Rightarrow> sel_state \<Rightarrow> (sel_state \<times> string) py" where
  "sel_main clk now tool targets state =
     py_bind (poll_targets clk tool targets \<lparr>sn_state = state, sn_results = [], sn_errors = []\<rparr>) (\<lambda>s.
       Inr (if list_ex sr_up (sn_results s) then sn_state s else state,
            emit_metrics now (sn_results s) (sn_errors s)))"

text \<open>The polls of one start of the program under its timer: from the targets and whether there is the tool, and
  the state loaded, the state that the save is given, and what is reported, as node and record id. A run that
  raises reports nothing.\<close>

type_synonym sel_input = "clock_reader \<times> ipmitool option \<times> target list"

definition sel_report :: "sel_input \<Rightarrow> sel_state \<Rightarrow> sel_state \<times> (string \<times> int) list" where
  "sel_report inp state =
     (case poll_targets (fst inp) (fst (snd inp)) (snd (snd inp)) \<lparr>sn_state = state, sn_results = [], sn_errors = []\<rparr> of
        Inl e \<Rightarrow> (state, [])
      | Inr s \<Rightarrow> (if list_ex sr_up (sn_results s) then sn_state s else state,
          concat (map (\<lambda>r. map (\<lambda>e. (sr_node r, se_record_id e)) (sr_new_events r)) (sn_results s))))"

text \<open>The whole start, with how its save ended: only a run that reached a BMC saves at all, and a save that
  raises \<open>OSError\<close> is passed over, the report is made all the same.\<close>

definition sel_start :: "sel_input \<times> save_result \<Rightarrow> sel_state \<Rightarrow> sel_state \<times> (string \<times> int) list" where
  "sel_start x state =
     (case poll_targets (fst (fst x)) (fst (snd (fst x))) (snd (snd (fst x)))
             \<lparr>sn_state = state, sn_results = [], sn_errors = []\<rparr> of
        Inl e \<Rightarrow> (state, [])
      | Inr s \<Rightarrow> (if list_ex sr_up (sn_results s) then saved [] (snd x) state (sn_state s) else state,
          concat (map (\<lambda>r. map (\<lambda>e. (sr_node r, se_record_id e)) (sr_new_events r)) (sn_results s))))"

section \<open>Reading plain rows\<close>

definition plain :: "string \<Rightarrow> bool" where
  "plain f \<longleftrightarrow> (\<forall>c \<in> set f. c \<noteq> CHR '','' \<and> c \<noteq> CHR 0x22 \<and> \<not> is_eol c)"

definition csv_line :: "string list \<Rightarrow> string" where
  "csv_line row = join '','' row @ [CHR 0x0A]"

lemma csv_chars_append: "csv_chars (xs @ ys) v = py_bind (csv_chars xs v) (csv_chars ys)"
proof (induction xs arbitrary: v)
  case (Cons x xs)
  then have "csv_chars (xs @ ys) = (\<lambda>v. py_bind (csv_chars xs v) (csv_chars ys))" by (rule ext)
  then show ?case by (simp add: py_bind_assoc)
qed simp

lemma csv_plain_char:
  "c \<noteq> CHR '','' \<Longrightarrow> \<not> is_eol c \<Longrightarrow> cv_state v = InField \<Longrightarrow> csv_char c v = Inr (add_char c v)"
  by (simp add: csv_char_def)

lemma csv_plain_field:
  assumes "plain f" "cv_state v = InField"
  shows "csv_chars f v = Inr (v\<lparr>cv_field := cv_field v @ f\<rparr>)"
  using assms
proof (induction f arbitrary: v)
  case (Cons c f)
  then have "csv_char c v = Inr (add_char c v)" by (intro csv_plain_char) (auto simp: plain_def)
  moreover have "csv_chars f (add_char c v) = Inr ((add_char c v)\<lparr>cv_field := cv_field (add_char c v) @ f\<rparr>)"
    using Cons.prems by (intro Cons.IH) (auto simp: plain_def add_char_def)
  ultimately show ?case using Cons.prems by (simp add: add_char_def)
qed simp

lemma csv_plain_start:
  "c \<noteq> CHR '','' \<Longrightarrow> c \<noteq> CHR 0x22 \<Longrightarrow> \<not> is_eol c \<Longrightarrow> cv_state v = StartField \<or> cv_state v = StartRecord \<Longrightarrow>
   csv_char c v = Inr (add_char c v)"
  by (elim disjE) (simp_all add: csv_char_def csv_field_start_def)

lemma csv_field:
  assumes "plain f" "f \<noteq> []" "cv_state v = StartField \<or> cv_state v = StartRecord" "cv_field v = []"
  shows "csv_chars f v = Inr (v\<lparr>cv_field := f, cv_state := InField\<rparr>)"
proof -
  obtain c f' where f: "f = c # f'" using assms(2) by (cases f) auto
  have "csv_char c v = Inr (add_char c v)"
    using assms f by (intro csv_plain_start) (simp_all add: plain_def)
  moreover have "csv_chars f' (add_char c v) = Inr ((add_char c v)\<lparr>cv_field := cv_field (add_char c v) @ f'\<rparr>)"
    using assms f by (intro csv_plain_field) (auto simp: plain_def add_char_def)
  ultimately show ?thesis using assms f by (simp add: add_char_def)
qed

lemma csv_row:
  assumes "\<forall>f \<in> set row. plain f \<and> f \<noteq> []" "row \<noteq> []" "cv_field v = []"
    "cv_state v = StartField \<or> cv_state v = StartRecord"
  shows "csv_chars (csv_line row) v =
    Inr \<lparr>cv_state = EatCrnl, cv_field = [], cv_row = cv_row v @ row\<rparr>"
  using assms
proof (induction row arbitrary: v)
  case (Cons f row)
  then have f: "csv_chars f v = Inr (v\<lparr>cv_field := f, cv_state := InField\<rparr>)" by (intro csv_field) auto
  show ?case
  proof (cases "row = []")
    case True
    then show ?thesis using f
      by (simp add: csv_line_def csv_chars_append csv_char_def save_field_def is_eol_def)
  next
    case False
    then have "csv_line (f # row) = f @ CHR '','' # csv_line row"
      by (cases row) (simp_all add: csv_line_def)
    moreover have "csv_chars (csv_line row) \<lparr>cv_state = StartField, cv_field = [], cv_row = cv_row v @ [f]\<rparr> =
        Inr \<lparr>cv_state = EatCrnl, cv_field = [], cv_row = (cv_row v @ [f]) @ row\<rparr>"
      using Cons.IH[of "\<lparr>cv_state = StartField, cv_field = [], cv_row = cv_row v @ [f]\<rparr>"] Cons.prems False
      by simp
    ultimately show ?thesis using f
      by (simp add: csv_chars_append csv_char_def save_field_def is_eol_def)
  qed
qed simp

lemma text_lines_line:
  "CHR 0x0A \<notin> set l \<Longrightarrow> text_lines acc (l @ CHR 0x0A # t) = (rev acc @ l @ [CHR 0x0A]) # text_lines [] t"
  by (induction l arbitrary: acc) auto

definition row_ok :: "string list \<Rightarrow> bool" where
  "row_ok row \<longleftrightarrow> row \<noteq> [] \<and> (\<forall>f \<in> set row. plain f \<and> f \<noteq> [])"

lemma csv_line_lines:
  "row_ok row \<Longrightarrow> text_lines [] (csv_line row @ t) = csv_line row # text_lines [] t"
proof -
  assume "row_ok row"
  then have "CHR 0x0A \<notin> set (join '','' row)"
    unfolding row_ok_def by (induction "'',''" row rule: join.induct) (auto simp: plain_def is_eol_def)
  then show ?thesis using text_lines_line[of "join '','' row" "[]" t] by (simp add: csv_line_def)
qed

lemma csv_reader_rows:
  "list_all row_ok rows \<Longrightarrow> csv_reader (concat (map csv_line rows)) = Inr rows"
  unfolding csv_reader_def
proof (induction rows)
  case Nil
  then show ?case by (simp add: csv_start_def)
next
  case (Cons row rows)
  then have "csv_chars (csv_line row) csv_start = Inr \<lparr>cv_state = EatCrnl, cv_field = [], cv_row = row\<rparr>"
    using csv_row[of row csv_start] by (simp add: row_ok_def csv_start_def)
  then show ?case using Cons by (simp add: csv_line_lines csv_eol_def)
qed

text \<open>A text that stripping leaves alone.\<close>

definition cell_ok :: "string \<Rightarrow> bool" where
  "cell_ok f \<longleftrightarrow> plain f \<and> f \<noteq> [] \<and> strip f = f"

definition event_row :: "string \<Rightarrow> sel_event \<Rightarrow> string list" where
  "event_row ts e = [str_int (se_record_id e), ts, se_sensor_name e, se_description e, se_direction e,
     se_severity_hint e]"

definition event_ok :: "clock_reader \<Rightarrow> string \<times> sel_event \<Rightarrow> bool" where
  "event_ok clk te \<longleftrightarrow> clk (fst te) = Some (se_timestamp (snd te)) \<and> small_int (se_record_id (snd te)) \<and>
     list_all cell_ok [fst te, se_sensor_name (snd te), se_description (snd te), se_direction (snd te),
       se_severity_hint (snd te)]"

lemma str_int_cell: "cell_ok (str_int i)"
proof -
  have "is_digit c \<or> c = CHR ''-''" if "c \<in> set (str_int i)" for c using str_int_chars that .
  moreover have ne: "str_int i \<noteq> []" by (simp add: str_int_def)
  moreover have "\<not> is_space c" if "is_digit c \<or> c = CHR ''-''" for c
    using that by (auto simp: is_digit_def is_space_def cp_def)
  ultimately have "\<not> is_space (hd (str_int i))" "\<not> is_space (last (str_int i))"
    by (simp_all add: hd_in_set last_in_set)
  then have "strip (str_int i) = str_int i" by (intro strip_id) simp
  moreover have "plain (str_int i)"
    unfolding plain_def is_eol_def using str_int_chars[of _ i]
    by (auto simp: is_digit_def cp_def dest!: str_int_chars)
  ultimately show ?thesis using ne by (simp add: cell_ok_def)
qed

lemma str_int_not_hex: "\<not> starts_with ''0x'' (str_int i)"
proof
  assume "starts_with ''0x'' (str_int i)"
  then have "CHR ''x'' \<in> set (str_int i)" by (auto simp: starts_with_iff)
  then show False using str_int_chars[of "CHR ''x''" i] by (auto simp: is_digit_def cp_def)
qed

lemma parse_event_row: "event_ok clk te \<Longrightarrow> parse_row clk (event_row (fst te) (snd te)) = Some (snd te)"
  using str_int_cell[of "se_record_id (snd te)"]
  by (simp add: event_ok_def event_row_def parse_row_def parse_record_id_def cell_ok_def
      py_int_str_int str_int_not_hex)

lemma event_row_ok: "event_ok clk te \<Longrightarrow> row_ok (event_row (fst te) (snd te))"
  using str_int_cell[of "se_record_id (snd te)"]
  by (simp add: event_ok_def event_row_def row_ok_def cell_ok_def)

lemma parse_sel_rows:
  assumes "list_all (event_ok clk) evs"
  shows "parse_sel_csv clk (concat (map (\<lambda>te. csv_line (event_row (fst te) (snd te))) evs)) =
     Inr (map snd evs)"
proof -
  have "list_all row_ok (map (\<lambda>te. event_row (fst te) (snd te)) evs)"
    using assms event_row_ok unfolding list_all_iff set_map by blast
  from csv_reader_rows[OF this]
  have r: "csv_reader (concat (map (\<lambda>te. csv_line (event_row (fst te) (snd te))) evs)) =
      Inr (map (\<lambda>te. event_row (fst te) (snd te)) evs)" by (simp add: comp_def)
  have "List.map_filter (parse_row clk) (map (\<lambda>te. event_row (fst te) (snd te)) evs) = map snd evs"
    using assms by (induction evs) (simp_all add: map_filter_simps parse_event_row)
  then show ?thesis by (simp add: parse_sel_csv_def r)
qed

section \<open>Record ids\<close>

definition last_id :: "sel_state \<Rightarrow> string \<Rightarrow> int" where
  "last_id st n = dgetd st n 0"

lemma max_default_Nil: "max_default l [] = l"
  by (simp add: max_default_def)

lemma max_default_bounds:
  assumes "\<forall>x \<in> set xs. l < x"
  shows "l \<le> max_default l xs \<and> (\<forall>x \<in> set xs. x \<le> max_default l xs)"
proof (cases xs)
  case (Cons a ys)
  have m: "x \<le> Max (set xs)" if "x \<in> set xs" for x using that by (intro Max_ge) auto
  have "l < a" "a \<in> set xs" using assms Cons by auto
  then have "l \<le> Max (set xs)" using m[of a] by (intro order_trans[OF less_imp_le[of l a]]) auto
  then show ?thesis using m Cons by (simp add: max_default_def)
qed (simp add: max_default_def)

lemma max_new:
  "l \<le> max_default l (map se_record_id (filter (\<lambda>e. l < se_record_id e) es)) \<and>
   (\<forall>e \<in> set es. l < se_record_id e \<longrightarrow>
      se_record_id e \<le> max_default l (map se_record_id (filter (\<lambda>e. l < se_record_id e) es)))"
  using max_default_bounds[of "map se_record_id (filter (\<lambda>e. l < se_record_id e) es)" l] by auto

lemma collect_node_ids:
  assumes "collect_node_sel clk run tg l = Inr r"
  shows "sr_node r = node_name tg \<and> l \<le> sr_last_record_id r \<and>
     (\<forall>e \<in> set (sr_new_events r). l < se_record_id e \<and> se_record_id e \<le> sr_last_record_id r) \<and>
     (\<not> sr_up r \<longrightarrow> sr_new_events r = [])"
  using assms
  by (auto simp: collect_node_sel_def field_def py_bind_eq_Inr down_def node_name_def Let_def max_new
      max_default_Nil
      split: option.splits sum.splits if_splits)

lemma poll_target_ids:
  assumes "poll_target clk tool tg s = Inr s'"
  shows "\<exists>r. sn_results s' = sn_results s @ [r] \<and>
     (\<forall>n. last_id (sn_state s) n \<le> last_id (sn_state s') n) \<and>
     (\<not> sr_up r \<longrightarrow> sr_new_events r = []) \<and>
     (\<forall>e \<in> set (sr_new_events r). last_id (sn_state s) (sr_node r) < se_record_id e \<and>
        se_record_id e \<le> last_id (sn_state s') (sr_node r))"
proof (cases tool)
  case None
  then show ?thesis using assms by (auto simp: poll_target_def Let_def down_def)
next
  case (Some run)
  let ?n = "node_name tg"
  obtain r where r: "collect_node_sel clk run tg (last_id (sn_state s) ?n) = Inr r"
    using assms Some by (auto simp: poll_target_def Let_def last_id_def py_bind_eq_Inr)
  then show ?thesis
    using assms Some collect_node_ids[OF r]
    by (intro exI[of _ r]) (auto simp: poll_target_def Let_def last_id_def split: if_splits)
qed

lemma poll_targets_ids:
  assumes "poll_targets clk tool tgs s = Inr s'"
  shows "\<exists>rs. sn_results s' = sn_results s @ rs \<and>
     (\<forall>n. last_id (sn_state s) n \<le> last_id (sn_state s') n) \<and>
     (\<forall>r \<in> set rs. \<not> sr_up r \<longrightarrow> sr_new_events r = []) \<and>
     (\<forall>r \<in> set rs. \<forall>e \<in> set (sr_new_events r). last_id (sn_state s) (sr_node r) < se_record_id e \<and>
        se_record_id e \<le> last_id (sn_state s') (sr_node r))"
  using assms
proof (induction tgs arbitrary: s)
  case (Cons tg tgs)
  obtain s1 where s1: "poll_target clk tool tg s = Inr s1" "poll_targets clk tool tgs s1 = Inr s'"
    using Cons.prems by (auto simp: py_bind_eq_Inr)
  obtain r where r: "sn_results s1 = sn_results s @ [r]"
    "\<forall>n. last_id (sn_state s) n \<le> last_id (sn_state s1) n"
    "\<forall>e \<in> set (sr_new_events r). last_id (sn_state s) (sr_node r) < se_record_id e \<and>
        se_record_id e \<le> last_id (sn_state s1) (sr_node r)" "\<not> sr_up r \<longrightarrow> sr_new_events r = []"
    using poll_target_ids[OF s1(1)] by blast
  obtain rs where rs: "sn_results s' = sn_results s1 @ rs"
    "\<forall>n. last_id (sn_state s1) n \<le> last_id (sn_state s') n"
    "\<forall>r \<in> set rs. \<forall>e \<in> set (sr_new_events r). last_id (sn_state s1) (sr_node r) < se_record_id e \<and>
        se_record_id e \<le> last_id (sn_state s') (sr_node r)"
    "\<forall>r \<in> set rs. \<not> sr_up r \<longrightarrow> sr_new_events r = []"
    using Cons.IH[OF s1(2)] by blast
  show ?case
  proof (intro exI[of _ "r # rs"] conjI allI ballI)
    show "sn_results s' = sn_results s @ r # rs" using r(1) rs(1) by simp
    show "last_id (sn_state s) n \<le> last_id (sn_state s') n" for n using r(2) rs(2) order_trans by blast
    show "\<not> sr_up x \<longrightarrow> sr_new_events x = []" if "x \<in> set (r # rs)" for x using that r(4) rs(4) by auto
    fix x e assume x: "x \<in> set (r # rs)" "e \<in> set (sr_new_events x)"
    show "last_id (sn_state s) (sr_node x) < se_record_id e"
      using x r(2,3) rs(3) le_less_trans by (cases "x = r") fastforce+
    show "se_record_id e \<le> last_id (sn_state s') (sr_node x)"
      using x r(3) rs(2,3) order_trans by (cases "x = r") fastforce+
  qed
qed simp

text \<open>The ids a state file counts as reported.\<close>

definition sel_known :: "sel_state \<Rightarrow> (string \<times> int) set" where
  "sel_known st = {(n, i). i \<le> last_id st n}"

lemma sel_report_cases:
  obtains "sel_report inp st = (st, [])"
  | rs :: "sel_result list" and st' where "fst (sel_report inp st) = st'" "\<forall>n. last_id st n \<le> last_id st' n"
    "set (snd (sel_report inp st)) = {(sr_node r, se_record_id e) | r e. r \<in> set rs \<and> e \<in> set (sr_new_events r)}"
    "\<forall>r \<in> set rs. \<forall>e \<in> set (sr_new_events r). last_id st (sr_node r) < se_record_id e \<and> se_record_id e \<le> last_id st' (sr_node r)"
proof (cases "poll_targets (fst inp) (fst (snd inp)) (snd (snd inp)) \<lparr>sn_state = st, sn_results = [], sn_errors = []\<rparr>")
  case (Inl e)
  then show ?thesis using that(1) by (simp add: sel_report_def)
next
  case (Inr s)
  obtain rs where rs: "sn_results s = rs" "\<forall>n. last_id st n \<le> last_id (sn_state s) n"
    "\<forall>r \<in> set rs. \<not> sr_up r \<longrightarrow> sr_new_events r = []"
    "\<forall>r \<in> set rs. \<forall>e \<in> set (sr_new_events r). last_id st (sr_node r) < se_record_id e \<and>
       se_record_id e \<le> last_id (sn_state s) (sr_node r)"
    using poll_targets_ids[OF Inr] by auto
  show ?thesis
  proof (cases "list_ex sr_up rs")
    case True
    show ?thesis
      by (rule that(2)[of "sn_state s" rs]) (use Inr rs True in \<open>auto simp: sel_report_def\<close>)
  next
    case False
    then have "\<forall>r \<in> set rs. sr_new_events r = []" using rs(3) by (auto simp: list_ex_iff)
    then show ?thesis using that(1) Inr rs(1) False by (auto simp: sel_report_def)
  qed
qed

interpretation sr: ledger sel_report sel_known
proof unfold_locales
  fix inp st
  show "set (snd (sel_report inp st)) \<inter> sel_known st = {}"
    by (cases inp st rule: sel_report_cases) (fastforce simp: sel_known_def)+
  show "set (snd (sel_report inp st)) \<subseteq> sel_known (fst (sel_report inp st))"
    by (cases inp st rule: sel_report_cases) (fastforce simp: sel_known_def)+
  show "sel_known st \<subseteq> sel_known (fst (sel_report inp st))"
    by (cases inp st rule: sel_report_cases) (auto simp: sel_known_def intro: order_trans)
qed

interpretation ss: saved_ledger sel_report sel_known sel_start
  by unfold_locales (simp_all add: sel_start_def sel_report_def split: sum.split)

section \<open>Properties\<close>

text \<open>C30: any number of starts of the program, with any targets, logs and failing polls, each with a save that
  succeeds, fails or is cut short. What a run reported whose save succeeded no later run reports again, as long
  as no save between them is cut short; up to the first cut save no run reports what the first state counted
  as seen; and after a save that failed the next run on the same logs reports the very same records again.\<close>

theorem sel_runs_once:
  "let reports = snd (ledger_runs sel_start runs st) in
   (\<forall>i j. i < j \<and> j < length runs \<and> snd (runs ! i) = Written \<and> (\<forall>k. i < k \<and> k < j \<longrightarrow> snd (runs ! k) \<noteq> CutShort) \<longrightarrow>
      set (reports ! i) \<inter> set (reports ! j) = {}) \<and>
   (\<forall>j < length runs. (\<forall>k < j. snd (runs ! k) \<noteq> CutShort) \<longrightarrow>
      (\<forall>(n, id) \<in> set (reports ! j). last_id st n < id)) \<and>
   (\<forall>i. Suc i < length runs \<and> snd (runs ! i) = Untouched \<and> fst (runs ! Suc i) = fst (runs ! i) \<longrightarrow>
      reports ! Suc i = reports ! i)"
proof -
  have "last_id st n < id" if "j < length runs" "\<forall>k < j. snd (runs ! k) \<noteq> CutShort"
    "(n, id) \<in> set (snd (ledger_runs sel_start runs st) ! j)" for j n id
    using ss.seen_not_reported[OF that(1,2), of st] that(3) by (force simp: sel_known_def)
  then show ?thesis
    using ss.not_reported_twice[of _ _ runs st] ss.repeated_after_failure[of _ runs st] by (auto simp: Let_def)
qed

text \<open>A log printed one event per line is read back event by event, for any fields without
  commas, quotes, line ends and surrounding space.\<close>

theorem sel_csv_roundtrip:
  assumes "list_all (event_ok clk) evs"
  shows "parse_sel_csv clk (concat (map (\<lambda>te. csv_line (event_row (fst te) (snd te))) evs)) =
     Inr (map snd evs)"
  using assms by (rule parse_sel_rows)

definition sample_event :: sel_event where
  "sample_event = \<lparr>se_record_id = 17, se_timestamp = 5, se_sensor_name = ''CPU1 Temp'',
     se_description = ''Upper Critical'', se_direction = ''Assert'', se_severity_hint = ''hi''\<rparr>"

lemma str_int_17: "str_int 17 = ''17''"
  by code_simp

theorem sel_csv_roundtrip_witness:
  "parse_sel_csv (\<lambda>s. Some 5) (csv_line [''17'', ''01/02/2024 03:04:05'', ''CPU1 Temp'', ''Upper Critical'',
     ''Assert'', ''hi'']) = Inr [sample_event]"
proof -
  have "list_all (event_ok (\<lambda>s. Some 5)) [(''01/02/2024 03:04:05'', sample_event)]"
    by code_simp
  from sel_csv_roundtrip[OF this] show ?thesis
    by (simp add: event_row_def sample_event_def str_int_17)
qed

text \<open>In a run over any targets every event reported for a node has
  an id above the one stored before and at most the one stored afterwards, and no stored id ever
  falls.\<close>

theorem sel_events_once:
  assumes "poll_targets clk tool tgs \<lparr>sn_state = st, sn_results = [], sn_errors = []\<rparr> = Inr s"
  shows "(\<forall>r \<in> set (sn_results s). \<forall>e \<in> set (sr_new_events r).
       last_id st (sr_node r) < se_record_id e \<and> se_record_id e \<le> last_id (sn_state s) (sr_node r)) \<and>
     (\<forall>n. last_id st n \<le> last_id (sn_state s) n)"
  using poll_targets_ids[OF assms] by auto

definition sel_rows :: "(string \<times> sel_event) list" where
  "sel_rows = map (\<lambda>i. (''t'', \<lparr>se_record_id = i, se_timestamp = 7, se_sensor_name = ''Fan'',
     se_description = ''d'', se_direction = ''Assert'', se_severity_hint = ''h''\<rparr>)) [3, 5]"

definition sel_tool :: ipmitool where
  "sel_tool ip user pass = Inl (concat (map (\<lambda>te. csv_line (event_row (fst te) (snd te))) sel_rows))"

definition sel_target :: target where
  "sel_target = \<lparr>tg_node = Some ''n1'', tg_ip = Some [], tg_user = Some [], tg_pass = Some []\<rparr>"

theorem sel_events_once_witness:
  "\<exists>s. poll_targets (\<lambda>s. Some 7) (Some sel_tool) [sel_target] \<lparr>sn_state = [(''n1'', 3)], sn_results = [], sn_errors = []\<rparr> = Inr s \<and>
     map se_record_id (concat (map sr_new_events (sn_results s))) = [5] \<and> last_id (sn_state s) ''n1'' \<ge> 3"
proof -
  let ?s = "\<lparr>sn_state = [(''n1'', 3)], sn_results = [], sn_errors = []\<rparr>"
  have "list_all (event_ok (\<lambda>s. Some 7)) sel_rows" by code_simp
  then have "parse_sel_csv (\<lambda>s. Some 7) (concat (map (\<lambda>te. csv_line (event_row (fst te) (snd te))) sel_rows)) =
      Inr (map snd sel_rows)" by (rule parse_sel_rows)
  then obtain s where s: "poll_targets (\<lambda>s. Some 7) (Some sel_tool) [sel_target] ?s = Inr s"
    "map se_record_id (concat (map sr_new_events (sn_results s))) = [5]"
    by (simp add: poll_target_def collect_node_sel_def sel_target_def field_def sel_tool_def node_name_def
        dgetd_def Let_def) (simp add: sel_rows_def)
  have "last_id [(''n1'', 3)] ''n1'' \<le> last_id (sn_state s) ''n1''" using sel_events_once[OF s(1)] by simp
  then show ?thesis using s by (auto simp: last_id_def dgetd_def)
qed

text \<open>Three starts that each read the records 3 and 5: the first save fails and the second succeeds.\<close>

definition sel_run :: sel_input where
  "sel_run = (\<lambda>t. Some 7, Some sel_tool, [sel_target])"

lemma sel_run_report:
  "sel_report sel_run [] = ([(''n1'', 5)], [(''n1'', 3), (''n1'', 5)])" "snd (sel_report sel_run [(''n1'', 5)]) = []"
proof -
  have "list_all (event_ok (\<lambda>s. Some 7)) sel_rows" by code_simp
  then have p: "parse_sel_csv (\<lambda>s. Some 7) (concat (map (\<lambda>te. csv_line (event_row (fst te) (snd te))) sel_rows)) =
      Inr (map snd sel_rows)" by (rule parse_sel_rows)
  note d = sel_report_def sel_run_def poll_target_def collect_node_sel_def sel_target_def field_def sel_tool_def node_name_def
    dgetd_def Let_def
  show "sel_report sel_run [] = ([(''n1'', 5)], [(''n1'', 3), (''n1'', 5)])"
    using p by (simp add: d) (simp add: sel_rows_def max_default_def)
  show "snd (sel_report sel_run [(''n1'', 5)]) = []"
    using p by (simp add: d) (simp add: sel_rows_def)
qed

theorem sel_runs_once_witness:
  "let reports = snd (ledger_runs sel_start [(sel_run, Untouched), (sel_run, Written), (sel_run, Written)] []) in
   reports = [[(''n1'', 3), (''n1'', 5)], [(''n1'', 3), (''n1'', 5)], []] \<and>
   reports ! 1 = reports ! 0 \<and> set (reports ! 1) \<inter> set (reports ! 2) = {} \<and>
   (\<forall>(n, id) \<in> set (reports ! 0). 0 < id)"
proof -
  let ?runs = "[(sel_run, Untouched), (sel_run, Written), (sel_run, Written)]"
  have r: "snd (ledger_runs sel_start ?runs []) = [[(''n1'', 3), (''n1'', 5)], [(''n1'', 3), (''n1'', 5)], []]"
    by (simp add: Let_def ss.start_reports ss.start_written ss.start_untouched sel_run_report)
  have "reports ! 1 = reports ! 0 \<and> set (reports ! 1) \<inter> set (reports ! 2) = {} \<and> (\<forall>(n, id) \<in> set (reports ! 0). 0 < id)"
    if "reports = snd (ledger_runs sel_start ?runs [])" for reports
  proof (intro conjI)
    note c = sel_runs_once[of ?runs "[]", unfolded Let_def, folded that]
    show "reports ! 1 = reports ! 0" using c by (auto dest!: spec[of _ 0])
    have "\<forall>k. 1 < k \<and> k < (2::nat) \<longrightarrow> snd (?runs ! k) \<noteq> CutShort" by auto
    then show "set (reports ! 1) \<inter> set (reports ! 2) = {}"
      using c[THEN conjunct1, rule_format, of 1 2] by simp
    show "\<forall>(n, id) \<in> set (reports ! 0). 0 < id"
      using c[THEN conjunct2, THEN conjunct1, rule_format, of 0] by (simp add: last_id_def dgetd_def)
  qed
  then show ?thesis using r by (simp add: Let_def)
qed

text \<open>Two events give the same metric line, value included, exactly when their node labels, sensor
  types and severities agree: a node with two new events of one class has the same sample twice
  in one exposition.\<close>

theorem sel_event_lines_repeat:
  "event_line n e = event_line n' e' \<longleftrightarrow>
     sanitize_label n = sanitize_label n' \<and>
     sanitize_label (sensor_type_for (se_sensor_name e)) = sanitize_label (sensor_type_for (se_sensor_name e')) \<and>
     sanitize_label (classify_severity (se_direction e) (se_sensor_name e)) =
       sanitize_label (classify_severity (se_direction e') (se_sensor_name e'))"
  using sl.sample_line_inj[of "[n, sensor_type_for (se_sensor_name e), classify_severity (se_direction e) (se_sensor_name e)]"
      "[''node'', ''sensor_type'', ''severity'']"
      "[n', sensor_type_for (se_sensor_name e'), classify_severity (se_direction e') (se_sensor_name e')]"
      "''ipmi_sel_event_total''" "''1''" "''1''"]
  by (auto simp: event_line_def)

end
