(* ===== verification/Wear.thy ===== *)
theory Wear
  imports PyNum Exposition "HOL-Library.List_Lexorder"
begin

text \<open>
  The wear predictor of \<open>storage/wear_predictor.py\<close>: the least-squares line through the wear
  history of a device in binary64 arithmetic, the prediction drawn from it, the reading of the
  range answers, and the metrics. What Prometheus answers is an argument.
\<close>

definition MIN_HISTORY_HOURS :: rat where "MIN_HISTORY_HOURS = 72"
definition MAX_DAYS :: rat where "MAX_DAYS = 3650"

definition NVME_QUERY :: string where "NVME_QUERY = ''nvme_percentage_used''"
definition SATA_QUERY :: string where "SATA_QUERY = ''sata_smart_value{attribute=\"percentage_used\"}''"

section \<open>The regression\<close>

definition ols_slope_intercept :: "pf list \<Rightarrow> pf list \<Rightarrow> (pf \<times> pf) option py" where
  "ols_slope_intercept xs ys =
     (let n = length xs in
      if n < 2 then Inr None
      else let sum_x = pf_sum xs; sum_y = pf_sum ys;
               sum_xy = pf_sum (map2 pf_mul xs ys);
               sum_xx = pf_sum (map (\<lambda>x. pf_mul x x) xs);
               denom = pf_sub (pf_mul (pf_nat n) sum_xx) (pf_mul sum_x sum_x)
           in if denom = Fin 0 then Inr None
              else py_bind (pf_div (pf_sub (pf_mul (pf_nat n) sum_xy) (pf_mul sum_x sum_y)) denom) (\<lambda>slope.
                   py_bind (pf_div (pf_sub sum_y (pf_mul slope sum_x)) (pf_nat n)) (\<lambda>intercept.
                   Inr (Some (slope, intercept)))))"

section \<open>The prediction\<close>

record prediction =
  insufficient_data :: bool
  slope_per_hour :: "pf option"
  hours_remaining :: "pf option"
  days_remaining :: "pf option"
  rate_pct_per_day :: "pf option"
  prob_90d :: "pf option"
  current_value :: "pf option"

definition no_prediction :: prediction where
  "no_prediction = \<lparr>insufficient_data = False, slope_per_hour = None, hours_remaining = None,
     days_remaining = None, rate_pct_per_day = None, prob_90d = None, current_value = None\<rparr>"

definition insufficient :: prediction where
  "insufficient = no_prediction\<lparr>insufficient_data := True\<rparr>"

text \<open>The part after the regression: the slope and the last value.\<close>

definition wear_out :: "pf \<Rightarrow> pf \<Rightarrow> prediction py" where
  "wear_out slope current =
     (let result = no_prediction\<lparr>current_value := Some current, slope_per_hour := Some slope\<rparr> in
      if pf_le slope (Fin 0) then Inr result
      else py_bind (pf_div (pf_sub (Fin 100) current) slope) (\<lambda>hours.
        let hours = (if pf_less hours (Fin 0) then Fin 0 else hours) in
        Inr (result\<lparr>rate_pct_per_day := Some (pf_mul slope (Fin 24)),
               hours_remaining := Some hours,
               days_remaining := Some (pf_min (pf_quot hours (Fin 24)) (Fin MAX_DAYS)),
               prob_90d := Some (if pf_less hours (Fin (90 * 24)) then Fin 1 else Fin 0)\<rparr>)))"

definition predict_device :: "pf list \<Rightarrow> pf list \<Rightarrow> prediction py" where
  "predict_device timestamps values =
     (if timestamps = [] \<or> values = [] \<or> length timestamps \<noteq> length values then Inr insufficient
      else let t0 = hd timestamps;
               hours = map (\<lambda>t. pf_quot (pf_sub t t0) (Fin 3600)) timestamps;
               span_hours = pf_sub (last hours) (hd hours)
           in if pf_less span_hours (Fin MIN_HISTORY_HOURS) then Inr insufficient
              else py_bind (ols_slope_intercept hours values) (\<lambda>fit.
                case fit of
                  None \<Rightarrow> Inr insufficient
                | Some (slope, _) \<Rightarrow> wear_out slope (last values)))"

section \<open>The answers of Prometheus\<close>

record range_result =
  rr_metric :: "(string, string) dict"
  rr_values :: "(json \<times> json) list"

type_synonym series = "pf list \<times> pf list"

text \<open>One sample. The time stamp is appended before the value is converted.\<close>

definition read_sample :: "json \<times> json \<Rightarrow> series \<Rightarrow> series py" where
  "read_sample tv s =
     py_bind (json_float (fst tv)) (\<lambda>t.
       case t of
         None \<Rightarrow> Inr s
       | Some t \<Rightarrow> py_bind (json_float (snd tv)) (\<lambda>v.
           case v of
             None \<Rightarrow> Inr (fst s @ [t], snd s)
           | Some v \<Rightarrow> Inr (fst s @ [t], snd s @ [v])))"

fun read_samples :: "(json \<times> json) list \<Rightarrow> series \<Rightarrow> series py" where
  "read_samples [] s = Inr s"
| "read_samples (tv # tvs) s = py_bind (read_sample tv s) (read_samples tvs)"

fun extract_series :: "range_result list \<Rightarrow> string \<Rightarrow> (string, series) dict \<Rightarrow> (string, series) dict py" where
  "extract_series [] label_key d = Inr d"
| "extract_series (r # rs) label_key d =
     (let device = dgetd (rr_metric r) label_key ''unknown'' in
      py_bind (read_samples (rr_values r) ([], [])) (\<lambda>s.
        extract_series rs label_key (if fst s \<noteq> [] then dset device s d else d)))"

definition extract_device_series :: "range_result list \<Rightarrow> string \<Rightarrow> (string, series) dict py" where
  "extract_device_series result_list label_key = extract_series result_list label_key []"

section \<open>The metrics\<close>

type_synonym predictions = "(string, string \<times> prediction) dict"

definition device_lines ::
    "string \<Rightarrow> (prediction \<Rightarrow> pf option) \<Rightarrow> nat \<Rightarrow> predictions \<Rightarrow> string list" where
  "device_lines name get digits ps =
     concat (map (\<lambda>(device, dtype, r). case get r of None \<Rightarrow> []
       | Some v \<Rightarrow> [sample_line name [(''device'', device), (''type'', dtype)] (fmt_pf digits v)])
       (sort_key fst ps))"

definition wear_lines :: "rat \<Rightarrow> predictions \<Rightarrow> int \<Rightarrow> string list" where
  "wear_lines now predictions predictor_up =
     header_lines ''storage_wear_time_to_failure_days'' ''Projected days until device reaches 100% wear (OLS extrapolation).'' ''gauge'' @
     device_lines ''storage_wear_time_to_failure_days'' days_remaining 2 predictions @
     header_lines ''storage_wear_rate_percent_per_day'' ''Wear percentage consumed per day (OLS slope * 24).'' ''gauge'' @
     device_lines ''storage_wear_rate_percent_per_day'' rate_pct_per_day 6 predictions @
     header_lines ''storage_wear_probability_90d'' ''1.0 if device projected to reach 100% wear within 90 days, else 0.0.'' ''gauge'' @
     device_lines ''storage_wear_probability_90d'' prob_90d 1 predictions @
     header_lines ''storage_wear_predictor_insufficient_data'' ''1 if device has less than 72 hours of wear history.'' ''gauge'' @
     concat (map (\<lambda>(device, dtype, r). if insufficient_data r
       then [sample_line ''storage_wear_predictor_insufficient_data'' [(''device'', device)] ''1''] else [])
       (sort_key fst predictions)) @
     header_lines ''storage_wear_predictor_up'' ''1 if wear predictor ran successfully.'' ''gauge'' @
     [value_line ''storage_wear_predictor_up'' (str_int predictor_up)] @
     header_lines ''storage_wear_predictor_last_run_timestamp'' ''Unix timestamp of last wear predictor run.'' ''gauge'' @
     [value_line ''storage_wear_predictor_last_run_timestamp'' (fmt_fixed 3 now)]"

definition emit_wear_metrics :: "rat \<Rightarrow> predictions \<Rightarrow> int \<Rightarrow> string" where
  "emit_wear_metrics now predictions predictor_up = render (wear_lines now predictions predictor_up)"

section \<open>A run\<close>

text \<open>The devices of one query; a key that is taken gets the prefix, for the second query.\<close>

fun add_predictions ::
    "string option \<Rightarrow> string \<Rightarrow> (string \<times> series) list \<Rightarrow> predictions \<Rightarrow> predictions py" where
  "add_predictions prefix dtype [] ps = Inr ps"
| "add_predictions prefix dtype ((device, ts, vals) # ss) ps =
     py_bind (predict_device ts vals) (\<lambda>r.
       let key = (case prefix of Some p \<Rightarrow> if device \<in> set (dkeys ps) then p @ device else device
                  | None \<Rightarrow> device)
       in add_predictions prefix dtype ss (dset key (dtype, r) ps))"

definition run_query ::
    "string option \<Rightarrow> string \<Rightarrow> range_result list \<Rightarrow> predictions \<times> int \<Rightarrow> predictions \<times> int" where
  "run_query prefix dtype results st =
     (case py_bind (extract_device_series results ''device'')
             (\<lambda>series. add_predictions prefix dtype series (fst st)) of
        Inr ps \<Rightarrow> (ps, snd st)
      | Inl e \<Rightarrow> (fst st, 0))"

definition wear_main :: "rat \<Rightarrow> range_result list \<Rightarrow> range_result list \<Rightarrow> string" where
  "wear_main now nvme sata =
     (let (ps, up) = run_query (Some ''sata_'') ''sata'' sata (run_query None ''nvme'' nvme ([], 1))
      in emit_wear_metrics now ps up)"

section \<open>The regression is exact on exact data\<close>

text \<open>A wear history in whole percents, \<open>hs\<close> hours after its start, with small sums.\<close>

definition small_history :: "int list \<Rightarrow> int list \<Rightarrow> bool" where
  "small_history hs ws \<longleftrightarrow>
     length hs = length ws \<and> (\<forall>n \<in> set hs \<union> set ws. 0 \<le> n) \<and>
     int (length hs) * sum_list (map2 (*) hs hs) \<le> 2 ^ 53 \<and>
     int (length hs) * sum_list (map2 (*) hs ws) \<le> 2 ^ 53 \<and>
     sum_list hs * sum_list hs \<le> 2 ^ 53 \<and> sum_list hs * sum_list ws \<le> 2 ^ 53 \<and>
     sum_list hs \<le> 2 ^ 53 \<and> sum_list ws \<le> 2 ^ 53 \<and> int (length hs) \<le> 2 ^ 53"

definition line_num :: "int list \<Rightarrow> int list \<Rightarrow> int" where
  "line_num hs ws = int (length hs) * sum_list (map2 (*) hs ws) - sum_list hs * sum_list ws"

lemma sum_scaled:
  assumes "length ws = length hs" "\<forall>(h, w) \<in> set (zip hs ws). of_int w = w0 + k * (of_int h :: rat)"
  shows "of_int (sum_list ws) = of_nat (length hs) * w0 + k * (of_int (sum_list hs) :: rat) \<and>
     of_int (sum_list (map2 (*) hs ws)) =
       w0 * of_int (sum_list hs) + k * (of_int (sum_list (map2 (*) hs hs)) :: rat)"
  using assms by (induction hs ws rule: list_induct2') (auto simp: algebra_simps)

lemma line_num_scaled:
  assumes "length ws = length hs" "\<forall>(h, w) \<in> set (zip hs ws). of_int w = w0 + k * (of_int h :: rat)"
  shows "of_int (line_num hs ws) = k * of_int (line_num hs hs)"
  using sum_scaled[OF assms] by (simp add: line_num_def algebra_simps)

lemma spread_sum:
  "(\<Sum>h \<leftarrow> hs. (h - m)\<^sup>2) = sum_list (map2 (*) hs hs) - 2 * m * sum_list hs + of_nat (length hs) * m\<^sup>2"
  for hs :: "rat list"
  by (induction hs) (auto simp: algebra_simps power2_eq_square)

lemma line_num_nonzero:
  assumes "h \<in> set hs" "h' \<in> set hs" "h \<noteq> h'"
  shows "line_num hs hs \<noteq> 0"
proof
  let ?q = "map of_int hs :: rat list" and ?n = "of_nat (length hs) :: rat"
  have n: "?n > 0" using assms by (cases hs) auto
  define m where "m = sum_list ?q / ?n"
  assume "line_num hs hs = 0"
  then have "of_int (line_num hs hs) = (0 :: rat)" by simp
  moreover have "of_int (sum_list xs) = (sum_list (map of_int xs) :: rat)" for xs by (induction xs) auto
  ultimately have D: "?n * sum_list (map2 (*) ?q ?q) = sum_list ?q * sum_list ?q"
    by (simp add: line_num_def zip_map1 zip_map2 case_prod_unfold comp_def)
  have nm: "?n * m = sum_list ?q" using n by (simp add: m_def)
  have "?n * (\<Sum>h \<leftarrow> ?q. (h - m)\<^sup>2) =
      ?n * sum_list (map2 (*) ?q ?q) - 2 * (?n * m) * sum_list ?q + (?n * m)\<^sup>2"
    unfolding spread_sum by (simp add: algebra_simps power2_eq_square)
  also have "\<dots> = 0" unfolding nm D by (simp add: power2_eq_square)
  finally have "(\<Sum>h \<leftarrow> ?q. (h - m)\<^sup>2) = 0" using n by simp
  then have "\<forall>x \<in> set (map (\<lambda>h. (h - m)\<^sup>2) ?q). x = 0" by (subst (asm) sum_list_nonneg_eq_0_iff) auto
  then have "of_int h = m" "of_int h' = m" using assms(1,2) by auto
  then show False using assms(3) by simp
qed

lemma prod_sum_nonneg: "\<forall>n \<in> set ms \<union> set ns. (0 :: int) \<le> n \<Longrightarrow> 0 \<le> sum_list (map2 (*) ms ns)"
  using sum_list_prod_nonneg[of ms ns] by (intro sum_list_nonneg) blast

lemma ols_small:
  assumes s: "small_history hs ws" and two: "h \<in> set hs" "h' \<in> set hs" "h \<noteq> h'"
    and line: "\<forall>(h, w) \<in> set (zip hs ws). of_int w = w0 + k * (of_int h :: rat)"
  shows "\<exists>i. ols_slope_intercept (pf_ints hs) (pf_ints ws) = Inr (Some (pf_of k, i))"
proof -
  note s = s[unfolded small_history_def]
  let ?n = "int (length hs)"
  have "card {h, h'} \<le> card (set hs)" using two by (intro card_mono) auto
  then have two_n: "length hs \<ge> 2" using two(3) card_length[of hs] by simp
  have nn: "0 \<le> sum_list (map2 (*) hs hs)" "0 \<le> sum_list (map2 (*) hs ws)" "0 \<le> sum_list hs" "0 \<le> sum_list ws"
    using s by (simp_all add: prod_sum_nonneg sum_list_nonneg)
  have le: "x \<le> ?n * x" if "0 \<le> x" for x using mult_right_mono[of 1 ?n x] two_n that by simp
  have small: "sum_list (map2 (*) hs hs) \<le> 2 ^ 53" "sum_list (map2 (*) hs ws) \<le> 2 ^ 53"
    using s le[OF nn(1)] le[OF nn(2)] by linarith+
  have sxx: "pf_sum (map (\<lambda>x. pf_mul x x) (pf_ints hs)) = Fin (of_int (sum_list (map2 (*) hs hs)))"
  proof -
    have "map (\<lambda>x. pf_mul x x) (pf_ints hs) = map2 pf_mul (pf_ints hs) (pf_ints hs)"
      by (induction hs) (auto simp: pf_ints_def)
    then show ?thesis using s small(1) sum_list_prod_nonneg[of hs hs]
      by (simp add: pf_products_ints pf_sum_ints)
  qed
  have sxy: "pf_sum (map2 pf_mul (pf_ints hs) (pf_ints ws)) = Fin (of_int (sum_list (map2 (*) hs ws)))"
    using s small(2) sum_list_prod_nonneg[of hs ws] by (simp add: pf_products_ints pf_sum_ints)
  have sx: "pf_sum (pf_ints hs) = Fin (of_int (sum_list hs))" "pf_sum (pf_ints ws) = Fin (of_int (sum_list ws))"
    using s by (auto intro!: pf_sum_ints)
  have n: "pf_nat (length hs) = Fin (of_int ?n)" using s fint_small[of ?n] by (simp add: pf_nat_def)
  have diff: "pf_sub (pf_mul (pf_nat (length hs)) (Fin (of_int a))) (pf_mul (Fin (of_int b)) (Fin (of_int c))) =
      Fin (of_int (?n * a - b * c))"
    if "0 \<le> ?n * a" "?n * a \<le> 2 ^ 53" "0 \<le> b * c" "b * c \<le> 2 ^ 53" for a b c :: int
    using that pf_mul_ints[of ?n a] pf_mul_ints[of b c] pf_sub_ints[of "?n * a" "b * c"]
    unfolding n by (simp del: of_int_mult of_int_diff of_int_of_nat_eq)
  have num: "pf_sub (pf_mul (pf_nat (length hs)) (Fin (of_int (sum_list (map2 (*) hs ws)))))
      (pf_mul (Fin (of_int (sum_list hs))) (Fin (of_int (sum_list ws)))) = Fin (of_int (line_num hs ws))"
    using s nn unfolding line_num_def by (intro diff) auto
  have den: "pf_sub (pf_mul (pf_nat (length hs)) (Fin (of_int (sum_list (map2 (*) hs hs)))))
      (pf_mul (Fin (of_int (sum_list hs))) (Fin (of_int (sum_list hs)))) = Fin (of_int (line_num hs hs))"
    using s nn unfolding line_num_def by (intro diff) auto
  have D: "(of_int (line_num hs hs) :: rat) \<noteq> 0" using line_num_nonzero[OF two] by simp
  have k: "of_int (line_num hs ws) / of_int (line_num hs hs) = k"
    using line_num_scaled[OF _ line] s D by simp
  have n0: "pf_nat (length hs) \<noteq> Fin 0" using two_n unfolding n by auto
  have len: "length (pf_ints hs) = length hs" by (simp add: pf_ints_def)
  show ?thesis
    unfolding ols_slope_intercept_def Let_def len sxx sxy sx num den
    using two_n D n0 by (simp add: pf_div_nonzero pf_quot_def k)
qed


section \<open>The prediction is total and bounded\<close>

lemma wear_out_total: "\<exists>r. wear_out slope current = Inr r"
  by (cases "pf_le slope (Fin 0)") (auto simp: wear_out_def pf_div_def Let_def pf_le_def)

lemma ols_total: "\<exists>r. ols_slope_intercept xs ys = Inr r"
proof -
  have "pf_nat n \<noteq> Fin 0" if "\<not> n < 2" for n
    using that fint_mono[of 1 "int n"] fint_small[of 1] by (auto simp: pf_nat_def)
  then show ?thesis by (auto simp: ols_slope_intercept_def Let_def pf_div_def)
qed

definition bounded_days :: "pf \<Rightarrow> bool" where
  "bounded_days d \<longleftrightarrow> d = NaN \<or> (\<exists>q. d = Fin q \<and> 0 \<le> q \<and> q \<le> MAX_DAYS)"

lemma days_bounded:
  assumes "\<not> pf_less h (Fin 0)"
  shows "bounded_days (pf_min (pf_quot h (Fin 24)) (Fin MAX_DAYS))"
proof (cases h)
  case (Fin q)
  then have "0 \<le> rnd (q / 24)" using assms by (simp add: rnd_nonneg)
  then show ?thesis using Fin
    by (auto simp: bounded_days_def pf_min_def pf_quot_def pf_of_def Let_def MAX_DAYS_def not_less)
qed (use assms in \<open>auto simp: bounded_days_def pf_min_def pf_quot_def pf_inf_def MAX_DAYS_def\<close>)

definition sane :: "prediction \<Rightarrow> bool" where
  "sane r \<longleftrightarrow>
     (\<forall>d. days_remaining r = Some d \<longrightarrow> bounded_days d) \<and>
     (\<forall>p. prob_90d r = Some p \<longrightarrow> p = Fin 0 \<or> p = Fin 1) \<and>
     (days_remaining r = None \<longleftrightarrow> prob_90d r = None) \<and>
     (insufficient_data r \<longrightarrow> slope_per_hour r = None \<and> days_remaining r = None) \<and>
     (\<not> insufficient_data r \<longrightarrow> slope_per_hour r \<noteq> None)"

lemma wear_out_sane: "wear_out slope current = Inr r \<Longrightarrow> sane r \<and> \<not> insufficient_data r"
  by (auto simp: wear_out_def Let_def py_bind_eq_Inr sane_def no_prediction_def pf_not_le_zero
      intro: days_bounded[of "Fin 0", simplified] days_bounded split: if_splits)

section \<open>Properties\<close>

text \<open>The prediction never raises, whatever floats the history holds (infinities and NaN
  included): the projected days are a number between 0 and ten years or NaN, the 90-day
  probability is 0 or 1, and a slope is reported unless the history is insufficient.\<close>

theorem prediction_total: "\<exists>r. predict_device ts vs = Inr r \<and> sane r"
proof -
  have i: "sane insufficient" by (simp add: sane_def insufficient_def no_prediction_def)
  obtain fit where f: "ols_slope_intercept (map (\<lambda>t. pf_quot (pf_sub t (hd ts)) (Fin 3600)) ts) vs = Inr fit"
    using ols_total by blast
  have "\<exists>r. wear_out slope (last vs) = Inr r \<and> sane r" for slope
    using wear_out_total wear_out_sane by blast
  then show ?thesis using i
    by (auto simp: predict_device_def Let_def f split: option.splits)
qed

lemma quotient_float:
  assumes "of_int d = k * (of_int h :: rat)" "0 < h" "h \<le> 2 ^ 40" "\<bar>d\<bar> \<le> 2 ^ 53"
  shows "pf_of k = Fin (rnd k) \<and> (0 < k \<longrightarrow> 0 < rnd k) \<and> (k \<le> 0 \<longrightarrow> rnd k \<le> 0)"
proof (intro conjI impI)
  have h: "(1 :: rat) \<le> of_int h" "(of_int h :: rat) \<le> of_int (2 ^ 40)"
    using assms(2,3) by (simp, subst of_int_le_iff) simp_all
  have "\<bar>k\<bar> * 1 \<le> \<bar>k\<bar> * of_int h" using h(1) by (intro mult_left_mono) auto
  also have "\<dots> = of_int \<bar>d\<bar>" using assms(1) h by (simp add: abs_mult)
  also have "(of_int \<bar>d\<bar> :: rat) \<le> of_int (2 ^ 53)" using assms(4) by (subst of_int_le_iff) simp
  also have "\<dots> = 2 ^ 53" by simp
  also have "(2 :: rat) ^ 53 \<le> 2 ^ 1000" by (intro power_increasing) auto
  finally show "pf_of k = Fin (rnd k)" by (intro pf_of_small) simp
  show "rnd k \<le> 0" if "k \<le> 0" using rnd_le[of 0 k] that by simp
  show "0 < rnd k" if "0 < k"
  proof -
    have "0 < (of_int d :: rat)" using assms(1,2) that by simp
    then have "(1 :: rat) \<le> of_int d" by simp
    then have "1 \<le> k * of_int h" using assms(1) by simp
    also have "\<dots> \<le> k * of_int (2 ^ 40)" using h(2) that by (intro mult_left_mono) auto
    finally have "1 \<le> k * of_int (2 ^ 40)" .
    then have "2 powi (- 40) \<le> k" by (simp add: power_int_minus field_simps)
    moreover have "is_f64 (2 powi (- 40))" using is_f64_mult[of 1 "- 40"] by simp
    ultimately have "2 powi (- 40) \<le> rnd k" by (intro rnd_ge)
    moreover have "(0 :: rat) < 2 powi (- 40)" by simp
    ultimately show ?thesis by linarith
  qed
qed

text \<open>The time stamps of a history that starts at \<open>t0\<close>.\<close>

definition stamps :: "int \<Rightarrow> int list \<Rightarrow> pf list" where
  "stamps t0 hs = pf_ints (map (\<lambda>h. t0 + 3600 * h) hs)"

lemma stamps_hours:
  assumes "\<forall>h \<in> set (h0 # hs). 0 \<le> h \<and> h \<le> 2 ^ 40" "h0 = 0"
  shows "map (\<lambda>t. pf_quot (pf_sub t (hd (stamps t0 (h0 # hs)))) (Fin 3600)) (stamps t0 (h0 # hs)) = pf_ints (h0 # hs)"
proof -
  have "pf_quot (pf_sub (Fin (of_int (t0 + 3600 * h))) (Fin (of_int t0))) (Fin 3600) = Fin (of_int h)"
    if "h \<in> set (h0 # hs)" for h
  proof -
    have h: "0 \<le> h" "h \<le> 2 ^ 40" using assms(1) that by blast+
    then have "pf_sub (Fin (of_int (t0 + 3600 * h))) (Fin (of_int t0)) = Fin (of_int (3600 * h))"
      by (subst pf_sub_ints) simp_all
    then show ?thesis using h pf_of_int[of h] by (simp add: pf_quot_def)
  qed
  from this[of h0] this show ?thesis using assms(2) by (simp add: stamps_def pf_ints_def)
qed

text \<open>C11: on a history of whole percents at whole hours that lies on a line of slope \<open>k\<close>, spans at least 72
  hours (at most \<open>2 ^ 40\<close>) and whose sums in the regression stay below \<open>2 ^ 53\<close>, the regression
  returns the float nearest to \<open>k\<close>; a line that does not rise gets no prediction, and a rising one
  gets the quotient of the percents left by that rounded slope, itself rounded once: two roundings,
  not the float nearest to the true hours.\<close>

theorem linear_wear_exact:
  assumes "small_history (0 # hs) (w0 # ws)" "\<forall>h \<in> set hs. h \<le> 2 ^ 40" "72 \<le> last (0 # hs)"
    "\<forall>(h, w) \<in> set (zip (0 # hs) (w0 # ws)). of_int w = of_int w0 + k * (of_int h :: rat)"
  shows "\<exists>r. predict_device (stamps t0 (0 # hs)) (pf_ints (w0 # ws)) = Inr r \<and>
     slope_per_hour r = Some (Fin (rnd k)) \<and> \<not> insufficient_data r \<and>
     (k \<le> 0 \<longrightarrow> days_remaining r = None) \<and>
     (0 < k \<and> last (w0 # ws) \<le> 100 \<longrightarrow>
        hours_remaining r = Some (pf_of (of_int (100 - last (w0 # ws)) / rnd k)))"
proof -
  let ?hs = "0 # hs" and ?ws = "w0 # ws"
  have nn: "\<forall>h \<in> set hs. 0 \<le> h" "\<forall>w \<in> set ?ws. 0 \<le> w" "length ?hs = length ?ws"
    using assms(1) by (auto simp: small_history_def)
  have hs: "hs \<noteq> []" using assms(3) by auto
  then have l: "last hs \<in> set hs" "72 \<le> last hs" using assms(3) by auto
  obtain i where fit: "ols_slope_intercept (pf_ints ?hs) (pf_ints ?ws) = Inr (Some (pf_of k, i))"
    using ols_small[OF assms(1), of 0 "last hs"] l assms(4) by auto
  have hours: "map (\<lambda>t. pf_quot (pf_sub t (hd (stamps t0 ?hs))) (Fin 3600)) (stamps t0 ?hs) = pf_ints ?hs"
    using nn assms(2) by (intro stamps_hours) auto
  have lastint: "last (pf_ints ns) = Fin (of_int (last ns))" "hd (pf_ints ns) = Fin (of_int (hd ns))"
    "pf_ints ns \<noteq> []" "length (pf_ints ns) = length ns" if "ns \<noteq> []" for ns
    using that by (simp_all add: pf_ints_def last_map hd_map)
  have "0 \<le> last hs" "last hs \<le> 2 ^ 40" using l nn(1) assms(2) by blast+
  then have span: "pf_sub (last (pf_ints ?hs)) (hd (pf_ints ?hs)) = Fin (of_int (last hs))"
    using pf_sub_ints[of "last hs" 0] hs by (simp add: lastint)
  have p: "predict_device (stamps t0 ?hs) (pf_ints ?ws) = wear_out (pf_of k) (Fin (of_int (last ?ws)))"
    using nn(3) l(2) unfolding predict_device_def Let_def hours span fit
    by (simp add: stamps_def lastint MIN_HISTORY_HOURS_def del: last.simps)
  have "(last ?hs, last ?ws) \<in> set (zip ?hs ?ws)"
    using nn(3) last_zip[of ?hs ?ws] last_in_set[of "zip ?hs ?ws"] by auto
  then have lastk: "of_int (last ?ws - w0) = k * (of_int (last ?hs) :: rat)" using assms(4) by auto
  have wb: "0 \<le> w \<and> w \<le> 2 ^ 53" if "w \<in> set ?ws" for w
    using member_le_sum_list[OF that] nn(2) assms(1) that unfolding small_history_def by (meson order_trans)
  have w: "0 \<le> last ?ws" "last ?ws \<le> 2 ^ 53" "\<bar>last ?ws - w0\<bar> \<le> 2 ^ 53"
    using wb[of "last ?ws"] wb[of w0] last_in_set[of ?ws] by auto
  have k: "pf_of k = Fin (rnd k) \<and> (0 < k \<longrightarrow> 0 < rnd k) \<and> (k \<le> 0 \<longrightarrow> rnd k \<le> 0)"
    using lastk l \<open>last hs \<le> 2 ^ 40\<close> hs w(3) by (intro quotient_float[of "last ?ws - w0" k "last ?hs"]) auto
  show ?thesis
  proof (cases "0 < k")
    case False
    then show ?thesis using k by (simp add: p wear_out_def Let_def no_prediction_def del: last.simps)
  next
    case True
    define w' where "w' = last ?ws"
    have "pf_sub (Fin 100) (Fin (of_int w')) = Fin (of_int (100 - w'))"
      using pf_sub_ints[of 100 w'] w unfolding w'_def by simp
    moreover have "\<not> pf_less (pf_of (of_int (100 - w') / rnd k)) (Fin 0)" if "w' \<le> 100"
      using that True k rnd_nonneg[of "of_int (100 - w') / rnd k"] by (auto simp: pf_of_def Let_def)
    ultimately show ?thesis using True k unfolding p w'_def[symmetric]
      by (simp add: wear_out_def Let_def no_prediction_def pf_div_nonzero pf_quot_def)
  qed
qed

theorem linear_wear_exact_witness:
  "\<exists>r. predict_device (stamps 1700000000 [0, 48, 96]) (pf_ints [10, 12, 14]) = Inr r \<and>
     slope_per_hour r = Some (Fin (rnd (1 / 24))) \<and> hours_remaining r = Some (pf_of (86 / rnd (1 / 24)))"
proof -
  have "small_history [0, 48, 96] [10, 12, 14]" by (simp add: small_history_def)
  from linear_wear_exact[OF this, of "1 / 24" 1700000000] show ?thesis by auto
qed

lemma read_sample_longer:
  "read_sample tv s = Inr s' \<Longrightarrow>
   length (fst s') - length (snd s') =
     length (fst s) - length (snd s) + (if json_float (fst tv) \<noteq> Inr None \<and> json_float (snd tv) = Inr None then 1 else 0)"
  if "length (snd s) \<le> length (fst s)"
  using that by (cases s; cases s') (auto simp: read_sample_def py_bind_eq_Inr split: option.splits)

lemma read_sample_aligned:
  "read_sample tv s = Inr s' \<Longrightarrow> length (snd s) \<le> length (fst s) \<Longrightarrow> length (snd s') \<le> length (fst s')"
  by (auto simp: read_sample_def py_bind_eq_Inr split: option.splits)

lemma read_samples_longer:
  "read_samples tvs s = Inr s' \<Longrightarrow> length (snd s) \<le> length (fst s) \<Longrightarrow>
   length (fst s') - length (snd s') = length (fst s) - length (snd s) +
     length (filter (\<lambda>tv. json_float (fst tv) \<noteq> Inr None \<and> json_float (snd tv) = Inr None) tvs)"
proof (induction tvs arbitrary: s)
  case (Cons tv tvs)
  obtain s1 where s1: "read_sample tv s = Inr s1" "read_samples tvs s1 = Inr s'"
    using Cons.prems(1) by (auto simp: py_bind_eq_Inr)
  show ?case
    using Cons.IH[OF s1(2) read_sample_aligned[OF s1(1) Cons.prems(2)]]
      read_sample_longer[OF Cons.prems(2) s1(1)] by simp
qed simp

text \<open>One sample whose time stamp is read but whose value is not puts the two lists of a device
  out of step, and then the device has no prediction at all, however long its history.\<close>

theorem unreadable_value_blocks:
  assumes "read_samples tvs ([], []) = Inr s" "(t, v) \<in> set tvs" "json_float t \<noteq> Inr None" "json_float v = Inr None"
  shows "predict_device (fst s) (snd s) = Inr insufficient"
proof -
  have "filter (\<lambda>tv. json_float (fst tv) \<noteq> Inr None \<and> json_float (snd tv) = Inr None) tvs \<noteq> []"
    using assms(2-4) by (force simp: filter_empty_conv)
  then have "length (fst s) \<noteq> length (snd s)" using read_samples_longer[OF assms(1)] by auto
  then show ?thesis by (simp add: predict_device_def)
qed

theorem unreadable_value_blocks_witness:
  "predict_device [Fin 0, Fin 3600, Fin 999999] [Fin 1, Fin 7] = Inr insufficient"
proof -
  have "read_samples [(JInt 0, JInt 1), (JInt 3600, JStr ''x''), (JInt 999999, JInt 7)] ([], []) =
      Inr ([Fin 0, Fin 3600, Fin 999999], [Fin 1, Fin 7])" by code_simp
  moreover have "json_float (JStr ''x'') = Inr None" "json_float (JInt 3600) \<noteq> Inr None" by code_simp+
  ultimately show ?thesis
    using unreadable_value_blocks[of "[(JInt 0, JInt 1), (JInt 3600, JStr ''x''), (JInt 999999, JInt 7)]"
        "([Fin 0, Fin 3600, Fin 999999], [Fin 1, Fin 7])" "JInt 3600" "JStr ''x''"] by simp
qed

end
