(* ===== verification/Redfish.thy ===== *)
theory Redfish
  imports Json Exposition PyFloat Ledger
begin

text \<open>
  The Redfish collector of \<open>bmc/redfish_collector.py\<close>: health, event log, thermal and power readings
  of one BMC, the metrics, and the set of log ids kept between runs. What an endpoint answers
  (\<open>redfish_get\<close>, parsed or \<open>None\<close>), how a value that is no text prints, and the clock are
  arguments. Every access on a parsed document raises as it does in Python.
\<close>

type_synonym endpoint = "string \<Rightarrow> json option"

definition HEALTH_MAP :: "(string, int) dict" where
  "HEALTH_MAP = [(''ok'', 1), (''warning'', 0), (''critical'', - 1)]"

definition SEL_CATEGORY_PATTERNS :: "(string \<times> string list) list" where
  "SEL_CATEGORY_PATTERNS =
     [(''cpu'', [''cpu'', ''processor'']), (''memory'', [''memory'', ''mem'', ''dram'']),
      (''power'', [''power'', ''psu'', ''voltage'']), (''thermal'', [''thermal'', ''temp'', ''fan'']),
      (''storage'', [''storage'', ''disk'', ''drive'', ''raid'']),
      (''network'', [''network'', ''nic'', ''ethernet''])]"

section \<open>Labels\<close>

text \<open>\<open>(x or "").lower()\<close>\<close>

definition lower_or_empty :: "json \<Rightarrow> string py" where
  "lower_or_empty j =
     (if \<not> jtruthy j then Inr [] else case j of JStr s \<Rightarrow> Inr (lower s) | _ \<Rightarrow> Inl AttributeError)"

definition health_to_int :: "json \<Rightarrow> int py" where
  "health_to_int health_str = py_bind (lower_or_empty health_str) (\<lambda>s. Inr (dgetd HEALTH_MAP s 0))"

fun first_category :: "(string \<times> string list) list \<Rightarrow> string \<Rightarrow> string" where
  "first_category [] s = ''other''"
| "first_category ((category, keywords) # ps) s =
     (if list_ex (\<lambda>kw. contains kw s) keywords then category else first_category ps s)"

definition sel_category_for :: "json \<Rightarrow> string py" where
  "sel_category_for message_id =
     py_bind (lower_or_empty message_id) (\<lambda>s. Inr (first_category SEL_CATEGORY_PATTERNS s))"

text \<open>\<open>sanitize_label\<close> of a parsed value: only texts have \<open>replace\<close>.\<close>

definition sanitize_json :: "json \<Rightarrow> string py" where
  "sanitize_json j = (case j of JStr s \<Rightarrow> Inr (sanitize_label s) | _ \<Rightarrow> Inl AttributeError)"

section \<open>Collection\<close>

definition system_paths :: "string list" where
  "system_paths = [''/redfish/v1/Systems/System.Embedded.1/'', ''/redfish/v1/Systems/1/'']"

definition get_system_path :: "endpoint \<Rightarrow> string option" where
  "get_system_path get = find (\<lambda>p. get p \<noteq> None) system_paths"

text \<open>The answer, when it is there and not empty.\<close>

definition answer :: "endpoint \<Rightarrow> string \<Rightarrow> json option" where
  "answer get path = (case get path of Some j \<Rightarrow> if jtruthy j then Some j else None | None \<Rightarrow> None)"

text \<open>One summary; a missing or misshapen one is passed over, a health that is no text is not.\<close>

definition summary_health :: "json \<Rightarrow> string \<Rightarrow> string \<Rightarrow> (string \<times> int) list py" where
  "summary_health data key component =
     (case py_bind (jitem data key) (\<lambda>s. py_bind (jitem s ''Status'') (\<lambda>s. py_bind (jitem s ''Health'') health_to_int)) of
        Inr v \<Rightarrow> Inr [(component, v)]
      | Inl (KeyError k) \<Rightarrow> Inr []
      | Inl TypeError \<Rightarrow> Inr []
      | Inl e \<Rightarrow> Inl e)"

definition collect_system_health :: "endpoint \<Rightarrow> string \<Rightarrow> (string \<times> int) list py" where
  "collect_system_health get system_path =
     (case answer get system_path of
        None \<Rightarrow> Inr []
      | Some data \<Rightarrow>
          py_bind (summary_health data ''MemorySummary'' ''memory'') (\<lambda>m.
          py_bind (summary_health data ''ProcessorSummary'' ''processor'') (\<lambda>p. Inr (m @ p))))"

record sel_entry =
  ent_id :: string
  ent_severity :: string
  ent_category :: string

text \<open>One entry of the log, with the ids seen so far.\<close>

definition sel_step ::
    "(json \<Rightarrow> string) \<Rightarrow> json \<Rightarrow> string list \<times> sel_entry list \<Rightarrow> (string list \<times> sel_entry list) py" where
  "sel_step show entry st =
     py_bind (jget entry ''Id'' (JStr [])) (\<lambda>i. let entry_id = jstr show i in
     py_bind (jget entry ''Severity'' (JStr [])) (\<lambda>severity.
     if severity \<noteq> JStr ''Critical'' \<and> severity \<noteq> JStr ''Warning'' then Inr st
     else if entry_id \<in> set (fst st) then Inr st
     else py_bind (jget entry ''MessageId'' (JStr [])) (\<lambda>message_id.
          py_bind (sel_category_for message_id) (\<lambda>category.
          Inr (entry_id # fst st, snd st @ [\<lparr>ent_id = entry_id, ent_severity = lower (jstr show severity),
                                              ent_category = category\<rparr>])))))"

fun sel_loop ::
    "(json \<Rightarrow> string) \<Rightarrow> json list \<Rightarrow> string list \<times> sel_entry list \<Rightarrow> (string list \<times> sel_entry list) py" where
  "sel_loop show [] st = Inr st"
| "sel_loop show (e # es) st = py_bind (sel_step show e st) (sel_loop show es)"

definition collect_sel_entries ::
    "(json \<Rightarrow> string) \<Rightarrow> endpoint \<Rightarrow> string \<Rightarrow> string list \<Rightarrow> (string list \<times> sel_entry list) py" where
  "collect_sel_entries show get system_path seen =
     (case answer get (rstrip_chr (CHR ''/'') system_path @ ''/LogServices/Sel/Entries/'') of
        None \<Rightarrow> Inr (seen, [])
      | Some data \<Rightarrow>
          py_bind (jget data ''Members'' (JArr [])) (\<lambda>m. py_bind (jiter m) (\<lambda>entries.
            sel_loop show entries (seen, []))))"

text \<open>The readings of one kind: name and value of every item that has a value.\<close>

definition reading :: "string \<Rightarrow> json \<Rightarrow> (json \<times> json) list py" where
  "reading key item =
     py_bind (jget item key JNull) (\<lambda>value. py_bind (jget item ''Name'' (JStr ''unknown'')) (\<lambda>name.
       Inr (if value = JNull then [] else [(name, value)])))"

definition readings :: "json \<Rightarrow> string \<Rightarrow> string \<Rightarrow> (json \<times> json) list py" where
  "readings data kind key =
     py_bind (jget data kind (JArr [])) (\<lambda>g. py_bind (jiter g) (\<lambda>items.
       py_bind (py_mapM (reading key) items) (\<lambda>rs. Inr (concat rs))))"

record thermal =
  th_temperatures :: "(json \<times> json) list"
  th_fans :: "(json \<times> json) list"

definition no_thermal :: thermal where
  "no_thermal = \<lparr>th_temperatures = [], th_fans = []\<rparr>"

definition collect_thermal :: "endpoint \<Rightarrow> thermal py" where
  "collect_thermal get =
     (case answer get ''/redfish/v1/Chassis/System.Embedded.1/Thermal'' of
        None \<Rightarrow> Inr no_thermal
      | Some data \<Rightarrow>
          py_bind (readings data ''Temperatures'' ''ReadingCelsius'') (\<lambda>ts.
          py_bind (readings data ''Fans'' ''Reading'') (\<lambda>fs.
          Inr \<lparr>th_temperatures = ts, th_fans = fs\<rparr>)))"

record psu =
  ps_name :: json
  ps_watts :: json
  ps_up :: bool

definition psu_state :: "json \<Rightarrow> json py" where
  "psu_state psu =
     (case py_bind (jitem psu ''Status'') (\<lambda>s. jitem s ''State'') of
        Inr v \<Rightarrow> Inr v
      | Inl (KeyError k) \<Rightarrow> Inr (JStr ''Unknown'')
      | Inl TypeError \<Rightarrow> Inr (JStr ''Unknown'')
      | Inl e \<Rightarrow> Inl e)"

definition power_supply :: "json \<Rightarrow> psu list py" where
  "power_supply psu =
     py_bind (jget psu ''MemberId'' (JStr ''unknown'')) (\<lambda>member.
     py_bind (jget psu ''Name'' member) (\<lambda>name. py_bind (jget psu ''PowerInputWatts'' JNull) (\<lambda>watts.
     py_bind (psu_state psu) (\<lambda>state.
     Inr (if watts = JNull then []
          else [\<lparr>ps_name = name, ps_watts = watts, ps_up = (state = JStr ''Enabled'')\<rparr>])))))"

definition collect_power :: "endpoint \<Rightarrow> psu list py" where
  "collect_power get =
     (case answer get ''/redfish/v1/Chassis/System.Embedded.1/Power'' of
        None \<Rightarrow> Inr []
      | Some data \<Rightarrow>
          py_bind (jget data ''PowerSupplies'' (JArr [])) (\<lambda>g. py_bind (jiter g) (\<lambda>items.
          py_bind (py_mapM power_supply items) (\<lambda>ps. Inr (concat ps)))))"

section \<open>Metrics\<close>

definition reading_line :: "(json \<Rightarrow> string) \<Rightarrow> string \<Rightarrow> string \<Rightarrow> json \<times> json \<Rightarrow> string py" where
  "reading_line show name label nv =
     py_bind (sanitize_json (fst nv)) (\<lambda>l. Inr (sample_line name [(label, l)] (jstr show (snd nv))))"

definition entry_line :: "sel_entry \<Rightarrow> string" where
  "entry_line e = sample_line ''redfish_sel_entry_total''
     [(''severity'', sanitize_label (ent_severity e)), (''category'', sanitize_label (ent_category e))] ''1''"

definition redfish_lines ::
    "(json \<Rightarrow> string) \<Rightarrow> rat \<Rightarrow> (string \<times> int) list \<Rightarrow> sel_entry list \<Rightarrow> thermal \<Rightarrow> psu list \<Rightarrow> bool \<Rightarrow> string list py" where
  "redfish_lines show now health entries thermal supplies up =
     py_bind (py_mapM (reading_line show ''redfish_temperature_celsius'' ''sensor'') (th_temperatures thermal)) (\<lambda>temps.
     py_bind (py_mapM (reading_line show ''redfish_fan_rpm'' ''fan'') (th_fans thermal)) (\<lambda>fans.
     py_bind (py_mapM (\<lambda>p. reading_line show ''redfish_psu_input_watts'' ''psu'' (ps_name p, ps_watts p)) supplies) (\<lambda>watts.
     py_bind (py_mapM (\<lambda>p. reading_line show ''redfish_psu_up'' ''psu''
       (ps_name p, JStr (if ps_up p then ''1'' else ''0''))) supplies) (\<lambda>ups.
     Inr (header_lines ''redfish_system_health'' ''Redfish system component health: 1=OK, 0=Warning, -1=Critical.'' ''gauge'' @
       map (\<lambda>(c, v). sample_line ''redfish_system_health'' [(''component'', sanitize_label c)] (str_int v)) health @
       header_lines ''redfish_sel_entry_total'' ''Total new Redfish SEL entries by severity and category.'' ''counter'' @
       map entry_line entries @
       header_lines ''redfish_temperature_celsius'' ''Temperature reading in Celsius from Redfish Thermal.'' ''gauge'' @ temps @
       header_lines ''redfish_fan_rpm'' ''Fan speed in RPM from Redfish Thermal.'' ''gauge'' @ fans @
       header_lines ''redfish_psu_input_watts'' ''PSU input power in Watts from Redfish Power.'' ''gauge'' @ watts @
       header_lines ''redfish_psu_up'' ''1 if PSU State is Enabled, 0 otherwise.'' ''gauge'' @ ups @
       header_lines ''redfish_collector_up'' ''1 if Redfish collector ran successfully, 0 otherwise.'' ''gauge'' @
       [value_line ''redfish_collector_up'' ((if up then ''1'' else ''0''))] @
       header_lines ''redfish_collector_last_run_timestamp'' ''Unix timestamp of last Redfish collector run.'' ''gauge'' @
       [value_line ''redfish_collector_last_run_timestamp'' (fmt_fixed 3 now)])))))"

section \<open>A run\<close>

record redfish_out =
  rf_seen :: "string list"
  rf_entries :: "sel_entry list"
  rf_up :: bool
  rf_text :: string

text \<open>\<open>main\<close>: no host leaves the state alone; otherwise the ids seen go to the save.\<close>

definition redfish_main ::
    "(json \<Rightarrow> string) \<Rightarrow> rat \<Rightarrow> string \<Rightarrow> endpoint \<Rightarrow> string list \<Rightarrow> redfish_out py" where
  "redfish_main show now host get seen =
     (if strip host = []
      then py_bind (redfish_lines show now [] [] no_thermal [] False) (\<lambda>ls.
        Inr \<lparr>rf_seen = seen, rf_entries = [], rf_up = False, rf_text = render ls\<rparr>)
      else case get_system_path get of
        None \<Rightarrow> py_bind (redfish_lines show now [] [] no_thermal [] False) (\<lambda>ls.
          Inr \<lparr>rf_seen = seen, rf_entries = [], rf_up = False, rf_text = render ls\<rparr>)
      | Some path \<Rightarrow>
          py_bind (collect_system_health get path) (\<lambda>health.
          py_bind (collect_sel_entries show get path seen) (\<lambda>(seen, entries).
          py_bind (collect_thermal get) (\<lambda>thermal. py_bind (collect_power get) (\<lambda>supplies.
          let up = health \<noteq> [] \<or> th_temperatures thermal \<noteq> [] \<or> th_fans thermal \<noteq> [] \<or> supplies \<noteq> [] in
          py_bind (redfish_lines show now health entries thermal supplies up) (\<lambda>ls.
          Inr \<lparr>rf_seen = seen, rf_entries = entries, rf_up = up, rf_text = render ls\<rparr>))))))"

text \<open>One start of the program up to its save: from the ids loaded, those that the save is given and those
  reported. A start that raises reports nothing.\<close>

definition redfish_report :: "(json \<Rightarrow> string) \<Rightarrow> rat \<times> string \<times> endpoint \<Rightarrow> string list \<Rightarrow> string list \<times> string list" where
  "redfish_report show r seen =
     (case redfish_main show (fst r) (fst (snd r)) (snd (snd r)) seen of
        Inl e \<Rightarrow> (seen, [])
      | Inr out \<Rightarrow> (rf_seen out, map ent_id (rf_entries out)))"

text \<open>The whole start, with how its save ended: without a host there is none, and one that raises \<open>OSError\<close>
  is passed over, after the report is printed.\<close>

definition redfish_start ::
    "(json \<Rightarrow> string) \<Rightarrow> (rat \<times> string \<times> endpoint) \<times> save_result \<Rightarrow> string list \<Rightarrow> string list \<times> string list" where
  "redfish_start show x seen =
     (case redfish_main show (fst (fst x)) (fst (snd (fst x))) (snd (snd (fst x))) seen of
        Inl e \<Rightarrow> (seen, [])
      | Inr out \<Rightarrow> (if strip (fst (snd (fst x))) = [] then seen else saved [] (snd x) seen (rf_seen out),
                    map ent_id (rf_entries out)))"

section \<open>The log is reported once\<close>

definition entry_id :: "(json \<Rightarrow> string) \<Rightarrow> json \<Rightarrow> string" where
  "entry_id show e = (case jget e ''Id'' (JStr []) of Inr i \<Rightarrow> jstr show i | Inl _ \<Rightarrow> [])"

definition grave :: "json \<Rightarrow> bool" where
  "grave e \<longleftrightarrow> jget e ''Severity'' (JStr []) \<in> {Inr (JStr ''Critical''), Inr (JStr ''Warning'')}"

lemma sel_step_cases:
  assumes "sel_step show e (seen, out) = Inr (seen', out')"
  shows "if grave e \<and> entry_id show e \<notin> set seen
     then seen' = entry_id show e # seen \<and> (\<exists>s c. out' = out @ [\<lparr>ent_id = entry_id show e, ent_severity = s, ent_category = c\<rparr>] \<and>
       s \<in> {''critical'', ''warning''})
     else seen' = seen \<and> out' = out"
proof -
  have l: "lower ''Critical'' = ''critical''" "lower ''Warning'' = ''warning''" by code_simp+
  show ?thesis using assms
    by (auto simp: sel_step_def py_bind_eq_Inr grave_def entry_id_def Let_def jstr_def l split: if_splits)
qed

lemma sel_loop_spec:
  assumes "sel_loop show es (seen, out) = Inr (seen', out')"
  shows "\<exists>new. out' = out @ new \<and> seen' = rev (map ent_id new) @ seen \<and> distinct (map ent_id new) \<and>
     set (map ent_id new) = entry_id show ` {e \<in> set es. grave e} - set seen \<and>
     (\<forall>n \<in> set new. ent_severity n \<in> {''critical'', ''warning''})"
  using assms
proof (induction es arbitrary: seen out)
  case (Cons e es)
  obtain s1 o1 where 1: "sel_step show e (seen, out) = Inr (s1, o1)" "sel_loop show es (s1, o1) = Inr (seen', out')"
    using Cons.prems by (auto simp: py_bind_eq_Inr)
  obtain new where new: "out' = o1 @ new" "seen' = rev (map ent_id new) @ s1" "distinct (map ent_id new)"
    "set (map ent_id new) = entry_id show ` {e \<in> set es. grave e} - set s1"
    "\<forall>n \<in> set new. ent_severity n \<in> {''critical'', ''warning''}"
    using Cons.IH[OF 1(2)] by blast
  have ids: "{x \<in> set (e # es). grave x} = (if grave e then {e} else {}) \<union> {x \<in> set es. grave x}" by auto
  show ?case
  proof (cases "grave e \<and> entry_id show e \<notin> set seen")
    case True
    then obtain s c where s1: "s1 = entry_id show e # seen"
      "o1 = out @ [\<lparr>ent_id = entry_id show e, ent_severity = s, ent_category = c\<rparr>]" "s \<in> {''critical'', ''warning''}"
      using sel_step_cases[OF 1(1)] by auto
    show ?thesis
      using new s1 True
      by (intro exI[of _ "\<lparr>ent_id = entry_id show e, ent_severity = s, ent_category = c\<rparr> # new"]) (auto simp: ids)
  next
    case False
    then have "s1 = seen" "o1 = out" using sel_step_cases[OF 1(1)] by (auto split: if_splits)
    then show ?thesis using new False by (intro exI[of _ new]) (auto simp: ids)
  qed
qed simp

definition fresh :: "string list \<Rightarrow> sel_entry list \<Rightarrow> bool" where
  "fresh seen es \<longleftrightarrow> distinct (map ent_id es) \<and> (\<forall>e \<in> set es. ent_id e \<notin> set seen)"

lemma sel_loop_fresh:
  assumes "sel_loop show es (seen, []) = Inr (seen', out)"
  shows "fresh seen out \<and> seen' = rev (map ent_id out) @ seen"
proof -
  obtain new where new: "out = [] @ new" "seen' = rev (map ent_id new) @ seen" "distinct (map ent_id new)"
    "set (map ent_id new) = entry_id show ` {e \<in> set es. grave e} - set seen"
    using sel_loop_spec[OF assms] by blast
  have "ent_id e \<notin> set seen" if "e \<in> set new" for e
  proof -
    have "ent_id e \<in> set (map ent_id new)" using that by simp
    then show ?thesis unfolding new(4) by blast
  qed
  then show ?thesis using new(1-3) by (simp add: fresh_def)
qed

lemma collect_fresh:
  "collect_sel_entries show get path seen = Inr (seen', es) \<Longrightarrow>
   fresh seen es \<and> seen' = rev (map ent_id es) @ seen"
  by (auto simp: collect_sel_entries_def py_bind_eq_Inr split: option.splits dest: sel_loop_fresh)
     (simp add: fresh_def)

lemma redfish_main_once:
  assumes "redfish_main show now host get seen = Inr out"
  shows "fresh seen (rf_entries out) \<and> rf_seen out = rev (map ent_id (rf_entries out)) @ seen"
proof -
  have "fresh seen []" by (simp add: fresh_def)
  then show ?thesis using assms
    by (auto simp: redfish_main_def py_bind_eq_Inr Let_def split: if_splits option.splits dest: collect_fresh)
qed

interpretation rr: strict_ledger "redfish_report sh" set for sh
proof unfold_locales
  fix r seen
  have "snd (redfish_report sh r seen) = [] \<and> fst (redfish_report sh r seen) = seen \<or>
    (\<exists>es. snd (redfish_report sh r seen) = map ent_id es \<and> fst (redfish_report sh r seen) = rev (map ent_id es) @ seen \<and> fresh seen es)"
    by (cases "redfish_main sh (fst r) (fst (snd r)) (snd (snd r)) seen")
      (use redfish_main_once in \<open>auto simp: redfish_report_def\<close>)
  then show "set (snd (redfish_report sh r seen)) \<inter> set seen = {}"
    "set (snd (redfish_report sh r seen)) \<subseteq> set (fst (redfish_report sh r seen))"
    "set seen \<subseteq> set (fst (redfish_report sh r seen))" "distinct (snd (redfish_report sh r seen))"
    by (auto simp: fresh_def)
qed

lemma redfish_main_no_host:
  "redfish_main sh now host get seen = Inr out \<Longrightarrow> strip host = [] \<Longrightarrow> rf_seen out = seen \<and> rf_entries out = []"
  by (auto simp: redfish_main_def py_bind_eq_Inr)

interpretation rs: saved_ledger "redfish_report sh" set "redfish_start sh" for sh
  by unfold_locales
    (auto simp: redfish_start_def redfish_report_def split: sum.split dest: redfish_main_no_host)

section \<open>Properties\<close>

text \<open>C31: any number of starts of the collector, whatever the controller answers and also when a start raises,
  each with a save that succeeds, fails or is cut short. No start reports an id twice; what a start reported whose save
  succeeded no later one reports again, as long as no save between them is cut short; up to the first cut
  save no start reports an id of the first state file; and after a save that failed the next start on the same
  log reports the very same ids again.\<close>

theorem redfish_reports_once:
  "let reports = snd (ledger_runs (redfish_start show) runs seen) in
   (\<forall>j < length runs. distinct (reports ! j)) \<and>
   (\<forall>i j. i < j \<and> j < length runs \<and> snd (runs ! i) = Written \<and> (\<forall>k. i < k \<and> k < j \<longrightarrow> snd (runs ! k) \<noteq> CutShort) \<longrightarrow>
      set (reports ! i) \<inter> set (reports ! j) = {}) \<and>
   (\<forall>j < length runs. (\<forall>k < j. snd (runs ! k) \<noteq> CutShort) \<longrightarrow> set (reports ! j) \<inter> set seen = {}) \<and>
   (\<forall>i. Suc i < length runs \<and> snd (runs ! i) = Untouched \<and> fst (runs ! Suc i) = fst (runs ! i) \<longrightarrow>
      reports ! Suc i = reports ! i)"
  using rs.not_reported_twice[of _ _ runs "show" seen] rs.seen_not_reported[of _ runs "show" seen]
    rs.repeated_after_failure[of _ runs "show" seen]
  by (auto simp: Let_def rs.run_reports rr.distinct_report)

text \<open>Of the entries of a log exactly the critical and warning ones with an id not seen before are
  reported, each once, with that severity, and exactly their ids are remembered.\<close>

theorem sel_entries_exact:
  assumes "get (rstrip_chr (CHR ''/'') path @ ''/LogServices/Sel/Entries/'') = Some (JObj kvs)" "kvs \<noteq> []"
    "dget kvs ''Members'' = Some (JArr members)" "collect_sel_entries show get path seen = Inr (seen', es)"
  shows "set (map ent_id es) = entry_id show ` {e \<in> set members. grave e} - set seen \<and> distinct (map ent_id es) \<and>
     set seen' = set seen \<union> set (map ent_id es) \<and> (\<forall>e \<in> set es. ent_severity e \<in> {''critical'', ''warning''})"
proof -
  have "sel_loop show members (seen, []) = Inr (seen', es)"
    using assms by (simp add: collect_sel_entries_def answer_def jget_def dgetd_def jiter_def)
  from sel_loop_spec[OF this] show ?thesis by auto
qed

definition demo_members :: "json list" where
  "demo_members =
     [JObj [(''Id'', JStr ''1''), (''Severity'', JStr ''Critical''), (''MessageId'', JStr ''MEM0001'')],
      JObj [(''Id'', JStr ''2''), (''Severity'', JStr ''Warning''), (''MessageId'', JStr ''FAN0001'')],
      JObj [(''Id'', JStr ''3''), (''Severity'', JStr ''OK'')]]"

definition demo_bmc :: endpoint where
  "demo_bmc path = Some (JObj [(''Members'', JArr demo_members)])"

theorem sel_entries_exact_witness:
  "\<exists>seen' es. collect_sel_entries (\<lambda>j. []) demo_bmc ''/redfish/v1/Systems/1/'' [''1''] = Inr (seen', es) \<and>
     set (map ent_id es) = entry_id (\<lambda>j. []) ` {e \<in> set demo_members. grave e} - {''1''} \<and> es \<noteq> []"
proof -
  let ?r = "collect_sel_entries (\<lambda>j. []) demo_bmc ''/redfish/v1/Systems/1/'' [''1'']"
  have r: "?r = Inr ([''2'', ''1''], [\<lparr>ent_id = ''2'', ent_severity = ''warning'', ent_category = ''thermal''\<rparr>])"
    by code_simp
  have "set (map ent_id [\<lparr>ent_id = ''2'', ent_severity = ''warning'', ent_category = ''thermal''\<rparr>]) =
      entry_id (\<lambda>j. []) ` {e \<in> set demo_members. grave e} - set [''1'']"
    using sel_entries_exact[OF _ _ _ r] by (simp add: demo_bmc_def)
  then show ?thesis using r by auto
qed

text \<open>Three starts on that log, with no system path that answers but the first: the first save fails.\<close>

definition log_host :: "rat \<times> string \<times> endpoint" where
  "log_host = (0, ''bmc1'', \<lambda>p. if starts_with ''/redfish/v1/Systems'' p then demo_bmc p else None)"

theorem redfish_reports_once_witness:
  "let reports = snd (ledger_runs (redfish_start (\<lambda>j. [])) [(log_host, Untouched), (log_host, Written), (log_host, Written)] [''9'']) in
   reports = [[''1'', ''2''], [''1'', ''2''], []] \<and> reports ! 1 = reports ! 0 \<and>
   set (reports ! 1) \<inter> set (reports ! 2) = {} \<and> set (reports ! 0) \<inter> {''9''} = {}"
proof -
  let ?runs = "[(log_host, Untouched), (log_host, Written), (log_host, Written)]"
  have r: "snd (ledger_runs (redfish_start (\<lambda>j. [])) ?runs [''9'']) = [[''1'', ''2''], [''1'', ''2''], []]"
    unfolding log_host_def by code_simp
  have "reports ! 1 = reports ! 0 \<and> set (reports ! 1) \<inter> set (reports ! 2) = {} \<and> set (reports ! 0) \<inter> {''9''} = {}"
    if "reports = snd (ledger_runs (redfish_start (\<lambda>j. [])) ?runs [''9''])" for reports
  proof (intro conjI)
    note c = redfish_reports_once[of "\<lambda>j. []" ?runs "[''9'']", unfolded Let_def, folded that]
    show "reports ! 1 = reports ! 0" using c by (auto dest!: spec[of _ 0])
    have "\<forall>k. 1 < k \<and> k < (2::nat) \<longrightarrow> snd (?runs ! k) \<noteq> CutShort" by auto
    then show "set (reports ! 1) \<inter> set (reports ! 2) = {}"
      using c[THEN conjunct2, THEN conjunct1, rule_format, of 1 2] by simp
    show "set (reports ! 0) \<inter> {''9''} = {}"
      using c[THEN conjunct2, THEN conjunct2, THEN conjunct1, rule_format, of 0] by simp
  qed
  then show ?thesis using r by (simp add: Let_def)
qed

end
