(* ===== verification/Storage.thy ===== *)
theory Storage
  imports PyNum Exposition "HOL-Library.List_Lexorder"
begin

text \<open>
  The disk collectors: \<open>storage/nvme_collector.py\<close> and \<open>storage/sata_collector.py\<close>. What a tool
  prints is an argument, as it is after parsing: nothing, no JSON, or a document.
\<close>

datatype answer = Silent | NoJson | Parsed json

text \<open>A loop that passes over the items whose collection raises.\<close>

definition collect_all :: "('a \<Rightarrow> 'b py) \<Rightarrow> 'a list \<Rightarrow> 'b list" where
  "collect_all f xs = List.map_filter (\<lambda>x. case f x of Inr y \<Rightarrow> Some y | Inl e \<Rightarrow> None) xs"

section \<open>NVMe\<close>

definition KELVIN_OFFSET :: int where "KELVIN_OFFSET = 273"

text \<open>The names under \<open>/sys/class/nvme\<close>, if it can be listed.\<close>

definition find_nvme_devices :: "string list option \<Rightarrow> string list" where
  "find_nvme_devices listing =
     (case listing of None \<Rightarrow> [] | Some names \<Rightarrow> sort (filter (starts_with ''nvme'') names))"

record smart =
  critical_warning :: "int option"
  temperature_celsius :: "int option"
  available_spare :: "int option"
  available_spare_threshold :: "int option"
  percentage_used :: "int option"
  data_units_written :: "int option"
  power_on_hours :: "int option"
  unsafe_shutdowns :: "int option"
  media_errors :: "int option"
  num_err_log_entries :: "int option"

definition smart_defaults :: smart where
  "smart_defaults = \<lparr>critical_warning = None, temperature_celsius = None, available_spare = None,
     available_spare_threshold = None, percentage_used = None, data_units_written = None,
     power_on_hours = None, unsafe_shutdowns = None, media_errors = None, num_err_log_entries = None\<rparr>"

definition smart_get :: "json \<Rightarrow> string \<Rightarrow> int option py" where
  "smart_get data key = py_bind (jget data key JNull) (\<lambda>v. Inr (if v = JNull then None else json_int v))"

definition parse_smart_log :: "answer \<Rightarrow> smart py" where
  "parse_smart_log raw =
     (case raw of
        Silent \<Rightarrow> Inr smart_defaults
      | NoJson \<Rightarrow> Inr smart_defaults
      | Parsed data \<Rightarrow>
          py_bind (smart_get data ''critical_warning'') (\<lambda>cw.
          py_bind (smart_get data ''avail_spare'') (\<lambda>sp.
          py_bind (smart_get data ''spare_thresh'') (\<lambda>th.
          py_bind (smart_get data ''percent_used'') (\<lambda>pu.
          py_bind (smart_get data ''data_units_written'') (\<lambda>dw.
          py_bind (smart_get data ''power_on_hours'') (\<lambda>ph.
          py_bind (smart_get data ''unsafe_shutdowns'') (\<lambda>us.
          py_bind (smart_get data ''media_errors'') (\<lambda>me.
          py_bind (smart_get data ''num_err_log_entries'') (\<lambda>ne.
          py_bind (smart_get data ''temperature'') (\<lambda>temp_k.
          Inr \<lparr>critical_warning = cw, temperature_celsius = map_option (\<lambda>k. k - KELVIN_OFFSET) temp_k,
            available_spare = sp, available_spare_threshold = th, percentage_used = pu,
            data_units_written = dw, power_on_hours = ph, unsafe_shutdowns = us, media_errors = me,
            num_err_log_entries = ne\<rparr>)))))))))))"

text \<open>\<open>data.get("errors") or data.get("error_log") or []\<close>\<close>

definition count_error_log_entries :: "answer \<Rightarrow> int" where
  "count_error_log_entries raw =
     (case raw of
        Parsed (JArr xs) \<Rightarrow> int (length xs)
      | Parsed (JObj kvs) \<Rightarrow>
          (let a = dgetd kvs ''errors'' JNull; b = dgetd kvs ''error_log'' JNull;
               entries = (if jtruthy a then a else if jtruthy b then b else JArr [])
           in case entries of JArr xs \<Rightarrow> int (length xs) | _ \<Rightarrow> 0)
      | _ \<Rightarrow> 0)"

record nvme_result =
  nv_device :: string
  nv_smart :: smart
  nv_error_log_count :: int

definition collect_nvme :: "(string \<Rightarrow> answer) \<Rightarrow> (string \<Rightarrow> answer) \<Rightarrow> string \<Rightarrow> nvme_result py" where
  "collect_nvme smart_log error_log device =
     py_bind (parse_smart_log (smart_log (''/dev/'' @ device))) (\<lambda>smart.
       Inr \<lparr>nv_device = device, nv_smart = smart,
            nv_error_log_count = count_error_log_entries (error_log (''/dev/'' @ device))\<rparr>)"

definition smart_block :: "string \<Rightarrow> string \<Rightarrow> string \<Rightarrow> (smart \<Rightarrow> int option) \<Rightarrow> nvme_result list \<Rightarrow> string list" where
  "smart_block name help kind get rs =
     header_lines name help kind @
     concat (map (\<lambda>r. case get (nv_smart r) of None \<Rightarrow> []
       | Some v \<Rightarrow> [sample_line name [(''device'', nv_device r)] (str_int v)]) rs)"

definition nvme_lines :: "rat \<Rightarrow> nvme_result list \<Rightarrow> int \<Rightarrow> string list" where
  "nvme_lines now rs collector_up =
     smart_block ''nvme_smart_critical_warning'' ''NVMe SMART critical warning bitmask.'' ''gauge'' critical_warning rs @
     smart_block ''nvme_smart_temperature_celsius'' ''NVMe drive temperature in Celsius.'' ''gauge'' temperature_celsius rs @
     smart_block ''nvme_smart_available_spare_percent'' ''NVMe available spare capacity (%).'' ''gauge'' available_spare rs @
     smart_block ''nvme_smart_available_spare_threshold_percent'' ''NVMe available spare threshold (%).'' ''gauge'' available_spare_threshold rs @
     smart_block ''nvme_smart_percentage_used'' ''NVMe drive wear percentage (100 = fully worn).'' ''gauge'' percentage_used rs @
     smart_block ''nvme_smart_data_units_written_total'' ''NVMe cumulative data units written.'' ''counter'' data_units_written rs @
     smart_block ''nvme_smart_power_on_hours_total'' ''NVMe cumulative power-on hours.'' ''counter'' power_on_hours rs @
     smart_block ''nvme_smart_unsafe_shutdowns_total'' ''NVMe cumulative unsafe shutdowns.'' ''counter'' unsafe_shutdowns rs @
     smart_block ''nvme_smart_media_errors_total'' ''NVMe cumulative media errors.'' ''counter'' media_errors rs @
     header_lines ''nvme_error_log_entries_total'' ''NVMe error log entry count.'' ''counter'' @
     map (\<lambda>r. sample_line ''nvme_error_log_entries_total'' [(''device'', nv_device r)] (str_int (nv_error_log_count r))) rs @
     header_lines ''nvme_collector_up'' ''1 if NVMe devices were found and nvme-cli is present.'' ''gauge'' @
     [value_line ''nvme_collector_up'' (str_int collector_up)] @
     header_lines ''nvme_collector_last_run_timestamp'' ''Unix timestamp of last collector run.'' ''gauge'' @
     [value_line ''nvme_collector_last_run_timestamp'' (fmt_fixed 3 now)]"

definition nvme_main ::
    "rat \<Rightarrow> bool \<Rightarrow> string list option \<Rightarrow> (string \<Rightarrow> answer) \<Rightarrow> (string \<Rightarrow> answer) \<Rightarrow> string list" where
  "nvme_main now cli_present listing smart_log error_log =
     (let devices = find_nvme_devices listing in
      if \<not> cli_present \<or> devices = [] then nvme_lines now [] 0
      else let rs = collect_all (collect_nvme smart_log error_log) devices
           in nvme_lines now rs (if rs \<noteq> [] then 1 else 0))"

section \<open>SATA\<close>

definition SMART_ATTR_IDS :: "(int, string) dict" where
  "SMART_ATTR_IDS =
     [(5, ''reallocated_sector_ct''), (9, ''power_on_hours''), (187, ''reported_uncorrect''),
      (190, ''airflow_temperature_cel''), (194, ''temperature_celsius''),
      (197, ''current_pending_sector''), (198, ''offline_uncorrectable''), (231, ''ssd_life_left''),
      (233, ''media_wearout_indicator'')]"

definition SSD_ONLY_ATTR_IDS :: "int list" where "SSD_ONLY_ATTR_IDS = [231, 233]"

definition find_sata_devices :: "string list option \<Rightarrow> string list" where
  "find_sata_devices listing =
     (case listing of None \<Rightarrow> [] | Some names \<Rightarrow> sort (filter (starts_with ''sd'') names))"

text \<open>The text of the flag's file, if it can be read.\<close>

definition read_rotational :: "string option \<Rightarrow> int" where
  "read_rotational file =
     (case file of None \<Rightarrow> 1 | Some s \<Rightarrow> (case py_int (strip s) of Some n \<Rightarrow> n | None \<Rightarrow> 1))"

text \<open>A parsed value as a key of a dict with integer keys: numbers compare by value, a list or an
  object cannot be hashed.\<close>

definition int_key :: "json \<Rightarrow> int option py" where
  "int_key j =
     (case j of
        JInt n \<Rightarrow> Inr (Some n)
      | JBool b \<Rightarrow> Inr (Some (if b then 1 else 0))
      | JFloat q \<Rightarrow> Inr (if of_int \<lfloor>q\<rfloor> = q then Some \<lfloor>q\<rfloor> else None)
      | JArr xs \<Rightarrow> Inl TypeError
      | JObj kvs \<Rightarrow> Inl TypeError
      | _ \<Rightarrow> Inr None)"

definition raw_value :: "json \<Rightarrow> json" where
  "raw_value raw = (case raw of JObj kvs \<Rightarrow> dgetd kvs ''value'' JNull | v \<Rightarrow> v)"

definition read_attribute :: "bool \<Rightarrow> json \<Rightarrow> (string, int) dict \<Rightarrow> (string, int) dict py" where
  "read_attribute is_rotational attr d =
     py_bind (jget attr ''id'' JNull) (\<lambda>i. py_bind (int_key i) (\<lambda>key.
       case key of
         None \<Rightarrow> Inr d
       | Some attr_id \<Rightarrow>
           (case dget SMART_ATTR_IDS attr_id of
              None \<Rightarrow> Inr d
            | Some attr_name \<Rightarrow>
                if attr_id \<in> set SSD_ONLY_ATTR_IDS \<and> is_rotational then Inr d
                else py_bind (jget attr ''raw'' (JObj [])) (\<lambda>raw.
                  Inr (case json_int (raw_value raw) of Some n \<Rightarrow> dset attr_name n d | None \<Rightarrow> d)))))"

fun read_attributes :: "bool \<Rightarrow> json list \<Rightarrow> (string, int) dict \<Rightarrow> (string, int) dict py" where
  "read_attributes rot [] d = Inr d"
| "read_attributes rot (a # as) d = py_bind (read_attribute rot a d) (read_attributes rot as)"

definition parse_smart_attributes :: "answer \<Rightarrow> bool \<Rightarrow> (string, int) dict py" where
  "parse_smart_attributes raw is_rotational =
     (case raw of
        Parsed data \<Rightarrow>
          py_bind (jget data ''ata_smart_attributes'' (JObj [])) (\<lambda>ata.
          py_bind (jget ata ''table'' (JArr [])) (\<lambda>table.
          py_bind (jiter table) (\<lambda>attrs. read_attributes is_rotational attrs [])))
      | _ \<Rightarrow> Inr [])"

definition parse_smart_health :: "answer \<Rightarrow> int py" where
  "parse_smart_health raw =
     (case raw of
        Parsed data \<Rightarrow>
          py_bind (jget data ''smart_status'' (JObj [])) (\<lambda>st. py_bind (jget st ''passed'' JNull) (\<lambda>p.
            Inr (if p = JBool True then 1 else 0)))
      | _ \<Rightarrow> Inr 0)"

record sata_result =
  sa_device :: string
  sa_attributes :: "(string, int) dict"
  sa_passed :: int
  sa_rotational :: int

definition collect_sata ::
    "(string \<Rightarrow> string option) \<Rightarrow> (string \<Rightarrow> answer) \<Rightarrow> (string \<Rightarrow> answer) \<Rightarrow> string \<Rightarrow> sata_result py" where
  "collect_sata rotational attrs health device =
     (let rot = read_rotational (rotational device) in
      py_bind (parse_smart_attributes (attrs (''/dev/'' @ device)) (rot \<noteq> 0)) (\<lambda>attributes.
      py_bind (parse_smart_health (health (''/dev/'' @ device))) (\<lambda>passed.
      Inr \<lparr>sa_device = device, sa_attributes = attributes, sa_passed = passed, sa_rotational = rot\<rparr>)))"

definition sata_lines :: "rat \<Rightarrow> sata_result list \<Rightarrow> int \<Rightarrow> string list" where
  "sata_lines now rs collector_up =
     header_lines ''sata_smart_attribute'' ''SATA/SAS SMART attribute raw value.'' ''gauge'' @
     concat (map (\<lambda>r. map (\<lambda>(name, v). sample_line ''sata_smart_attribute''
       [(''device'', sa_device r), (''attribute_name'', name)] (str_int v)) (sort_key fst (sa_attributes r))) rs) @
     header_lines ''sata_smart_passed'' ''SATA/SAS SMART overall health (1=PASSED, 0=FAILED).'' ''gauge'' @
     map (\<lambda>r. sample_line ''sata_smart_passed'' [(''device'', sa_device r)] (str_int (sa_passed r))) rs @
     header_lines ''sata_rotational'' ''1 if the device is a spinning disk (HDD), 0 for SSD.'' ''gauge'' @
     map (\<lambda>r. sample_line ''sata_rotational'' [(''device'', sa_device r)] (str_int (sa_rotational r))) rs @
     header_lines ''sata_collector_up'' ''1 if SATA devices found and smartctl is present.'' ''gauge'' @
     [value_line ''sata_collector_up'' (str_int collector_up)] @
     header_lines ''sata_collector_last_run_timestamp'' ''Unix timestamp of last collector run.'' ''gauge'' @
     [value_line ''sata_collector_last_run_timestamp'' (fmt_fixed 3 now)]"

definition sata_main ::
    "rat \<Rightarrow> bool \<Rightarrow> string list option \<Rightarrow> (string \<Rightarrow> string option) \<Rightarrow> (string \<Rightarrow> answer) \<Rightarrow> (string \<Rightarrow> answer) \<Rightarrow> string list" where
  "sata_main now cli_present listing rotational attrs health =
     (let devices = find_sata_devices listing in
      if \<not> cli_present \<or> devices = [] then sata_lines now [] 0
      else let rs = collect_all (collect_sata rotational attrs health) devices
           in sata_lines now rs (if rs \<noteq> [] then 1 else 0))"

section \<open>Lemmas\<close>

definition sata_series :: "string set" where
  "sata_series = {''#'', ''sata_smart_attribute'', ''sata_smart_passed'', ''sata_rotational'', ''sata_collector_up'',
     ''sata_collector_last_run_timestamp''}"

definition smart_series :: "string list" where
  "smart_series = [''nvme_smart_critical_warning'', ''nvme_smart_temperature_celsius'',
     ''nvme_smart_available_spare_percent'', ''nvme_smart_available_spare_threshold_percent'',
     ''nvme_smart_percentage_used'', ''nvme_smart_data_units_written_total'',
     ''nvme_smart_power_on_hours_total'', ''nvme_smart_unsafe_shutdowns_total'', ''nvme_smart_media_errors_total'']"

definition nvme_series :: "string set" where
  "nvme_series = {''#''} \<union> set smart_series \<union> {''nvme_error_log_entries_total'', ''nvme_collector_up'',
     ''nvme_collector_last_run_timestamp''}"

lemma names_ok: "list_all metric_name (smart_series @ [''nvme_error_log_entries_total'', ''nvme_collector_up'',
    ''nvme_collector_last_run_timestamp'', ''sata_smart_attribute'', ''sata_smart_passed'', ''sata_rotational'',
    ''sata_collector_up'', ''sata_collector_last_run_timestamp''])"
  by code_simp

lemma smart_block_series:
  assumes "metric_name name"
  shows "series_name ` set (smart_block name hlp kind get rs) \<subseteq> {''#'', name}"
proof -
  have "series_name ` set (concat (map (\<lambda>r. case get (nv_smart r) of None \<Rightarrow> []
      | Some v \<Rightarrow> [sample_line name [(''device'', nv_device r)] (str_int v)]) rs)) \<subseteq> {name}"
    by (induction rs) (auto simp: series_name_sample[OF assms] split: option.splits)
  then show ?thesis by (auto simp: smart_block_def image_Un simp del: set_concat)
qed

lemma image_map_series:
  "(\<And>r. series_name (f r) = n) \<Longrightarrow> n \<in> N \<Longrightarrow> series_name ` f ` A \<subseteq> N"
  by auto

lemma nvme_lines_series: "series_name ` set (nvme_lines now rs up) \<subseteq> nvme_series"
proof -
  have b: "series_name ` set (smart_block name hlp kind get rs) \<subseteq> nvme_series"
    if "name \<in> set smart_series" for name hlp kind get
  proof -
    have "metric_name name" using names_ok that by (simp add: list_all_iff)
    from smart_block_series[OF this] show ?thesis using that by (fastforce simp: nvme_series_def)
  qed
  have v: "series_name ` set [value_line n v] \<subseteq> nvme_series"
    if "n \<in> {''nvme_collector_up'', ''nvme_collector_last_run_timestamp''}" for n v
  proof -
    have "metric_name n" using names_ok that by auto
    then show ?thesis using that by (auto simp: series_name_value nvme_series_def)
  qed
  have h: "series_name ` set (header_lines n hlp kind) \<subseteq> nvme_series" for n hlp kind
    by (simp add: nvme_series_def)
  have "metric_name ''nvme_error_log_entries_total''" using names_ok by simp
  then have e: "series_name ` (\<lambda>r. sample_line ''nvme_error_log_entries_total'' (ls r) (val r)) ` A \<subseteq> nvme_series" for ls val A
    by (intro image_map_series[OF series_name_sample]) (auto simp: nvme_series_def)
  show ?thesis
    unfolding nvme_lines_def set_append image_Un set_map
    by (intro Un_least b v h e) (simp_all add: smart_series_def)
qed

lemma sata_lines_series: "series_name ` set (sata_lines now rs up) \<subseteq> sata_series"
proof -
  have v: "series_name ` set [value_line n v] \<subseteq> sata_series"
    if "n \<in> {''sata_collector_up'', ''sata_collector_last_run_timestamp''}" for n v
  proof -
    have "metric_name n" using names_ok that by auto
    then show ?thesis using that by (auto simp: series_name_value sata_series_def)
  qed
  have h: "series_name ` set (header_lines n hlp kind) \<subseteq> sata_series" for n hlp kind
    by (simp add: sata_series_def)
  have e: "series_name (sample_line n ls val) \<in> sata_series"
    if "n \<in> {''sata_smart_attribute'', ''sata_smart_passed'', ''sata_rotational''}" for n ls val
  proof -
    have "metric_name n" using names_ok that by auto
    then show ?thesis using that by (auto simp: series_name_sample sata_series_def)
  qed
  show ?thesis
    unfolding sata_lines_def set_append image_Un set_map
    by (intro Un_least v h) (auto intro: e)
qed

section \<open>What an attribute table gives\<close>

text \<open>The entry of the dict that one table entry makes, if it makes one.\<close>

definition attribute_of :: "bool \<Rightarrow> json \<Rightarrow> (string \<times> int) option" where
  "attribute_of rot attr =
     (case py_bind (jget attr ''id'' JNull) int_key of
        Inr (Some k) \<Rightarrow>
          (case (dget SMART_ATTR_IDS k, jget attr ''raw'' (JObj [])) of
             (Some name, Inr raw) \<Rightarrow>
               if rot \<and> k \<in> set SSD_ONLY_ATTR_IDS then None
               else map_option (\<lambda>n. (name, n)) (json_int (raw_value raw))
           | _ \<Rightarrow> None)
      | _ \<Rightarrow> None)"

lemma read_attribute_of:
  assumes "read_attribute rot attr d = Inr d'"
  shows "d' = (case attribute_of rot attr of None \<Rightarrow> d | Some (name, n) \<Rightarrow> dset name n d)"
proof -
  obtain i key where ik: "jget attr ''id'' JNull = Inr i" "int_key i = Inr key"
    using assms by (auto simp: read_attribute_def py_bind_eq_Inr)
  show ?thesis
  proof (cases "\<exists>k name. key = Some k \<and> dget SMART_ATTR_IDS k = Some name \<and> \<not> (rot \<and> k \<in> set SSD_ONLY_ATTR_IDS)")
    case True
    then obtain k name where k: "key = Some k" "dget SMART_ATTR_IDS k = Some name" "\<not> (rot \<and> k \<in> set SSD_ONLY_ATTR_IDS)"
      by blast
    then obtain raw where raw: "jget attr ''raw'' (JObj []) = Inr raw"
      using assms ik by (auto simp: read_attribute_def py_bind_eq_Inr)
    have c: "\<not> (k \<in> set SSD_ONLY_ATTR_IDS \<and> rot)" using k(3) by blast
    show ?thesis using assms ik k(1,2)
      by (simp add: read_attribute_def attribute_of_def raw c k(3) split: option.splits)
  next
    case False
    then show ?thesis using assms ik
      by (cases key) (auto simp: read_attribute_def attribute_of_def split: option.splits sum.splits)
  qed
qed

lemma read_attributes_fold:
  "read_attributes rot as d = Inr d' \<Longrightarrow>
   d' = fold (\<lambda>(name, n) d. dset name n d) (List.map_filter (attribute_of rot) as) d"
proof (induction as arbitrary: d)
  case (Cons a as)
  obtain d1 where d1: "read_attribute rot a d = Inr d1" "read_attributes rot as d1 = Inr d'"
    using Cons.prems by (auto simp: py_bind_eq_Inr)
  show ?case
    using Cons.IH[OF d1(2)] read_attribute_of[OF d1(1)]
    by (auto simp: map_filter_simps split: option.splits)
qed (simp add: map_filter_simps)

lemma dget_fold_dset:
  "dget (fold (\<lambda>(k, v) d. dset k v d) kvs d) k =
     (case find (\<lambda>kv. fst kv = k) (rev kvs) of Some (_, v) \<Rightarrow> Some v | None \<Rightarrow> dget d k)"
proof (induction kvs rule: rev_induct)
  case (snoc kv kvs)
  then show ?case by (cases kv) auto
qed simp

section \<open>Properties\<close>

text \<open>The attributes of a disk are exactly those its table gives: under each known name the value
  of the last entry of the table with that id and a readable number, and nothing else; the
  attributes of solid-state disks are left out for a spinning disk.\<close>

theorem sata_attributes_exact:
  assumes "parse_smart_attributes (Parsed (JObj [(''ata_smart_attributes'', JObj [(''table'', JArr table)])])) rot = Inr d"
  shows "dget d name = (case find (\<lambda>kv. fst kv = name) (rev (List.map_filter (attribute_of rot) table)) of
       Some (_, v) \<Rightarrow> Some v | None \<Rightarrow> None) \<and>
     (rot \<longrightarrow> dget d ''ssd_life_left'' = None \<and> dget d ''media_wearout_indicator'' = None)"
proof -
  have "read_attributes rot table [] = Inr d"
    using assms by (simp add: parse_smart_attributes_def jget_def dgetd_def jiter_def)
  then have d: "dget d nm = (case find (\<lambda>kv. fst kv = nm) (rev (List.map_filter (attribute_of rot) table)) of
       Some (_, v) \<Rightarrow> Some v | None \<Rightarrow> None)" for nm
    using read_attributes_fold dget_fold_dset[of "List.map_filter (attribute_of rot) table" "[]"]
    by (auto split: option.splits)
  have "fst kv \<notin> {''ssd_life_left'', ''media_wearout_indicator''}"
    if "rot" "attribute_of rot attr = Some kv" for attr kv
  proof -
    have "dget SMART_ATTR_IDS k \<in> {Some ''ssd_life_left'', Some ''media_wearout_indicator''} \<Longrightarrow> k \<in> set SSD_ONLY_ATTR_IDS" for k
      by (auto simp: SMART_ATTR_IDS_def SSD_ONLY_ATTR_IDS_def split: if_splits)
    then show ?thesis using that by (fastforce simp: attribute_of_def split: sum.splits option.splits if_splits)
  qed
  then have "find (\<lambda>kv. fst kv = nm) (rev (List.map_filter (attribute_of rot) table)) = None"
    if "rot" "nm \<in> {''ssd_life_left'', ''media_wearout_indicator''}" for nm
    using that by (force simp: find_None_iff map_filter_def)
  then show ?thesis using d by simp
qed

definition demo_table :: "json list" where
  "demo_table =
     [JObj [(''id'', JInt 5), (''raw'', JObj [(''value'', JInt 3)])],
      JObj [(''id'', JInt 231), (''raw'', JObj [(''value'', JInt 90)])],
      JObj [(''id'', JInt 5), (''raw'', JStr ''7'')], JObj [(''id'', JInt 1)]]"

theorem sata_attributes_exact_witness:
  "dget [(''reallocated_sector_ct'', 7)] ''ssd_life_left'' = (None :: int option) \<and>
   parse_smart_attributes (Parsed (JObj [(''ata_smart_attributes'', JObj [(''table'', JArr demo_table)])])) True =
     Inr [(''reallocated_sector_ct'', 7)]"
proof -
  have p: "parse_smart_attributes (Parsed (JObj [(''ata_smart_attributes'', JObj [(''table'', JArr demo_table)])])) True =
     Inr [(''reallocated_sector_ct'', 7)]" by code_simp
  show ?thesis using sata_attributes_exact[OF p] p by blast
qed

end
