(* ===== verification/Gpu.thy ===== *)
theory Gpu
  imports ToolText Exposition "HOL-Library.List_Lexorder"
begin

text \<open>
  The GPU collectors: XID and ECC errors (\<open>gpu/nvidia_xid_collector.py\<close>), throttling
  (\<open>gpu/nvidia_throttle_collector.py\<close>) and the AMD counters (\<open>gpu/amd_collector.py\<close>). What a tool
  prints with its exit status, what a file holds, and the clock are arguments.
\<close>

type_synonym tool_run = "string \<times> int"

section \<open>XID errors\<close>

definition XID_SEVERITY :: "(int, string) dict" where
  "XID_SEVERITY = [(63, ''fatal''), (94, ''critical''), (95, ''critical''), (74, ''warning''), (79, ''warning'')]"

definition xid_severity :: "int \<Rightarrow> string" where
  "xid_severity xid = dgetd XID_SEVERITY xid ''info''"

record xid_event =
  xe_gpu :: string
  xe_xid :: int
  xe_severity :: string

definition xid_event :: "string \<Rightarrow> int \<Rightarrow> xid_event" where
  "xid_event gpu xid = \<lparr>xe_gpu = gpu, xe_xid = xid, xe_severity = xid_severity xid\<rparr>"

definition is_comment :: "string \<Rightarrow> bool" where
  "is_comment l \<longleftrightarrow> starts_with ''#'' l"

text \<open>One row of the table, given the columns of the XID and of the GPU.\<close>

definition dmon_row :: "nat \<Rightarrow> nat option \<Rightarrow> string list \<Rightarrow> xid_event option" where
  "dmon_row xid_col gpu_col row =
     (if length row \<le> xid_col then None
      else case py_int (row ! xid_col) of
        None \<Rightarrow> None
      | Some v \<Rightarrow>
          if v = 0 then None
          else Some (xid_event (case gpu_col of
              Some g \<Rightarrow> if length row > g then row ! g else ''0''
            | None \<Rightarrow> ''0'') v))"

definition dmon_table :: "string list \<Rightarrow> string list list \<Rightarrow> xid_event list" where
  "dmon_table header rows =
     (let headers = map lower header in
      case last_index (\<lambda>h. h = ''xid'') 0 headers of
        None \<Rightarrow> []
      | Some xid_col \<Rightarrow>
          List.map_filter (dmon_row xid_col (last_index (\<lambda>h. h \<in> set [''gpu'', ''idx'', ''gpu_index'']) 0 headers)) rows)"

text \<open>The first comment line is the header; the others are passed over.\<close>

definition parse_dmon_xid :: "string \<Rightarrow> xid_event list" where
  "parse_dmon_xid output =
     (let ls = text_lines_of output; data_lines = map split_ws (filter (\<lambda>l. \<not> is_comment l) ls) in
      case filter is_comment ls of
        [] \<Rightarrow> []
      | h # _ \<Rightarrow> dmon_table (split_ws (dropWhile (\<lambda>c. c = CHR ''#'') h)) data_lines)"

definition XID_PATTERN :: regex where
  "XID_PATTERN = Seqs [ILit ''XID'', Plus Space, Grp 1 (Plus Digit)]"

text \<open>The events in one driver file; \<open>None\<close> when it cannot be read.\<close>

definition proc_events :: "nat \<times> string option \<Rightarrow> xid_event list" where
  "proc_events f =
     (case snd f of
        None \<Rightarrow> []
      | Some txt \<Rightarrow> List.map_filter (\<lambda>m. case m_group m 1 of
            Some d \<Rightarrow> map_option (xid_event (str_int (int (fst f)))) (py_int d)
          | None \<Rightarrow> None) (re_finditer XID_PATTERN txt))"

definition collect_xid_errors :: "tool_run \<Rightarrow> string option list \<Rightarrow> xid_event list" where
  "collect_xid_errors dmon files =
     (if snd dmon = 0 \<and> strip (fst dmon) \<noteq> [] then parse_dmon_xid (fst dmon)
      else concat (map proc_events (enumerate 0 files)))"

record ecc_count =
  ec_gpu :: string
  ec_sbe :: int
  ec_dbe :: int

definition ecc_value :: "string \<Rightarrow> int option" where
  "ecc_value s = (if s \<in> set [''N/A'', ''[N/A]'', []] then Some 0 else py_int s)"

definition ecc_row :: "string \<Rightarrow> ecc_count option" where
  "ecc_row line =
     (let parts = cells (CHR '','') line in
      if length parts < 3 then None
      else case (ecc_value (parts ! 1), ecc_value (parts ! 2)) of
        (Some s, Some d) \<Rightarrow> Some \<lparr>ec_gpu = parts ! 0, ec_sbe = s, ec_dbe = d\<rparr>
      | _ \<Rightarrow> None)"

definition collect_ecc_counts :: "tool_run \<Rightarrow> ecc_count list" where
  "collect_ecc_counts smi = (if snd smi \<noteq> 0 then [] else List.map_filter ecc_row (text_lines_of (fst smi)))"

definition detect_gpus :: "tool_run \<Rightarrow> string list" where
  "detect_gpus smi = (if snd smi \<noteq> 0 then [] else text_lines_of (fst smi))"

definition flag :: "bool \<Rightarrow> string" where
  "flag b = (if b then ''1'' else ''0'')"

definition xid_lines :: "bool \<Rightarrow> xid_event list \<Rightarrow> ecc_count list \<Rightarrow> rat \<Rightarrow> string list" where
  "xid_lines gpu_present xid_events ecc_counts now =
     header_lines ''gpu_collector_up'' ''1 if NVIDIA GPU detected and collector operational, 0 otherwise.'' ''gauge'' @
     [sample_line ''gpu_collector_up'' [(''collector'', ''nvidia_xid'')] (flag gpu_present)] @
     (if gpu_present
      then header_lines ''gpu_xid_error_total'' ''Total NVIDIA GPU XID error events observed.'' ''counter'' @
        map (\<lambda>ev. sample_line ''gpu_xid_error_total'' [(''gpu_index'', xe_gpu ev), (''xid'', str_int (xe_xid ev)),
          (''severity'', xe_severity ev)] ''1'') xid_events @
        header_lines ''gpu_ecc_sbe_total'' ''Total single-bit (corrected) ECC errors per GPU (volatile).'' ''counter'' @
        map (\<lambda>ec. sample_line ''gpu_ecc_sbe_total'' [(''gpu_index'', ec_gpu ec)] (str_int (ec_sbe ec))) ecc_counts @
        header_lines ''gpu_ecc_dbe_total'' ''Total double-bit (uncorrected) ECC errors per GPU (volatile).'' ''counter'' @
        map (\<lambda>ec. sample_line ''gpu_ecc_dbe_total'' [(''gpu_index'', ec_gpu ec)] (str_int (ec_dbe ec))) ecc_counts
      else []) @
     header_lines ''nvidia_gpu_collector_last_run_timestamp'' ''Unix timestamp of the last XID collector run.'' ''gauge'' @
     [value_line ''nvidia_gpu_collector_last_run_timestamp'' (fmt_fixed 3 now)]"

definition xid_main :: "rat \<Rightarrow> tool_run \<Rightarrow> tool_run \<Rightarrow> string option list \<Rightarrow> tool_run \<Rightarrow> string" where
  "xid_main now names dmon files ecc =
     render (if detect_gpus names = [] then xid_lines False [] [] now
             else xid_lines True (collect_xid_errors dmon files) (collect_ecc_counts ecc) now)"

section \<open>Throttling\<close>

definition THROTTLE_REASONS :: "string list" where
  "THROTTLE_REASONS = [''hw_thermal'', ''sw_thermal'', ''hw_power_brake'']"

definition parse_active :: "string \<Rightarrow> int" where
  "parse_active value = (if strip value = ''Active'' then 1 else 0)"

record throttle =
  gt_gpu :: string
  gt_throttle :: "(string \<times> int) list"
  gt_clock :: pf
  gt_power :: pf
  gt_temperature :: pf

definition float_or_zero :: "string \<Rightarrow> pf" where
  "float_or_zero s = (case py_float s of Some x \<Rightarrow> x | None \<Rightarrow> Fin 0)"

definition throttle_row :: "string \<Rightarrow> throttle option" where
  "throttle_row line =
     (let parts = cells (CHR '','') line in
      if length parts < 7 then None
      else Some \<lparr>gt_gpu = parts ! 0,
        gt_throttle = map (\<lambda>(i, reason). (reason, parse_active (parts ! (1 + i)))) (enumerate 0 THROTTLE_REASONS),
        gt_clock = float_or_zero (parts ! 4), gt_power = float_or_zero (parts ! 5),
        gt_temperature = float_or_zero (parts ! 6)\<rparr>)"

definition collect_throttle_data :: "tool_run \<Rightarrow> throttle list" where
  "collect_throttle_data smi = (if snd smi \<noteq> 0 then [] else List.map_filter throttle_row (text_lines_of (fst smi)))"

definition throttle_lines :: "bool \<Rightarrow> throttle list \<Rightarrow> rat \<Rightarrow> string list" where
  "throttle_lines gpu_present gpus now =
     header_lines ''gpu_throttle_collector_up'' ''1 if NVIDIA GPU detected and collector operational.'' ''gauge'' @
     [sample_line ''gpu_throttle_collector_up'' [(''collector'', ''nvidia_throttle'')] (flag gpu_present)] @
     (if gpu_present
      then header_lines ''gpu_throttle_active'' ''1 if throttle reason is active on the GPU.'' ''gauge'' @
        concat (map (\<lambda>g. map (\<lambda>(reason, active). sample_line ''gpu_throttle_active''
          [(''gpu_index'', gt_gpu g), (''reason'', reason)] (str_int active)) (gt_throttle g)) gpus) @
        header_lines ''gpu_clock_mhz'' ''Current GPU clock frequency in MHz.'' ''gauge'' @
        map (\<lambda>g. sample_line ''gpu_clock_mhz'' [(''gpu_index'', gt_gpu g), (''domain'', ''graphics'')] (fmt_pf 1 (gt_clock g))) gpus @
        header_lines ''gpu_power_watts'' ''Current GPU power draw in watts.'' ''gauge'' @
        map (\<lambda>g. sample_line ''gpu_power_watts'' [(''gpu_index'', gt_gpu g)] (fmt_pf 2 (gt_power g))) gpus @
        header_lines ''gpu_temperature_celsius'' ''Current GPU die temperature in degrees Celsius.'' ''gauge'' @
        map (\<lambda>g. sample_line ''gpu_temperature_celsius'' [(''gpu_index'', gt_gpu g)] (fmt_pf 1 (gt_temperature g))) gpus
      else []) @
     header_lines ''gpu_throttle_collector_last_run_timestamp'' ''Unix timestamp of the last throttle collector run.'' ''gauge'' @
     [value_line ''gpu_throttle_collector_last_run_timestamp'' (fmt_fixed 3 now)]"

definition throttle_main :: "rat \<Rightarrow> tool_run \<Rightarrow> tool_run \<Rightarrow> string" where
  "throttle_main now names query =
     render (if detect_gpus names = [] then throttle_lines False [] now
             else throttle_lines True (collect_throttle_data query) now)"

section \<open>AMD\<close>

definition AMD_VENDOR_ID :: string where "AMD_VENDOR_ID = ''0x1002''"

text \<open>The files of a card: the vendor (\<open>None\<close> when absent), the RAS directory if there is one (names
  and contents of its regular files), and the others by path. An unreadable file is empty.\<close>

record card_files =
  cf_vendor :: "string option"
  cf_ras :: "(string \<times> string) list option"
  cf_file :: "string \<Rightarrow> string"

type_synonym drm = "(string \<times> card_files) list"

definition detect_amd_cards :: "drm option \<Rightarrow> (string \<times> card_files) list" where
  "detect_amd_cards drm =
     (case drm of
        None \<Rightarrow> []
      | Some cards \<Rightarrow>
          filter (\<lambda>(name, f). case cf_vendor f of None \<Rightarrow> False
            | Some v \<Rightarrow> lower (strip v) = lower AMD_VENDOR_ID)
            (sort_key fst (filter (\<lambda>(name, f). starts_with ''card'' name) cards)))"

definition ras_line :: "string \<Rightarrow> (string, int) dict \<Rightarrow> (string, int) dict" where
  "ras_line line d =
     (let number = py_int (strip (snd (split_once (CHR '':'') line))) in
      case number of
        None \<Rightarrow> d
      | Some n \<Rightarrow> if starts_with ''ce:'' line then dset ''correctable'' n d
                  else if starts_with ''ue:'' line then dset ''uncorrectable'' n d else d)"

definition parse_ras_file :: "string \<Rightarrow> (string, int) dict" where
  "parse_ras_file content = fold ras_line (map strip (splitlines content)) []"

record ras_error =
  re_card :: string
  re_block :: string
  re_type :: string
  re_count :: int

definition ras_block :: "string \<Rightarrow> string" where
  "ras_block name = replace_sub ''_error_count'' [] (replace_sub ''_err_count'' [] name)"

definition ras_file_errors :: "string \<Rightarrow> string \<times> string \<Rightarrow> ras_error list" where
  "ras_file_errors c f =
     (let content = strip (snd f) in
      if content = [] then []
      else map (\<lambda>(t, n). \<lparr>re_card = c, re_block = ras_block (fst f), re_type = t, re_count = n\<rparr>)
        (parse_ras_file content))"

definition collect_ras_errors :: "string \<times> card_files \<Rightarrow> ras_error list" where
  "collect_ras_errors c =
     (case cf_ras (snd c) of
        None \<Rightarrow> []
      | Some files \<Rightarrow> concat (map (ras_file_errors (fst c)) (sort_key fst files)))"

record gpu_metrics =
  gm_utilization :: "pf option"
  gm_vram_used :: "int option"
  gm_vram_total :: "int option"

definition collect_gpu_metrics :: "card_files \<Rightarrow> gpu_metrics" where
  "collect_gpu_metrics f =
     \<lparr>gm_utilization = py_float (strip (cf_file f ''gpu_busy_percent'')),
      gm_vram_used = py_int (strip (cf_file f ''mem_info_vram_used'')),
      gm_vram_total = py_int (strip (cf_file f ''mem_info_vram_total''))\<rparr>"

definition card_lines :: "string \<Rightarrow> (gpu_metrics \<Rightarrow> string option) \<Rightarrow> (string \<times> gpu_metrics) list \<Rightarrow> string list" where
  "card_lines name get cards =
     List.map_filter (\<lambda>(c, m). map_option (\<lambda>v. sample_line name [(''card'', c)] v) (get m)) cards"

definition amd_lines :: "bool \<Rightarrow> ras_error list \<Rightarrow> (string, gpu_metrics) dict \<Rightarrow> rat \<Rightarrow> string list" where
  "amd_lines amd_present ras_errors metrics now =
     (let cards = sort_key fst metrics in
     header_lines ''amd_collector_up'' ''1 if AMD GPU detected and collector operational, 0 otherwise.'' ''gauge'' @
     [value_line ''amd_collector_up'' (flag amd_present)] @
     (if amd_present
      then header_lines ''amd_gpu_ras_error_total'' ''Total AMD GPU RAS errors per block and type.'' ''counter'' @
        map (\<lambda>ev. sample_line ''amd_gpu_ras_error_total'' [(''card'', re_card ev), (''block'', re_block ev),
          (''error_type'', re_type ev)] (str_int (re_count ev))) ras_errors @
        header_lines ''amd_gpu_utilization_percent'' ''Current GPU utilisation as a percentage.'' ''gauge'' @
        card_lines ''amd_gpu_utilization_percent'' (\<lambda>m. map_option (fmt_pf 1) (gm_utilization m)) cards @
        header_lines ''amd_gpu_vram_used_bytes'' ''Current VRAM in use in bytes.'' ''gauge'' @
        card_lines ''amd_gpu_vram_used_bytes'' (\<lambda>m. map_option str_int (gm_vram_used m)) cards @
        header_lines ''amd_gpu_vram_total_bytes'' ''Total VRAM available in bytes.'' ''gauge'' @
        card_lines ''amd_gpu_vram_total_bytes'' (\<lambda>m. map_option str_int (gm_vram_total m)) cards
      else []) @
     header_lines ''amd_collector_last_run_timestamp'' ''Unix timestamp of the last AMD collector run.'' ''gauge'' @
     [value_line ''amd_collector_last_run_timestamp'' (fmt_fixed 3 now)])"

definition amd_main :: "rat \<Rightarrow> bool \<Rightarrow> drm option \<Rightarrow> string" where
  "amd_main now module_present drm =
     (let cards = detect_amd_cards drm in
      render (if \<not> module_present \<or> cards = [] then amd_lines False [] [] now
        else amd_lines True (concat (map collect_ras_errors cards))
          (fold (\<lambda>(name, f) d. dset name (collect_gpu_metrics f) d) cards []) now))"

section \<open>Reading a table back\<close>

lemma last_index_end:
  "last_index P i (xs @ [x]) = (if P x then Some (i + length xs) else last_index P i xs)"
  by (induction xs arbitrary: i) auto

lemma last_index_none: "\<forall>x \<in> set xs. \<not> P x \<Longrightarrow> last_index P i xs = None"
  by (induction xs arbitrary: i) auto

text \<open>A table with a GPU column first, then any others, then the XID column.\<close>

definition xid_row :: "string \<times> string list \<times> int \<Rightarrow> string list" where
  "xid_row r = (case r of (g, others, x) \<Rightarrow> g # others @ [str_int x])"

definition xid_table :: "string list \<Rightarrow> (string \<times> string list \<times> int) list \<Rightarrow> string list" where
  "xid_table names rows = (''# '' @ join '' '' (''gpu'' # names @ [''xid''])) # ''# Idx'' # map (join '' '' \<circ> xid_row) rows"

definition table_ok :: "string list \<Rightarrow> (string \<times> string list \<times> int) list \<Rightarrow> bool" where
  "table_ok names rows \<longleftrightarrow>
     list_all (\<lambda>n. wordy n \<and> lower n \<notin> set [''xid'', ''gpu'', ''idx'', ''gpu_index'']) names \<and>
     list_all (\<lambda>(g, others, x). wordy g \<and> hd g \<noteq> CHR ''#'' \<and> list_all wordy others \<and> length others = length names \<and>
       small_int x) rows"

lemma xid_row_wordy: "wordy g \<Longrightarrow> list_all wordy others \<Longrightarrow> list_all wordy (xid_row (g, others, x))"
  by (simp add: xid_row_def str_int_wordy)

lemma lower_names: "lower ''gpu'' = ''gpu''" "lower ''xid'' = ''xid''"
  by code_simp+

lemma dmon_table_rows:
  assumes "table_ok names rows"
  shows "dmon_table (''gpu'' # names @ [''xid'']) (map xid_row rows) =
     map (\<lambda>(g, others, x). xid_event g x) (filter (\<lambda>(g, others, x). x \<noteq> 0) rows)"
proof -
  let ?hs = "map lower (''gpu'' # names @ [''xid''])" and ?g = "\<lambda>h. h \<in> set [''gpu'', ''idx'', ''gpu_index'']"
  have hs: "?hs = (''gpu'' # map lower names) @ [''xid'']" by (simp add: lower_names)
  have x: "last_index (\<lambda>h. h = ''xid'') 0 ?hs = Some (Suc (length names))"
    unfolding hs last_index_end by simp
  have "last_index ?g 0 (''gpu'' # map lower names) = Some 0"
    using assms last_index_none[of "map lower names" ?g 1] by (auto simp: table_ok_def list_all_iff)
  then have g: "last_index ?g 0 ?hs = Some 0" unfolding hs last_index_end by simp
  have row: "dmon_row (Suc (length names)) (Some 0) (xid_row r) =
      (case r of (g, others, x) \<Rightarrow> if x = 0 then None else Some (xid_event g x))" if "r \<in> set rows" for r
    using assms that
    by (auto simp: table_ok_def list_all_iff xid_row_def dmon_row_def nth_append py_int_str_int split: prod.splits)
  have "List.map_filter (dmon_row (Suc (length names)) (Some 0)) (map xid_row rows') =
      map (\<lambda>(g, others, x). xid_event g x) (filter (\<lambda>(g, others, x). x \<noteq> 0) rows')"
    if "set rows' \<subseteq> set rows" for rows'
    using that by (induction rows') (auto simp: row map_filter_simps)
  then show ?thesis by (simp only: dmon_table_def Let_def x g option.case subset_refl)
qed

section \<open>Properties\<close>

text \<open>A table of the driver's monitor with any columns between the GPU and the XID is read back
  row by row: every row with an XID other than 0 gives one event with its GPU, its number and
  its severity, and no other event is reported.\<close>

theorem dmon_roundtrip:
  assumes "table_ok names rows"
  shows "parse_dmon_xid (unlines (xid_table names rows)) =
     map (\<lambda>(g, others, x). xid_event g x) (filter (\<lambda>(g, others, x). x \<noteq> 0) rows)"
proof -
  let ?head = "''# '' @ join '' '' (''gpu'' # names @ [''xid''])"
  have names: "list_all wordy (''gpu'' # names @ [''xid''])"
  proof -
    have "wordy ''gpu''" "wordy ''xid''" by code_simp+
    then show ?thesis using assms by (simp add: table_ok_def list_all_iff)
  qed
  have rw: "list_all wordy (xid_row r) \<and> xid_row r \<noteq> [] \<and> hd (hd (xid_row r)) \<noteq> CHR ''#''" if "r \<in> set rows" for r
    using assms that xid_row_wordy by (cases r) (auto simp: table_ok_def list_all_iff xid_row_def)
  have "wordy ''#''" by code_simp
  then have "clean_line (join '' '' (''#'' # ''gpu'' # names @ [''xid'']))"
    using names by (intro join_clean) auto
  then have ch: "clean_line ?head" by simp
  have cr: "clean_line (join '' '' (xid_row r))" if "r \<in> set rows" for r using rw[OF that] by (intro join_clean) auto
  have "clean_line ''# Idx''" by code_simp
  then have lines: "text_lines_of (unlines (xid_table names rows)) = xid_table names rows"
    using ch cr by (intro text_lines_unlines) (auto simp: xid_table_def list_all_iff)
  have nc: "\<not> is_comment (join '' '' (xid_row r))" if "r \<in> set rows" for r
    using rw[OF that] join_ends[of "xid_row r"]
    by (cases "join '' '' (xid_row r)") (auto simp: is_comment_def starts_with_def)
  have "filter is_comment (map (join '' '' \<circ> xid_row) rows) = []" using nc by (simp add: filter_empty_conv)
  then have c: "filter is_comment (xid_table names rows) = [?head, ''# Idx'']"
    by (simp add: xid_table_def is_comment_def starts_with_def)
  have "filter (\<lambda>l. \<not> is_comment l) (map (join '' '' \<circ> xid_row) rows) = map (join '' '' \<circ> xid_row) rows"
    using nc by (simp add: filter_id_conv)
  then have d: "filter (\<lambda>l. \<not> is_comment l) (xid_table names rows) = map (join '' '' \<circ> xid_row) rows"
    by (simp add: xid_table_def is_comment_def starts_with_def)
  have "map split_ws (map (join '' '' \<circ> xid_row) rows) = map xid_row rows"
    using rw by (auto simp: split_ws_join)
  moreover have "split_ws (dropWhile (\<lambda>c. c = CHR ''#'') ?head) = ''gpu'' # names @ [''xid'']"
  proof -
    have "split_ws ('' '' @ s) = split_ws s" for s by (simp add: split_ws_def is_space_def cp_def)
    then show ?thesis using split_ws_join[OF names] by simp
  qed
  ultimately show ?thesis
    unfolding parse_dmon_xid_def Let_def lines c d list.case by (simp only: dmon_table_rows[OF assms])
qed

theorem dmon_roundtrip_witness:
  "parse_dmon_xid (unlines (xid_table [''sm'', ''mem''] [(''0'', [''7'', ''9''], 63), (''1'', [''-'', ''3''], 0)])) =
     [\<lparr>xe_gpu = ''0'', xe_xid = 63, xe_severity = ''fatal''\<rparr>]"
proof -
  have "table_ok [''sm'', ''mem''] [(''0'', [''7'', ''9''], 63), (''1'', [''-'', ''3''], 0)]" by code_simp
  from dmon_roundtrip[OF this] show ?thesis
    by (simp add: xid_event_def xid_severity_def XID_SEVERITY_def dgetd_def)
qed

end
