(* ===== verification/Rapl.thy ===== *)
theory Rapl
  imports ToolText Exposition "HOL-Library.List_Lexorder"
begin

text \<open>
  The CPU power collector \<open>power_cxl/rapl_collector.py\<close>: package power from two readings of the energy
  counter, the throttle flag, the frequency ratio of each CPU. What the files under sysfs hold is an
  argument, the two readings of a counter included; a file that cannot be read is \<open>None\<close>.
\<close>

text \<open>\<open>0.95\<close>\<close>

definition THROTTLE_THRESHOLD :: rat where "THROTTLE_THRESHOLD = rnd (95 / 100)"

definition read_int :: "string option \<Rightarrow> int option" where
  "read_int file = (case file of None \<Rightarrow> None | Some s \<Rightarrow> py_int (strip s))"

text \<open>\<open>a / b\<close> of integers, correctly rounded; a quotient out of range raises.\<close>

definition int_quot :: "int \<Rightarrow> int \<Rightarrow> rat py" where
  "int_quot a b =
     (if b = 0 then Inl ZeroDivisionError
      else case pf_of (of_int a / of_int b) of Fin q \<Rightarrow> Inr q | _ \<Rightarrow> Inl OverflowError)"

section \<open>Packages\<close>

record rapl_dir =
  rd_entry :: string
  rd_name :: "string option"
  rd_energy1 :: "string option"
  rd_energy2 :: "string option"
  rd_limit :: "string option"

record rapl_record =
  rp_package :: string
  rp_power :: rat
  rp_limit :: "rat option"
  rp_throttled :: int

definition is_package :: "rapl_dir \<Rightarrow> bool" where
  "is_package d \<longleftrightarrow> starts_with ''intel-rapl:'' (rd_entry d) \<and> count_list (rd_entry d) (CHR '':'') \<le> 1"

text \<open>A counter that went back is taken as no energy.\<close>

definition delta_uj :: "int \<Rightarrow> int \<Rightarrow> int" where
  "delta_uj e1 e2 = (if e2 \<ge> e1 then e2 - e1 else 0)"

definition rapl_throttled :: "rat \<Rightarrow> rat option \<Rightarrow> int" where
  "rapl_throttled watts limit =
     (case limit of None \<Rightarrow> 0
      | Some l \<Rightarrow> if l > 0 then (if watts > fmul THROTTLE_THRESHOLD l then 1 else 0) else 0)"

definition rapl_package :: "rapl_dir \<Rightarrow> rapl_record list py" where
  "rapl_package d =
     (let package = (case rd_name d of Some s \<Rightarrow> strip s | None \<Rightarrow> rd_entry d) in
      case (read_int (rd_energy1 d), read_int (rd_energy2 d)) of
        (Some e1, Some e2) \<Rightarrow>
          py_bind (int_quot (delta_uj e1 e2) 1000000) (\<lambda>watts.
          py_bind (case read_int (rd_limit d) of None \<Rightarrow> Inr None
            | Some l \<Rightarrow> py_bind (int_quot l 1000000) (\<lambda>w. Inr (Some w))) (\<lambda>limit.
          Inr [\<lparr>rp_package = package, rp_power = watts, rp_limit = limit,
                rp_throttled = rapl_throttled watts limit\<rparr>]))
      | _ \<Rightarrow> Inr [])"

definition collect_rapl :: "rapl_dir list option \<Rightarrow> rapl_record list py" where
  "collect_rapl dirs =
     (case dirs of
        None \<Rightarrow> Inr []
      | Some ds \<Rightarrow> py_bind (py_mapM rapl_package (filter is_package (sort_key rd_entry ds))) (\<lambda>rs. Inr (concat rs)))"

section \<open>Frequencies\<close>

record cpu_dir =
  cd_entry :: string
  cd_has_cpufreq :: bool
  cd_cur :: "string option"
  cd_max :: "string option"

text \<open>\<open>s.isdigit()\<close>, which holds for superscript digits too.\<close>

definition py_isdigit :: "string \<Rightarrow> bool" where
  "py_isdigit s \<longleftrightarrow> s \<noteq> [] \<and> list_all (\<lambda>c. is_digit c \<or> cp c \<in> {0xB2, 0xB3, 0xB9}) s"

definition cpu_ratio :: "cpu_dir \<Rightarrow> (string \<times> rat) list py" where
  "cpu_ratio d =
     (if \<not> starts_with ''cpu'' (cd_entry d) \<or> \<not> py_isdigit (drop 3 (cd_entry d)) \<or> \<not> cd_has_cpufreq d then Inr []
      else case (read_int (cd_cur d), read_int (cd_max d)) of
        (Some cur, Some maxi) \<Rightarrow>
          if maxi = 0 then Inr [] else py_bind (int_quot cur maxi) (\<lambda>q. Inr [(cd_entry d, q)])
      | _ \<Rightarrow> Inr [])"

definition collect_cpufreq :: "cpu_dir list option \<Rightarrow> (string \<times> rat) list py" where
  "collect_cpufreq dirs =
     (case dirs of
        None \<Rightarrow> Inr []
      | Some ds \<Rightarrow> py_bind (py_mapM cpu_ratio (sort_key cd_entry ds)) (\<lambda>rs. Inr (concat rs)))"

section \<open>Metrics\<close>

definition rapl_lines :: "rat \<Rightarrow> rapl_record list \<Rightarrow> (string \<times> rat) list \<Rightarrow> int \<Rightarrow> string list" where
  "rapl_lines now rapls cpus collector_up =
     header_lines ''rapl_package_power_watts'' ''Instantaneous CPU package power draw in watts (RAPL).'' ''gauge'' @
     map (\<lambda>r. sample_line ''rapl_package_power_watts'' [(''package'', rp_package r)] (fmt_fixed 6 (rp_power r))) rapls @
     header_lines ''rapl_power_limit_watts'' ''CPU package TDP power limit in watts.'' ''gauge'' @
     List.map_filter (\<lambda>r. map_option (\<lambda>l. sample_line ''rapl_power_limit_watts'' [(''package'', rp_package r)] (fmt_fixed 6 l))
       (rp_limit r)) rapls @
     header_lines ''rapl_throttled'' ''1 if package power exceeds 95% of the TDP limit.'' ''gauge'' @
     map (\<lambda>r. sample_line ''rapl_throttled'' [(''package'', rp_package r)] (str_int (rp_throttled r))) rapls @
     header_lines ''cpu_freq_throttle_ratio'' ''Ratio of current to maximum CPU scaling frequency.'' ''gauge'' @
     map (\<lambda>(cpu, q). sample_line ''cpu_freq_throttle_ratio'' [(''cpu'', cpu)] (fmt_fixed 6 q)) cpus @
     header_lines ''rapl_collector_up'' ''1 if RAPL or cpufreq data was collected successfully.'' ''gauge'' @
     [value_line ''rapl_collector_up'' (str_int collector_up)] @
     header_lines ''rapl_collector_last_run_timestamp'' ''Unix timestamp of last collector run.'' ''gauge'' @
     [value_line ''rapl_collector_last_run_timestamp'' (fmt_fixed 3 now)]"

definition rapl_main :: "rat \<Rightarrow> rapl_dir list option \<Rightarrow> cpu_dir list option \<Rightarrow> string py" where
  "rapl_main now powercap cpus =
     py_bind (collect_rapl powercap) (\<lambda>rs. py_bind (collect_cpufreq cpus) (\<lambda>cs.
       Inr (render (rapl_lines now rs cs (if rs \<noteq> [] \<or> cs \<noteq> [] then 1 else 0)))))"

section \<open>Lemmas\<close>

lemma int_quot_eq: "int_quot a b = Inr q \<Longrightarrow> q = rnd (of_int a / of_int b)"
  by (auto simp: int_quot_def pf_of_def Let_def split: if_splits)

lemma py_mapM_mem:
  "py_mapM f xs = Inr ys \<Longrightarrow> y \<in> set ys \<Longrightarrow> \<exists>x \<in> set xs. f x = Inr y"
  by (induction xs arbitrary: ys) (auto simp: py_bind_eq_Inr)

lemma rapl_package_record:
  assumes "rapl_package d = Inr rs" "r \<in> set rs"
  shows "\<exists>e1 e2. read_int (rd_energy1 d) = Some e1 \<and> read_int (rd_energy2 d) = Some e2 \<and>
     rp_power r = rnd (of_int (delta_uj e1 e2) / 1000000) \<and>
     rp_limit r = map_option (\<lambda>l. rnd (of_int l / 1000000)) (read_int (rd_limit d)) \<and>
     rp_throttled r = rapl_throttled (rp_power r) (rp_limit r)"
  using assms
  by (auto simp: rapl_package_def Let_def py_bind_eq_Inr dest!: int_quot_eq split: option.splits)

section \<open>Properties\<close>

text \<open>C28: a package's power is the energy between the two readings, correctly rounded and never
  negative, a counter that wrapped included; the flag is 0 or 1, and 1 exactly when there is a
  positive limit and the power is over 95 percent of it, so never on a wrap or without energy.\<close>

theorem rapl_power_bounds:
  assumes "collect_rapl (Some ds) = Inr rs" "r \<in> set rs"
  shows "\<exists>d \<in> set ds. \<exists>e1 e2. is_package d \<and> read_int (rd_energy1 d) = Some e1 \<and> read_int (rd_energy2 d) = Some e2 \<and>
     rp_power r = rnd (of_int (max 0 (e2 - e1)) / 1000000) \<and> 0 \<le> rp_power r \<and>
     rp_throttled r \<in> {0, 1} \<and>
     (rp_throttled r = 1 \<longleftrightarrow> (\<exists>l. rp_limit r = Some l \<and> 0 < l \<and> fmul THROTTLE_THRESHOLD l < rp_power r)) \<and>
     (e2 \<le> e1 \<longrightarrow> rp_throttled r = 0)"
proof -
  obtain xs where xs: "py_mapM rapl_package (filter is_package (sort_key rd_entry ds)) = Inr xs" "rs = concat xs"
    using assms(1) by (auto simp: collect_rapl_def py_bind_eq_Inr)
  obtain ys where "ys \<in> set xs" "r \<in> set ys" using assms(2) xs(2) by auto
  then obtain d where d: "d \<in> set ds" "is_package d" "rapl_package d = Inr ys"
    using py_mapM_mem[OF xs(1)] by auto
  from rapl_package_record[OF d(3) \<open>r \<in> set ys\<close>] obtain e1 e2 where
    e: "read_int (rd_energy1 d) = Some e1" "read_int (rd_energy2 d) = Some e2"
    "rp_power r = rnd (of_int (delta_uj e1 e2) / 1000000)" "rp_throttled r = rapl_throttled (rp_power r) (rp_limit r)"
    by blast
  have m: "delta_uj e1 e2 = max 0 (e2 - e1)" by (simp add: delta_uj_def)
  have "(0 :: rat) \<le> of_int (max 0 (e2 - e1)) / 1000000" by simp
  then have p: "0 \<le> rp_power r" unfolding e(3) m by (rule rnd_nonneg)
  have f: "0 \<le> fmul THROTTLE_THRESHOLD l" if "0 < l" for l
    unfolding fmul_def THROTTLE_THRESHOLD_def using that by (intro rnd_nonneg mult_nonneg_nonneg) auto
  have z: "rp_throttled r = 0" if "e2 \<le> e1"
  proof -
    have "rp_power r = 0" using that unfolding e(3) m by simp
    then show ?thesis using f[THEN leD] unfolding e(4) rapl_throttled_def by (auto split: option.splits)
  qed
  have t: "rp_throttled r \<in> {0, 1} \<and> (rp_throttled r = 1 \<longleftrightarrow>
      (\<exists>l. rp_limit r = Some l \<and> 0 < l \<and> fmul THROTTLE_THRESHOLD l < rp_power r))"
    unfolding e(4) rapl_throttled_def by (auto split: option.splits)
  show ?thesis using d e(1,2) e(3)[unfolded m] p t z by blast
qed

definition demo_dir :: rapl_dir where
  "demo_dir = \<lparr>rd_entry = ''intel-rapl:0'', rd_name = Some ''package-0'', rd_energy1 = Some ''900'',
     rd_energy2 = Some ''100'', rd_limit = Some ''125000000''\<rparr>"

theorem rapl_power_bounds_witness:
  "\<exists>r. collect_rapl (Some [demo_dir]) = Inr [r] \<and> 0 \<le> rp_power r \<and> rp_throttled r \<in> {0, 1}"
proof -
  have c: "collect_rapl (Some [demo_dir]) =
      Inr [\<lparr>rp_package = ''package-0'', rp_power = 0, rp_limit = Some 125, rp_throttled = 0\<rparr>]" by code_simp
  from rapl_power_bounds[OF c, of "\<lparr>rp_package = ''package-0'', rp_power = 0, rp_limit = Some 125, rp_throttled = 0\<rparr>"]
  show ?thesis using c by auto
qed

end
