(* ===== verification/PciPmem.thy ===== *)
theory PciPmem
  imports ToolText Exposition "HOL-Library.List_Lexorder"
begin

text \<open>
  Two collectors of \<open>power_cxl\<close>: \<open>misc_hardware_collector.py\<close> (PCIe error counters, watchdog,
  hardware random numbers) and \<open>pmem_collector.py\<close> (persistent memory, from what \<open>ndctl\<close> prints).
  Files, tool output after parsing, environment and clock are arguments.
\<close>

section \<open>PCIe error counters\<close>

definition env_enabled :: "string option \<Rightarrow> bool" where
  "env_enabled v = (lower (case v of Some s \<Rightarrow> s | None \<Rightarrow> ''true'') \<noteq> ''false'')"

definition aer_count :: "string \<Rightarrow> int" where
  "aer_count line =
     (let parts = split_ws line in
      if length parts \<ge> 2 then (case py_int (last parts) of Some n \<Rightarrow> n | None \<Rightarrow> 0) else 0)"

text \<open>The file's text; \<open>None\<close> when it cannot be read.\<close>

definition parse_aer_file :: "string option \<Rightarrow> int" where
  "parse_aer_file file =
     (case file of None \<Rightarrow> 0 | Some t \<Rightarrow> foldl (\<lambda>n line. n + aer_count line) 0 (splitlines t))"

text \<open>The state of a counter file: absent, or there with its text.\<close>

record pci_device =
  pci_name :: string
  pci_is_dir :: bool
  pci_correctable :: "string option option"
  pci_fatal :: "string option option"

record aer_record =
  ar_pci :: string
  ar_correctable :: int
  ar_fatal :: int

definition aer_value :: "string option option \<Rightarrow> int" where
  "aer_value f = (case f of None \<Rightarrow> 0 | Some file \<Rightarrow> parse_aer_file file)"

definition aer_device :: "pci_device \<Rightarrow> aer_record option" where
  "aer_device d =
     (if \<not> pci_is_dir d \<or> pci_correctable d = None \<and> pci_fatal d = None then None
      else Some \<lparr>ar_pci = pci_name d, ar_correctable = aer_value (pci_correctable d),
                 ar_fatal = aer_value (pci_fatal d)\<rparr>)"

definition collect_pcie_aer :: "pci_device list option \<Rightarrow> aer_record list" where
  "collect_pcie_aer devices =
     (case devices of None \<Rightarrow> [] | Some ds \<Rightarrow> List.map_filter aer_device (sort_key pci_name ds))"

definition collect_watchdog :: "bool \<Rightarrow> int" where
  "collect_watchdog present = (if present then 1 else 0)"

definition collect_hwrng :: "string option \<Rightarrow> int" where
  "collect_hwrng file = (case file of None \<Rightarrow> 0 | Some t \<Rightarrow> if strip t \<noteq> [] then 1 else 0)"

definition misc_lines :: "rat \<Rightarrow> aer_record list option \<Rightarrow> int option \<Rightarrow> int option \<Rightarrow> string list" where
  "misc_lines now aer_records watchdog hwrng =
     (case aer_records of None \<Rightarrow> [] | Some rs \<Rightarrow>
        header_lines ''pcie_aer_correctable_total'' ''Sum of PCIe AER correctable error counters per device.'' ''counter'' @
        map (\<lambda>r. sample_line ''pcie_aer_correctable_total'' [(''pci_id'', ar_pci r)] (str_int (ar_correctable r))) rs @
        header_lines ''pcie_aer_fatal_total'' ''Sum of PCIe AER fatal error counters per device.'' ''counter'' @
        map (\<lambda>r. sample_line ''pcie_aer_fatal_total'' [(''pci_id'', ar_pci r)] (str_int (ar_fatal r))) rs) @
     (case watchdog of None \<Rightarrow> [] | Some w \<Rightarrow>
        header_lines ''watchdog_present'' ''1 if /dev/watchdog device node is present.'' ''gauge'' @
        [value_line ''watchdog_present'' (str_int w)]) @
     (case hwrng of None \<Rightarrow> [] | Some h \<Rightarrow>
        header_lines ''hwrng_active'' ''1 if a hardware RNG is active.'' ''gauge'' @
        [value_line ''hwrng_active'' (str_int h)]) @
     header_lines ''misc_collector_up'' ''1 when the misc hardware collector ran successfully.'' ''gauge'' @
     [value_line ''misc_collector_up'' ''1''] @
     header_lines ''misc_collector_last_run_timestamp'' ''Unix timestamp of last collector run.'' ''gauge'' @
     [value_line ''misc_collector_last_run_timestamp'' (fmt_fixed 3 now)]"

text \<open>The three switches are environment variables.\<close>

definition misc_main ::
    "rat \<Rightarrow> string option \<Rightarrow> string option \<Rightarrow> string option \<Rightarrow> pci_device list option \<Rightarrow> bool \<Rightarrow> string option \<Rightarrow> string" where
  "misc_main now env_aer env_wd env_rng devices wd rng =
     render (misc_lines now
       (if env_enabled env_aer then Some (collect_pcie_aer devices) else None)
       (if env_enabled env_wd then Some (collect_watchdog wd) else None)
       (if env_enabled env_rng then Some (collect_hwrng rng) else None))"

section \<open>Persistent memory\<close>

definition HEALTH_STATES :: "string list" where
  "HEALTH_STATES = [''ok'', ''non-critical'', ''critical'', ''fatal'']"

record pmem =
  pm_dev :: json
  pm_state :: json
  pm_used :: json
  pm_remaining :: json
  pm_temperature :: json
  pm_shutdowns :: json
  pm_ars :: int

definition pmem_entry :: "json \<Rightarrow> pmem option" where
  "pmem_entry entry =
     (case entry of
        JObj kvs \<Rightarrow>
          (let dev = dgetd kvs ''dev'' JNull in
           if \<not> jtruthy dev then None
           else case dgetd kvs ''health'' JNull of
             JObj h \<Rightarrow> Some \<lparr>pm_dev = dev, pm_state = dgetd h ''health_state'' (JStr ''ok''),
               pm_used = dgetd h ''lifespan_used'' JNull, pm_remaining = dgetd h ''lifespan_remaining'' JNull,
               pm_temperature = dgetd h ''temperature'' JNull, pm_shutdowns = dgetd h ''unsafe_shutdowns'' JNull,
               pm_ars = (if dgetd h ''ars_status'' (JStr ''idle'') = JStr ''scanning'' then 1 else 0)\<rparr>
           | _ \<Rightarrow> None)
      | _ \<Rightarrow> None)"

text \<open>The parsed output; \<open>None\<close> when there is none or it is no JSON.\<close>

definition parse_health_output :: "json option \<Rightarrow> pmem list" where
  "parse_health_output raw = (case raw of Some (JArr xs) \<Rightarrow> List.map_filter pmem_entry xs | _ \<Rightarrow> [])"

text \<open>The devices of a media-error list, once per entry. A list or an object cannot be a key of a
  dict; names are otherwise compared as parsed values.\<close>

definition media_dev :: "json \<Rightarrow> json option" where
  "media_dev entry =
     (case entry of JObj kvs \<Rightarrow> (let d = dgetd kvs ''dev'' JNull in if jtruthy d then Some d else None) | _ \<Rightarrow> None)"

definition hashable :: "json \<Rightarrow> json py" where
  "hashable d = (case d of JArr xs \<Rightarrow> Inl TypeError | JObj kvs \<Rightarrow> Inl TypeError | _ \<Rightarrow> Inr d)"

definition count_media_errors :: "json option \<Rightarrow> (json, int) dict py" where
  "count_media_errors raw =
     (case raw of
        Some (JArr xs) \<Rightarrow>
          py_bind (py_mapM hashable (List.map_filter media_dev xs)) (\<lambda>ds. Inr (fold dbump ds []))
      | _ \<Rightarrow> Inr [])"

text \<open>\<open>sorted\<close> of names: texts or integers; any other mixture of two or more names does not compare
  (numbers of several kinds, which would, are left out).\<close>

definition sorted_devs :: "json list \<Rightarrow> json list py" where
  "sorted_devs ds =
     (if length ds \<le> 1 then Inr ds
      else if list_all (\<lambda>d. case d of JStr s \<Rightarrow> True | _ \<Rightarrow> False) ds
      then Inr (sort_key (\<lambda>d. case d of JStr s \<Rightarrow> s | _ \<Rightarrow> []) ds)
      else if list_all (\<lambda>d. case d of JInt n \<Rightarrow> True | _ \<Rightarrow> False) ds
      then Inr (sort_key (\<lambda>d. case d of JInt n \<Rightarrow> n | _ \<Rightarrow> 0) ds)
      else Inl TypeError)"

definition pmem_values :: "(json \<Rightarrow> string) \<Rightarrow> string \<Rightarrow> string \<Rightarrow> string \<Rightarrow> (pmem \<Rightarrow> json) \<Rightarrow> pmem list \<Rightarrow> string list" where
  "pmem_values show name hlp kind get rs =
     header_lines name hlp kind @
     concat (map (\<lambda>r. if get r = JNull then []
       else [sample_line name [(''device'', jstr show (pm_dev r))] (jstr show (get r))]) rs)"

definition pmem_lines :: "(json \<Rightarrow> string) \<Rightarrow> rat \<Rightarrow> pmem list \<Rightarrow> (json, int) dict \<Rightarrow> int \<Rightarrow> string list py" where
  "pmem_lines show now rs media_errors collector_up =
     py_bind (py_mapM (\<lambda>r. hashable (pm_dev r)) rs) (\<lambda>devs.
     py_bind (sorted_devs (remdups (devs @ dkeys media_errors))) (\<lambda>all_devs.
     Inr (header_lines ''pmem_health_state'' ''1 if the PMEM device is in the given health state.'' ''gauge'' @
       concat (map (\<lambda>r. map (\<lambda>state. sample_line ''pmem_health_state''
         [(''device'', jstr show (pm_dev r)), (''state'', state)] (if pm_state r = JStr state then ''1'' else ''0''))
         HEALTH_STATES) rs) @
       pmem_values show ''pmem_lifespan_used_percent'' ''PMEM lifespan consumed (%).'' ''gauge'' pm_used rs @
       pmem_values show ''pmem_lifespan_remaining_percent'' ''PMEM lifespan remaining (%).'' ''gauge'' pm_remaining rs @
       pmem_values show ''pmem_temperature_celsius'' ''PMEM device temperature in Celsius.'' ''gauge'' pm_temperature rs @
       pmem_values show ''pmem_unsafe_shutdowns_total'' ''PMEM cumulative unsafe shutdown count.'' ''counter'' pm_shutdowns rs @
       header_lines ''pmem_ars_in_progress'' ''1 if address-range-scrub scan is in progress.'' ''gauge'' @
       map (\<lambda>r. sample_line ''pmem_ars_in_progress'' [(''device'', jstr show (pm_dev r))] (str_int (pm_ars r))) rs @
       header_lines ''pmem_media_errors_total'' ''Number of media-error regions reported by ndctl.'' ''counter'' @
       map (\<lambda>d. sample_line ''pmem_media_errors_total'' [(''device'', jstr show d)] (str_int (dgetd media_errors d 0))) all_devs @
       header_lines ''pmem_collector_up'' ''1 if ndctl is present and PMEM devices were found.'' ''gauge'' @
       [value_line ''pmem_collector_up'' (str_int collector_up)] @
       header_lines ''pmem_collector_last_run_timestamp'' ''Unix timestamp of last collector run.'' ''gauge'' @
       [value_line ''pmem_collector_last_run_timestamp'' (fmt_fixed 3 now)])))"

definition pmem_main :: "(json \<Rightarrow> string) \<Rightarrow> rat \<Rightarrow> json option \<Rightarrow> json option \<Rightarrow> string py" where
  "pmem_main show now health media =
     (let records = parse_health_output health in
      py_bind (if records = [] then pmem_lines show now [] [] 0
               else py_bind (count_media_errors media) (\<lambda>m. pmem_lines show now records m 1)) (\<lambda>ls. Inr (render ls)))"

section \<open>A counter file that ends with its total\<close>

definition aer_line :: "string \<times> nat \<Rightarrow> string" where
  "aer_line e = join '' '' [fst e, str_int (int (snd e))]"

text \<open>The file as the kernel writes it: one line per error, then their sum.\<close>

definition aer_file :: "string \<Rightarrow> (string \<times> nat) list \<Rightarrow> string" where
  "aer_file total_name es = unlines (map aer_line (es @ [(total_name, sum_list (map snd es))]))"

lemma aer_line_count: "wordy (fst e) \<Longrightarrow> snd e \<le> 2 ^ 64 \<Longrightarrow> aer_count (aer_line e) = int (snd e)"
proof -
  assume "wordy (fst e)" and "snd e \<le> 2 ^ 64"
  then have "int (snd e) \<le> int (2 ^ 64)" by (simp only: of_nat_le_iff)
  then have "small_int (int (snd e))" by (intro small_int_64) simp
  moreover have "split_ws (aer_line e) = [fst e, str_int (int (snd e))]"
    unfolding aer_line_def using \<open>wordy (fst e)\<close> by (intro split_ws_join) (simp add: str_int_wordy)
  ultimately show ?thesis by (simp add: aer_count_def py_int_str_int)
qed

lemma foldl_count: "foldl (\<lambda>n line. n + f line) a ls = a + sum_list (map f ls)" for a :: int
  by (induction ls arbitrary: a) auto

lemma aer_file_sum:
  assumes "list_all (\<lambda>e. wordy (fst e)) es" "list_all (\<lambda>e. snd e \<le> 2 ^ 64) es"
  shows "parse_aer_file (Some (unlines (map aer_line es))) = int (sum_list (map snd es))"
proof -
  have "clean_line (aer_line e)" if "e \<in> set es" for e
    using assms that unfolding aer_line_def by (intro join_clean) (auto simp: list_all_iff str_int_wordy)
  then have "splitlines (unlines (map aer_line es)) = map aer_line es"
    by (intro splitlines_unlines) (auto simp: list_all_iff clean_line_def)
  moreover have "sum_list (map aer_count (map aer_line es)) = int (sum_list (map snd es))"
    using assms by (induction es) (auto simp: aer_line_count)
  ultimately show ?thesis by (simp add: parse_aer_file_def foldl_count)
qed

section \<open>Properties\<close>

text \<open>The sum over a file of 64-bit counters is exact, and so, on the files the kernel writes, whose last
  line is the total of the others, the reported number of errors is twice the true one.\<close>

theorem aer_total_doubled:
  fixes es :: "(string \<times> nat) list"
  assumes "list_all (\<lambda>e. wordy (fst e)) es" "wordy total_name" "sum_list (map snd es) \<le> 2 ^ 64"
  shows "parse_aer_file (Some (unlines (map aer_line es))) = int (sum_list (map snd es)) \<and>
     parse_aer_file (Some (aer_file total_name es)) = 2 * int (sum_list (map snd es))"
proof -
  have "list_all (\<lambda>e. snd e \<le> 2 ^ 64) es"
    unfolding list_all_iff
  proof
    fix e assume "e \<in> set es"
    then have "snd e \<le> sum_list (map snd es)" by (intro member_le_sum_list) simp_all
    then show "snd e \<le> 2 ^ 64" using assms(3) by (rule order_trans)
  qed
  then show ?thesis
    using aer_file_sum[OF assms(1)] aer_file_sum[of "es @ [(total_name, sum_list (map snd es))]"] assms
    by (simp add: aer_file_def)
qed

theorem aer_total_doubled_witness:
  "parse_aer_file (Some (aer_file ''TOTAL_ERR_COR'' [(''RxErr'', 3), (''BadTLP'', 4)])) = 14"
proof -
  have "list_all (\<lambda>e. wordy (fst e)) [(''RxErr'', 3), (''BadTLP'', 4)]" "wordy ''TOTAL_ERR_COR''"
    "sum_list (map snd [(''RxErr'', 3), (''BadTLP'', 4 :: nat)]) \<le> 2 ^ 64" by (code_simp, code_simp, simp)
  from aer_total_doubled[OF this] show ?thesis by simp
qed

end
