(* ===== verification/KubeClient.thy ===== *)
theory KubeClient
  imports Integrations Exposition
begin

text \<open>
  The client half of \<open>remediation/remediation-controller.py\<close>: where the credentials come from, when a
  connection is verified, what is sent, and the pages of the metrics server. Files, environment
  and the API server are arguments; a configuration is modelled after parsing, and \<open>write_ca\<close> is the
  decoding of an inline certificate into a temporary file, with its name.
\<close>

record kube =
  kb_token :: json
  kb_namespace :: json
  kb_server :: json
  kb_ca_file :: json

section \<open>Credentials\<close>

text \<open>The token and namespace files, if they are there, and whether the certificate is.\<close>

definition SA_CA_FILE :: string where
  "SA_CA_FILE = ''/var/run/secrets/kubernetes.io/serviceaccount/ca.crt''"

definition load_incluster :: "string option \<Rightarrow> string option \<Rightarrow> bool \<Rightarrow> kube" where
  "load_incluster token ns ca_exists =
     \<lparr>kb_token = JStr (case token of Some t \<Rightarrow> strip t | None \<Rightarrow> []),
      kb_namespace = JStr (case ns of Some n \<Rightarrow> strip n | None \<Rightarrow> ''default''),
      kb_server = JStr ''https://kubernetes.default.svc'',
      kb_ca_file = (if ca_exists then JStr SA_CA_FILE else JNull)\<rparr>"

text \<open>\<open>next((c[key] for c in cs if c["name"] == name), {})\<close>\<close>

fun next_named :: "string \<Rightarrow> json \<Rightarrow> json list \<Rightarrow> json py" where
  "next_named key name [] = Inr (JObj [])"
| "next_named key name (c # cs) =
     py_bind (jitem c ''name'') (\<lambda>n. if n = name then jitem c key else next_named key name cs)"

definition named_entry :: "json \<Rightarrow> string \<Rightarrow> string \<Rightarrow> json \<Rightarrow> json py" where
  "named_entry kc group_key key name =
     py_bind (jget kc group_key (JArr [])) (\<lambda>g. py_bind (jiter g) (\<lambda>cs. next_named key name cs))"

definition load_kubeconfig :: "(json \<Rightarrow> json py) \<Rightarrow> json \<Rightarrow> kube py" where
  "load_kubeconfig write_ca kc =
     py_bind (jget kc ''current-context'' (JStr [])) (\<lambda>ctx_name.
     py_bind (named_entry kc ''contexts'' ''context'' ctx_name) (\<lambda>ctx.
     py_bind (jget ctx ''cluster'' (JStr [])) (\<lambda>cluster_name.
     py_bind (jget ctx ''user'' (JStr [])) (\<lambda>user_name.
     py_bind (jget ctx ''namespace'' (JStr ''default'')) (\<lambda>ns.
     py_bind (named_entry kc ''clusters'' ''cluster'' cluster_name) (\<lambda>cluster.
     py_bind (named_entry kc ''users'' ''user'' user_name) (\<lambda>user.
     py_bind (jget cluster ''server'' (JStr ''https://localhost:6443'')) (\<lambda>server.
     py_bind (jget user ''token'' (JStr [])) (\<lambda>token.
     py_bind (jget cluster ''certificate-authority-data'' (JStr [])) (\<lambda>ca_data.
     py_bind (if jtruthy ca_data then write_ca ca_data
              else jget cluster ''certificate-authority'' JNull) (\<lambda>ca_file.
     Inr \<lparr>kb_token = token, kb_namespace = ns, kb_server = server, kb_ca_file = ca_file\<rparr>)))))))))))"

section \<open>The connection\<close>

datatype tls = NoContext | Verified json | Unverified

definition insecure_flag :: "string \<Rightarrow> bool" where
  "insecure_flag env \<longleftrightarrow> lower env \<in> set [''true'', ''1'', ''yes'']"

text \<open>\<open>env\<close> is \<open>INSECURE_SKIP_TLS_VERIFY\<close>, empty when it is not set. \<open>NoContext\<close> is the source's \<open>None\<close>:
  no context is passed on, so an \<open>http:\<close> address is spoken to in the clear.\<close>

definition ssl_ctx :: "(json \<Rightarrow> bool) \<Rightarrow> string \<Rightarrow> kube \<Rightarrow> tls py" where
  "ssl_ctx path_exists env k =
     (case kb_server k of
        JStr server \<Rightarrow>
          if \<not> starts_with ''https'' server then Inr NoContext
          else if jtruthy (kb_ca_file k) \<and> path_exists (kb_ca_file k) then Inr (Verified (kb_ca_file k))
          else if insecure_flag env then Inr Unverified
          else Inl (RuntimeError ''Kubernetes API CA certificate not found'')
      | _ \<Rightarrow> Inl AttributeError)"

record kube_request =
  kr_method :: string
  kr_url :: string
  kr_body :: "json option"
  kr_headers :: "(string, string) dict"
  kr_tls :: tls

definition headers :: "(json \<Rightarrow> string) \<Rightarrow> kube \<Rightarrow> (string, string) dict" where
  "headers show k =
     [(''Content-Type'', ''application/merge-patch+json''), (''Accept'', ''application/json'')] @
     (if jtruthy (kb_token k) then [(''Authorization'', ''Bearer '' @ jstr show (kb_token k))] else [])"

text \<open>The request that leaves the client, if one does. The server text is that of \<open>ssl_ctx\<close>.\<close>

definition kube_url :: "kube \<Rightarrow> string \<Rightarrow> string py" where
  "kube_url k path =
     (case kb_server k of JStr s \<Rightarrow> Inr (rstrip_chr (CHR ''/'') s @ path) | _ \<Rightarrow> Inl AttributeError)"

definition kube_send ::
    "(json \<Rightarrow> string) \<Rightarrow> (json \<Rightarrow> bool) \<Rightarrow> string \<Rightarrow> kube \<Rightarrow> string \<Rightarrow> string \<Rightarrow> json option \<Rightarrow> string \<Rightarrow> kube_request py" where
  "kube_send show path_exists env k meth path body content_type =
     py_bind (kube_url k path) (\<lambda>url.
     py_bind (ssl_ctx path_exists env k) (\<lambda>t.
     Inr \<lparr>kr_method = meth, kr_url = url, kr_body = body,
          kr_headers = dset ''Content-Type'' content_type (headers show k), kr_tls = t\<rparr>))"

definition patch_node where
  "patch_node show path_exists env k node patch =
     kube_send show path_exists env k ''PATCH'' (''/api/v1/nodes/'' @ node) (Some patch) ''application/merge-patch+json''"

definition create_event where
  "create_event show path_exists env k ns event =
     kube_send show path_exists env k ''POST'' (''/api/v1/namespaces/'' @ ns @ ''/events'') (Some event) ''application/json''"

definition get_node where
  "get_node show path_exists env k node =
     kube_send show path_exists env k ''GET'' (''/api/v1/nodes/'' @ node) None ''application/merge-patch+json''"

section \<open>The metrics server\<close>

record page =
  pg_status :: int
  pg_headers :: "(string, string) dict"
  pg_body :: string

definition controller_do_GET :: "string \<Rightarrow> string \<Rightarrow> page" where
  "controller_do_GET metrics path =
     (if path = ''/metrics''
      then \<lparr>pg_status = 200, pg_headers = [(''Content-Type'', ''text/plain; version=0.0.4''),
              (''Content-Length'', str_int (int (length (utf8 metrics))))], pg_body = metrics\<rparr>
      else if path = ''/healthz'' then \<lparr>pg_status = 200, pg_headers = [], pg_body = ''ok''\<rparr>
      else \<lparr>pg_status = 404, pg_headers = [], pg_body = []\<rparr>)"

section \<open>Lemmas\<close>

text \<open>What one request is: whether it leaves, and with which context and token.\<close>

lemma kube_send_cases:
  assumes "kb_server k = JStr server"
  shows "kube_send show path_exists env k meth path body content_type =
     (if \<not> starts_with ''https'' server \<or> (jtruthy (kb_ca_file k) \<and> path_exists (kb_ca_file k)) \<or> insecure_flag env
      then Inr \<lparr>kr_method = meth, kr_url = rstrip_chr (CHR ''/'') server @ path, kr_body = body,
          kr_headers = dset ''Content-Type'' content_type (headers show k),
          kr_tls = (if \<not> starts_with ''https'' server then NoContext
                    else if jtruthy (kb_ca_file k) \<and> path_exists (kb_ca_file k) then Verified (kb_ca_file k)
                    else Unverified)\<rparr>
      else Inl (RuntimeError ''Kubernetes API CA certificate not found''))"
  using assms by (simp add: kube_send_def kube_url_def ssl_ctx_def)

lemma headers_token [simp]:
  "dget (headers show k) ''Authorization'' =
     (if jtruthy (kb_token k) then Some (''Bearer '' @ jstr show (kb_token k)) else None)"
  by (simp add: headers_def)

section \<open>Properties\<close>

text \<open>C7: for each of the three operations: against an https server the request is verified with the
  configured certificate when that exists; without it, it leaves unverified exactly when the operator
  set the environment switch, and is otherwise refused. Against any other server (\<open>http://\<close> in a
  kubeconfig) it leaves without any context, switch or no switch, and in every case a bearer token,
  if there is one, goes with it.\<close>

theorem tls_verified:
  assumes "kb_server k = JStr server"
      and "res \<in> {patch_node show path_exists env k node patch, create_event show path_exists env k ns event,
                  get_node show path_exists env k node}"
  shows "(\<forall>r. res = Inr r \<longrightarrow>
       kr_tls r = (if \<not> starts_with ''https'' server then NoContext
                   else if jtruthy (kb_ca_file k) \<and> path_exists (kb_ca_file k) then Verified (kb_ca_file k)
                   else Unverified) \<and>
       dget (kr_headers r) ''Authorization'' =
         (if jtruthy (kb_token k) then Some (''Bearer '' @ jstr show (kb_token k)) else None)) \<and>
     (res = Inl (RuntimeError ''Kubernetes API CA certificate not found'') \<longleftrightarrow>
        starts_with ''https'' server \<and> \<not> (jtruthy (kb_ca_file k) \<and> path_exists (kb_ca_file k)) \<and>
        \<not> insecure_flag env) \<and>
     ((\<exists>r. res = Inr r) \<longleftrightarrow>
        \<not> starts_with ''https'' server \<or> (jtruthy (kb_ca_file k) \<and> path_exists (kb_ca_file k)) \<or>
        insecure_flag env)"
proof -
  obtain meth path body ct where res: "res = kube_send show path_exists env k meth path body ct"
    using assms(2) unfolding patch_node_def create_event_def get_node_def by blast
  show ?thesis unfolding res kube_send_cases[OF assms(1)] by simp
qed

text \<open>In the cluster without a certificate nothing is sent; with \<open>http:\<close> in the kubeconfig the token is
  sent in the clear, though the switch is off.\<close>

theorem tls_verified_witness:
  "patch_node (\<lambda>j. []) (\<lambda>p. False) [] (load_incluster (Some ''t'') None False) ''n1'' JNull =
     Inl (RuntimeError ''Kubernetes API CA certificate not found'') \<and>
   (\<exists>r. get_node (\<lambda>j. []) (\<lambda>p. False) [] \<lparr>kb_token = JStr ''s3cret'', kb_namespace = JStr ''default'',
        kb_server = JStr ''http://10.0.0.1:8080'', kb_ca_file = JNull\<rparr> ''n1'' = Inr r \<and>
      kr_tls r = NoContext \<and> dget (kr_headers r) ''Authorization'' = Some ''Bearer s3cret'')"
proof -
  have "\<not> insecure_flag []" "starts_with ''https'' ''https://kubernetes.default.svc''"
    and http: "\<not> starts_with ''https'' ''http://10.0.0.1:8080''" by code_simp+
  then have "patch_node (\<lambda>j. []) (\<lambda>p. False) [] (load_incluster (Some ''t'') None False) ''n1'' JNull =
     Inl (RuntimeError ''Kubernetes API CA certificate not found'')"
    using tls_verified[of "load_incluster (Some ''t'') None False" "''https://kubernetes.default.svc''"
        "patch_node (\<lambda>j. []) (\<lambda>p. False) [] (load_incluster (Some ''t'') None False) ''n1'' JNull"
        "\<lambda>j. []" "\<lambda>p. False" "[]" "''n1''" JNull "[]" JNull] by (simp add: load_incluster_def)
  moreover define k where "k = \<lparr>kb_token = JStr ''s3cret'', kb_namespace = JStr ''default'',
        kb_server = JStr ''http://10.0.0.1:8080'', kb_ca_file = JNull\<rparr>"
  have "\<exists>r. get_node (\<lambda>j. []) (\<lambda>p. False) [] k ''n1'' = Inr r \<and>
      kr_tls r = NoContext \<and> dget (kr_headers r) ''Authorization'' = Some ''Bearer s3cret''"
    using tls_verified[of k "''http://10.0.0.1:8080''" "get_node (\<lambda>j. []) (\<lambda>p. False) [] k ''n1''"
        "\<lambda>j. []" "\<lambda>p. False" "[]" "''n1''" JNull "[]" JNull] http by (auto simp: k_def jstr_def)
  ultimately show ?thesis by (simp add: k_def)
qed

end
