(* ===== verification/Network.thy ===== *)
theory Network
  imports ToolText Exposition "HOL-Library.List_Lexorder"
begin

text \<open>
  The network collectors \<open>network/ib_collector.py\<close> (InfiniBand ports through \<open>ibstat\<close> and
  \<open>perfquery\<close>) and \<open>network/nic_collector.py\<close> (interface counters from sysfs and \<open>ethtool\<close>). What a
  tool prints with its exit status, what a file holds and the clock are arguments.
\<close>

type_synonym tool_run = "string \<times> int"

section \<open>InfiniBand reports\<close>

record ib_port =
  ip_state :: string
  ip_phys_state :: string
  ip_rate :: int

record ib_device =
  id_ca_type :: string
  id_num_ports :: int
  id_ports :: "(string, ib_port) dict"

definition new_device :: ib_device where
  "new_device = \<lparr>id_ca_type = [], id_num_ports = 0, id_ports = []\<rparr>"

definition new_port :: ib_port where
  "new_port = \<lparr>ip_state = ''Unknown'', ip_phys_state = ''Unknown'', ip_rate = 0\<rparr>"

text \<open>The state of the parser: the devices so far, the current device and port.\<close>

record ib_scan =
  is_devices :: "(string, ib_device) dict"
  is_device :: "string option"
  is_port :: "string option"

definition Any1 :: regex where "Any1 = Plus (Cls not_nl)"

definition RE_CA :: regex where "RE_CA = Seqs [Bol, Lit [CHR ''C'', CHR ''A'', CHR '' '', CHR 0x27], Grp 1 Any1, Lit [CHR 0x27]]"
definition RE_TYPE :: regex where "RE_TYPE = Seqs [Lit ''CA type:'', Star Space, Grp 1 Any1]"
definition RE_PORTS :: regex where "RE_PORTS = Seqs [Lit ''Number of ports:'', Star Space, Grp 1 (Plus Digit)]"
definition RE_PORT :: regex where "RE_PORT = Seqs [Lit ''Port '', Grp 1 (Plus Digit), Lit '':'']"
definition RE_STATE :: regex where "RE_STATE = Seqs [Lit ''State:'', Star Space, Grp 1 Any1]"
definition RE_PHYS :: regex where "RE_PHYS = Seqs [Lit ''Physical state:'', Star Space, Grp 1 Any1]"
definition RE_RATE :: regex where "RE_RATE = Seqs [Lit ''Rate:'', Star Space, Grp 1 (Plus Digit), Star Space, Lit ''Gb/sec'']"

text \<open>The first group of a match at the start of a line.\<close>

definition group1 :: "regex \<Rightarrow> string \<Rightarrow> string option" where
  "group1 r s = (case re_match r s of Some m \<Rightarrow> m_group m 1 | None \<Rightarrow> None)"

definition the_int :: "string \<Rightarrow> int" where
  "the_int s = (case py_int s of Some n \<Rightarrow> n | None \<Rightarrow> 0)"

definition update_device :: "string \<Rightarrow> (ib_device \<Rightarrow> ib_device) \<Rightarrow> ib_scan \<Rightarrow> ib_scan" where
  "update_device d f s = s\<lparr>is_devices := dset d (f (dgetd (is_devices s) d new_device)) (is_devices s)\<rparr>"

definition update_port :: "string \<Rightarrow> string \<Rightarrow> (ib_port \<Rightarrow> ib_port) \<Rightarrow> ib_scan \<Rightarrow> ib_scan" where
  "update_port d p f s =
     update_device d (\<lambda>dev. dev\<lparr>id_ports := dset p (f (dgetd (id_ports dev) p new_port)) (id_ports dev)\<rparr>) s"

text \<open>A line inside a port's section, after the other headings.\<close>

definition port_line :: "string \<Rightarrow> string \<Rightarrow> string \<Rightarrow> ib_scan \<Rightarrow> ib_scan" where
  "port_line d p stripped s =
     (case group1 RE_STATE stripped of
        Some v \<Rightarrow> update_port d p (\<lambda>q. q\<lparr>ip_state := strip v\<rparr>) s
      | None \<Rightarrow> (case group1 RE_PHYS stripped of
          Some v \<Rightarrow> update_port d p (\<lambda>q. q\<lparr>ip_phys_state := strip v\<rparr>) s
        | None \<Rightarrow> (case group1 RE_RATE stripped of
            Some v \<Rightarrow> update_port d p (\<lambda>q. q\<lparr>ip_rate := the_int v\<rparr>) s
          | None \<Rightarrow> s)))"

definition device_line :: "string \<Rightarrow> string \<Rightarrow> ib_scan \<Rightarrow> ib_scan" where
  "device_line d stripped s =
     (case group1 RE_TYPE stripped of
        Some v \<Rightarrow> update_device d (\<lambda>dev. dev\<lparr>id_ca_type := strip v\<rparr>) s
      | None \<Rightarrow> (case group1 RE_PORTS stripped of
          Some v \<Rightarrow> update_device d (\<lambda>dev. dev\<lparr>id_num_ports := the_int v\<rparr>) s
        | None \<Rightarrow> (case group1 RE_PORT stripped of
            Some p \<Rightarrow> (update_device d (\<lambda>dev. dev\<lparr>id_ports := dset p new_port (id_ports dev)\<rparr>) s)\<lparr>is_port := Some p\<rparr>
          | None \<Rightarrow> (case is_port s of None \<Rightarrow> s | Some p \<Rightarrow> port_line d p stripped s))))"

definition ibstat_line :: "string \<Rightarrow> ib_scan \<Rightarrow> ib_scan" where
  "ibstat_line line s =
     (case group1 RE_CA line of
        Some d \<Rightarrow> s\<lparr>is_device := Some d, is_port := None, is_devices := dset d new_device (is_devices s)\<rparr>
      | None \<Rightarrow> (case is_device s of None \<Rightarrow> s | Some d \<Rightarrow> device_line d (strip line) s))"

definition parse_ibstat :: "string \<Rightarrow> (string, ib_device) dict" where
  "parse_ibstat output =
     is_devices (fold ibstat_line (splitlines output) \<lparr>is_devices = [], is_device = None, is_port = None\<rparr>)"

definition PERFQUERY_COUNTERS :: "string list" where
  "PERFQUERY_COUNTERS = [''SymbolErrorCounter'', ''LinkRecovers'', ''LinkDowned'', ''PortRcvErrors'',
     ''PortXmtDiscards'', ''VL15Dropped'']"

definition perf_counter :: "string \<Rightarrow> string \<Rightarrow> (string, int) dict \<Rightarrow> (string, int) dict" where
  "perf_counter line counter d =
     (if starts_with (counter @ '':'') line
      then case py_int (dropWhile (\<lambda>c. c = CHR ''.'') (strip (snd (split_once (CHR '':'') line)))) of
        Some n \<Rightarrow> dset counter n d
      | None \<Rightarrow> d
      else d)"

definition perf_line :: "string \<Rightarrow> (string, int) dict \<Rightarrow> (string, int) dict" where
  "perf_line line d = fold (perf_counter line) PERFQUERY_COUNTERS d"

definition parse_perfquery :: "string \<Rightarrow> (string, int) dict" where
  "parse_perfquery output = fold perf_line (splitlines output) (map (\<lambda>c. (c, 0)) PERFQUERY_COUNTERS)"

section \<open>InfiniBand collection\<close>

record ib_entry =
  ie_state :: string
  ie_rate :: int
  ie_counters :: "(string, int) dict"

record ib_info =
  ii_ok :: bool
  ii_ports :: "(string, ib_entry) dict"

definition not_ok :: ib_info where "not_ok = \<lparr>ii_ok = False, ii_ports = []\<rparr>"

definition ib_port_entry :: "(string \<Rightarrow> string \<Rightarrow> tool_run) \<Rightarrow> string \<Rightarrow> string \<times> ib_port \<Rightarrow> string \<times> ib_entry" where
  "ib_port_entry perfquery device p =
     (let run = perfquery device (fst p) in
      (fst p, \<lparr>ie_state = ip_state (snd p), ie_rate = ip_rate (snd p),
        ie_counters = (if ip_state (snd p) = ''Active'' \<and> snd run = 0 then parse_perfquery (fst run) else [])\<rparr>))"

definition collect_device_metrics ::
    "(string \<Rightarrow> tool_run) \<Rightarrow> (string \<Rightarrow> string \<Rightarrow> tool_run) \<Rightarrow> string \<Rightarrow> ib_info" where
  "collect_device_metrics ibstat perfquery device =
     (let run = ibstat device in
      if snd run \<noteq> 0 then not_ok
      else case dget (parse_ibstat (fst run)) device of
        None \<Rightarrow> not_ok
      | Some info \<Rightarrow> \<lparr>ii_ok = True, ii_ports = map (ib_port_entry perfquery device) (id_ports info)\<rparr>)"

definition ib_lines :: "bool \<Rightarrow> (string, ib_info) dict \<Rightarrow> rat \<Rightarrow> string list" where
  "ib_lines ib_present metrics now =
     (let ports = concat (map (\<lambda>(d, info). map (\<lambda>(p, e). (d, p, e)) (sort_key fst (ii_ports info))) (sort_key fst metrics)) in
     header_lines ''ib_collector_up'' ''1 if InfiniBand hardware detected and collector operational, 0 otherwise.'' ''gauge'' @
     [value_line ''ib_collector_up'' (if ib_present then ''1'' else ''0'')] @
     (if ib_present
      then header_lines ''ib_port_state'' ''1 if port state is Active, 0 otherwise.'' ''gauge'' @
        map (\<lambda>(d, p, e). sample_line ''ib_port_state'' [(''device'', d), (''port'', p)]
          (if ie_state e = ''Active'' then ''1'' else ''0'')) ports @
        header_lines ''ib_port_link_rate_gbps'' ''InfiniBand port link rate in Gbps.'' ''gauge'' @
        map (\<lambda>(d, p, e). sample_line ''ib_port_link_rate_gbps'' [(''device'', d), (''port'', p)] (str_int (ie_rate e))) ports @
        header_lines ''ib_port_error_total'' ''InfiniBand port error counter totals.'' ''counter'' @
        concat (map (\<lambda>(d, p, e). map (\<lambda>(c, n). sample_line ''ib_port_error_total''
          [(''device'', d), (''port'', p), (''counter'', c)] (str_int n)) (sort_key fst (ie_counters e))) ports)
      else []) @
     header_lines ''ib_collector_last_run_timestamp'' ''Unix timestamp of the last IB collector run.'' ''gauge'' @
     [value_line ''ib_collector_last_run_timestamp'' (fmt_fixed 3 now)])"

text \<open>The names under \<open>/sys/class/infiniband\<close>, if it can be listed.\<close>

definition ib_main ::
    "rat \<Rightarrow> string list option \<Rightarrow> (string \<Rightarrow> tool_run) \<Rightarrow> (string \<Rightarrow> string \<Rightarrow> tool_run) \<Rightarrow> string list" where
  "ib_main now listing ibstat perfquery =
     (case listing of
        None \<Rightarrow> ib_lines False [] now
      | Some names \<Rightarrow>
          if names = [] then ib_lines False [] now
          else let infos = map (\<lambda>d. (d, collect_device_metrics ibstat perfquery d)) (sort names)
               in ib_lines (list_all (\<lambda>(d, i). ii_ok i) infos) infos now)"

section \<open>Interfaces\<close>

definition ROCE_DRIVERS :: "string list" where "ROCE_DRIVERS = [''mlx5_core'', ''mlx4_core'']"
definition ETHTOOL_ROCE_COUNTERS :: "string list" where
  "ETHTOOL_ROCE_COUNTERS = [''out_of_buffer'', ''req_rnr_retry_exceeded'']"

text \<open>An interface under sysfs: whether it has a device, its statistics files, and the target of its
  driver link.\<close>

record net_if =
  nf_device :: bool
  nf_stat :: "string \<Rightarrow> string option"
  nf_driver :: "string option"

definition list_physical_interfaces :: "(string \<times> net_if) list option \<Rightarrow> (string \<times> net_if) list" where
  "list_physical_interfaces ifs =
     (case ifs of None \<Rightarrow> [] | Some is \<Rightarrow> filter (\<lambda>(n, f). n \<noteq> ''lo'' \<and> nf_device f) (sort_key fst is))"

definition read_sysfs_stat :: "net_if \<Rightarrow> string \<Rightarrow> int" where
  "read_sysfs_stat f stat =
     (case nf_stat f stat of None \<Rightarrow> 0 | Some t \<Rightarrow> (case py_int (strip t) of Some n \<Rightarrow> n | None \<Rightarrow> 0))"

definition basename :: "string \<Rightarrow> string" where
  "basename path = last (split_on (CHR ''/'') path)"

definition is_roce_interface :: "net_if \<Rightarrow> bool" where
  "is_roce_interface f =
     (case nf_driver f of None \<Rightarrow> False | Some t \<Rightarrow> list_ex (\<lambda>r. contains r (basename t)) ROCE_DRIVERS)"

definition RE_VALUE :: regex where "RE_VALUE = Seqs [Lit '':'', Star Space, Grp 1 (Plus Digit)]"

definition roce_counter :: "string \<Rightarrow> string \<Rightarrow> (string, int) dict \<Rightarrow> (string, int) dict" where
  "roce_counter stripped counter d =
     (if contains counter stripped
      then case re_search RE_VALUE stripped of
          Some m \<Rightarrow> (case m_group m 1 of Some v \<Rightarrow> dset counter (the_int v) d | None \<Rightarrow> d)
        | None \<Rightarrow> d
      else d)"

definition collect_ethtool_roce :: "tool_run \<Rightarrow> (string, int) dict" where
  "collect_ethtool_roce run =
     (if snd run \<noteq> 0 then []
      else fold (\<lambda>line d. fold (roce_counter (strip line)) ETHTOOL_ROCE_COUNTERS d) (splitlines (fst run)) [])"

record if_stats =
  st_rx :: "(string, int) dict"
  st_tx :: "(string, int) dict"
  st_roce :: bool
  st_roce_counters :: "(string, int) dict"

definition collect_interface_stats :: "(string \<Rightarrow> tool_run) \<Rightarrow> string \<times> net_if \<Rightarrow> if_stats" where
  "collect_interface_stats ethtool nf =
     (let f = snd nf; roce = is_roce_interface f in
      \<lparr>st_rx = [(''errors'', read_sysfs_stat f ''rx_errors''), (''dropped'', read_sysfs_stat f ''rx_dropped''),
         (''crc_errors'', read_sysfs_stat f ''rx_crc_errors''), (''missed_errors'', read_sysfs_stat f ''rx_missed_errors'')],
       st_tx = [(''errors'', read_sysfs_stat f ''tx_errors''), (''dropped'', read_sysfs_stat f ''tx_dropped'')],
       st_roce = roce, st_roce_counters = (if roce then collect_ethtool_roce (ethtool (fst nf)) else [])\<rparr>)"

definition nic_error_lines :: "string \<Rightarrow> string \<Rightarrow> (string, int) dict \<Rightarrow> string list" where
  "nic_error_lines iface direction d =
     map (\<lambda>(t, v). sample_line ''nic_errors_total'' [(''interface'', iface), (''direction'', direction), (''error_type'', t)]
       (str_int v)) (sort_key fst d)"

definition nic_lines :: "bool \<Rightarrow> (string, if_stats) dict \<Rightarrow> rat \<Rightarrow> string list" where
  "nic_lines ifaces_found stats now =
     (let ss = sort_key fst stats; roce = filter (\<lambda>(i, s). st_roce s \<and> st_roce_counters s \<noteq> []) ss in
     header_lines ''nic_collector_up'' ''1 if physical NIC interfaces found and collector operational, 0 otherwise.'' ''gauge'' @
     [value_line ''nic_collector_up'' (if ifaces_found then ''1'' else ''0'')] @
     (if ifaces_found
      then header_lines ''nic_errors_total'' ''NIC error counters from sysfs statistics.'' ''counter'' @
        concat (map (\<lambda>(i, s). nic_error_lines i ''rx'' (st_rx s) @ nic_error_lines i ''tx'' (st_tx s)) ss) @
        (if roce \<noteq> []
         then header_lines ''roce_errors_total'' ''RoCE-specific error counters from ethtool.'' ''counter'' @
           concat (map (\<lambda>(i, s). map (\<lambda>(c, v). sample_line ''roce_errors_total'' [(''interface'', i), (''counter'', c)]
             (str_int v)) (sort_key fst (st_roce_counters s))) roce)
         else [])
      else []) @
     header_lines ''nic_collector_last_run_timestamp'' ''Unix timestamp of the last NIC collector run.'' ''gauge'' @
     [value_line ''nic_collector_last_run_timestamp'' (fmt_fixed 3 now)])"

definition nic_main :: "rat \<Rightarrow> (string \<times> net_if) list option \<Rightarrow> (string \<Rightarrow> tool_run) \<Rightarrow> string list" where
  "nic_main now ifs ethtool =
     (let is = list_physical_interfaces ifs in
      if is = [] then nic_lines False [] now
      else nic_lines True (fold (\<lambda>f d. dset (fst f) (collect_interface_stats ethtool f) d) is []) now)"

section \<open>Lemmas\<close>

lemma ib_lines_absent: "ib_lines False infos now = ib_lines False [] now"
  by (simp add: ib_lines_def)

lemma header_lines_length: "length (header_lines name doc kind) = 2"
  by (simp add: header_lines_def)

text \<open>The third line is the gauge: a report that is up is not one that is down.\<close>

lemma third: "length h = 2 \<Longrightarrow> (h @ [v] @ ys) ! 2 = v"
  by (simp add: nth_append)

lemma ib_lines_gauge: "ib_lines up infos now ! 2 = value_line ''ib_collector_up'' (if up then ''1'' else ''0'')"
  unfolding ib_lines_def Let_def append_assoc by (rule third[OF header_lines_length])

lemma value_line_inj: "value_line n v = value_line n w \<longleftrightarrow> v = w"
  by (simp add: value_line_def)

lemma ib_lines_up_down: "ib_lines True infos now \<noteq> ib_lines False infos' now"
proof
  assume "ib_lines True infos now = ib_lines False infos' now"
  then have "ib_lines True infos now ! 2 = ib_lines False infos' now ! 2" by simp
  then show False by (simp add: ib_lines_gauge value_line_inj)
qed

section \<open>Properties\<close>

text \<open>The InfiniBand report is all or nothing: a host with adapters reports exactly what a host
  without any reports, no port at all, if and only if for at least one of its adapters \<open>ibstat\<close>
  fails or does not name it, however many healthy adapters there are beside it.\<close>

theorem ib_one_failure_hides_all:
  assumes "names \<noteq> []"
  shows "ib_main now (Some names) ibstat perfquery = ib_main now None ibstat perfquery \<longleftrightarrow>
    (\<exists>d. d \<in> set names \<and> (snd (ibstat d) \<noteq> 0 \<or> dget (parse_ibstat (fst (ibstat d))) d = None))"
proof -
  have ok: "ii_ok (collect_device_metrics ibstat perfquery d) \<longleftrightarrow>
      \<not> (snd (ibstat d) \<noteq> 0 \<or> dget (parse_ibstat (fst (ibstat d))) d = None)" for d
    by (auto simp: collect_device_metrics_def not_ok_def Let_def split: option.splits)
  show ?thesis
  proof (cases "\<exists>d. d \<in> set names \<and> \<not> ii_ok (collect_device_metrics ibstat perfquery d)")
    case True
    then have "\<not> list_all (\<lambda>(d, i). ii_ok i) (map (\<lambda>d. (d, collect_device_metrics ibstat perfquery d)) (sort names))"
      by (auto simp: list_all_iff)
    then have "ib_main now (Some names) ibstat perfquery = ib_main now None ibstat perfquery"
      using assms by (simp add: ib_main_def Let_def) (rule ib_lines_absent)
    then show ?thesis using True ok by auto
  next
    case False
    then have "list_all (\<lambda>(d, i). ii_ok i) (map (\<lambda>d. (d, collect_device_metrics ibstat perfquery d)) (sort names))"
      by (auto simp: list_all_iff)
    then have "ib_main now (Some names) ibstat perfquery \<noteq> ib_main now None ibstat perfquery"
      using assms by (simp add: ib_main_def Let_def ib_lines_up_down)
    then show ?thesis using False ok by auto
  qed
qed

definition ibstat_sample :: "string \<Rightarrow> tool_run" where
  "ibstat_sample d = (if d = ''mlx5_0''
     then (unlines [''CA '' @ [CHR 0x27] @ ''mlx5_0'' @ [CHR 0x27], '' Number of ports: 1'', ''Port 1:'', ''State: Active''], 0)
     else ([], 255))"

theorem ib_one_failure_hides_all_witness:
  "ib_port_entry (\<lambda>d p. ([], 0)) ''mlx5_0'' (''1'', new_port\<lparr>ip_state := ''Active''\<rparr>) \<in>
     set (ii_ports (collect_device_metrics ibstat_sample (\<lambda>d p. ([], 0)) ''mlx5_0'')) \<and>
   ib_main 0 (Some [''mlx5_0'', ''mlx5_1'']) ibstat_sample (\<lambda>d p. ([], 0)) = ib_main 0 None ibstat_sample (\<lambda>d p. ([], 0))"
proof
  show "ib_port_entry (\<lambda>d p. ([], 0)) ''mlx5_0'' (''1'', new_port\<lparr>ip_state := ''Active''\<rparr>) \<in>
     set (ii_ports (collect_device_metrics ibstat_sample (\<lambda>d p. ([], 0)) ''mlx5_0''))"
    by code_simp
  have "snd (ibstat_sample ''mlx5_1'') \<noteq> 0" by (simp add: ibstat_sample_def)
  then show "ib_main 0 (Some [''mlx5_0'', ''mlx5_1'']) ibstat_sample (\<lambda>d p. ([], 0)) = ib_main 0 None ibstat_sample (\<lambda>d p. ([], 0))"
    using ib_one_failure_hides_all[of "[''mlx5_0'', ''mlx5_1'']" 0 ibstat_sample "\<lambda>d p. ([], 0)"] by auto
qed

end
