(* ===== verification/Sensors.thy ===== *)
theory Sensors
  imports ToolText IpmiSel "HOL-Library.Multiset"
begin

text \<open>
  The sensor exporter \<open>bmc/ipmi_sensor_exporter.py\<close>: the table \<open>ipmitool sdr list full\<close> prints, one node,
  the metrics and a run over the targets. The tool, how a float prints and the clock are arguments.
  Every parsed sensor is well typed, and every sensor of a report is exported exactly twice, under
  its unit and as a breach flag.
\<close>

section \<open>The sensor table\<close>

definition BREACH_STATUSES :: "string list" where
  "BREACH_STATUSES = [''upper critical'', ''lower critical'']"

definition UNIT_MAP :: "(regex \<times> string) list" where
  "UNIT_MAP =
     [(Seqs [WordB, ILit ''RPM'', WordB], ''fan_rpm''),
      (Seqs [WordB, ILit ''degrees'', Plus Space, ILit ''C'', WordB], ''temperature_celsius''),
      (Seqs [WordB, ILit ''Volt'', Opt (ILit ''s''), WordB], ''voltage_volts''),
      (Seqs [WordB, ILit ''Watt'', Opt (ILit ''s''), WordB], ''power_watts'')]"

definition RE_READING :: regex where
  "RE_READING = Seqs [Bol, Star Space, Grp 1 (Plus (Cls (\<lambda>c. is_digit c \<or> c = CHR ''.''))), Star Space,
     Grp 2 (Star (Cls not_nl))]"

fun unit_for :: "(regex \<times> string) list \<Rightarrow> string \<Rightarrow> string option" where
  "unit_for [] s = None"
| "unit_for ((r, u) # ps) s = (if re_search r s \<noteq> None then Some u else unit_for ps s)"

record sensor =
  sn_name :: string
  sn_status :: string
  sn_value :: pf
  sn_unit :: string
  sn_breach :: bool

text \<open>The reading of the fourth cell: a number and a unit, if it has both.\<close>

definition reading_of :: "string \<Rightarrow> (pf \<times> string) option" where
  "reading_of reading_str =
     (case re_match RE_READING reading_str of
        None \<Rightarrow> None
      | Some m \<Rightarrow>
          (case (m_group m 1, m_group m 2) of
             (Some num, Some unit) \<Rightarrow>
               (case (py_float num, unit_for UNIT_MAP (strip unit)) of
                  (Some v, Some u) \<Rightarrow> Some (v, u)
                | _ \<Rightarrow> None)
           | _ \<Rightarrow> None))"

definition sdr_line :: "string \<Rightarrow> sensor option" where
  "sdr_line line =
     (let line = strip line; parts = map strip (split_on (CHR ''|'') line) in
      if line = [] \<or> length parts < 4 then None
      else case reading_of (parts ! 3) of
        None \<Rightarrow> None
      | Some (v, u) \<Rightarrow>
          Some \<lparr>sn_name = parts ! 0, sn_status = lower (parts ! 2), sn_value = v, sn_unit = u,
            sn_breach = lower (parts ! 2) \<in> set BREACH_STATUSES\<rparr>)"

definition parse_sdr_output :: "string \<Rightarrow> sensor list" where
  "parse_sdr_output raw = List.map_filter sdr_line (splitlines raw)"

section \<open>A node\<close>

record node_sensors =
  ns_node :: string
  ns_up :: bool
  ns_error :: "string option"
  ns_sensors :: "sensor list"

text \<open>The tool gives a text or an error; an error text that is empty counts as an empty table.\<close>

definition collect_node_sensors :: "ipmitool \<Rightarrow> target \<Rightarrow> node_sensors py" where
  "collect_node_sensors tool tg =
     py_bind (field ''node'' (tg_node tg)) (\<lambda>node.
     py_bind (field ''ip'' (tg_ip tg)) (\<lambda>ip. py_bind (field ''user'' (tg_user tg)) (\<lambda>user.
     py_bind (field ''pass'' (tg_pass tg)) (\<lambda>pass.
     Inr (case tool ip user pass of
            Inr err \<Rightarrow>
              if err \<noteq> [] then \<lparr>ns_node = node, ns_up = False, ns_error = Some err, ns_sensors = []\<rparr>
              else \<lparr>ns_node = node, ns_up = True, ns_error = None, ns_sensors = parse_sdr_output []\<rparr>
          | Inl raw \<Rightarrow> \<lparr>ns_node = node, ns_up = True, ns_error = None, ns_sensors = parse_sdr_output raw\<rparr>)))))"

section \<open>Metrics\<close>

definition METRIC_DEFS :: "(string \<times> string \<times> string) list" where
  "METRIC_DEFS =
     [(''fan_rpm'', ''ipmi_fan_rpm'', ''Fan speed in RPM reported by IPMI SDR.''),
      (''temperature_celsius'', ''ipmi_temperature_celsius'', ''Temperature in degrees Celsius reported by IPMI SDR.''),
      (''voltage_volts'', ''ipmi_voltage_volts'', ''Voltage in Volts reported by IPMI SDR.''),
      (''power_watts'', ''ipmi_power_watts'', ''Power in Watts reported by IPMI SDR.'')]"

text \<open>The pairs of a node's name and one of its sensors, in the order of the loops.\<close>

definition all_sensors :: "node_sensors list \<Rightarrow> (string \<times> sensor) list" where
  "all_sensors results = concat (map (\<lambda>r. map (\<lambda>s. (ns_node r, s)) (ns_sensors r)) results)"

definition sensor_sample :: "string \<Rightarrow> string \<Rightarrow> string \<times> sensor \<Rightarrow> string" where
  "sensor_sample name value ns =
     sample_line name [(''node'', sanitize_label (fst ns)), (''sensor_name'', sanitize_label (sn_name (snd ns)))] value"

definition unit_block :: "(pf \<Rightarrow> string) \<Rightarrow> node_sensors list \<Rightarrow> string \<times> string \<times> string \<Rightarrow> string list" where
  "unit_block fl results d =
     header_lines (fst (snd d)) (snd (snd d)) ''gauge'' @
     map (\<lambda>ns. sensor_sample (fst (snd d)) (fl (sn_value (snd ns))) ns)
       (filter (\<lambda>ns. sn_unit (snd ns) = fst d) (all_sensors results))"

definition sensor_lines :: "(pf \<Rightarrow> string) \<Rightarrow> rat \<Rightarrow> node_sensors list \<Rightarrow> string list" where
  "sensor_lines fl now results =
     concat (map (unit_block fl results) METRIC_DEFS) @
     header_lines ''ipmi_sensor_threshold_breach'' ''1 if sensor is at Upper/Lower Critical threshold.'' ''gauge'' @
     map (\<lambda>ns. sensor_sample ''ipmi_sensor_threshold_breach'' (if sn_breach (snd ns) then ''1'' else ''0'') ns)
       (all_sensors results) @
     header_lines ''ipmi_sensor_collector_last_run_timestamp'' ''Unix timestamp of last sensor collector run.'' ''gauge'' @
     [value_line ''ipmi_sensor_collector_last_run_timestamp'' (fmt_fixed 3 now)]"

text \<open>A run; without the tool every target is down.\<close>

definition collect_target :: "ipmitool option \<Rightarrow> target \<Rightarrow> node_sensors py" where
  "collect_target tool tg =
     (case tool of
        None \<Rightarrow> Inr \<lparr>ns_node = node_name tg, ns_up = False, ns_error = Some ''ipmitool not found'', ns_sensors = []\<rparr>
      | Some run \<Rightarrow> collect_node_sensors run tg)"

definition sensor_main :: "(pf \<Rightarrow> string) \<Rightarrow> rat \<Rightarrow> ipmitool option \<Rightarrow> target list \<Rightarrow> string py" where
  "sensor_main fl now tool targets =
     py_bind (py_mapM (collect_target tool) targets) (\<lambda>results. Inr (render (sensor_lines fl now results)))"

section \<open>Lemmas\<close>

lemma parse_digits_nonneg: "0 \<le> b \<Longrightarrow> 0 \<le> acc \<Longrightarrow> parse_digits b acc s = Some n \<Longrightarrow> 0 \<le> n"
  by (induction b acc s rule: parse_digits.induct)
    (fastforce split: option.splits if_splits list.splits dest: digit_val_nonneg)+

lemma run_val_nonneg: "run_val r = Some (n, k) \<Longrightarrow> 0 \<le> n"
  by (auto simp: run_val_def parse_nat_def split: if_splits list.splits option.splits
      dest!: parse_digits_nonneg[rotated 2] digit_val_nonneg)

lemma py_decimal_nonneg: "py_decimal s = Some q \<Longrightarrow> 0 \<le> q"
  by (auto simp: py_decimal_def Let_def split: prod.splits option.splits if_splits dest!: run_val_nonneg)

definition plain_number :: "string \<Rightarrow> bool" where
  "plain_number s \<longleftrightarrow> (\<forall>c \<in> set s. is_digit c \<or> c = CHR ''.'')"

lemma cp_point [simp]: "cp (CHR ''.'') = 46"
  by code_simp

lemma lower_plain: "plain_number s \<Longrightarrow> lower s = s"
  by (induction s) (auto simp: plain_number_def lower_def to_lower_def is_digit_def is_upper_def)

lemma plain_strip: "plain_number s \<Longrightarrow> plain_number (strip s)"
  using set_strip by (fastforce simp: plain_number_def)

text \<open>A number without sign and exponent is read as a value that is not negative and not NaN.\<close>

lemma py_float_plain:
  assumes "plain_number s" "py_float s = Some v"
  shows "v = PInf \<or> (\<exists>q. 0 \<le> q \<and> v = Fin q)"
proof -
  let ?s = "strip s"
  have p: "plain_number ?s" using assms(1) by (rule plain_strip)
  then have sgn: "\<not> starts_with ''-'' ?s" "\<not> starts_with ''+'' ?s"
    by (auto simp: plain_number_def starts_with_iff is_digit_def cp_def)
  have "?s \<noteq> ''inf''" "?s \<noteq> ''infinity''" "?s \<noteq> ''nan''"
    using p by (auto simp: plain_number_def is_digit_def cp_def)
  then obtain q where q: "py_decimal ?s = Some q" "v = pf_of q"
    using assms(2) sgn lower_plain[OF p] by (auto simp: py_float_def Let_def)
  then have "0 \<le> rnd q" by (intro rnd_nonneg py_decimal_nonneg)
  moreover have "\<not> rnd q \<le> - (2 ^ 1024)" if "0 \<le> rnd q"
    using that zero_less_power[of "2 :: rat" 1024] by linarith
  ultimately show ?thesis using q(2) by (auto simp: pf_of_def Let_def)
qed

lemma reading_group1: "re_match RE_READING s = Some m \<Longrightarrow> \<exists>u. m_group m 1 = Some u \<and> plain_number u"
proof -
  assume "re_match RE_READING s = Some m"
  then have ok: "match_ok RE_READING s m" using re_match_ok by blast
  have "\<exists>u. m_group m 1 = Some u \<and> words (Plus (Cls (\<lambda>c. is_digit c \<or> c = CHR ''.''))) u"
    by (rule match_ok_group[OF ok]) (auto simp: RE_READING_def)
  then show ?thesis by (auto simp: words_plus_cls plain_number_def)
qed

lemma unit_for_known: "unit_for us s = Some u \<Longrightarrow> u \<in> snd ` set us"
  by (induction us s rule: unit_for.induct) (auto split: if_splits)

lemma units_are_metrics: "snd ` set UNIT_MAP = fst ` set METRIC_DEFS"
  by (simp add: UNIT_MAP_def METRIC_DEFS_def)

lemma reading_of_typed:
  "reading_of s = Some (v, u) \<Longrightarrow> (v = PInf \<or> (\<exists>q. 0 \<le> q \<and> v = Fin q)) \<and> u \<in> fst ` set METRIC_DEFS"
  using units_are_metrics
  by (auto simp: reading_of_def split: option.splits dest!: reading_group1 py_float_plain unit_for_known)

text \<open>The cells of a printed row.\<close>

definition cell :: "string \<Rightarrow> bool" where
  "cell s \<longleftrightarrow> clean_line s \<and> CHR ''|'' \<notin> set s"

definition sdr_row :: "string list \<Rightarrow> string" where
  "sdr_row cs = join '' | '' cs"

lemma strip_cell: "clean_line x \<Longrightarrow> strip (CHR '' '' # x @ '' '') = x" "clean_line x \<Longrightarrow> strip (CHR '' '' # x) = x"
    "clean_line x \<Longrightarrow> strip (x @ '' '') = x"
  using strip_padded[of x "'' ''" "'' ''"] strip_padded[of x "'' ''" "[]"] strip_padded[of x "[]" "'' ''"]
  by (auto simp: is_space_def cp_def)

lemma row_cells:
  assumes "cell a" "cell b" "cell c" "cell d"
  shows "map strip (split_on (CHR ''|'') (sdr_row [a, b, c, d])) = [a, b, c, d]"
proof -
  have n: "CHR ''|'' \<notin> set (a @ '' '')" "CHR ''|'' \<notin> set (CHR '' '' # b @ '' '')"
    "CHR ''|'' \<notin> set (CHR '' '' # c @ '' '')" "CHR ''|'' \<notin> set (CHR '' '' # d)"
    using assms by (auto simp: cell_def)
  have "split_on (CHR ''|'') (sdr_row [a, b, c, d]) =
      [a @ '' '', CHR '' '' # b @ '' '', CHR '' '' # c @ '' '', CHR '' '' # d]"
    using split_on_append[OF n(1)] split_on_append[OF n(2)] split_on_append[OF n(3)] split_on_single[OF n(4)]
    by (simp add: sdr_row_def)
  then show ?thesis using assms by (simp add: cell_def strip_cell)
qed

lemma row_clean: "cell a \<Longrightarrow> cell b \<Longrightarrow> cell c \<Longrightarrow> cell d \<Longrightarrow> clean_line (sdr_row [a, b, c, d])"
proof -
  assume c: "cell a" "cell b" "cell c" "cell d"
  obtain x t where a: "a = x # t" "\<not> is_space x"
    using c(1) strip_no_space_ends[of a] by (cases a) (auto simp: cell_def clean_line_def)
  have d: "d \<noteq> []" "\<not> is_space (last d)"
    using c(4) strip_no_space_ends[of d] by (auto simp: cell_def clean_line_def)
  have "strip (sdr_row [a, b, c, d]) = sdr_row [a, b, c, d]"
    using a d by (intro strip_id) (simp add: sdr_row_def)
  moreover have "\<forall>x \<in> set (sdr_row [a, b, c, d]). \<not> is_break x"
    using c by (auto simp: sdr_row_def cell_def clean_line_def is_break_def cp_def)
  ultimately show ?thesis using a by (simp add: clean_line_def sdr_row_def)
qed

text \<open>A reading as the tool prints it: \<open>n / 10 ^ k\<close> with \<open>k\<close> decimals, and a unit of the table.\<close>

definition SDR_UNITS :: "(string \<times> string) list" where
  "SDR_UNITS = [(''RPM'', ''fan_rpm''), (''degrees C'', ''temperature_celsius''), (''Volts'', ''voltage_volts''),
     (''Watts'', ''power_watts'')]"

lemma SDR_UNITS_read: "list_all (\<lambda>(w, u). clean_line w \<and> CHR ''|'' \<notin> set w \<and> list_all not_nl w \<and>
    hd w \<noteq> CHR ''.'' \<and> unit_for UNIT_MAP (strip w) = Some u) SDR_UNITS"
  by code_simp

definition number_text :: "int \<Rightarrow> nat \<Rightarrow> string" where
  "number_text n k = str_int (n div 10 ^ k) @ (if k = 0 then [] else CHR ''.'' # zpad k (str_int (n mod 10 ^ k)))"

definition reading_text :: "int \<Rightarrow> nat \<Rightarrow> string \<Rightarrow> string" where
  "reading_text n k w = number_text n k @ '' '' @ w"

lemma zpad_digits:
  assumes "0 \<le> m" "m < 10 ^ Suc j"
  shows "length (zpad (Suc j) (str_int m)) = Suc j" "c \<in> set (zpad (Suc j) (str_int m)) \<Longrightarrow> is_digit c"
    "parse_nat 10 (zpad (Suc j) (str_int m)) = Some m"
proof -
  let ?z = "zpad (Suc j) (str_int m)"
  have d: "is_digit c" if "c \<in> set (str_int m)" for c using str_int_digits[OF assms(1) that] .
  have z: "is_digit (CHR ''0'')" by (simp add: is_digit_def cp_def)
  have "length (str_int m) \<le> Suc j" using digits_of_length[OF assms] assms(1) by (simp add: str_int_def)
  then show len: "length ?z = Suc j" by (simp add: zpad_def)
  show dig: "is_digit c" if "c \<in> set ?z" for c using that d z by (auto simp: zpad_def)
  have "parse_digits 10 0 ?z = Some m" unfolding zpad_def parse_zeros by (rule parse_str_int[OF assms(1)])
  moreover obtain c t where ct: "?z = c # t" using len by (cases ?z) auto
  moreover have "is_digit c" using dig[of c] ct by simp
  ultimately show "parse_nat 10 ?z = Some m" by (simp add: parse_nat_def digit_val_digit)
qed

lemma sdr_number_chars:
  assumes "0 \<le> n"
  shows "number_text n k \<noteq> []" "is_digit (hd (number_text n k))"
    "\<And>c. c \<in> set (number_text n k) \<Longrightarrow> is_digit c \<or> c = CHR ''.''"
proof -
  let ?i = "str_int (n div 10 ^ k)"
  have i: "?i \<noteq> []" using str_int_wordy by (simp add: wordy_def)
  have "0 \<le> n div 10 ^ k" using assms by (simp add: pos_imp_zdiv_nonneg_iff)
  then have d: "c \<in> set ?i \<Longrightarrow> is_digit c" for c by (rule str_int_digits)
  show "number_text n k \<noteq> []" "is_digit (hd (number_text n k))"
    using i d hd_in_set[OF i] by (simp_all add: number_text_def)
  show "is_digit c \<or> c = CHR ''.''" if "c \<in> set (number_text n k)" for c
  proof (cases k)
    case (Suc j)
    then show ?thesis using that d zpad_digits(2)[of "n mod 10 ^ k" j c] by (auto simp: number_text_def)
  qed (use that d in \<open>auto simp: number_text_def\<close>)
qed

text \<open>Python's \<open>float()\<close> reads it as the nearest float.\<close>

lemma py_float_number:
  assumes "0 \<le> n"
  shows "py_float (number_text n k) = Some (pf_of (of_int n / 10 ^ k))"
proof (cases k)
  case 0
  then show ?thesis using py_float_nat[OF assms] by (simp add: number_text_def)
next
  case (Suc j)
  let ?s = "number_text n k" and ?i = "str_int (n div 10 ^ k)" and ?z = "zpad k (str_int (n mod 10 ^ k))"
  have plain: "plain_number ?s" using sdr_number_chars(3)[OF assms] by (auto simp: plain_number_def)
  have ns: "\<not> is_space c" if "c \<in> set ?s" for c
    using sdr_number_chars(3)[OF assms that] by (auto simp: is_digit_def is_space_def cp_def)
  have st: "strip ?s = ?s" using sdr_number_chars(1)[OF assms] ns by (intro strip_id) (simp add: hd_in_set last_in_set)
  have "0 \<le> n div 10 ^ k" using assms by (simp add: pos_imp_zdiv_nonneg_iff)
  note nn = this
  then have dg: "\<forall>c \<in> set ?i. is_digit c" "\<forall>c \<in> set ?z. is_digit c" "?i \<noteq> []"
    using str_int_digits[of "n div 10 ^ k"] zpad_digits(2)[of "n mod 10 ^ k" j] str_int_wordy[of "n div 10 ^ k"] Suc
    by (simp_all add: wordy_def)
  have nd: "\<not> is_digit (CHR ''.'')" by (simp add: is_digit_def cp_def)
  have s: "?s = ?i @ CHR ''.'' # ?z" using Suc by (simp add: number_text_def)
  have "dec_run ?s = (?i, CHR ''.'' # ?z)"
    using dg(1) nd unfolding s dec_run_def by (simp add: takeWhile_append dropWhile_append)
  moreover have "dec_run ?z = (?z, [])" using dg(2) by (rule dec_run_digits)
  moreover have "parse_nat 10 ?i = Some (n div 10 ^ k)"
    using nn by (simp add: str_int_def parse_digits_of)
  moreover have "parse_nat 10 ?z = Some (n mod 10 ^ k)" "length ?z = k"
    using zpad_digits(1,3)[of "n mod 10 ^ k" j] Suc by simp_all
  moreover have "filter is_digit ?z = ?z" using dg(2) by (simp add: filter_id_conv)
  ultimately have "py_decimal ?s = Some (of_int (n div 10 ^ k) + of_int (n mod 10 ^ k) / 10 ^ k)"
    using dg(3) Suc by (auto simp: py_decimal_def run_val_def exp_val_def Let_def)
  moreover have "(of_int (n div 10 ^ k) + of_int (n mod 10 ^ k) / 10 ^ k :: rat) = of_int n / 10 ^ k"
  proof -
    have "rat_of_int (n div 10 ^ k * 10 ^ k + n mod 10 ^ k) = of_int (n div 10 ^ k) * 10 ^ k + of_int (n mod 10 ^ k)"
      by (simp only: of_int_add of_int_mult of_int_power of_int_numeral)
    then have e: "(of_int n :: rat) = of_int (n div 10 ^ k) * 10 ^ k + of_int (n mod 10 ^ k)"
      by (simp only: div_mult_mod_eq)
    show ?thesis by (subst e) (simp add: add_divide_distrib)
  qed
  moreover have "\<not> starts_with ''-'' ?s" "\<not> starts_with ''+'' ?s"
    using plain by (auto simp: plain_number_def starts_with_iff is_digit_def cp_def)
  moreover have "?s \<noteq> ''inf''" "?s \<noteq> ''infinity''" "?s \<noteq> ''nan''"
    using plain by (auto simp: plain_number_def is_digit_def cp_def)
  ultimately show ?thesis by (simp add: py_float_def Let_def st lower_plain[OF plain])
qed

lemma reading_match:
  assumes "0 \<le> n" "clean_line w" "list_all not_nl w"
  shows "\<exists>t. re_match RE_READING (reading_text n k w) = Some ([], t, [(2, w), (1, number_text n k)])"
proof -
  let ?D = "\<lambda>c. is_digit c \<or> c = CHR ''.''" and ?s = "number_text n k"
  have w: "w \<noteq> []" "\<not> is_space (hd w)" using assms(2) strip_no_space_ends[of w] by (auto simp: clean_line_def)
  have d: "?s \<noteq> []" "\<forall>c \<in> set ?s. ?D c"
    using sdr_number_chars[OF assms(1)] by auto
  have sp: "is_space (CHR '' '')" "\<not> ?D (CHR '' '')" by (auto simp: is_space_def is_digit_def cp_def)
  have hd: "\<not> is_space (hd ?s)" using sdr_number_chars(2)[OF assms(1), of k] by (auto simp: is_digit_def is_space_def)
  have 1: "takes (Star Space) (None, ?s @ CHR '' '' # w, []) (None, ?s @ CHR '' '' # w, [])"
    using takes_star_cls[of "[]" is_space "?s @ CHR '' '' # w" None "[]"] hd d(1) by simp
  have 2: "takes (Grp 1 (Plus (Cls ?D))) (None, ?s @ CHR '' '' # w, []) (Some (last ?s), CHR '' '' # w, [(1, ?s)])"
    by (rule takes_Grp) (use takes_plus_cls[OF d, of "CHR '' '' # w" None "[]"] sp(2) d(1) in \<open>simp add: before_def\<close>)
  have 3: "takes (Star Space) (Some (last ?s), CHR '' '' # w, [(1, ?s)]) (Some (CHR '' ''), w, [(1, ?s)])"
    using takes_star_cls[of "'' ''" is_space w "Some (last ?s)" "[(1, ?s)]"] sp(1) w(2) by simp
  have 4: "takes (Grp 2 (Star (Cls not_nl))) (Some (CHR '' ''), w @ [], [(1, ?s)]) (Some (last w), [], [(2, w), (1, ?s)])"
    by (rule takes_Grp) (use takes_star_cls[of w not_nl "[]" "Some (CHR '' '')" "[(1, ?s)]"] assms(3) w(1) in
        \<open>simp add: list_all_iff before_def\<close>)
  have "takes RE_READING (None, reading_text n k w, []) (Some (last w), [], [(2, w), (1, ?s)])"
    using takes_Seq[OF takes_Bol takes_Seq[OF 1 takes_Seq[OF 2 takes_Seq[OF 3, of "Grp 2 (Star (Cls not_nl))"]]]] 4
    by (simp add: RE_READING_def reading_text_def)
  from re_match_takes[OF this] show ?thesis by simp
qed

lemma reading_of_text:
  assumes "0 \<le> n" "(w, u) \<in> set SDR_UNITS"
  shows "reading_of (reading_text n k w) = Some (pf_of (of_int n / 10 ^ k), u)"
proof -
  have w: "clean_line w" "list_all not_nl w" "unit_for UNIT_MAP (strip w) = Some u"
    using SDR_UNITS_read assms(2) by (auto simp: list_all_iff)
  obtain t where "re_match RE_READING (reading_text n k w) = Some ([], t, [(2, w), (1, number_text n k)])"
    using reading_match[OF assms(1) w(1,2)] by blast
  then show ?thesis using w(3) by (simp add: reading_of_def m_group_def py_float_number[OF assms(1)])
qed

section \<open>Properties\<close>

type_synonym sdr_entry = "string \<times> string \<times> string \<times> int \<times> nat \<times> string \<times> string"

definition entry_ok :: "sdr_entry \<Rightarrow> bool" where
  "entry_ok e = (case e of (name, sid, status, n, k, w, u) \<Rightarrow>
     cell name \<and> cell sid \<and> cell status \<and> 0 \<le> n \<and> (w, u) \<in> set SDR_UNITS)"

definition entry_text :: "sdr_entry \<Rightarrow> string" where
  "entry_text e = (case e of (name, sid, status, n, k, w, u) \<Rightarrow> sdr_row [name, sid, status, reading_text n k w])"

definition entry_sensor :: "sdr_entry \<Rightarrow> sensor" where
  "entry_sensor e = (case e of (name, sid, status, n, k, w, u) \<Rightarrow>
     \<lparr>sn_name = name, sn_status = lower status, sn_value = pf_of (of_int n / 10 ^ k), sn_unit = u,
      sn_breach = (lower status \<in> set BREACH_STATUSES)\<rparr>)"

lemma reading_cell: "0 \<le> n \<Longrightarrow> (w, u) \<in> set SDR_UNITS \<Longrightarrow> cell (reading_text n k w)"
proof -
  assume n: "0 \<le> n" and u: "(w, u) \<in> set SDR_UNITS"
  then have w: "clean_line w" "CHR ''|'' \<notin> set w" using SDR_UNITS_read by (auto simp: list_all_iff)
  have s: "number_text n k \<noteq> []" "is_digit (hd (number_text n k))"
    "\<And>c. c \<in> set (number_text n k) \<Longrightarrow> is_digit c \<or> c = CHR ''.''"
    using sdr_number_chars[OF n] by auto
  have "\<not> is_space (hd (number_text n k))" using s(2) by (auto simp: is_digit_def is_space_def)
  moreover have "w \<noteq> []" "\<not> is_space (last w)" using w(1) strip_no_space_ends[of w] by (auto simp: clean_line_def)
  ultimately have "strip (reading_text n k w) = reading_text n k w"
    using s(1) by (intro strip_id) (simp add: reading_text_def)
  moreover have "\<forall>c \<in> set (reading_text n k w). \<not> is_break c"
  proof -
    have "\<not> is_break c" if "is_digit c \<or> c = CHR ''.''" for c
      using that by (auto simp: is_break_def is_digit_def cp_def)
    moreover have "\<not> is_break (CHR '' '')" by (simp add: is_break_def cp_def)
    ultimately show ?thesis using s(3) w(1) by (auto simp: reading_text_def clean_line_def)
  qed
  moreover have "CHR ''|'' \<notin> set (reading_text n k w)"
    using s(3)[of "CHR ''|''"] w(2) by (auto simp: reading_text_def is_digit_def cp_def)
  ultimately show ?thesis using s(1) by (simp add: cell_def clean_line_def reading_text_def)
qed

lemma entry_line: "entry_ok e \<Longrightarrow> clean_line (entry_text e) \<and> sdr_line (entry_text e) = Some (entry_sensor e)"
proof -
  assume e: "entry_ok e"
  obtain name sid status n k w u where [simp]: "e = (name, sid, status, n, k, w, u)" by (cases e) auto
  have c: "cell name" "cell sid" "cell status" "0 \<le> n" "(w, u) \<in> set SDR_UNITS"
    using e by (auto simp: entry_ok_def)
  note r = c(1-3) reading_cell[OF c(4,5)]
  have "clean_line (entry_text e)" using row_clean[OF r] by (simp add: entry_text_def)
  moreover have "length (split_on (CHR ''|'') (sdr_row [name, sid, status, reading_text n k w])) = 4"
    using arg_cong[OF row_cells[OF r], of length] by simp
  ultimately have "sdr_line (entry_text e) = Some (entry_sensor e)"
    using row_cells[OF r] reading_of_text[OF c(4,5)]
    by (simp add: sdr_line_def entry_text_def entry_sensor_def Let_def clean_line_def)
  with row_clean[OF r] show ?thesis by (simp add: entry_text_def)
qed

text \<open>C33: a sensor table is read back: every row of a name, an id, a status and a decimal reading that is
  not negative (any number of decimals, such as \<open>0.88 Volts\<close>) in one of the four units gives its
  sensor with the float nearest to that reading, the unit and the breach flag, in order, and nothing
  else.\<close>

theorem sdr_roundtrip:
  assumes "list_all entry_ok es"
  shows "parse_sdr_output (unlines (map entry_text es)) = map entry_sensor es"
proof -
  have "splitlines (unlines (map entry_text es)) = map entry_text es"
    using assms entry_line by (intro splitlines_unlines) (auto simp: list_all_iff clean_line_def)
  moreover have "List.map_filter sdr_line (map entry_text es) = map entry_sensor es"
    using assms entry_line by (induction es) (simp_all add: List.map_filter_simps)
  ultimately show ?thesis by (simp add: parse_sdr_output_def)
qed

theorem sdr_roundtrip_witness:
  "map (\<lambda>s. (sn_value s, sn_breach s)) (parse_sdr_output (unlines
     [''Fan 1 | 0x01 | ok | 1200 RPM'', ''VCORE | 0x03 | Lower Critical | 0.88 Volts''])) =
   [(Fin 1200, False), (pf_of (88 / 100), True)]"
proof -
  let ?es = "[(''Fan 1'', ''0x01'', ''ok'', 1200, 0, ''RPM'', ''fan_rpm''),
      (''VCORE'', ''0x03'', ''Lower Critical'', 88, 2, ''Volts'', ''voltage_volts'')]"
  have "list_all entry_ok ?es" by code_simp
  note r = sdr_roundtrip[OF this]
  have "map entry_text ?es = [''Fan 1 | 0x01 | ok | 1200 RPM'', ''VCORE | 0x03 | Lower Critical | 0.88 Volts'']"
    by code_simp
  moreover have "pf_of 1200 = Fin 1200" by code_simp
  moreover have "lower ''Lower Critical'' \<in> set BREACH_STATUSES" "lower ''ok'' \<notin> set BREACH_STATUSES" by code_simp+
  ultimately show ?thesis using r by (simp add: entry_sensor_def)
qed

text \<open>The type of what a run collects.\<close>

definition sensor_ok :: "sensor \<Rightarrow> bool" where
  "sensor_ok s \<longleftrightarrow> (sn_value s = PInf \<or> (case sn_value s of Fin q \<Rightarrow> 0 \<le> q | _ \<Rightarrow> False)) \<and>
     sn_unit s \<in> fst ` set METRIC_DEFS \<and> CHR ''|'' \<notin> set (sn_name s) \<and>
     (sn_breach s \<longleftrightarrow> sn_status s \<in> set BREACH_STATUSES)"

lemma sdr_line_ok: "sdr_line line = Some s \<Longrightarrow> sensor_ok s"
proof -
  assume s: "sdr_line line = Some s"
  let ?parts = "map strip (split_on (CHR ''|'') (strip line))"
  have l: "4 \<le> length ?parts" using s by (auto simp: sdr_line_def Let_def split: if_splits)
  then have "?parts ! 0 = strip (split_on (CHR ''|'') (strip line) ! 0)" by (intro nth_map) auto
  moreover have "split_on (CHR ''|'') (strip line) ! 0 \<in> set (split_on (CHR ''|'') (strip line))"
    using l by (intro nth_mem) auto
  ultimately have "CHR ''|'' \<notin> set (?parts ! 0)" using split_on_no_sep set_strip by (metis subsetD)
  then show ?thesis
    using s reading_of_typed
    by (fastforce simp: sdr_line_def sensor_ok_def Let_def split: if_splits option.splits)
qed

lemma parsed_ok: "list_all sensor_ok (parse_sdr_output raw)"
  by (auto simp: parse_sdr_output_def list_all_iff map_filter_def dest: sdr_line_ok)

lemma collected_ok: "collect_target tool tg = Inr r \<Longrightarrow> list_all sensor_ok (ns_sensors r)"
  by (auto simp: collect_target_def collect_node_sensors_def py_bind_eq_Inr field_def parsed_ok
      split: option.splits sum.splits if_splits)

lemma collected_all_ok: "py_mapM (collect_target tool) targets = Inr results \<Longrightarrow> list_all (\<lambda>ns. sensor_ok (snd ns)) (all_sensors results)"
proof (induction targets arbitrary: results)
  case (Cons tg tgs)
  then show ?case using collected_ok
    by (fastforce simp: py_bind_eq_Inr all_sensors_def list_all_iff)
qed (simp add: all_sensors_def)

section \<open>The lines of a report\<close>

text \<open>The lines that are no comments: samples.\<close>

definition samples :: "string list \<Rightarrow> string list" where
  "samples ls = filter (\<lambda>l. \<not> starts_with ''#'' l) ls"

lemma samples_append: "samples (a @ b) = samples a @ samples b"
  by (simp add: samples_def)

lemma samples_header: "samples (header_lines n h t) = []"
  by (simp add: samples_def header_lines_def starts_with_def)

lemma samples_id: "list_all (\<lambda>l. l \<noteq> [] \<and> hd l \<noteq> CHR ''#'') ls \<Longrightarrow> samples ls = ls"
  by (auto simp: samples_def filter_id_conv list_all_iff starts_with_def take_Suc)

lemma sample_start: "name \<noteq> [] \<Longrightarrow> sensor_sample name v ns \<noteq> [] \<and> hd (sensor_sample name v ns) = hd name"
  by (simp add: sensor_sample_def sample_line_def)

text \<open>The metric of a unit is named after it.\<close>

definition unit_line :: "(pf \<Rightarrow> string) \<Rightarrow> string \<times> sensor \<Rightarrow> string" where
  "unit_line fl ns = sensor_sample (''ipmi_'' @ sn_unit (snd ns)) (fl (sn_value (snd ns))) ns"

lemma unit_block_samples:
  assumes "d \<in> set METRIC_DEFS"
  shows "samples (unit_block fl results d) = map (unit_line fl) (filter (\<lambda>ns. sn_unit (snd ns) = fst d) (all_sensors results))"
proof -
  have d: "fst (snd d) = ''ipmi_'' @ fst d" using assms by (auto simp: METRIC_DEFS_def)
  then have ne: "fst (snd d) \<noteq> []" "hd (fst (snd d)) \<noteq> CHR ''#''" by simp_all
  let ?g = "\<lambda>ns. sensor_sample (fst (snd d)) (fl (sn_value (snd ns))) ns"
  have "samples (map ?g xs) = map ?g xs" for xs
    using sample_start[OF ne(1)] ne(2) by (intro samples_id) (auto simp: list_all_iff)
  then have "samples (unit_block fl results d) = map ?g (filter (\<lambda>ns. sn_unit (snd ns) = fst d) (all_sensors results))"
    by (simp add: unit_block_def samples_append samples_header)
  then show ?thesis by (simp add: unit_line_def d cong: map_cong)
qed

lemma unit_blocks_length:
  "list_all (\<lambda>ns. sn_unit (snd ns) \<in> fst ` set METRIC_DEFS) xs \<Longrightarrow>
   sum_list (map (\<lambda>d. length (filter (\<lambda>ns. sn_unit (snd ns) = fst d) xs)) METRIC_DEFS) = length xs"
  by (induction xs) (auto simp: METRIC_DEFS_def)

lemma unit_blocks_mset:
  "list_all (\<lambda>ns. sn_unit (snd ns) \<in> fst ` set METRIC_DEFS) xs \<Longrightarrow>
   mset (concat (map (\<lambda>d. map f (filter (\<lambda>ns. sn_unit (snd ns) = fst d) xs)) METRIC_DEFS)) = mset (map f xs)"
  by (induction xs) (auto simp: METRIC_DEFS_def)

lemma samples_concat: "samples (concat (map f ds)) = concat (map (\<lambda>d. samples (f d)) ds)"
  by (induction ds) (simp_all add: samples_append, simp add: samples_def)

lemma sensor_lines_samples:
  assumes "list_all (\<lambda>ns. sn_unit (snd ns) \<in> fst ` set METRIC_DEFS) (all_sensors results)"
  shows "mset (samples (sensor_lines fl now results)) =
     mset (map (unit_line fl) (all_sensors results)) +
     mset (map (\<lambda>ns. sensor_sample ''ipmi_sensor_threshold_breach'' (if sn_breach (snd ns) then ''1'' else ''0'') ns) (all_sensors results)) +
     {# value_line ''ipmi_sensor_collector_last_run_timestamp'' (fmt_fixed 3 now) #}"
proof -
  have "concat (map (\<lambda>d. samples (unit_block fl results d)) METRIC_DEFS) =
      concat (map (\<lambda>d. map (unit_line fl) (filter (\<lambda>ns. sn_unit (snd ns) = fst d) (all_sensors results))) METRIC_DEFS)"
    by (intro arg_cong[where f = concat] map_cong refl) (simp add: unit_block_samples)
  then have u: "mset (samples (concat (map (unit_block fl results) METRIC_DEFS))) = mset (map (unit_line fl) (all_sensors results))"
    using unit_blocks_mset[OF assms, of "unit_line fl"] by (simp add: samples_concat)
  have b: "samples (map (\<lambda>ns. sensor_sample ''ipmi_sensor_threshold_breach'' (v ns) ns) xs) =
      map (\<lambda>ns. sensor_sample ''ipmi_sensor_threshold_breach'' (v ns) ns) xs" for v xs
    using sample_start[of "''ipmi_sensor_threshold_breach''"] by (intro samples_id) (simp add: list_all_iff)
  have t: "samples [value_line ''ipmi_sensor_collector_last_run_timestamp'' v] = [value_line ''ipmi_sensor_collector_last_run_timestamp'' v]" for v
    by (intro samples_id) (simp add: value_line_def)
  show ?thesis
    unfolding sensor_lines_def samples_append samples_header b t using u by simp
qed

text \<open>C32: whatever the tool prints, what a run collects is well typed - a value is not NaN and not
  negative, a unit is one the exporter has a metric for, a breach flag says what the status says -
  and the samples of the report are, in some order, exactly these: for every sensor of every node one
  line of the metric named after its unit with its own value, and one breach line that is 1 exactly
  when its own status is a critical one, both under its node and its name; and the time stamp.\<close>

theorem sensors_well_typed:
  assumes "py_mapM (collect_target tool) targets = Inr results"
  shows "list_all (\<lambda>r. list_all sensor_ok (ns_sensors r)) results \<and>
    length (sensor_lines fl now results) = 13 + 2 * length (all_sensors results) \<and>
    mset (filter (\<lambda>l. \<not> starts_with ''#'' l) (sensor_lines fl now results)) =
      mset (concat (map (\<lambda>r. map (\<lambda>s.
        sample_line (''ipmi_'' @ sn_unit s)
          [(''node'', sanitize_label (ns_node r)), (''sensor_name'', sanitize_label (sn_name s))] (fl (sn_value s)))
        (ns_sensors r)) results)) +
      mset (concat (map (\<lambda>r. map (\<lambda>s.
        sample_line ''ipmi_sensor_threshold_breach''
          [(''node'', sanitize_label (ns_node r)), (''sensor_name'', sanitize_label (sn_name s))]
          (if sn_status s \<in> set [''upper critical'', ''lower critical''] then ''1'' else ''0''))
        (ns_sensors r)) results)) +
      {# value_line ''ipmi_sensor_collector_last_run_timestamp'' (fmt_fixed 3 now) #}"
proof -
  have ok: "list_all (\<lambda>ns. sensor_ok (snd ns)) (all_sensors results)" by (rule collected_all_ok[OF assms])
  then have typed: "list_all (\<lambda>r. list_all sensor_ok (ns_sensors r)) results"
    by (fastforce simp: list_all_iff all_sensors_def)
  have units: "list_all (\<lambda>ns. sn_unit (snd ns) \<in> fst ` set METRIC_DEFS) (all_sensors results)"
    using ok by (auto simp: list_all_iff sensor_ok_def)
  have "length (concat (map (unit_block fl results) METRIC_DEFS)) = 8 + length (all_sensors results)"
    using unit_blocks_length[OF units] by (simp add: METRIC_DEFS_def unit_block_def header_lines_def)
  then have len: "length (sensor_lines fl now results) = 13 + 2 * length (all_sensors results)"
    by (simp add: sensor_lines_def header_lines_def)
  have u: "map (unit_line fl) (all_sensors results) = concat (map (\<lambda>r. map (\<lambda>s. sample_line (''ipmi_'' @ sn_unit s)
      [(''node'', sanitize_label (ns_node r)), (''sensor_name'', sanitize_label (sn_name s))] (fl (sn_value s)))
      (ns_sensors r)) results)"
    by (simp add: all_sensors_def map_concat unit_line_def sensor_sample_def comp_def)
  have "map (\<lambda>ns. sensor_sample ''ipmi_sensor_threshold_breach'' (if sn_breach (snd ns) then ''1'' else ''0'') ns) (all_sensors results) =
      map (\<lambda>ns. sensor_sample ''ipmi_sensor_threshold_breach''
        (if sn_status (snd ns) \<in> set [''upper critical'', ''lower critical''] then ''1'' else ''0'') ns) (all_sensors results)"
    using ok by (intro map_cong refl) (auto simp: list_all_iff sensor_ok_def BREACH_STATUSES_def)
  then have b: "map (\<lambda>ns. sensor_sample ''ipmi_sensor_threshold_breach'' (if sn_breach (snd ns) then ''1'' else ''0'') ns) (all_sensors results) =
      concat (map (\<lambda>r. map (\<lambda>s. sample_line ''ipmi_sensor_threshold_breach''
        [(''node'', sanitize_label (ns_node r)), (''sensor_name'', sanitize_label (sn_name s))]
        (if sn_status s \<in> set [''upper critical'', ''lower critical''] then ''1'' else ''0'')) (ns_sensors r)) results)"
    by (simp add: all_sensors_def map_concat sensor_sample_def comp_def)
  show ?thesis using typed len sensor_lines_samples[OF units, of fl now] unfolding u b samples_def by simp
qed

text \<open>Two sensors, one of them critical: each has its own breach line.\<close>

theorem sensors_well_typed_witness:
  "let ls = sensor_lines (\<lambda>v. if v = Fin 98 then ''98.0'' else ''40.0'') 0
      [\<lparr>ns_node = ''n1'', ns_up = True, ns_error = None,
        ns_sensors = parse_sdr_output (unlines [''CPU | 0x02 | Upper Critical | 98 degrees C'', ''DIMM | 0x03 | ok | 40 degrees C''])\<rparr>]
   in {''ipmi_temperature_celsius{node=\"n1\",sensor_name=\"CPU\"} 98.0'', ''ipmi_sensor_threshold_breach{node=\"n1\",sensor_name=\"CPU\"} 1'',
       ''ipmi_sensor_threshold_breach{node=\"n1\",sensor_name=\"DIMM\"} 0''} \<subseteq> set ls \<and> length ls = 17"
proof -
  let ?raw = "unlines [''CPU | 0x02 | Upper Critical | 98 degrees C'', ''DIMM | 0x03 | ok | 40 degrees C'']"
  let ?tool = "\<lambda>ip user pw. Inl ?raw" and ?fl = "\<lambda>v. if v = Fin 98 then ''98.0'' else ''40.0''"
  let ?tg = "\<lparr>tg_node = Some ''n1'', tg_ip = Some ''10.0.0.1'', tg_user = Some ''u'', tg_pass = Some ''p''\<rparr>"
  let ?r = "\<lparr>ns_node = ''n1'', ns_up = True, ns_error = None, ns_sensors = parse_sdr_output ?raw\<rparr>"
  have run: "py_mapM (collect_target (Some ?tool)) [?tg] = Inr [?r]"
    by (simp add: collect_target_def collect_node_sensors_def field_def)
  have p: "parse_sdr_output ?raw =
     [\<lparr>sn_name = ''CPU'', sn_status = ''upper critical'', sn_value = Fin 98, sn_unit = ''temperature_celsius'', sn_breach = True\<rparr>,
      \<lparr>sn_name = ''DIMM'', sn_status = ''ok'', sn_value = Fin 40, sn_unit = ''temperature_celsius'', sn_breach = False\<rparr>]"
    by code_simp
  have san: "sanitize_label ''n1'' = ''n1''" "sanitize_label ''CPU'' = ''CPU''" "sanitize_label ''DIMM'' = ''DIMM''" by code_simp+
  note w = sensors_well_typed[OF run, of ?fl 0]
  from arg_cong[OF conjunct2[OF conjunct2[OF w]], of set_mset]
  have "set (sensor_lines ?fl 0 [?r]) \<supseteq> {sample_line ''ipmi_temperature_celsius'' [(''node'', ''n1''), (''sensor_name'', ''CPU'')] ''98.0'',
      sample_line ''ipmi_sensor_threshold_breach'' [(''node'', ''n1''), (''sensor_name'', ''CPU'')] ''1'',
      sample_line ''ipmi_sensor_threshold_breach'' [(''node'', ''n1''), (''sensor_name'', ''DIMM'')] ''0''}"
    by (auto simp: p san)
  moreover have "length (sensor_lines ?fl 0 [?r]) = 17" using w by (simp add: p all_sensors_def)
  moreover have "sample_line ''ipmi_temperature_celsius'' [(''node'', ''n1''), (''sensor_name'', ''CPU'')] ''98.0'' =
       ''ipmi_temperature_celsius{node=\"n1\",sensor_name=\"CPU\"} 98.0''"
    "sample_line ''ipmi_sensor_threshold_breach'' [(''node'', ''n1''), (''sensor_name'', ''CPU'')] ''1'' =
       ''ipmi_sensor_threshold_breach{node=\"n1\",sensor_name=\"CPU\"} 1''"
    "sample_line ''ipmi_sensor_threshold_breach'' [(''node'', ''n1''), (''sensor_name'', ''DIMM'')] ''0'' =
       ''ipmi_sensor_threshold_breach{node=\"n1\",sensor_name=\"DIMM\"} 0''" by code_simp+
  ultimately show ?thesis by (simp only: Let_def)
qed

end
