(* ===== verification/Anomaly.thy ===== *)
theory Anomaly
  imports PyNum Exposition "HOL-Library.List_Lexorder"
begin

text \<open>
  The detector \<open>anomaly/zscore_detector.py\<close>: the answers of Prometheus, mean and deviation of a
  baseline in binary64 arithmetic, the score, the metrics and a run. \<open>math.sqrt\<close> is the correctly
  rounded root; the \<open>pow\<close> of the C library, which \<open>x ** 2\<close> calls, is an argument \<open>sq\<close> of the model:
  its result for a finite number, before overflow.
\<close>

section \<open>Squares and roots\<close>

definition pf_square :: "(rat \<Rightarrow> rat) \<Rightarrow> pf \<Rightarrow> pf py" where
  "pf_square sq x =
     (case x of
        Fin a \<Rightarrow> (case pf_of (sq a) of Fin r \<Rightarrow> Inr (Fin r) | _ \<Rightarrow> Inl OverflowError)
      | NaN \<Rightarrow> Inr NaN
      | _ \<Rightarrow> Inr PInf)"

text \<open>The integer root, two bits at a time.\<close>

function isqrt :: "int \<Rightarrow> int" where
  "isqrt n = (if n \<le> 0 then 0
     else let s = 2 * isqrt (n div 4) in if (s + 1) * (s + 1) \<le> n then s + 1 else s)"
  by pat_completeness auto
termination by (relation "measure nat") auto

declare isqrt.simps [simp del]

text \<open>The root of a positive number: 64 bits of it and a sticky bit, then rounded.\<close>

definition fsqrt :: "rat \<Rightarrow> rat" where
  "fsqrt q =
     (if q \<le> 0 then 0
      else let j = 63 - elog q div 2; x = q * 4 powi j; r = isqrt (floor x)
           in rnd ((of_int r + (if of_int r * of_int r = x then 0 else 1 / 2)) * 2 powi (- j)))"

definition pf_sqrt :: "pf \<Rightarrow> pf py" where
  "pf_sqrt x =
     (case x of
        Fin q \<Rightarrow> if q < 0 then Inl (ValueError ''math domain error'') else Inr (Fin (fsqrt q))
      | PInf \<Rightarrow> Inr PInf
      | NaN \<Rightarrow> Inr NaN
      | NInf \<Rightarrow> Inl (ValueError ''math domain error''))"

definition pf_abs :: "pf \<Rightarrow> pf" where
  "pf_abs x = (case x of Fin q \<Rightarrow> Fin \<bar>q\<bar> | NInf \<Rightarrow> PInf | _ \<Rightarrow> x)"

section \<open>The statistics\<close>

text \<open>Mean, deviation, and whether the deviation was made up.\<close>

definition compute_stats :: "(rat \<Rightarrow> rat) \<Rightarrow> pf list \<Rightarrow> (pf \<times> pf \<times> bool) py" where
  "compute_stats sq values =
     (if values = [] then Inr (Fin 0, Fin 1, True)
      else let n = pf_nat (length values); mean = pf_quot (pf_sum values) n in
        py_bind (py_mapM (\<lambda>x. pf_square sq (pf_sub x mean)) values) (\<lambda>squares.
        let variance = pf_quot (pf_sum squares) n in
        if pf_less (Fin 0) variance
        then py_bind (pf_sqrt variance) (\<lambda>sd. Inr (mean, sd, False))
        else Inr (mean, Fin 1, True)))"

definition compute_zscore :: "pf \<Rightarrow> pf \<Rightarrow> pf \<Rightarrow> pf py" where
  "compute_zscore current mean stddev = pf_div (pf_sub current mean) stddev"

section \<open>The answers of Prometheus\<close>

text \<open>\<open>j[i]\<close> on a parsed value.\<close>

definition jnth :: "json \<Rightarrow> nat \<Rightarrow> json py" where
  "jnth j i =
     (case j of
        JArr xs \<Rightarrow> if i < length xs then Inr (xs ! i) else Inl IndexError
      | JStr s \<Rightarrow> if i < length s then Inr (JStr [s ! i]) else Inl IndexError
      | JObj kvs \<Rightarrow> Inl (KeyError (str_int (int i)))
      | _ \<Rightarrow> Inl TypeError)"

text \<open>\<open>float(j)\<close> with its two failures told apart.\<close>

definition jfloat :: "json \<Rightarrow> pf py" where
  "jfloat j =
     py_bind (json_float j) (\<lambda>r. case r of Some x \<Rightarrow> Inr x
       | None \<Rightarrow> Inl (case j of JStr s \<Rightarrow> ValueError s | _ \<Rightarrow> TypeError))"

definition label_text :: "(json \<Rightarrow> string) \<Rightarrow> json \<Rightarrow> string py" where
  "label_text show metric =
     (case metric of
        JObj kvs \<Rightarrow> Inr (join '','' (map (\<lambda>(k, v). k @ ''=\"'' @ jstr show v @ ''\"'') (sort_key fst kvs)))
      | _ \<Rightarrow> Inl AttributeError)"

definition window_to_seconds :: "string \<Rightarrow> pf py" where
  "window_to_seconds window =
     (case py_float (butlast window) of
        None \<Rightarrow> Inl (ValueError (butlast window))
      | Some x \<Rightarrow>
          if window = [] then Inl IndexError
          else case dget [(CHR ''s'', 1), (CHR ''m'', 60), (CHR ''h'', 3600), (CHR ''d'', 86400), (CHR ''w'', 604800)]
                 (last window) of
            None \<Rightarrow> Inl (KeyError [last window])
          | Some k \<Rightarrow> Inr (pf_mul x (Fin k)))"

definition range_values :: "json list \<Rightarrow> pf list py" where
  "range_values vs =
     py_bind (py_mapM (\<lambda>v. py_bind (jnth v 1) (\<lambda>x. if x = JStr ''NaN'' then Inr []
       else py_bind (jfloat x) (\<lambda>y. Inr [y]))) vs) (\<lambda>yss. Inr (concat yss))"

fun range_series :: "(json \<Rightarrow> string) \<Rightarrow> json list \<Rightarrow> (string, pf list) dict \<Rightarrow> (string, pf list) dict py" where
  "range_series show [] d = Inr d"
| "range_series show (s # ss) d =
     py_bind (jitem s ''metric'') (\<lambda>m. py_bind (label_text show m) (\<lambda>key.
     py_bind (jitem s ''values'') (\<lambda>vs. py_bind (jiter vs) (\<lambda>vs. py_bind (range_values vs) (\<lambda>ys.
     range_series show ss (dset key ys d))))))"

definition result_list :: "json \<Rightarrow> json list py" where
  "result_list data = py_bind (jitem data ''data'') (\<lambda>d. py_bind (jitem d ''result'') jiter)"

definition query_range :: "(json \<Rightarrow> string) \<Rightarrow> json \<Rightarrow> (string, pf list) dict py" where
  "query_range show data =
     py_bind (jget data ''status'' JNull) (\<lambda>status.
     if status \<noteq> JStr ''success''
     then py_bind (jget data ''error'' (JStr ''unknown'')) (\<lambda>e.
       Inl (RuntimeError (''Prometheus query failed: '' @ jstr show e)))
     else py_bind (result_list data) (\<lambda>rs. range_series show rs []))"

text \<open>A value that is no number, or is missing, counts as zero.\<close>

definition instant_value :: "json \<Rightarrow> pf py" where
  "instant_value series =
     (case py_bind (jitem series ''value'') (\<lambda>v. py_bind (jnth v 1) jfloat) of
        Inl IndexError \<Rightarrow> Inr (Fin 0)
      | Inl (ValueError t) \<Rightarrow> Inr (Fin 0)
      | r \<Rightarrow> r)"

fun instant_series :: "(json \<Rightarrow> string) \<Rightarrow> json list \<Rightarrow> (string, pf) dict \<Rightarrow> (string, pf) dict py" where
  "instant_series show [] d = Inr d"
| "instant_series show (s # ss) d =
     py_bind (jitem s ''metric'') (\<lambda>m. py_bind (label_text show m) (\<lambda>key.
     py_bind (instant_value s) (\<lambda>y. instant_series show ss (dset key y d))))"

definition query_instant :: "(json \<Rightarrow> string) \<Rightarrow> json \<Rightarrow> (string, pf) dict py" where
  "query_instant show data = py_bind (result_list data) (\<lambda>rs. instant_series show rs [])"

section \<open>A run\<close>

record zinfo =
  zi_zscore :: pf
  zi_mean :: pf
  zi_stddev :: pf
  zi_clamped :: bool

definition score :: "(rat \<Rightarrow> rat) \<Rightarrow> pf list \<Rightarrow> pf \<Rightarrow> zinfo py" where
  "score sq history cur =
     py_bind (compute_stats sq history) (\<lambda>(mean, sd, clamped).
     py_bind (compute_zscore cur mean sd) (\<lambda>z.
     Inr \<lparr>zi_zscore = z, zi_mean = mean, zi_stddev = sd, zi_clamped = clamped\<rparr>))"

definition zscore_run :: "(rat \<Rightarrow> rat) \<Rightarrow> (string, pf list) dict \<Rightarrow> (string, pf) dict \<Rightarrow> (string, zinfo) dict py" where
  "zscore_run sq baseline current =
     py_mapM (\<lambda>(l, cur). py_bind (score sq (dgetd baseline l []) cur) (\<lambda>i. Inr (l, i))) current"

definition detected :: "pf \<Rightarrow> zinfo \<Rightarrow> bool" where
  "detected threshold i = pf_less threshold (pf_abs (zi_zscore i))"

text \<open>A sample whose labels are already text.\<close>

definition labelled :: "string \<Rightarrow> string \<Rightarrow> string \<Rightarrow> string" where
  "labelled name labels value = name @ ''{'' @ labels @ ''} '' @ value"

definition zscore_lines :: "rat \<Rightarrow> pf \<Rightarrow> (string, zinfo) dict \<Rightarrow> string list" where
  "zscore_lines now threshold zs =
     (let s = sort_key fst zs in
      header_lines ''anomaly_zscore'' ''Z-score of current error rate vs 7-day baseline.'' ''gauge'' @
      map (\<lambda>(l, i). labelled ''anomaly_zscore'' l (fmt_pf 4 (zi_zscore i))) s @
      header_lines ''anomaly_detected'' ''1 if Z-score exceeds threshold (anomaly detected).'' ''gauge'' @
      map (\<lambda>(l, i). labelled ''anomaly_detected'' l (if detected threshold i then ''1'' else ''0'')) s @
      header_lines ''anomaly_baseline_mean'' ''Baseline mean of error rate over window.'' ''gauge'' @
      map (\<lambda>(l, i). labelled ''anomaly_baseline_mean'' l (fmt_pf 6 (zi_mean i))) s @
      header_lines ''anomaly_baseline_stddev'' ''Baseline stddev of error rate over window.'' ''gauge'' @
      map (\<lambda>(l, i). labelled ''anomaly_baseline_stddev'' l (fmt_pf 6 (zi_stddev i))) s @
      header_lines ''anomaly_synthetic_stddev'' ''1 if stddev was clamped to 1.0 (constant or empty baseline).'' ''gauge'' @
      map (\<lambda>(l, i). labelled ''anomaly_synthetic_stddev'' l (if zi_clamped i then ''1'' else ''0'')) s @
      header_lines ''anomaly_detector_last_run_timestamp'' ''Unix timestamp of last detector run.'' ''gauge'' @
      [value_line ''anomaly_detector_last_run_timestamp'' (fmt_fixed 3 now)])"

text \<open>\<open>main\<close>: an exception of the run ends the process with no output.\<close>

definition zscore_main :: "(rat \<Rightarrow> rat) \<Rightarrow> (json \<Rightarrow> string) \<Rightarrow> string \<Rightarrow> pf \<Rightarrow> rat \<Rightarrow> json py \<Rightarrow> json py \<Rightarrow> string option" where
  "zscore_main sq show window threshold now range_answer instant_answer =
     (case py_bind (window_to_seconds window) (\<lambda>_.
        py_bind range_answer (\<lambda>a. py_bind (query_range show a) (\<lambda>baseline.
        py_bind instant_answer (\<lambda>b. py_bind (query_instant show b) (\<lambda>current.
        zscore_run sq baseline current))))) of
        Inl e \<Rightarrow> None
      | Inr zs \<Rightarrow> Some (render (zscore_lines now threshold zs)))"

section \<open>Lemmas\<close>

lemma isqrt_spec: "0 \<le> n \<Longrightarrow> 0 \<le> isqrt n \<and> isqrt n * isqrt n \<le> n \<and> n < (isqrt n + 1) * (isqrt n + 1)"
proof (induction n rule: isqrt.induct)
  case (1 n)
  show ?case
  proof (cases "n = 0")
    case True
    then show ?thesis by (simp add: isqrt.simps)
  next
    case False
    let ?r = "isqrt (n div 4)"
    have "0 \<le> ?r \<and> ?r * ?r \<le> n div 4 \<and> n div 4 < (?r + 1) * (?r + 1)" using 1 False by simp
    then have r: "0 \<le> ?r" "4 * (?r * ?r) \<le> n" "n < 4 * ((?r + 1) * (?r + 1))" by linarith+
    have "isqrt n = 2 * ?r + 1 \<and> (2 * ?r + 1) * (2 * ?r + 1) \<le> n \<or>
        isqrt n = 2 * ?r \<and> n < (2 * ?r + 1) * (2 * ?r + 1)"
      using isqrt.simps[of n] 1(2) False by (auto simp: Let_def)
    then show ?thesis
    proof
      assume "isqrt n = 2 * ?r + 1 \<and> (2 * ?r + 1) * (2 * ?r + 1) \<le> n"
      then show ?thesis using r by (simp add: algebra_simps)
    next
      assume "isqrt n = 2 * ?r \<and> n < (2 * ?r + 1) * (2 * ?r + 1)"
      then show ?thesis using r by (simp add: algebra_simps)
    qed
  qed
qed

lemma rnd_pos_ge: "0 < rnd q \<Longrightarrow> 2 powi (- 1074) \<le> rnd q"
proof -
  assume p: "0 < rnd q"
  let ?m = "rne (q / 2 powi fexp q)"
  have r: "rnd q = of_int ?m * 2 powi fexp q" by (simp add: rnd_def)
  have "0 < (2 :: rat) powi fexp q" by simp
  then have "0 < (of_int ?m :: rat)" using p unfolding r by (rule zero_less_mult_pos2[rotated])
  then have "1 \<le> ?m" by simp
  moreover have "(2 :: rat) powi (- 1074) \<le> 2 powi fexp q" by (intro power_int_increasing) (auto simp: fexp_def)
  ultimately have "1 * 2 powi (- 1074) \<le> of_int ?m * (2 :: rat) powi fexp q"
    by (intro mult_mono) auto
  then show ?thesis using r by simp
qed

lemma fsqrt_pos:
  assumes "2 powi (- 1074) \<le> q"
  shows "0 < fsqrt q"
proof -
  have q: "0 < q" using assms by (meson less_le_trans zero_less_numeral zero_less_power_int)
  let ?e = "elog q" let ?j = "63 - ?e div 2" let ?x = "q * 4 powi ?j" let ?r = "isqrt (floor ?x)"
  have e: "2 powi ?e \<le> q" "q < 2 powi (?e + 1)" using elog_bounds[of q] q by auto
  have "(2 :: rat) powi (- 1074) < 2 powi (?e + 1)" using assms e(2) by linarith
  then have "- 1074 < ?e + 1" using power_int_increasing[of "?e + 1" "- 1074" "2 :: rat"] by linarith
  then have j: "?j \<le> 600" by linarith
  have "(4 :: rat) powi ?j = 2 powi (2 * ?j)" using power_int_mult[of "2 :: rat" 2 ?j] by simp
  then have "2 powi (?e + 2 * ?j) \<le> ?x" using e(1) by (simp add: power_int_add mult_right_mono)
  moreover have "(2 :: rat) powi 0 \<le> 2 powi (?e + 2 * ?j)" by (intro power_int_increasing) auto
  ultimately have "1 \<le> ?x" unfolding power_int_0_right by (rule order_trans[rotated])
  then have "1 \<le> floor ?x" by simp
  then have "1 \<le> ?r" using isqrt_spec[of "floor ?x"] by (smt (verit) mult_le_one)
  then have "1 \<le> of_int ?r + (if of_int ?r * of_int ?r = ?x then 0 else 1 / 2 :: rat)" by simp
  then have "1 * 2 powi (- 600) \<le> (of_int ?r + (if of_int ?r * of_int ?r = ?x then 0 else 1 / 2)) * (2 :: rat) powi (- ?j)"
    using j by (intro mult_mono power_int_increasing) auto
  then have "2 powi (- 600) \<le> rnd ((of_int ?r + (if of_int ?r * of_int ?r = ?x then 0 else 1 / 2)) * 2 powi (- ?j))"
    using is_f64_mult[of 1 "- 600"] by (intro rnd_ge) auto
  moreover have "(0 :: rat) < 2 powi (- 600)" by simp
  ultimately show ?thesis using q by (simp add: fsqrt_def Let_def)
qed

lemma pf_of_pos_ge: "pf_of q = Fin r \<Longrightarrow> 0 < r \<Longrightarrow> 2 powi (- 1074) \<le> r"
  using rnd_pos_ge by (auto simp: pf_of_def Let_def split: if_splits)

lemma pf_quot_fin: "pf_quot x (pf_nat n) = Fin r \<Longrightarrow> 0 < r \<Longrightarrow> 2 powi (- 1074) \<le> r"
  by (auto simp: pf_quot_def pf_nat_def pf_inf_def split: pf.splits if_splits dest: pf_of_pos_ge)

lemma py_mapM_error: "py_mapM f xs = Inl e \<Longrightarrow> \<exists>x. x \<in> set xs \<and> f x = Inl e"
  by (induction xs) (auto simp: py_bind_def split: sum.splits)

lemma pf_square_error: "pf_square sq x = Inl e \<Longrightarrow> e = OverflowError"
  by (auto simp: pf_square_def split: pf.splits)

lemma stats_deviation: "compute_stats sq values = Inr (mean, sd, clamped) \<Longrightarrow> sd \<noteq> Fin 0"
  using fsqrt_pos[OF pf_quot_fin]
  by (auto simp: compute_stats_def Let_def pf_sqrt_def py_bind_eq_Inr split: if_splits pf.splits) (metis less_irrefl)

lemma stats_error: "compute_stats sq values = Inl e \<Longrightarrow> e = OverflowError"
  by (auto simp: compute_stats_def Let_def pf_sqrt_def py_bind_def split: if_splits pf.splits sum.splits
      dest!: py_mapM_error pf_square_error)

section \<open>Properties\<close>

text \<open>On any answers of Prometheus, infinities and NaN among them, the scores are computed or the
  square of a deviation overflows: the deviation a score is divided by is never zero, however
  small the variance.\<close>

theorem zscore_never_divides_by_zero:
  "zscore_run sq baseline current = Inl e \<Longrightarrow> e = OverflowError"
proof -
  have "score sq history cur = Inl e \<Longrightarrow> e = OverflowError" for history cur
    by (auto simp: score_def compute_zscore_def pf_div_def py_bind_def split: sum.splits if_splits prod.splits
        dest: stats_error stats_deviation)
  then show "zscore_run sq baseline current = Inl e \<Longrightarrow> e = OverflowError"
    by (auto simp: zscore_run_def py_bind_def split: sum.splits dest!: py_mapM_error)
qed

lemma pf_of_huge: "pf_of (2 ^ 1024) = PInf"
  using is_f64_mult[of 1 1024] rnd_ge[of "2 ^ 1024" "2 ^ 1024"] by (simp add: pf_of_def Let_def)

lemma huge_square: "pf_square (\<lambda>a. 2 ^ 1024) (Fin a) = Inl OverflowError"
  by (simp only: pf_square_def pf.case pf_of_huge)

theorem zscore_never_divides_by_zero_witness:
  "zscore_run (\<lambda>a. 2 ^ 1024) [(''a'', [Fin 1])] [(''a'', Fin 2)] = Inl OverflowError"
proof -
  have one: "pf_of 1 = Fin 1" "pf_of 0 = Fin 0" using pf_of_int[of 1] pf_of_int[of 0] by simp_all
  have "compute_stats (\<lambda>a. 2 ^ 1024) [Fin 1] = Inl OverflowError"
    by (simp add: compute_stats_def Let_def pf_sum_def pf_add_def pf_quot_def pf_nat_def pf_sub_def one fint_small
        huge_square del: power_numeral)
  then obtain e where e: "zscore_run (\<lambda>a. 2 ^ 1024) [(''a'', [Fin 1])] [(''a'', Fin 2)] = Inl e"
    by (simp add: zscore_run_def score_def dgetd_def del: power_numeral)
  show ?thesis using zscore_never_divides_by_zero[OF e] e by (simp only:)
qed

lemma pf_sub_zero: "exact c \<Longrightarrow> pf_sub (Fin c) (Fin 0) = Fin c"
  by (simp add: pf_sub_def pf_add_def exact_def)

lemma pf_quot_one: "exact c \<Longrightarrow> pf_quot (Fin c) (Fin 1) = Fin c"
  by (simp add: pf_quot_def exact_def)

lemma pf_sum_zeros: "list_all (\<lambda>x. x = Fin 0) xs \<Longrightarrow> pf_sum xs = Fin 0"
proof (induction xs)
  case (Cons x xs)
  then show ?case by (simp add: pf_sum_def pf_add_def pf_of_small)
qed (simp add: pf_sum_def)

lemma zero_squares:
  "sq 0 = 0 \<Longrightarrow> list_all (\<lambda>x. x = Fin 0) xs \<Longrightarrow>
   py_mapM (\<lambda>x. pf_square sq (pf_sub x (Fin 0))) xs = Inr (map (\<lambda>x. Fin 0) xs)"
  by (intro py_mapM_total) (auto simp: list_all_iff pf_sub_def pf_add_def pf_square_def pf_of_small)

lemma clean_stats: "sq 0 = 0 \<Longrightarrow> list_all (\<lambda>x. x = Fin 0) history \<Longrightarrow> compute_stats sq history = Inr (Fin 0, Fin 1, True)"
proof (cases "history = []")
  case False
  assume z: "sq 0 = 0" "list_all (\<lambda>x. x = Fin 0) history"
  have q: "pf_quot (Fin 0) (pf_nat n) = Fin 0" for n by (simp add: pf_quot_def pf_nat_def pf_of_small)
  have "list_all (\<lambda>x. x = Fin 0) (map (\<lambda>x. Fin 0) history)" by (simp add: list_all_iff)
  then show ?thesis using False z
    by (simp add: compute_stats_def Let_def pf_sum_zeros q zero_squares)
qed (simp add: compute_stats_def)

text \<open>On a node whose whole baseline is zero, or that has none, the score is the current rate itself:
  with the default threshold no rate up to three errors a second is reported, in either direction,
  and every rate above is.\<close>

theorem clean_baseline_score:
  assumes "sq 0 = 0" "list_all (\<lambda>x. x = Fin 0) history" "exact c"
  shows "score sq history (Fin c) = Inr \<lparr>zi_zscore = Fin c, zi_mean = Fin 0, zi_stddev = Fin 1, zi_clamped = True\<rparr> \<and>
    (detected (Fin t) \<lparr>zi_zscore = Fin c, zi_mean = Fin 0, zi_stddev = Fin 1, zi_clamped = True\<rparr> \<longleftrightarrow> t < \<bar>c\<bar>)"
  using clean_stats[of sq history] assms(1,2)
  by (simp add: score_def compute_zscore_def pf_div_def pf_sub_zero pf_quot_one assms(3) detected_def pf_abs_def)

theorem clean_baseline_score_witness:
  "zscore_run (\<lambda>a. a * a) [(''dimm0'', [Fin 0, Fin 0, Fin 0])] [(''dimm0'', Fin 3)] =
     Inr [(''dimm0'', \<lparr>zi_zscore = Fin 3, zi_mean = Fin 0, zi_stddev = Fin 1, zi_clamped = True\<rparr>)] \<and>
   \<not> detected (Fin 3) \<lparr>zi_zscore = Fin 3, zi_mean = Fin 0, zi_stddev = Fin 1, zi_clamped = True\<rparr>"
proof -
  have "exact 3" using exact_int[of 3] by simp
  from clean_baseline_score[OF _ _ this, of "\<lambda>a. a * a" "[Fin 0, Fin 0, Fin 0]" 3]
  show ?thesis by (simp add: zscore_run_def dgetd_def)
qed

end
