(* ===== verification/Aging.thy ===== *)
theory Aging
  imports Anomaly
begin

text \<open>
  The report \<open>aging/dimm_aging_report.py\<close>: the regression of the error rate, the projection, the health
  score, the answer of Prometheus and the metrics, in binary64 arithmetic with infinities and
  NaN. As in \<open>Anomaly\<close>, \<open>sq\<close> is the \<open>pow\<close> of the C library at exponent two.
\<close>

section \<open>The regression\<close>

definition products :: "pf list \<Rightarrow> pf list \<Rightarrow> pf list" where
  "products xs ys = map2 pf_mul xs ys"

definition deviations :: "(rat \<Rightarrow> rat) \<Rightarrow> pf list \<Rightarrow> pf list \<Rightarrow> pf list py" where
  "deviations sq ys ps = py_mapM (\<lambda>(y, p). pf_square sq (pf_sub y p)) (zip ys ps)"

text \<open>Slope, intercept and the coefficient of determination.\<close>

definition linear_regression :: "(rat \<Rightarrow> rat) \<Rightarrow> pf list \<Rightarrow> pf list \<Rightarrow> (pf \<times> pf \<times> pf) py" where
  "linear_regression sq xs ys =
     (let n = length xs in
      if n < 2 then Inr (Fin 0, (if ys = [] then Fin 0 else hd ys), Fin 0)
      else let n = pf_nat n; sum_x = pf_sum xs; sum_y = pf_sum ys;
               sum_xx = pf_sum (products xs xs); sum_xy = pf_sum (products xs ys) in
        py_bind (pf_square sq sum_x) (\<lambda>sx2.
        let denom = pf_sub (pf_mul n sum_xx) sx2 in
        if denom = Fin 0 then py_bind (pf_div sum_y n) (\<lambda>m. Inr (Fin 0, m, Fin 0))
        else
          py_bind (pf_div (pf_sub (pf_mul n sum_xy) (pf_mul sum_x sum_y)) denom) (\<lambda>slope.
          py_bind (pf_div (pf_sub sum_y (pf_mul slope sum_x)) n) (\<lambda>intercept.
          py_bind (pf_div sum_y n) (\<lambda>y_mean.
          py_bind (deviations sq ys (map (\<lambda>y. y_mean) ys)) (\<lambda>tot.
          let ss_tot = pf_sum tot in
          py_bind (deviations sq ys (map (\<lambda>x. pf_add (pf_mul slope x) intercept) xs)) (\<lambda>res.
          let ss_res = pf_sum res in
          py_bind (if pf_less (Fin 0) ss_tot
                   then py_bind (pf_div ss_res ss_tot) (\<lambda>r. Inr (pf_sub (Fin 1) r))
                   else Inr (Fin 0)) (\<lambda>r_sq.
          Inr (slope, intercept, r_sq)))))))))"

definition days_to_threshold :: "pf \<Rightarrow> pf \<Rightarrow> pf \<Rightarrow> pf py" where
  "days_to_threshold current_rate slope threshold =
     (if pf_le slope (Fin 0) then Inr PInf
      else let remaining = pf_sub threshold current_rate in
        if pf_le remaining (Fin 0) then Inr (Fin 0) else pf_div remaining slope)"

definition health_score :: "pf \<Rightarrow> pf \<Rightarrow> pf \<Rightarrow> pf py" where
  "health_score current_rate warn critical =
     (if pf_le critical current_rate then Inr (Fin 0)
      else if pf_le current_rate (Fin 0) then Inr (Fin 1)
      else py_bind (pf_div current_rate critical) (\<lambda>r. Inr (pf_max (Fin 0) (pf_sub (Fin 1) r))))"

section \<open>A series\<close>

record analysis =
  an_labels :: string
  an_slope :: pf
  an_intercept :: pf
  an_r_squared :: pf
  an_current_rate :: pf
  an_days :: pf
  an_health :: pf

definition analyze_series :: "(rat \<Rightarrow> rat) \<Rightarrow> string \<Rightarrow> (pf \<times> pf) list \<Rightarrow> pf \<Rightarrow> pf \<Rightarrow> analysis py" where
  "analyze_series sq label_key points warn critical =
     (if points = []
      then Inr \<lparr>an_labels = label_key, an_slope = Fin 0, an_intercept = Fin 0, an_r_squared = Fin 0,
             an_current_rate = Fin 0, an_days = PInf, an_health = Fin 1\<rparr>
      else let t0 = fst (hd points);
               x_days = map (\<lambda>p. pf_quot (pf_sub (fst p) t0) (Fin 86400)) points;
               y_rates = map snd points in
        py_bind (linear_regression sq x_days y_rates) (\<lambda>(slope, intercept, r_sq).
        let current_rate = last y_rates in
        py_bind (days_to_threshold current_rate slope warn) (\<lambda>dthr.
        py_bind (health_score current_rate warn critical) (\<lambda>h.
        Inr \<lparr>an_labels = label_key, an_slope = slope, an_intercept = intercept, an_r_squared = r_sq,
             an_current_rate = current_rate, an_days = dthr, an_health = h\<rparr>))))"

definition point_values :: "json list \<Rightarrow> (pf \<times> pf) list py" where
  "point_values vs =
     py_bind (py_mapM (\<lambda>v. py_bind (jnth v 1) (\<lambda>x. if x = JStr ''NaN'' then Inr []
       else py_bind (jnth v 0) (\<lambda>t. py_bind (jfloat t) (\<lambda>t. py_bind (jfloat x) (\<lambda>y. Inr [(t, y)]))))) vs)
       (\<lambda>pss. Inr (concat pss))"

fun point_series :: "(json \<Rightarrow> string) \<Rightarrow> json list \<Rightarrow> (string, (pf \<times> pf) list) dict \<Rightarrow> (string, (pf \<times> pf) list) dict py" where
  "point_series show [] d = Inr d"
| "point_series show (s # ss) d =
     py_bind (jitem s ''metric'') (\<lambda>m. py_bind (label_text show m) (\<lambda>key.
     py_bind (jitem s ''values'') (\<lambda>vs. py_bind (jiter vs) (\<lambda>vs. py_bind (point_values vs) (\<lambda>ps.
     point_series show ss (dset key ps d))))))"

definition query_range_series :: "(json \<Rightarrow> string) \<Rightarrow> json \<Rightarrow> (string, (pf \<times> pf) list) dict py" where
  "query_range_series show data =
     py_bind (jget data ''status'' JNull) (\<lambda>status.
     if status \<noteq> JStr ''success''
     then py_bind (jget data ''error'' JNull) (\<lambda>e. Inl (RuntimeError (''Prometheus error: '' @ jstr show e)))
     else py_bind (result_list data) (\<lambda>rs. point_series show rs []))"

section \<open>Metrics and a run\<close>

definition aging_lines :: "analysis list \<Rightarrow> rat \<Rightarrow> string list" where
  "aging_lines as timestamp =
     header_lines ''dimm_aging_ce_rate_slope'' ''Linear regression slope of CE rate (errors/day).'' ''gauge'' @
     map (\<lambda>a. labelled ''dimm_aging_ce_rate_slope'' (an_labels a) (fmt_pf 6 (an_slope a))) as @
     header_lines ''dimm_aging_projected_days_to_threshold'' ''Projected days until warn threshold.'' ''gauge'' @
     map (\<lambda>a. labelled ''dimm_aging_projected_days_to_threshold'' (an_labels a)
       (if an_days a \<noteq> PInf then fmt_pf 1 (an_days a) else ''1e308'')) as @
     header_lines ''dimm_aging_health_score'' ''DIMM health score (1=healthy, 0=critical).'' ''gauge'' @
     map (\<lambda>a. labelled ''dimm_aging_health_score'' (an_labels a) (fmt_pf 4 (an_health a))) as @
     header_lines ''dimm_aging_r_squared'' (''R'' @ [CHR 0xB2] @ '' of the CE rate linear regression.'') ''gauge'' @
     map (\<lambda>a. labelled ''dimm_aging_r_squared'' (an_labels a) (fmt_pf 4 (an_r_squared a))) as @
     header_lines ''dimm_aging_report_timestamp'' ''Unix timestamp of last aging report.'' ''gauge'' @
     [value_line ''dimm_aging_report_timestamp'' (fmt_fixed 3 timestamp)]"

text \<open>\<open>main\<close> without \<open>--json\<close>. A failing query ends the process; a failing analysis is not caught.\<close>

definition aging_main :: "(rat \<Rightarrow> rat) \<Rightarrow> (json \<Rightarrow> string) \<Rightarrow> pf \<Rightarrow> pf \<Rightarrow> rat \<Rightarrow> json py \<Rightarrow> string option py" where
  "aging_main sq show warn critical ts answer =
     (case py_bind answer (query_range_series show) of
        Inl e \<Rightarrow> Inr None
      | Inr series_map \<Rightarrow>
          py_bind (py_mapM (\<lambda>(k, v). analyze_series sq k v warn critical) series_map) (\<lambda>as.
          Inr (Some (render (aging_lines as ts)))))"

section \<open>Lemmas\<close>

lemma pf_of_mono: "a \<le> b \<Longrightarrow> pf_le (pf_of a) (pf_of b)"
proof -
  assume "a \<le> b"
  then have "rnd a \<le> rnd b" by (rule rnd_mono)
  moreover have "- (2 ^ 1024) < (2 ^ 1024 :: rat)" by (rule less_trans[of _ 0]) simp_all
  ultimately show ?thesis unfolding pf_of_def Let_def pf_le_def
    by (auto simp: less_le simp del: power_numeral)
qed

text \<open>A rounded result between two floats stays between them.\<close>

lemma pf_of_between:
  assumes "is_f64 a" "is_f64 b" "a \<le> q" "q \<le> b" "\<bar>a\<bar> < 2 ^ 1024" "\<bar>b\<bar> < 2 ^ 1024"
  shows "pf_of q = Fin (rnd q) \<and> a \<le> rnd q \<and> rnd q \<le> b"
proof -
  have r: "a \<le> rnd q" "rnd q \<le> b" using assms rnd_ge rnd_le by blast+
  have "\<not> 2 ^ 1024 \<le> rnd q" "\<not> rnd q \<le> - (2 ^ 1024)" using r assms(5,6) by linarith+
  with r show ?thesis by (simp add: pf_of_def Let_def)
qed

lemma unit_below: "\<bar>1\<bar> < (2 ^ 1024 :: rat)" "\<bar>0\<bar> < (2 ^ 1024 :: rat)"
  by (simp_all add: one_less_power)

text \<open>The score in the middle range, as a number.\<close>

lemma health_middle:
  assumes "0 < r" "r < c"
  shows "health_score (Fin r) w (Fin c) = Inr (Fin (fsub 1 (rnd (r / c)))) \<and>
    0 \<le> rnd (r / c) \<and> rnd (r / c) \<le> 1 \<and> 0 \<le> fsub 1 (rnd (r / c)) \<and> fsub 1 (rnd (r / c)) \<le> 1"
proof -
  have q: "0 \<le> r / c" "r / c \<le> 1" using assms by auto
  from pf_of_between[OF is_f64_consts(1,2) q] unit_below
  have d: "pf_of (r / c) = Fin (rnd (r / c))" "0 \<le> rnd (r / c)" "rnd (r / c) \<le> 1" by auto
  then have "0 \<le> 1 - rnd (r / c)" "1 - rnd (r / c) \<le> 1" by auto
  from pf_of_between[OF is_f64_consts(1,2) this] unit_below
  have s: "pf_of (1 - rnd (r / c)) = Fin (fsub 1 (rnd (r / c)))" "0 \<le> fsub 1 (rnd (r / c))" "fsub 1 (rnd (r / c)) \<le> 1"
    by (auto simp: fsub_def)
  then show ?thesis using assms d
    by (auto simp: health_score_def pf_div_def pf_quot_def pf_sub_def pf_add_def pf_max_def)
qed

definition health_value :: "rat \<Rightarrow> rat \<Rightarrow> rat" where
  "health_value c r = (if c \<le> r then 0 else if r \<le> 0 then 1 else fsub 1 (rnd (r / c)))"

lemma health_score_fin: "0 < c \<Longrightarrow> health_score (Fin r) w (Fin c) = Inr (Fin (health_value c r))"
proof -
  assume c: "0 < c"
  consider "c \<le> r" | "r \<le> 0" "r < c" | "0 < r" "r < c" by linarith
  then show ?thesis
  proof cases
    case 3
    from health_middle[OF this] show ?thesis using 3 by (simp add: health_value_def)
  qed (use c in \<open>auto simp: health_score_def health_value_def\<close>)
qed

lemma health_range: "0 \<le> health_value c r" "health_value c r \<le> 1"
  using health_middle[of r c] by (auto simp: health_value_def)

lemma health_antimono: "0 < c \<Longrightarrow> r \<le> r' \<Longrightarrow> health_value c r' \<le> health_value c r"
proof (cases "c \<le> r' \<or> r \<le> 0")
  case False
  assume c: "0 < c" and le: "r \<le> r'"
  then have "rnd (r / c) \<le> rnd (r' / c)" by (intro rnd_mono divide_right_mono) auto
  then show ?thesis using False le by (simp add: health_value_def fsub_antimono)
qed (use health_range[of c r] health_range[of c r'] in \<open>auto simp: health_value_def\<close>)

section \<open>Properties\<close>

text \<open>For a positive critical rate and finite rates the health score is a number between 0 and 1 that
  never rises with the error rate, in binary64 arithmetic, is 0 from the critical rate on and 1
  without errors.\<close>

theorem health_score_bounds:
  assumes "0 < c" "r \<le> r'"
  shows "\<exists>h h'. health_score (Fin r) w (Fin c) = Inr (Fin h) \<and> health_score (Fin r') w (Fin c) = Inr (Fin h') \<and>
    0 \<le> h' \<and> h' \<le> h \<and> h \<le> 1 \<and> (c \<le> r' \<longrightarrow> h' = 0) \<and> (r \<le> 0 \<longrightarrow> h = 1)"
  using health_score_fin[OF assms(1)] health_range health_antimono[OF assms] assms
  by (intro exI[of _ "health_value c r"] exI[of _ "health_value c r'"]) (auto simp: health_value_def)

theorem health_score_bounds_witness:
  "\<exists>h h'. health_score (Fin 30) (Fin 10) (Fin 100) = Inr (Fin h) \<and> health_score (Fin 100) (Fin 10) (Fin 100) = Inr (Fin h') \<and>
     h' = 0 \<and> 0 \<le> h \<and> h \<le> 1"
  using health_score_bounds[of 100 30 100 "Fin 10"] by auto

end
