(* ===== verification/MlExporter.thy ===== *)
theory MlExporter
  imports Anomaly ToolText
begin

text \<open>
  The exporter \<open>ml/probability_exporter.py\<close>: risk tiers, the digest check before a model is unpickled,
  and the metrics. Files are looked at several times and may change in between, so the disk is a
  function of the step. The hash, and what a loaded model forecasts, are arguments.
\<close>

section \<open>Risk tiers\<close>

definition RISK_TIERS :: "(rat \<times> string) list" where
  "RISK_TIERS = [(rnd (8 / 10), ''critical''), (rnd (5 / 10), ''high''), (rnd (2 / 10), ''medium''), (0, ''low'')]"

text \<open>\<open>j >= t\<close> for a float \<open>t\<close>\<close>

definition json_ge :: "json \<Rightarrow> rat \<Rightarrow> bool py" where
  "json_ge j t =
     (case j of
        JInt n \<Rightarrow> Inr (t \<le> of_int n)
      | JFloat q \<Rightarrow> Inr (t \<le> q)
      | JBool b \<Rightarrow> Inr (t \<le> (if b then 1 else 0))
      | _ \<Rightarrow> Inl TypeError)"

fun first_tier :: "json \<Rightarrow> (rat \<times> string) list \<Rightarrow> string py" where
  "first_tier prob [] = Inr ''low''"
| "first_tier prob ((threshold, tier) # ts) =
     py_bind (json_ge prob threshold) (\<lambda>b. if b then Inr tier else first_tier prob ts)"

definition risk_tier :: "json \<Rightarrow> string py" where
  "risk_tier prob = first_tier prob RISK_TIERS"

section \<open>The digest check\<close>

text \<open>
  What a path holds at a step: 0 the test for the sidecar, 1 its reading, 2 the reading of the model
  for the digest, 3 its reading by \<open>pickle.load\<close>.
\<close>

type_synonym disk = "nat \<Rightarrow> string \<Rightarrow> string option"

definition sha_path :: "string \<Rightarrow> string" where
  "sha_path model_path = replace_sub ''.pkl'' ''.sha256'' model_path"

text \<open>The bytes given to \<open>pickle.load\<close>, if any are.\<close>

definition unpickled :: "(string \<Rightarrow> string) \<Rightarrow> disk \<Rightarrow> json \<Rightarrow> string option" where
  "unpickled sha256 disk model_path =
     (case model_path of
        JStr path \<Rightarrow>
          if disk 0 (sha_path path) = None then None
          else (case (disk 1 (sha_path path), disk 2 path) of
              (Some sidecar, Some content) \<Rightarrow>
                if sha256 content \<noteq> strip sidecar then None else disk 3 path
            | _ \<Rightarrow> None)
      | _ \<Rightarrow> None)"

text \<open>The sum of the forecast, per hour, of the loaded model; any exception gives zero.\<close>

definition forecast_next_24h ::
    "(string \<Rightarrow> string) \<Rightarrow> (string \<Rightarrow> pf py) \<Rightarrow> disk \<Rightarrow> json \<Rightarrow> pf" where
  "forecast_next_24h sha256 predict disk model_path =
     (case unpickled sha256 disk model_path of
        None \<Rightarrow> Fin 0
      | Some bytes \<Rightarrow> (case predict bytes of Inl e \<Rightarrow> Fin 0 | Inr s \<Rightarrow> pf_max (Fin 0) (pf_mul s (Fin 3600))))"

section \<open>Metrics\<close>

text \<open>A number formatted with \<open>:.nf\<close>.\<close>

definition json_number :: "json \<Rightarrow> pf py" where
  "json_number j =
     (case j of
        JStr s \<Rightarrow> Inl (ValueError s)
      | JInt n \<Rightarrow> (case pf_of (of_int n) of Fin q \<Rightarrow> Inr (Fin q) | _ \<Rightarrow> Inl OverflowError)
      | JFloat q \<Rightarrow> Inr (Fin q)
      | JBool b \<Rightarrow> Inr (Fin (if b then 1 else 0))
      | _ \<Rightarrow> Inl TypeError)"

definition entry_key :: "(json \<Rightarrow> string) \<Rightarrow> json \<Rightarrow> string py" where
  "entry_key show e = py_bind (jitem e ''label_key'') (\<lambda>k. Inr (jstr show k))"

definition field_line :: "(json \<Rightarrow> string) \<Rightarrow> string \<Rightarrow> string \<Rightarrow> json \<Rightarrow> string py" where
  "field_line show name key e =
     py_bind (entry_key show e) (\<lambda>k. py_bind (jitem e key) (\<lambda>v. py_bind (json_number v) (\<lambda>x.
     Inr (labelled name k (fmt_pf 6 x)))))"

definition tier_lines :: "(json \<Rightarrow> string) \<Rightarrow> json \<Rightarrow> string list py" where
  "tier_lines show e =
     py_bind (entry_key show e) (\<lambda>k. py_bind (jitem e ''failure_probability_7d'') (\<lambda>p. py_bind (risk_tier p) (\<lambda>tier.
     Inr (map (\<lambda>(_, t). ''dimm_risk_tier{'' @ k @ '',tier=\"'' @ t @ ''\"} '' @ (if t = tier then ''1'' else ''0''))
       RISK_TIERS))))"

definition forecast_line ::
    "(json \<Rightarrow> string) \<Rightarrow> (string \<Rightarrow> string) \<Rightarrow> (string \<Rightarrow> pf py) \<Rightarrow> disk \<Rightarrow> json \<Rightarrow> string py" where
  "forecast_line show sha256 predict disk e =
     py_bind (entry_key show e) (\<lambda>k. py_bind (jitem e ''model_path'') (\<lambda>p.
     Inr (labelled ''ce_forecast_next_24h'' k (fmt_pf 2 (forecast_next_24h sha256 predict disk p)))))"

definition json_sub :: "rat \<Rightarrow> json \<Rightarrow> pf py" where
  "json_sub now j = (case j of JStr s \<Rightarrow> Inl TypeError | _ \<Rightarrow> py_bind (json_number j) (\<lambda>x. Inr (pf_sub (Fin now) x)))"

definition age_line :: "(json \<Rightarrow> string) \<Rightarrow> rat \<Rightarrow> json \<Rightarrow> string py" where
  "age_line show now e =
     py_bind (entry_key show e) (\<lambda>k. py_bind (jitem e ''trained_at'') (\<lambda>t. py_bind (json_sub now t) (\<lambda>d.
     Inr (labelled ''ml_model_age_hours'' k (fmt_pf 2 (pf_quot d (Fin 3600)))))))"

definition ml_lines ::
    "(json \<Rightarrow> string) \<Rightarrow> (string \<Rightarrow> string) \<Rightarrow> (string \<Rightarrow> pf py) \<Rightarrow> disk \<Rightarrow> json list \<Rightarrow> rat \<Rightarrow> string list py" where
  "ml_lines show sha256 predict disk entries now =
     py_bind (py_mapM (field_line show ''failure_probability_7d'' ''failure_probability_7d'') entries) (\<lambda>p7.
     py_bind (py_mapM (field_line show ''failure_probability_30d'' ''failure_probability_30d'') entries) (\<lambda>p30.
     py_bind (py_mapM (tier_lines show) entries) (\<lambda>tiers.
     py_bind (py_mapM (forecast_line show sha256 predict disk) entries) (\<lambda>fc.
     py_bind (py_mapM (age_line show now) entries) (\<lambda>ages.
     Inr (header_lines ''failure_probability_7d'' ''Probability of DIMM failure within 7 days (Prophet model).'' ''gauge'' @ p7 @
          header_lines ''failure_probability_30d'' ''Probability of DIMM failure within 30 days.'' ''gauge'' @ p30 @
          header_lines ''dimm_risk_tier'' ''DIMM risk tier (1 = active tier, 0 = inactive).'' ''gauge'' @ concat tiers @
          header_lines ''ce_forecast_next_24h'' ''Expected correctable error count over next 24 hours.'' ''gauge'' @ fc @
          header_lines ''ml_model_age_hours'' ''Hours since this DIMM model was last retrained.'' ''gauge'' @ ages @
          header_lines ''ml_exporter_last_run_timestamp'' ''Unix timestamp of last probability exporter run.'' ''gauge'' @
          [value_line ''ml_exporter_last_run_timestamp'' (fmt_fixed 3 now)] @
          header_lines ''ml_models_loaded_total'' ''Number of ML models currently loaded.'' ''gauge'' @
          [value_line ''ml_models_loaded_total'' (str_int (int (length entries)))]))))))"

text \<open>\<open>main\<close>: the parsed metadata files of the model directory, if it exists.\<close>

definition ml_main ::
    "(json \<Rightarrow> string) \<Rightarrow> (string \<Rightarrow> string) \<Rightarrow> (string \<Rightarrow> pf py) \<Rightarrow> disk \<Rightarrow> json list option \<Rightarrow> rat \<Rightarrow> string py" where
  "ml_main show sha256 predict disk entries now =
     (case entries of
        None \<Rightarrow> Inr (render (header_lines ''ml_models_loaded_total'' ''Number of ML models loaded.'' ''gauge'' @
          [value_line ''ml_models_loaded_total'' ''0'']))
      | Some es \<Rightarrow> py_bind (ml_lines show sha256 predict disk es now) (\<lambda>ls. Inr (render ls)))"

section \<open>Every number has exactly one tier\<close>

lemma json_ge_total: "json_number p = Inr x \<Longrightarrow> \<exists>b. json_ge p t = Inr b"
  by (auto simp: json_number_def json_ge_def split: json.splits)

lemma first_tier_total:
  "json_number p = Inr x \<Longrightarrow> \<exists>tier. first_tier p ts = Inr tier \<and> (tier = ''low'' \<or> tier \<in> snd ` set ts)"
proof (induction ts)
  case (Cons t ts)
  obtain a tier' where t: "t = (a, tier')" by (cases t)
  obtain b where "json_ge p a = Inr b" using json_ge_total[OF Cons.prems] by blast
  with Cons show ?case by (cases b) (auto simp: t)
qed simp

lemma one_tier: "json_number p = Inr x \<Longrightarrow> \<exists>tier. risk_tier p = Inr tier \<and> length (filter (\<lambda>t. snd t = tier) RISK_TIERS) = 1"
proof -
  assume "json_number p = Inr x"
  then obtain tier where "first_tier p RISK_TIERS = Inr tier" "tier = ''low'' \<or> tier \<in> snd ` set RISK_TIERS"
    using first_tier_total by blast
  moreover from this(2) have "length (filter (\<lambda>t. snd t = tier) RISK_TIERS) = 1" by (auto simp: RISK_TIERS_def)
  ultimately show ?thesis by (simp add: risk_tier_def)
qed

section \<open>Properties\<close>

text \<open>Exactly what is unpickled: the model file as it is at its second reading, provided that its
  content at the first reading had the digest in the sidecar. So a file that does not change is
  only loaded with the right digest; a file that changes in between is loaded whatever its digest.\<close>

theorem pickle_gate:
  "unpickled sha256 disk (JStr path) = Some bytes \<longleftrightarrow>
     disk 3 path = Some bytes \<and> disk 0 (sha_path path) \<noteq> None \<and>
     (\<exists>sidecar content. disk 1 (sha_path path) = Some sidecar \<and> disk 2 path = Some content \<and>
        strip sidecar = sha256 content \<and> (disk 3 path = disk 2 path \<longrightarrow> strip sidecar = sha256 bytes))"
  by (auto simp: unpickled_def split: option.splits)

definition swapped_disk :: disk where
  "swapped_disk step path =
     (if path = ''m.sha256'' then Some ''3''
      else if step \<le> 2 then Some ''abc'' else Some ''evil'')"

theorem pickle_gate_witness:
  "unpickled (\<lambda>s. str_int (int (length s))) swapped_disk (JStr ''m.pkl'') = Some ''evil'' \<and>
   str_int (int (length ''evil'')) \<noteq> ''3''"
proof -
  have p: "sha_path ''m.pkl'' = ''m.sha256''" by code_simp
  have l: "str_int 3 = ''3''" "str_int 4 \<noteq> ''3''" "strip ''3'' = ''3''" by code_simp+
  show ?thesis
    using pickle_gate[of "\<lambda>s. str_int (int (length s))" swapped_disk "''m.pkl''" "''evil''"] p l
    by (simp add: swapped_disk_def)
qed

end
