(* ===== verification/RaidController.thy ===== *)
theory RaidController
  imports PyNum Exposition
begin

text \<open>
  The RAID controller collector \<open>storage/controller_collector.py\<close>: the drivers found in sysfs, the parsed
  report of \<open>storcli\<close>, the metrics and a run. A value that is \<open>None\<close> gives no line.
\<close>

definition ALL_DRIVERS :: "string list" where
  "ALL_DRIVERS = [''megaraid_sas'', ''hpsa'', ''aacraid'']"

text \<open>The entries of a driver's directory, if it is there and can be listed.\<close>

definition detect_drivers :: "(string \<Rightarrow> string list option) \<Rightarrow> string list" where
  "detect_drivers dirs = filter (\<lambda>d. case dirs d of None \<Rightarrow> False | Some es \<Rightarrow> es \<noteq> []) ALL_DRIVERS"

record controller =
  ct_controller :: string
  ct_temperature :: "int option"
  ct_critical_disks :: "int option"
  ct_failed_disks :: "int option"
  ct_ecc_correctable :: "int option"
  ct_ecc_uncorrectable :: "int option"

definition info_int :: "json \<Rightarrow> string \<Rightarrow> int option py" where
  "info_int info key = py_bind (jget info key JNull) (\<lambda>v. Inr (if v = JNull then None else json_int v))"

definition controller_of :: "(json \<Rightarrow> string) \<Rightarrow> int \<Rightarrow> json \<Rightarrow> controller py" where
  "controller_of show idx ctrl_info =
     py_bind (jget ctrl_info ''Controller Information'' (JObj [])) (\<lambda>info.
     py_bind (jget info ''Controller'' (JInt idx)) (\<lambda>c.
     py_bind (info_int info ''ROC temperature(Degree Celsius)'') (\<lambda>t.
     py_bind (info_int info ''Critical Disks'') (\<lambda>cd.
     py_bind (info_int info ''Failed Disks'') (\<lambda>fd.
     py_bind (info_int info ''Memory Correctable Errors'') (\<lambda>ce.
     py_bind (info_int info ''Memory Uncorrectable Errors'') (\<lambda>ue.
     Inr \<lparr>ct_controller = jstr show c, ct_temperature = t, ct_critical_disks = cd, ct_failed_disks = fd,
          ct_ecc_correctable = ce, ct_ecc_uncorrectable = ue\<rparr>)))))))"

definition controller_entry :: "(json \<Rightarrow> string) \<Rightarrow> int \<times> json \<Rightarrow> controller list py" where
  "controller_entry show e =
     py_bind (jget (snd e) ''Response Data'' (JObj [])) (\<lambda>rd.
     py_bind (jget rd ''Controllers'' (JArr [])) (\<lambda>cl.
     case cl of
       JArr cs \<Rightarrow> py_mapM (controller_of show (fst e)) cs
     | _ \<Rightarrow> Inr []))"

definition enumerate_json :: "json list \<Rightarrow> (int \<times> json) list" where
  "enumerate_json xs = zip (map int [0..<length xs]) xs"

text \<open>What \<open>storcli\<close> prints, parsed: \<open>None\<close> for no text or no JSON.\<close>

definition collect_megaraid :: "(json \<Rightarrow> string) \<Rightarrow> json option \<Rightarrow> controller list py" where
  "collect_megaraid show raw =
     (case raw of
        None \<Rightarrow> Inr []
      | Some data \<Rightarrow>
          py_bind (jget data ''Controllers'' JNull) (\<lambda>top.
          case top of
            JArr es \<Rightarrow> py_bind (py_mapM (controller_entry show) (enumerate_json es)) (\<lambda>css. Inr (concat css))
          | _ \<Rightarrow> Inr []))"

definition controller_labels :: "controller \<Rightarrow> (string \<times> string) list" where
  "controller_labels r = [(''controller'', ct_controller r), (''driver'', ''megaraid'')]"

definition opt_line :: "string \<Rightarrow> (string \<times> string) list \<Rightarrow> int option \<Rightarrow> string list" where
  "opt_line name ls v = (case v of None \<Rightarrow> [] | Some n \<Rightarrow> [sample_line name ls (str_int n)])"

definition controller_lines :: "rat \<Rightarrow> string list \<Rightarrow> controller list \<Rightarrow> string list" where
  "controller_lines now detected_drivers rs =
     header_lines ''storage_controller_up'' ''1 if RAID/HBA driver is loaded and devices present.'' ''gauge'' @
     (if detected_drivers = [] then [sample_line ''storage_controller_up'' [(''driver'', ''none'')] ''0'']
      else map (\<lambda>d. sample_line ''storage_controller_up'' [(''driver'', d)] ''1'') detected_drivers) @
     (if rs \<noteq> []
      then header_lines ''storage_controller_temperature_celsius'' ''RAID controller temperature in Celsius.'' ''gauge'' @
        concat (map (\<lambda>r. opt_line ''storage_controller_temperature_celsius'' (controller_labels r) (ct_temperature r)) rs) @
        header_lines ''storage_controller_critical_disks'' ''Number of critical disks reported by controller.'' ''gauge'' @
        concat (map (\<lambda>r. opt_line ''storage_controller_critical_disks'' (controller_labels r) (ct_critical_disks r)) rs) @
        header_lines ''storage_controller_failed_disks'' ''Number of failed disks reported by controller.'' ''gauge'' @
        concat (map (\<lambda>r. opt_line ''storage_controller_failed_disks'' (controller_labels r) (ct_failed_disks r)) rs) @
        header_lines ''storage_controller_ecc_errors_total'' ''Cumulative ECC memory errors on controller.'' ''counter'' @
        concat (map (\<lambda>r.
          opt_line ''storage_controller_ecc_errors_total'' (controller_labels r @ [(''error_type'', ''correctable'')])
            (ct_ecc_correctable r) @
          opt_line ''storage_controller_ecc_errors_total'' (controller_labels r @ [(''error_type'', ''uncorrectable'')])
            (ct_ecc_uncorrectable r)) rs)
      else []) @
     header_lines ''storage_controller_last_run_timestamp'' ''Unix timestamp of last collector run.'' ''gauge'' @
     [value_line ''storage_controller_last_run_timestamp'' (fmt_fixed 3 now)]"

text \<open>\<open>main\<close>: an exception while collecting leaves no controllers.\<close>

definition controller_main ::
    "(json \<Rightarrow> string) \<Rightarrow> rat \<Rightarrow> (string \<Rightarrow> string list option) \<Rightarrow> json option \<Rightarrow> string list" where
  "controller_main show now dirs storcli =
     (let ds = detect_drivers dirs;
          rs = (if ''megaraid_sas'' \<in> set ds
                then (case collect_megaraid show storcli of Inr rs \<Rightarrow> rs | Inl e \<Rightarrow> []) else [])
      in controller_lines now ds rs)"

end
