(* ===== verification/Workload.thy ===== *)
theory Workload
  imports ToolText
begin

text \<open>
  The page-to-workload mapper \<open>correlation/workload_impact.py\<close>: the pod of a control-group path, the search
  of a process's page table for a frame, and the search over \<open>/proc\<close>. What the files of a process
  hold is an argument; a page table is the bytes read at an offset.
\<close>

definition PAGE_SIZE :: int where "PAGE_SIZE = 4096"
definition PAGEMAP_ENTRY_SIZE :: int where "PAGEMAP_ENTRY_SIZE = 8"

section \<open>Control groups\<close>

definition not_slash :: "char \<Rightarrow> bool" where "not_slash c \<longleftrightarrow> c \<noteq> CHR ''/''"
definition not_dash :: "char \<Rightarrow> bool" where "not_dash c \<longleftrightarrow> c \<noteq> CHR ''-''"
definition not_dot :: "char \<Rightarrow> bool" where "not_dot c \<longleftrightarrow> c \<noteq> CHR ''.''"

definition RE_CGROUPFS :: regex where
  "RE_CGROUPFS = Seqs [Lit ''/kubepods'', Star (Cls not_slash), Lit ''/'', Star (Cls not_slash), Lit ''/pod'',
     Grp 1 (Plus (Cls not_slash))]"

definition RE_SYSTEMD :: regex where
  "RE_SYSTEMD = Seqs [Lit ''kubepods-'', Plus (Cls not_dash), Lit ''-pod'', Grp 1 (Plus (Cls not_dot)), Lit ''.slice'']"

text \<open>The pod and its name space; the latter is never known.\<close>

definition parse_cgroup_for_pod :: "string \<Rightarrow> string option \<times> string option" where
  "parse_cgroup_for_pod cgroup_text =
     (case re_search RE_CGROUPFS cgroup_text of
        Some m \<Rightarrow> (m_group m 1, None)
      | None \<Rightarrow> (case re_search RE_SYSTEMD cgroup_text of
          Some m \<Rightarrow> (m_group m 1, None)
        | None \<Rightarrow> (None, None)))"

section \<open>Page tables\<close>

record proc =
  pr_name :: string
  pr_maps :: "string list option"
  pr_pagemap :: "(int \<Rightarrow> int list option) option"
  pr_comm :: "string option"
  pr_cgroup :: "string option"

text \<open>\<open>struct.unpack("Q", data)\<close> on a little-endian machine\<close>

fun unpack_q :: "int list \<Rightarrow> int" where
  "unpack_q [] = 0"
| "unpack_q (b # bs) = b + 256 * unpack_q bs"

definition entry_pfn :: "int \<Rightarrow> int option" where
  "entry_pfn entry =
     (if (entry div 2 ^ 63) mod 2 = 1 then Some (entry mod 2 ^ 55) else None)"

text \<open>What one loop over a range comes to: the frame is found, or the next line is looked at; a failing
  read raises.\<close>

fun scan_pages :: "(int \<Rightarrow> int list option) \<Rightarrow> int \<Rightarrow> int list \<Rightarrow> bool py" where
  "scan_pages pm target [] = Inr False"
| "scan_pages pm target (v # vs) =
     (case pm (v div PAGE_SIZE * PAGEMAP_ENTRY_SIZE) of
        None \<Rightarrow> Inl OSError
      | Some data \<Rightarrow>
          if int (length data) < PAGEMAP_ENTRY_SIZE then Inr False
          else if entry_pfn (unpack_q data) = Some target then Inr True
          else scan_pages pm target vs)"

text \<open>\<open>range(start, end, PAGE_SIZE)\<close>\<close>

definition page_range :: "int \<Rightarrow> int \<Rightarrow> int list" where
  "page_range start stop =
     map (\<lambda>i. start + int i * PAGE_SIZE) [0..<nat ((stop - start + PAGE_SIZE - 1) div PAGE_SIZE)]"

definition scan_line :: "(int \<Rightarrow> int list option) \<Rightarrow> int \<Rightarrow> string \<Rightarrow> bool py" where
  "scan_line pm target line =
     (case split_ws line of
        [] \<Rightarrow> Inl IndexError
      | p # ps \<Rightarrow>
          let addr_range = split_on (CHR ''-'') p in
          case py_int16 (addr_range ! 0) of
            None \<Rightarrow> Inl (ValueError p)
          | Some start \<Rightarrow>
              if length addr_range < 2 then Inl IndexError
              else case py_int16 (addr_range ! 1) of
                None \<Rightarrow> Inl (ValueError p)
              | Some stop \<Rightarrow> scan_pages pm target (page_range start stop))"

fun scan_lines :: "(int \<Rightarrow> int list option) \<Rightarrow> int \<Rightarrow> string list \<Rightarrow> bool py" where
  "scan_lines pm target [] = Inr False"
| "scan_lines pm target (l # ls) =
     py_bind (scan_line pm target l) (\<lambda>found. if found then Inr True else scan_lines pm target ls)"

text \<open>\<open>OSError\<close>, \<open>PermissionError\<close> and \<open>ValueError\<close> mean no; anything else leaves the function.\<close>

definition pid_owns_pfn :: "proc \<Rightarrow> int \<Rightarrow> bool py" where
  "pid_owns_pfn p target =
     (case (pr_maps p, pr_pagemap p) of
        (Some lines, Some pm) \<Rightarrow>
          (case scan_lines pm target lines of
             Inl OSError \<Rightarrow> Inr False
           | Inl (ValueError s) \<Rightarrow> Inr False
           | r \<Rightarrow> r)
      | _ \<Rightarrow> Inr False)"

section \<open>The search\<close>

record workload =
  wl_pid :: int
  wl_comm :: string
  wl_cgroup :: string
  wl_pod_name :: "string option"
  wl_namespace :: "string option"

definition workload_of :: "int \<Rightarrow> proc \<Rightarrow> workload" where
  "workload_of pid p =
     (let comm = (case pr_comm p of Some t \<Rightarrow> strip t | None \<Rightarrow> []);
          cgroup = (case pr_cgroup p of Some t \<Rightarrow> strip t | None \<Rightarrow> []);
          pod = parse_cgroup_for_pod cgroup
      in \<lparr>wl_pid = pid, wl_comm = comm, wl_cgroup = cgroup, wl_pod_name = fst pod, wl_namespace = snd pod\<rparr>)"

text \<open>\<open>name.isdigit()\<close>, which holds for superscript digits too.\<close>

definition is_pid :: "string \<Rightarrow> bool" where
  "is_pid name \<longleftrightarrow> name \<noteq> [] \<and> list_all (\<lambda>c. is_digit c \<or> cp c \<in> {0xB2, 0xB3, 0xB9}) name"

fun search_procs :: "int \<Rightarrow> proc list \<Rightarrow> workload option py" where
  "search_procs pfn [] = Inr None"
| "search_procs pfn (p # ps) =
     (if \<not> is_pid (pr_name p) then search_procs pfn ps
      else case py_int (pr_name p) of
        None \<Rightarrow> Inl (ValueError (pr_name p))
      | Some pid \<Rightarrow> py_bind (pid_owns_pfn p pfn) (\<lambda>owns.
          if owns then Inr (Some (workload_of pid p)) else search_procs pfn ps))"

text \<open>The entries of \<open>/proc\<close>, if there is one.\<close>

definition correlate_page_to_workload :: "bool \<Rightarrow> proc list option \<Rightarrow> int \<Rightarrow> workload option py" where
  "correlate_page_to_workload linux procs pfn =
     (if \<not> linux then Inr None else case procs of None \<Rightarrow> Inr None | Some ps \<Rightarrow> search_procs pfn ps)"

text \<open>\<open>main\<close>: the frame of the address, the workload and the exit status.\<close>

definition workload_main :: "bool \<Rightarrow> proc list option \<Rightarrow> string \<Rightarrow> (workload option \<times> int) py" where
  "workload_main linux procs page =
     (case py_int16 page of
        None \<Rightarrow> Inl (ValueError page)
      | Some addr \<Rightarrow> py_bind (correlate_page_to_workload linux procs (addr div PAGE_SIZE)) (\<lambda>r.
          Inr (r, if r \<noteq> None then 0 else 1)))"

section \<open>Lemmas\<close>

lemma page_range_iff: "v \<in> set (page_range start stop) \<longleftrightarrow> (\<exists>i. v = start + int i * PAGE_SIZE \<and> v < stop)"
proof -
  have "int i < (stop - start + PAGE_SIZE - 1) div PAGE_SIZE \<longleftrightarrow> start + int i * PAGE_SIZE < stop" for i
  proof -
    let ?m = "stop - start + PAGE_SIZE - 1"
    have m: "4096 * (?m div 4096) + ?m mod 4096 = ?m" "0 \<le> ?m mod 4096" "?m mod 4096 < 4096" by simp_all
    show ?thesis
    proof
      assume "int i < ?m div PAGE_SIZE"
      then have "int i + 1 \<le> ?m div 4096" by (simp add: PAGE_SIZE_def)
      then show "start + int i * PAGE_SIZE < stop" using m unfolding PAGE_SIZE_def by linarith
    next
      assume "start + int i * PAGE_SIZE < stop"
      then show "int i < ?m div PAGE_SIZE" using m unfolding PAGE_SIZE_def by linarith
    qed
  qed
  then have "i < nat ((stop - start + PAGE_SIZE - 1) div PAGE_SIZE) \<longleftrightarrow> start + int i * PAGE_SIZE < stop" for i
    unfolding zless_nat_eq_int_zless by blast
  then have "i \<in> set [0..<nat ((stop - start + PAGE_SIZE - 1) div PAGE_SIZE)] \<longleftrightarrow> start + int i * PAGE_SIZE < stop" for i
    by (simp only: set_upt atLeastLessThan_iff zero_le simp_thms)
  then show ?thesis unfolding page_range_def set_map image_iff by blast
qed

text \<open>A page table that can be read everywhere, and the frame of a page in it.\<close>

definition readable :: "(int \<Rightarrow> int list option) \<Rightarrow> bool" where
  "readable pm \<longleftrightarrow> (\<forall>off. \<exists>data. pm off = Some data \<and> length data = 8)"

definition frame_of :: "(int \<Rightarrow> int list option) \<Rightarrow> int \<Rightarrow> int option" where
  "frame_of pm v = (case pm (v div PAGE_SIZE * PAGEMAP_ENTRY_SIZE) of None \<Rightarrow> None | Some data \<Rightarrow> entry_pfn (unpack_q data))"

lemma scan_pages_exact: "readable pm \<Longrightarrow> scan_pages pm target vs = Inr (\<exists>v \<in> set vs. frame_of pm v = Some target)"
proof (induction vs)
  case (Cons v vs)
  obtain data where "pm (v div PAGE_SIZE * PAGEMAP_ENTRY_SIZE) = Some data" "length data = 8"
    using Cons.prems unfolding readable_def by blast
  then show ?case using Cons by (simp add: frame_of_def PAGEMAP_ENTRY_SIZE_def)
qed simp

text \<open>A line of the map: an address range in hexadecimal and any other words.\<close>

record region =
  rg_start :: string
  rg_stop :: string
  rg_rest :: "string list"

definition address :: "string \<Rightarrow> bool" where
  "address s \<longleftrightarrow> wordy s \<and> CHR ''-'' \<notin> set s \<and> py_int16 s \<noteq> None"

definition region_ok :: "region \<Rightarrow> bool" where
  "region_ok r \<longleftrightarrow> address (rg_start r) \<and> address (rg_stop r) \<and> list_all wordy (rg_rest r)"

definition region_line :: "region \<Rightarrow> string" where
  "region_line r = join '' '' ((rg_start r @ ''-'' @ rg_stop r) # rg_rest r)"

definition in_region :: "region \<Rightarrow> int \<Rightarrow> bool" where
  "in_region r v \<longleftrightarrow> (\<exists>i. v = the (py_int16 (rg_start r)) + int i * PAGE_SIZE) \<and> v < the (py_int16 (rg_stop r))"

lemma scan_region:
  assumes "region_ok r" "readable pm"
  shows "scan_line pm target (region_line r) = Inr (\<exists>v. in_region r v \<and> frame_of pm v = Some target)"
proof -
  obtain a b where ab: "py_int16 (rg_start r) = Some a" "py_int16 (rg_stop r) = Some b"
    using assms(1) by (auto simp: region_ok_def address_def)
  have w: "wordy (rg_start r @ ''-'' @ rg_stop r)"
    using assms(1) by (auto simp: region_ok_def address_def wordy_def is_space_def cp_def)
  have "split_ws (region_line r) = (rg_start r @ ''-'' @ rg_stop r) # rg_rest r"
    unfolding region_line_def by (rule split_ws_join) (use assms(1) w in \<open>simp add: region_ok_def\<close>)
  moreover have "split_on (CHR ''-'') (rg_start r @ ''-'' @ rg_stop r) = [rg_start r, rg_stop r]"
    using assms(1) by (simp add: region_ok_def address_def split_on_append split_on_single)
  ultimately show ?thesis
    using ab by (simp add: scan_line_def scan_pages_exact[OF assms(2)] page_range_iff in_region_def Bex_def conj_commute)
qed

lemma scan_regions:
  "list_all region_ok rs \<Longrightarrow> readable pm \<Longrightarrow> scan_lines pm target (map region_line rs) =
     Inr (\<exists>r \<in> set rs. \<exists>v. in_region r v \<and> frame_of pm v = Some target)"
  by (induction rs) (auto simp: scan_region)

section \<open>Properties\<close>

text \<open>C34: a process is said to own a frame exactly when one of the pages of its address ranges is present
  and backed by that frame: no page of a range is passed over, none outside is looked at, and the
  search raises nothing.\<close>

theorem page_owner_exact:
  assumes "list_all region_ok rs" "readable pm" "pr_maps p = Some (map region_line rs)" "pr_pagemap p = Some pm"
  shows "pid_owns_pfn p target = Inr (\<exists>r v. r \<in> set rs \<and> in_region r v \<and> frame_of pm v = Some target)"
  using scan_regions[OF assms(1,2)] assms(3,4) by (auto simp: pid_owns_pfn_def)

definition demo_table :: "int \<Rightarrow> int list option" where
  "demo_table off = Some (if off = 8 then [7, 0, 0, 0, 0, 0, 0, 128] else replicate 8 0)"

theorem page_owner_exact_witness:
  "pid_owns_pfn \<lparr>pr_name = ''12'', pr_maps = Some [''1000-3000 r-xp 0''], pr_pagemap = Some demo_table,
     pr_comm = None, pr_cgroup = None\<rparr> 7 = Inr True"
proof -
  let ?r = "\<lparr>rg_start = ''1000'', rg_stop = ''3000'', rg_rest = [''r-xp'', ''0'']\<rparr>"
  have ok: "list_all region_ok [?r]" by code_simp
  have line: "region_line ?r = ''1000-3000 r-xp 0''" by code_simp
  have int: "py_int16 ''1000'' = Some 4096" "py_int16 ''3000'' = Some 12288" by code_simp+
  have rd: "readable demo_table" by (simp add: readable_def demo_table_def)
  have "in_region ?r 4096" by (simp add: in_region_def int exI[of _ 0])
  moreover have "frame_of demo_table 4096 = Some 7" by code_simp
  ultimately show ?thesis
    using page_owner_exact[OF ok rd, of "\<lparr>pr_name = ''12'', pr_maps = Some [''1000-3000 r-xp 0''], pr_pagemap = Some demo_table,
     pr_comm = None, pr_cgroup = None\<rparr>" 7] line by auto
qed

section \<open>Guaranteed pods\<close>

text \<open>An identifier as Kubernetes and the container runtime write them.\<close>

definition uid_text :: "string \<Rightarrow> bool" where
  "uid_text s \<longleftrightarrow> list_all (\<lambda>c. is_hex c \<or> c = CHR ''-'') s"

definition guaranteed_path :: "string \<Rightarrow> string \<Rightarrow> string" where
  "guaranteed_path uid cid = ''0::/kubepods/pod'' @ uid @ ''/'' @ cid"

lemma split_on_cons_append: "split_on c (x @ c # y) = split_on c x @ split_on c y"
  by (induction x) (auto split: list.splits)

lemma uid_text_chars: "uid_text s \<Longrightarrow> c \<in> set s \<Longrightarrow> c \<noteq> CHR ''k'' \<and> c \<noteq> CHR ''p'' \<and> c \<noteq> CHR ''/''"
  by (auto simp: uid_text_def list_all_iff is_hex_def digit_val_def is_digit_def Let_def cp_def)

lemma words_cgroupfs:
  "words RE_CGROUPFS w \<Longrightarrow> \<exists>a b c. w = ''/kubepods'' @ a @ ''/'' @ b @ ''/pod'' @ c \<and>
     CHR ''/'' \<notin> set a \<and> CHR ''/'' \<notin> set b"
  unfolding RE_CGROUPFS_def by (fastforce simp: words_star_cls not_slash_def)

lemma words_systemd: "words RE_SYSTEMD w \<Longrightarrow> \<exists>a. w = ''kubepods-'' @ a"
  unfolding RE_SYSTEMD_def by fastforce

lemma segments4:
  "c \<notin> set u \<Longrightarrow> c \<notin> set v \<Longrightarrow> c \<notin> set w \<Longrightarrow> c \<notin> set x \<Longrightarrow> split_on c (u @ c # v @ c # w @ c # x) = [u, v, w, x]"
  by (simp add: split_on_append split_on_single)

lemma segments_mid:
  "c \<notin> set u \<Longrightarrow> c \<notin> set v \<Longrightarrow> split_on c (x @ c # u @ c # v @ c # y) = split_on c x @ u # v # split_on c y"
  by (simp add: split_on_cons_append split_on_append split_on_single)

lemma path_segments:
  assumes "uid_text uid" "uid_text cid"
  shows "split_on (CHR ''/'') (guaranteed_path uid cid) = [''0::'', ''kubepods'', ''pod'' @ uid, cid]"
  using segments4[of "CHR ''/''" "''0::''" "''kubepods''" "''pod'' @ uid" cid] assms
    uid_text_chars[of uid "CHR ''/''"] uid_text_chars[of cid "CHR ''/''"]
  by (auto simp: guaranteed_path_def simp del: split_on.simps)

lemma no_cgroupfs: "uid_text uid \<Longrightarrow> uid_text cid \<Longrightarrow> re_search RE_CGROUPFS (guaranteed_path uid cid) = None"
proof (rule ccontr)
  assume u: "uid_text uid" "uid_text cid" and m: "re_search RE_CGROUPFS (guaranteed_path uid cid) \<noteq> None"
  have "anchor_free RE_CGROUPFS" by (simp add: RE_CGROUPFS_def)
  from m[unfolded re_search_iff[OF this]] obtain pre w post
    where g: "guaranteed_path uid cid = pre @ w @ post" and w: "words RE_CGROUPFS w" by blast
  obtain a b c where "w = ''/kubepods'' @ a @ ''/'' @ b @ ''/pod'' @ c" "CHR ''/'' \<notin> set a" "CHR ''/'' \<notin> set b"
    using words_cgroupfs[OF w] by blast
  then have "guaranteed_path uid cid = pre @ CHR ''/'' # (''kubepods'' @ a) @ CHR ''/'' # b @ CHR ''/'' # ''pod'' @ c @ post"
    and "CHR ''/'' \<notin> set (''kubepods'' @ a)" "CHR ''/'' \<notin> set b"
    using g by simp_all
  note segments_mid[OF this(2,3), of pre "''pod'' @ c @ post", folded this(1)]
  then have eq: "[''0::'', ''kubepods'', ''pod'' @ uid, cid] =
      split_on (CHR ''/'') pre @ (''kubepods'' @ a) # b # split_on (CHR ''/'') (''pod'' @ c @ post)"
    using path_segments[OF u] by (simp only:)
  obtain s ss where pod: "split_on (CHR ''/'') (''pod'' @ c @ post) = (''pod'' @ s) # ss"
    by (cases "split_on (CHR ''/'') (c @ post)") auto
  obtain p ps where pre: "split_on (CHR ''/'') pre = p # ps" by (cases "split_on (CHR ''/'') pre") auto
  have "ps = []" "cid = ''pod'' @ s" using eq unfolding pre pod by (auto simp: Cons_eq_append_conv)
  then show False using uid_text_chars[OF u(2), of "CHR ''p''"] by simp
qed

lemma no_systemd: "uid_text uid \<Longrightarrow> uid_text cid \<Longrightarrow> re_search RE_SYSTEMD (guaranteed_path uid cid) = None"
proof (rule ccontr)
  assume u: "uid_text uid" "uid_text cid" and m: "re_search RE_SYSTEMD (guaranteed_path uid cid) \<noteq> None"
  have "anchor_free RE_SYSTEMD" by (simp add: RE_SYSTEMD_def)
  from m[unfolded re_search_iff[OF this]] obtain pre w post
    where g: "guaranteed_path uid cid = pre @ w @ post" and w: "words RE_SYSTEMD w" by blast
  obtain a where a: "w = ''kubepods-'' @ a" using words_systemd[OF w] by blast
  let ?k = "CHR ''k''"
  have tail: "?k \<notin> set (''ubepods/pod'' @ uid @ ''/'' @ cid)" using u uid_text_chars[of _ ?k] by auto
  have "''0::/'' @ ?k # (''ubepods/pod'' @ uid @ ''/'' @ cid) = pre @ ?k # (''ubepods-'' @ a @ post)"
    using g a by (simp add: guaranteed_path_def)
  moreover have "?k \<notin> set ''0::/''" by simp
  ultimately have "''ubepods/pod'' @ uid @ ''/'' @ cid = ''ubepods-'' @ a @ post"
    using tail by (metis append_Cons_eq_iff)
  then show False by simp
qed

text \<open>The workload of a guaranteed pod is never found: its control group has no directory for the
  quality-of-service class, and both expressions ask for one, so whatever the pod and the
  container are called the answer is no pod.\<close>

theorem guaranteed_pod_not_found:
  assumes "uid_text uid" "uid_text cid"
  shows "parse_cgroup_for_pod (guaranteed_path uid cid) = (None, None)"
  by (simp add: parse_cgroup_for_pod_def no_cgroupfs[OF assms] no_systemd[OF assms])

theorem guaranteed_pod_not_found_witness:
  "parse_cgroup_for_pod ''0::/kubepods/pod1a-2b/c3'' = (None, None) \<and>
   fst (parse_cgroup_for_pod ''0::/kubepods/burstable/pod1a-2b/c3'') = Some ''1a-2b''"
proof
  have "uid_text ''1a-2b''" "uid_text ''c3''" by code_simp+
  from guaranteed_pod_not_found[OF this]
  show "parse_cgroup_for_pod ''0::/kubepods/pod1a-2b/c3'' = (None, None)" by (simp add: guaranteed_path_def)
  show "fst (parse_cgroup_for_pod ''0::/kubepods/burstable/pod1a-2b/c3'') = Some ''1a-2b''" by code_simp
qed

end
