(* ===== verification/Annotations.thy ===== *)
theory Annotations
  imports AlertWebhook
begin

text \<open>
  The annotation pusher \<open>annotations/annotation_pusher.py\<close>: fingerprints, annotations, one round with its
  set of seen fingerprints, the loop, and the runs of its timer. Label and annotation values are
  texts, as in \<open>AlertWebhook\<close>; the hash, the clock and the answers of Grafana are arguments.
\<close>

definition TAG_PREFIX :: string where "TAG_PREFIX = ''hw-fault''"

definition alert_fingerprint :: "(string \<Rightarrow> string) \<Rightarrow> alert \<Rightarrow> string" where
  "alert_fingerprint sha256 a = take 16 (sha256 (json_dumps (get_labels a)))"

record annotation =
  an_time :: int
  an_tags :: "string list"
  an_text :: string

definition build_annotation :: "int \<Rightarrow> alert \<Rightarrow> annotation" where
  "build_annotation time_ms a =
     (let labels = get_labels a;
          annotations = (case al_annotations a of Some m \<Rightarrow> m | None \<Rightarrow> []);
          severity = dgetd labels ''severity'' ''info'';
          name = dgetd labels ''alertname'' ''UnknownAlert'';
          instance_name = dgetd labels ''instance'' [];
          summary = dgetd annotations ''summary'' name
      in \<lparr>an_time = time_ms,
          an_tags = [TAG_PREFIX, name, severity] @ (if instance_name \<noteq> [] then [''instance:'' @ instance_name] else []),
          an_text = ''<b>'' @ name @ ''</b> ('' @ severity @ '')<br>'' @ summary\<rparr>)"

text \<open>The posts attempted so far, whether or not they reached Grafana, and what comes of the next one: \<open>None\<close> for an
  exception (the connection refused, say, or a time-out), else whether the answer has an id.\<close>

type_synonym posts = "(string \<times> annotation) list"
type_synonym grafana = "posts \<Rightarrow> annotation \<Rightarrow> bool option"

record pusher =
  pu_seen :: "string list"
  pu_posts :: posts
  pu_pushed :: int

definition push_annotation :: "grafana \<Rightarrow> bool \<Rightarrow> string \<Rightarrow> annotation \<Rightarrow> pusher \<Rightarrow> bool \<times> pusher" where
  "push_annotation grafana dry_run fp ann s =
     (if dry_run then (True, s)
      else (case grafana (pu_posts s) ann of Some ok \<Rightarrow> ok | None \<Rightarrow> False,
            s\<lparr>pu_posts := pu_posts s @ [(fp, ann)]\<rparr>))"

definition push_alert :: "(string \<Rightarrow> string) \<Rightarrow> grafana \<Rightarrow> bool \<Rightarrow> int \<times> alert \<Rightarrow> pusher \<Rightarrow> pusher" where
  "push_alert sha256 grafana dry_run ta s =
     (let fp = alert_fingerprint sha256 (snd ta) in
      if fp \<in> set (pu_seen s) then s
      else let (ok, s') = push_annotation grafana dry_run fp (build_annotation (fst ta) (snd ta))
                            (s\<lparr>pu_seen := fp # pu_seen s\<rparr>)
           in if ok then s'\<lparr>pu_pushed := pu_pushed s' + 1\<rparr> else s')"

text \<open>One round: the alerts, each with the time at which its annotation is built, if Alertmanager answers.\<close>

type_synonym round = "(int \<times> alert) list option"

definition run_once :: "(string \<Rightarrow> string) \<Rightarrow> grafana \<Rightarrow> bool \<Rightarrow> round \<Rightarrow> pusher \<Rightarrow> pusher" where
  "run_once sha256 grafana dry_run alerts s =
     (case alerts of None \<Rightarrow> s
      | Some as \<Rightarrow> fold (push_alert sha256 grafana dry_run) as (s\<lparr>pu_pushed := 0\<rparr>))"

definition new_pusher :: "posts \<Rightarrow> pusher" where
  "new_pusher posts = \<lparr>pu_seen = [], pu_posts = posts, pu_pushed = 0\<rparr>"

text \<open>A process that polls, and a timer that starts a process for every round; both from the posts attempted
  before.\<close>

definition pusher_loop :: "(string \<Rightarrow> string) \<Rightarrow> grafana \<Rightarrow> bool \<Rightarrow> round list \<Rightarrow> posts \<Rightarrow> posts" where
  "pusher_loop sha256 grafana dry_run rounds posts =
     pu_posts (fold (run_once sha256 grafana dry_run) rounds (new_pusher posts))"

definition pusher_timer :: "(string \<Rightarrow> string) \<Rightarrow> grafana \<Rightarrow> bool \<Rightarrow> round list \<Rightarrow> posts \<Rightarrow> posts" where
  "pusher_timer sha256 grafana dry_run rounds posts =
     fold (\<lambda>r ps. pu_posts (run_once sha256 grafana dry_run r (new_pusher ps))) rounds posts"

section \<open>Lemmas\<close>

definition round_fps :: "(string \<Rightarrow> string) \<Rightarrow> round \<Rightarrow> string list" where
  "round_fps sha256 r = (case r of None \<Rightarrow> [] | Some as \<Rightarrow> map (alert_fingerprint sha256 \<circ> snd) as)"

text \<open>The first occurrences of a list, after those already seen.\<close>

fun firsts :: "'a list \<Rightarrow> 'a list \<Rightarrow> 'a list" where
  "firsts seen [] = []"
| "firsts seen (x # xs) = (if x \<in> set seen then firsts seen xs else x # firsts (x # seen) xs)"

lemma firsts_append: "firsts seen (xs @ ys) = firsts seen xs @ firsts (rev (firsts seen xs) @ seen) ys"
  by (induction xs arbitrary: seen) auto

lemma firsts_set: "set (firsts seen xs) = set xs - set seen"
  by (induction xs arbitrary: seen) auto

lemma firsts_distinct: "distinct (firsts seen xs)"
  by (induction xs arbitrary: seen) (auto simp: firsts_set)

lemma push_alert_step:
  assumes "fp = alert_fingerprint sha256 (snd ta)"
  shows "pu_seen (push_alert sha256 grafana False ta s) = (if fp \<in> set (pu_seen s) then pu_seen s else fp # pu_seen s)"
    "map fst (pu_posts (push_alert sha256 grafana False ta s)) =
      map fst (pu_posts s) @ (if fp \<in> set (pu_seen s) then [] else [fp])"
  using assms by (auto simp: push_alert_def push_annotation_def Let_def)

lemma push_alerts:
  "pu_seen (fold (push_alert sha256 grafana False) as s) =
     rev (firsts (pu_seen s) (map (alert_fingerprint sha256 \<circ> snd) as)) @ pu_seen s \<and>
   map fst (pu_posts (fold (push_alert sha256 grafana False) as s)) =
     map fst (pu_posts s) @ firsts (pu_seen s) (map (alert_fingerprint sha256 \<circ> snd) as)"
proof (induction as arbitrary: s)
  case (Cons a as)
  show ?case
    using Cons[of "push_alert sha256 grafana False a s"] push_alert_step[OF refl, of sha256 grafana a s] by simp
qed simp

lemma run_once_posts:
  "pu_seen (run_once sha256 grafana False r s) = rev (firsts (pu_seen s) (round_fps sha256 r)) @ pu_seen s \<and>
   map fst (pu_posts (run_once sha256 grafana False r s)) =
     map fst (pu_posts s) @ firsts (pu_seen s) (round_fps sha256 r)"
  using push_alerts[of sha256 grafana "the r" "s\<lparr>pu_pushed := 0\<rparr>"]
  by (cases r) (auto simp: run_once_def round_fps_def)

lemma runs_posts:
  "map fst (pu_posts (fold (run_once sha256 grafana False) rs s)) =
     map fst (pu_posts s) @ firsts (pu_seen s) (concat (map (round_fps sha256) rs))"
proof (induction rs arbitrary: s)
  case (Cons r rs)
  show ?case
    using Cons[of "run_once sha256 grafana False r s"] run_once_posts[of sha256 grafana r s] by (simp add: firsts_append)
qed simp

section \<open>Properties\<close>

text \<open>C39: a polling pusher makes one attempt to post an annotation for every fingerprint that ever fired, in the order of
  the first firings, and never a second one, whatever comes of it: an alert whose annotation
  was refused, or whose request did not get through, is not posted again.\<close>

theorem annotated_exactly_once:
  "map fst (pusher_loop sha256 grafana False rounds []) = firsts [] (concat (map (round_fps sha256) rounds)) \<and>
   distinct (map fst (pusher_loop sha256 grafana False rounds [])) \<and>
   set (map fst (pusher_loop sha256 grafana False rounds [])) = set (concat (map (round_fps sha256) rounds))"
  using runs_posts[of sha256 grafana rounds "new_pusher []"]
  by (simp add: pusher_loop_def new_pusher_def firsts_distinct firsts_set)

text \<open>Started by its timer the pusher forgets what it posted: an alert that fires in every round is
  annotated once per round.\<close>

theorem timer_repeats:
  assumes "list_all (\<lambda>r. fp \<in> set (round_fps sha256 r)) rounds"
  shows "count_list (map fst (pusher_timer sha256 grafana False rounds posts)) fp =
    count_list (map fst posts) fp + length rounds"
  using assms unfolding pusher_timer_def
proof (induction rounds arbitrary: posts)
  case (Cons r rs)
  have one: "count_list xs x = 1" if "distinct xs" "x \<in> set xs" for xs and x :: string
    using that by (induction xs) (auto simp: count_list_0_iff)
  let ?f = "firsts [] (round_fps sha256 r)"
  have "fp \<in> set ?f" using Cons.prems by (simp add: firsts_set)
  from one[OF firsts_distinct this] show ?case
    using Cons run_once_posts[of sha256 grafana r "new_pusher posts"] by (simp add: new_pusher_def)
qed simp

definition sample_alert :: alert where
  "sample_alert = \<lparr>al_status = Some ''firing'', al_labels = Some [(''alertname'', ''UE''), (''severity'', ''critical'')],
     al_annotations = None, al_starts_at = None\<rparr>"

theorem timer_repeats_witness:
  "count_list (map fst (pusher_timer (\<lambda>t. ''ab'') (\<lambda>ps a. Some True) False [Some [(1, sample_alert)], Some [(2, sample_alert)]] [])) ''ab'' = 2"
  using timer_repeats[of "''ab''" "\<lambda>t. ''ab''" "[Some [(1, sample_alert)], Some [(2, sample_alert)]]" "\<lambda>ps a. Some True" "[]"]
  by (simp add: round_fps_def alert_fingerprint_def)

end
