(* ===== verification/Runbook.thy ===== *)
theory Runbook
  imports PyStr Prelude
begin

text \<open>
  The runbook generator \<open>ml/ai_runbook.py\<close>: the context it sends, the call with its retries, the stub it
  falls back to, and the name of the file. The hash, the JSON text of the labels, the metric
  values and the answers of the API are arguments.
\<close>

section \<open>The context\<close>

definition q :: string where "q = [CHR 0x22]"
definition eol :: string where "eol = [CHR 0x0A]"

definition anon_instance :: "(string \<Rightarrow> string) \<Rightarrow> string \<Rightarrow> string" where
  "anon_instance sha256 instance_name = ''node-'' @ take 8 (sha256 instance_name)"

definition selector :: "string \<Rightarrow> (string \<times> string) list \<Rightarrow> string" where
  "selector metric ls = metric @ ''{'' @ join '','' (map (\<lambda>(k, v). k @ ''='' @ q @ v @ q) ls) @ ''}''"

definition context_lines ::
    "(string \<Rightarrow> string) \<Rightarrow> (string \<Rightarrow> string) \<Rightarrow> string \<Rightarrow> string option \<Rightarrow> string \<Rightarrow> string \<Rightarrow> string \<Rightarrow> string \<Rightarrow> string list" where
  "context_lines sha256 prom time labels_text alertname instance_name mc csrow =
     [[], ''Hardware Fault Alert Context'', ''============================'',
      ''Alert:     '' @ alertname, ''Node:      '' @ anon_instance sha256 instance_name,
      ''MC:        mc'' @ mc @ ''  CSROW: '' @ csrow, ''Time:      '' @ time, [],
      ''Live Metrics (from Prometheus)'', ''------------------------------'',
      ''Failure probability 7-day:   '' @
        prom (selector ''failure_probability_7d'' [(''instance'', instance_name), (''mc'', mc), (''csrow'', csrow)]),
      ''Failure probability 30-day:  '' @
        prom (selector ''failure_probability_30d'' [(''instance'', instance_name), (''mc'', mc), (''csrow'', csrow)]),
      ''CE rate slope (errors/day):  '' @
        prom (selector ''dimm_aging_ce_rate_slope'' [(''instance'', instance_name), (''mc'', mc)]),
      ''Anomaly Z-score:             '' @ prom (selector ''anomaly_zscore'' [(''instance'', instance_name)]),
      ''UE count (all time):         '' @
        prom (selector ''edac_uncorrectable_errors_total'' [(''instance'', instance_name), (''mc'', mc)]),
      [], ''Additional Labels'', ''-----------------'',
      (case labels_text of Some t \<Rightarrow> t | None \<Rightarrow> ''(none)''), []]"

definition build_context where
  "build_context sha256 prom time labels_text alertname instance_name mc csrow =
     strip (join eol (context_lines sha256 prom time labels_text alertname instance_name mc csrow))"

section \<open>The call\<close>

text \<open>An answer with its text, an HTTP error with its code and \<open>Retry-After\<close> header, any other failure.\<close>

datatype reply = Answer string | HttpError int "string option" | Failed

text \<open>\<open>time.sleep\<close> of whole seconds\<close>

definition sleep :: "int \<Rightarrow> unit py" where
  "sleep n = (if n < 0 then Inl (ValueError ''sleep length must be non-negative'')
     else if n > 9223372036 then Inl OverflowError else Inr ())"

definition retry_wait :: "string option \<Rightarrow> int \<Rightarrow> int py" where
  "retry_wait header backoff =
     (case header of None \<Rightarrow> Inr backoff
      | Some s \<Rightarrow> (case py_int s of Some n \<Rightarrow> Inr n | None \<Rightarrow> Inl (ValueError s)))"

text \<open>What the loop ends with, the number of requests made and the sleeps.\<close>

record outcome =
  oc_result :: "string option py"
  oc_requests :: nat
  oc_sleeps :: "int list"

fun attempts :: "(nat \<Rightarrow> reply) \<Rightarrow> nat \<Rightarrow> int list \<Rightarrow> int list \<Rightarrow> outcome" where
  "attempts api i [] sleeps = \<lparr>oc_result = Inr None, oc_requests = i, oc_sleeps = sleeps\<rparr>"
| "attempts api i (backoff # bs) sleeps =
     (case api i of
        Answer t \<Rightarrow> \<lparr>oc_result = Inr (Some t), oc_requests = Suc i, oc_sleeps = sleeps\<rparr>
      | HttpError code header \<Rightarrow>
          if code = 429
          then (case py_bind (retry_wait header backoff) (\<lambda>w. py_bind (sleep w) (\<lambda>_. Inr w)) of
                  Inl e \<Rightarrow> \<lparr>oc_result = Inl e, oc_requests = Suc i, oc_sleeps = sleeps\<rparr>
                | Inr w \<Rightarrow> attempts api (Suc i) bs (sleeps @ [w]))
          else attempts api (Suc i) bs (if bs \<noteq> [] then sleeps @ [backoff] else sleeps)
      | Failed \<Rightarrow> attempts api (Suc i) bs (if bs \<noteq> [] then sleeps @ [backoff] else sleeps))"

definition backoffs :: "int list" where "backoffs = [2, 4, 8]"

definition stub :: "string \<Rightarrow> string \<Rightarrow> string" where
  "stub alertname instance_name =
     ''# Runbook generation failed'' @ eol @ eol @ ''**Alert:** '' @ alertname @ eol @
     ''**Node:** '' @ instance_name @ eol @ eol @
     ''Fall back to `docs/runbook.md` for manual procedures.'' @ eol"

text \<open>The text, and whether the stub is written; that the stub cannot be written is only logged.\<close>

definition generate_runbook :: "(nat \<Rightarrow> reply) \<Rightarrow> string \<Rightarrow> string \<Rightarrow> string py \<times> outcome" where
  "generate_runbook api alertname instance_name =
     (let oc = attempts api 0 backoffs [] in
      (case oc_result oc of
         Inl e \<Rightarrow> Inl e
       | Inr (Some t) \<Rightarrow> Inr t
       | Inr None \<Rightarrow> Inr (stub alertname instance_name), oc))"

section \<open>The file\<close>

definition runbook_fingerprint :: "(string \<Rightarrow> string) \<Rightarrow> string \<Rightarrow> string \<Rightarrow> string \<Rightarrow> string" where
  "runbook_fingerprint sha256 alertname instance_name mc =
     take 12 (sha256 (alertname @ '':'' @ instance_name @ '':mc'' @ mc))"

definition runbook_name :: "(string \<Rightarrow> string) \<Rightarrow> string \<Rightarrow> string \<Rightarrow> string \<Rightarrow> string" where
  "runbook_name sha256 alertname instance_name mc =
     alertname @ ''_'' @ replace_chr (CHR ''/'') ''_'' instance_name @ ''_'' @
     runbook_fingerprint sha256 alertname instance_name mc @ ''.md''"

section \<open>The command line\<close>

record runbook_args =
  rb_alertname :: string
  rb_instance :: string
  rb_mc :: string
  rb_csrow :: string
  rb_dry_run :: bool
  rb_print :: bool

text \<open>Refused for want of a key, or the files of the output directory and what was printed.\<close>

datatype runbook_end = NoKey | Ended "string \<Rightarrow> string option" string

definition dry_runbook :: "string \<Rightarrow> string \<Rightarrow> string \<Rightarrow> string" where
  "dry_runbook alertname now context =
     ''# '' @ alertname @ '' Runbook (DRY RUN)'' @ eol @ eol @ ''Generated at '' @ now @ eol @ eol @ context @ eol"

text \<open>\<open>labels\<close> is what parsing \<open>--labels\<close> gives: an exception, nothing, or the text printed into the
  context; \<open>now\<close> is the clock in whole seconds. A stub is in its file before the program writes the same text there.\<close>

definition runbook_main ::
    "(string \<Rightarrow> string) \<Rightarrow> (string \<Rightarrow> string) \<Rightarrow> string \<Rightarrow> string \<Rightarrow> string option py \<Rightarrow> runbook_args \<Rightarrow> string \<Rightarrow>
     (nat \<Rightarrow> reply) \<Rightarrow> (string \<Rightarrow> string option) \<Rightarrow> runbook_end py" where
  "runbook_main sha256 prom time now labels args api_key api files =
     (if api_key = [] \<and> \<not> rb_dry_run args then Inr NoKey
      else py_bind labels (\<lambda>labels_text.
          (let context = build_context sha256 prom time labels_text (rb_alertname args) (rb_instance args) (rb_mc args) (rb_csrow args);
               path = runbook_name sha256 (rb_alertname args) (rb_instance args) (rb_mc args);
               (res, files) =
                 (if rb_dry_run args then (Inr (dry_runbook (rb_alertname args) now context), files)
                  else let (res, oc) = generate_runbook api (rb_alertname args) (rb_instance args) in
                    (res, if oc_result oc = Inr None then files(path := Some (stub (rb_alertname args) (rb_instance args))) else files))
           in py_bind res (\<lambda>runbook.
                Inr (if rb_print args then Ended files runbook else Ended (files(path := Some runbook)) [])))))"

section \<open>Lemmas\<close>

text \<open>A dry run that is not printed replaces the runbook an earlier run wrote for the same alert.\<close>

lemma dry_run_replaces_runbook:
  assumes "rb_dry_run args" "\<not> rb_print args"
  shows "\<exists>context. runbook_main sha256 prom time now (Inr labels_text) args key api files =
    Inr (Ended (files(runbook_name sha256 (rb_alertname args) (rb_instance args) (rb_mc args) :=
      Some (dry_runbook (rb_alertname args) now context))) [])"
  using assms by (auto simp: runbook_main_def Let_def)

text \<open>The name of the file has no separator - it stays in the output directory - exactly when the name of
  the alert has none: only the instance is cleaned.\<close>

lemma runbook_stays_inside:
  assumes "\<And>t. CHR ''/'' \<notin> set (sha256 t)"
  shows "CHR ''/'' \<in> set (runbook_name sha256 alertname instance_name mc) \<longleftrightarrow> CHR ''/'' \<in> set alertname"
proof -
  have "CHR ''/'' \<notin> set (replace_chr (CHR ''/'') ''_'' instance_name)"
    by (induction instance_name) (auto simp: replace_chr_def)
  moreover have "CHR ''/'' \<notin> set (runbook_fingerprint sha256 alertname instance_name mc)"
    using assms by (auto simp: runbook_fingerprint_def dest: in_set_takeD)
  ultimately show ?thesis by (auto simp: runbook_name_def)
qed


text \<open>A rate limit whose header is no number of seconds to wait, and an answer.\<close>

definition unreadable_limit :: "reply \<Rightarrow> bool" where
  "unreadable_limit r =
     (case r of
        HttpError code (Some s) \<Rightarrow> code = 429 \<and> (case py_int s of None \<Rightarrow> True | Some n \<Rightarrow> n < 0 \<or> n > 9223372036)
      | _ \<Rightarrow> False)"

fun is_answer :: "reply \<Rightarrow> bool" where
  "is_answer (Answer t) = True"
| "is_answer _ = False"

definition waits_ok :: "int list \<Rightarrow> bool" where
  "waits_ok bs \<longleftrightarrow> list_all (\<lambda>b. 0 \<le> b \<and> b \<le> 9223372036) bs"

lemma retry_wait_fails:
  "0 \<le> b \<Longrightarrow> b \<le> 9223372036 \<Longrightarrow>
   isl (py_bind (retry_wait header b) (\<lambda>w. py_bind (sleep w) (\<lambda>_. Inr w))) \<longleftrightarrow> unreadable_limit (HttpError 429 header)"
  by (auto simp: retry_wait_def sleep_def unreadable_limit_def split: option.splits)

text \<open>The loop raises exactly at an unreadable rate limit that comes before any answer.\<close>

lemma unreadable_limit_simps [simp]: "\<not> unreadable_limit (Answer t)" "\<not> unreadable_limit Failed"
  by (simp_all add: unreadable_limit_def)

lemma attempts_raise:
  "waits_ok bs \<Longrightarrow> isl (oc_result (attempts api i bs sl)) \<longleftrightarrow>
     (\<exists>k < length bs. unreadable_limit (api (i + k)) \<and> (\<forall>j < k. \<not> is_answer (api (i + j))))"
proof (induction api i bs sl rule: attempts.induct)
  case (2 api i b bs sl)
  have split: "(\<exists>k < Suc (length bs). P k) \<longleftrightarrow> P 0 \<or> (\<exists>k < length bs. P (Suc k))" for P :: "nat \<Rightarrow> bool"
    by (auto simp: less_Suc_eq_0_disj)
  have all: "(\<forall>j < Suc k. P j) \<longleftrightarrow> P 0 \<and> (\<forall>j < k. P (Suc j))" for P :: "nat \<Rightarrow> bool" and k
    by (auto simp: less_Suc_eq_0_disj)
  have b: "0 \<le> b" "b \<le> 9223372036" "waits_ok bs" using 2(4) by (auto simp: waits_ok_def)
  show ?case
  proof (cases "api i")
    case (Answer t)
    then show ?thesis by (simp add: split all)
  next
    case Failed
    then show ?thesis using 2(3) b(3) by (simp add: split all)
  next
    case (HttpError code header)
    show ?thesis
    proof (cases "code = 429")
      case True
      have u: "unreadable_limit (api i) \<longleftrightarrow> isl (py_bind (retry_wait header b) (\<lambda>w. py_bind (sleep w) (\<lambda>_. Inr w)))"
        using retry_wait_fails[OF b(1,2)] HttpError True by simp
      show ?thesis
      proof (cases "py_bind (retry_wait header b) (\<lambda>w. py_bind (sleep w) (\<lambda>_. Inr w))")
        case (Inl e)
        then show ?thesis using HttpError True u by (simp add: split)
      next
        case (Inr w)
        then show ?thesis using HttpError True u 2(1)[OF HttpError True Inr b(3)] by (simp add: split all)
      qed
    next
      case False
      then have "\<not> unreadable_limit (api i)" using HttpError by (auto simp: unreadable_limit_def split: option.splits)
      then show ?thesis using HttpError False 2(2)[OF HttpError False b(3)] by (simp add: split all)
    qed
  qed
qed simp

text \<open>Requests and sleeps.\<close>

lemma attempts_requests: "oc_requests (attempts api i bs sl) \<le> i + length bs"
  by (induction api i bs sl rule: attempts.induct) (auto split: reply.splits sum.splits)

definition not_limited :: "reply \<Rightarrow> bool" where
  "not_limited r = (case r of HttpError code header \<Rightarrow> code \<noteq> 429 | _ \<Rightarrow> True)"

section \<open>Properties\<close>

text \<open>The generator ends after at most three requests. It raises exactly when one of them is answered
  with a rate limit whose header is no number of seconds one can sleep - a date, as HTTP allows,
  or a negative number - before any answer; otherwise it returns a text.\<close>

theorem runbook_raises_exactly:
  "oc_requests (snd (generate_runbook api alertname instance_name)) \<le> 3 \<and>
   (isl (fst (generate_runbook api alertname instance_name)) \<longleftrightarrow>
     (\<exists>k < 3. unreadable_limit (api k) \<and> \<not> (\<exists>j < k. is_answer (api j))))"
proof -
  have "waits_ok backoffs" by (simp add: waits_ok_def backoffs_def)
  note r = attempts_raise[OF this, of api 0 "[]"]
  have n: "length backoffs = 3" by (simp add: backoffs_def)
  have "isl (fst (generate_runbook api alertname instance_name)) \<longleftrightarrow> isl (oc_result (attempts api 0 backoffs []))"
    by (auto simp: generate_runbook_def Let_def split: sum.splits option.splits)
  moreover have "snd (generate_runbook api alertname instance_name) = attempts api 0 backoffs []"
    by (simp add: generate_runbook_def Let_def)
  ultimately show ?thesis using r attempts_requests[of api 0 backoffs "[]"] by (simp add: n)
qed

theorem runbook_raises_exactly_witness:
  "isl (fst (generate_runbook (\<lambda>k. if k = 0 then Failed
     else HttpError 429 (Some ''Fri, 07 Nov 2025 10:00:00 GMT'')) ''UE'' ''n1''))"
proof -
  let ?api = "\<lambda>k :: nat. if k = 0 then Failed else HttpError 429 (Some ''Fri, 07 Nov 2025 10:00:00 GMT'')"
  have "py_int ''Fri, 07 Nov 2025 10:00:00 GMT'' = None" by code_simp
  then have "unreadable_limit (?api 1)" by (simp add: unreadable_limit_def)
  moreover have "\<not> is_answer (?api j)" if "j < 1" for j using that by simp
  ultimately have "\<exists>k < 3. unreadable_limit (?api k) \<and> \<not> (\<exists>j < k. is_answer (?api j))"
    by (intro exI[of _ 1]) auto
  then show ?thesis using runbook_raises_exactly[of ?api "''UE''" "''n1''"] by blast
qed

text \<open>C40: without a rate limit the generator always returns, and in exactly this way: with \<open>n\<close> of the three
  requests failing before the first answer it makes \<open>n + 1\<close> requests, three at most, and sleeps 2 s
  after the first failure and 4 s after the second, so the 8 s of the third backoff are never waited
  for; it returns the first answer, or the stub that names the alert and the node. (The waiting
  for the replies themselves, 30 s each at most, is not part of the sleeps.)\<close>

theorem runbook_returns:
  assumes "\<And>k. not_limited (api k)"
  shows "let n = length (takeWhile (\<lambda>r. \<not> is_answer r) (map api [0, 1, 2]));
            (res, oc) = generate_runbook api alertname instance_name
    in res = Inr (case filter is_answer (map api [0, 1, 2]) of Answer t # _ \<Rightarrow> t | _ \<Rightarrow> stub alertname instance_name) \<and>
       oc_requests oc = min 3 (Suc n) \<and> oc_sleeps oc = take n [2, 4]"
proof -
  have n: "code \<noteq> 429" if "api k = HttpError code header" for k code header
    using assms[of k] that by (simp add: not_limited_def)
  show ?thesis
    using n[of 0] n[of 1] n[of 2]
    by (cases "api 0"; cases "api 1"; cases "api 2")
      (simp_all add: generate_runbook_def Let_def backoffs_def numeral_2_eq_2 numeral_3_eq_3)
qed

text \<open>Two server errors, then an answer; and three failures.\<close>

theorem runbook_returns_witness:
  "fst (generate_runbook (\<lambda>k. if k = 2 then Answer ''ok'' else HttpError 500 None) ''UE'' ''n1'') = Inr ''ok'' \<and>
   oc_sleeps (snd (generate_runbook (\<lambda>k. Failed) ''UE'' ''n1'')) = [2, 4] \<and>
   oc_requests (snd (generate_runbook (\<lambda>k. Failed) ''UE'' ''n1'')) = 3"
proof -
  let ?late = "\<lambda>k :: nat. if k = 2 then Answer ''ok'' else HttpError 500 None"
  have "not_limited (?late k)" "not_limited Failed" for k by (simp_all add: not_limited_def)
  then show ?thesis
    using runbook_returns[of ?late "''UE''" "''n1''"] runbook_returns[of "\<lambda>k. Failed" "''UE''" "''n1''"]
    by (auto split: prod.splits)
qed

end
