(* ===== verification/Rasdaemon.thy ===== *)
theory Rasdaemon
  imports PyFloat Json Exposition "HOL-Library.List_Lexorder" "HOL-Library.Product_Lexorder"
begin

text \<open>
  The rasdaemon exporter \<open>ras/rasdaemon_exporter.py\<close>: the rows of the two grouped queries, the metrics and
  a run. The database is an argument: the rows a query gives for a start time, \<open>None\<close> when it
  fails, with \<open>show\<close> the text of a column that is no text.
\<close>

type_synonym row = "json list \<times> int"

definition row_key :: "(json \<Rightarrow> string) \<Rightarrow> json list \<Rightarrow> string list" where
  "row_key show cs = map (\<lambda>c. sanitize_label (jstr show c)) cs"

definition count_rows :: "(json \<Rightarrow> string) \<Rightarrow> row list \<Rightarrow> (string list, int) dict" where
  "count_rows show rows = fold (\<lambda>(cs, n) d. dset (row_key show cs) n d) rows []"

definition query_mc_events :: "(json \<Rightarrow> string) \<Rightarrow> row list option \<Rightarrow> (string list, int) dict" where
  "query_mc_events show rows = (case rows of None \<Rightarrow> [] | Some rs \<Rightarrow> count_rows show rs)"

definition query_aer_events :: "(json \<Rightarrow> string) \<Rightarrow> row list option \<Rightarrow> (string list, int) dict" where
  "query_aer_events show rows = (case rows of None \<Rightarrow> [] | Some rs \<Rightarrow> count_rows show rs)"

definition counted_lines :: "string \<Rightarrow> string list \<Rightarrow> (string list, int) dict \<Rightarrow> string list" where
  "counted_lines name labels d = map (\<lambda>(k, n). sample_line name (zip labels k) (str_int n)) (sort_key fst d)"

definition ras_lines :: "rat \<Rightarrow> (string list, int) dict \<Rightarrow> (string list, int) dict \<Rightarrow> int \<Rightarrow> string list" where
  "ras_lines now mc_counts aer_counts total_events =
     header_lines ''ras_mc_event_total'' ''Total rasdaemon memory controller events.'' ''counter'' @
     counted_lines ''ras_mc_event_total'' [''type'', ''mc'', ''top_layer'', ''mid_layer''] mc_counts @
     header_lines ''ras_aer_event_total'' ''Total rasdaemon PCIe AER events.'' ''counter'' @
     counted_lines ''ras_aer_event_total'' [''severity'', ''dev_id'', ''error_type''] aer_counts @
     header_lines ''ras_exporter_last_run_timestamp'' ''Unix timestamp of the last rasdaemon exporter run.'' ''gauge'' @
     [value_line ''ras_exporter_last_run_timestamp'' (fmt_fixed 3 now)] @
     header_lines ''ras_exporter_db_events_total'' ''Total events in rasdaemon database.'' ''gauge'' @
     [value_line ''ras_exporter_db_events_total'' (str_int total_events)]"

text \<open>A database that exists: its rows from a start time on, and the size of its table.\<close>

record database =
  db_rows :: "rat \<Rightarrow> row list option"
  db_total :: "int option"

text \<open>The total is asked for outside the function that catches the errors of the queries.\<close>

definition ras_main ::
    "(json \<Rightarrow> string) \<Rightarrow> rat \<Rightarrow> rat \<Rightarrow> rat \<Rightarrow> database option \<Rightarrow> database option \<Rightarrow> string py" where
  "ras_main show since t1 now mc_db aer_db =
     (case mc_db of
        None \<Rightarrow> Inr (render (ras_lines now [] [] 0))
      | Some mc \<Rightarrow>
          let since_epoch = (if since > 0 then fsub t1 (fmul since 3600) else 0);
              mc_counts = query_mc_events show (db_rows mc since_epoch) in
          case db_total mc of
            None \<Rightarrow> Inl (RuntimeError ''no such table: mc_event'')
          | Some n_events \<Rightarrow>
              let aer_counts = (case aer_db of None \<Rightarrow> []
                | Some aer \<Rightarrow> query_aer_events show (db_rows aer since_epoch))
              in Inr (render (ras_lines now mc_counts aer_counts n_events)))"

section \<open>Lemmas\<close>

definition count_total :: "('k, int) dict \<Rightarrow> int" where
  "count_total d = sum_list (map snd d)"

lemma total_dset: "count_total (dset k v d) = count_total d + v - (case dget d k of Some u \<Rightarrow> u | None \<Rightarrow> 0)"
  by (induction k v d rule: dset.induct) (auto simp: count_total_def)

text \<open>Overwriting loses events exactly where a key comes twice.\<close>

lemma total_overwrites:
  "list_all (\<lambda>r. 0 < snd r) rows \<Longrightarrow> list_all (\<lambda>r. 0 < snd r) d \<Longrightarrow>
   count_total (fold (\<lambda>(k, n). dset k n) rows d) \<le> count_total d + sum_list (map snd rows) \<and>
   (count_total (fold (\<lambda>(k, n). dset k n) rows d) = count_total d + sum_list (map snd rows) \<longleftrightarrow>
     distinct (map fst rows) \<and> set (map fst rows) \<inter> set (dkeys d) = {})"
proof (induction rows arbitrary: d)
  case (Cons r rows)
  obtain k n where r: "r = (k, n)" by (cases r)
  have pos: "list_all (\<lambda>r. 0 < snd r) (dset k n d)" if "0 < n" "list_all (\<lambda>r. 0 < snd r) d"
    using that by (induction k n d rule: dset.induct) auto
  have n: "0 < n" using Cons.prems(1) by (simp add: r)
  have get: "0 < u" if "dget d k = Some u" for u
    using dget_Some_in[OF that] Cons.prems(2) by (auto simp: list_all_iff)
  note IH = Cons.IH[of "dset k n d", OF _ pos[OF n Cons.prems(2)]]
  show ?case
  proof (cases "dget d k")
    case None
    then have "k \<notin> set (dkeys d)" by (simp add: dget_None_iff)
    then show ?thesis using IH Cons.prems(1) None by (auto simp: r total_dset dkeys_dset)
  next
    case (Some u)
    then have "k \<in> set (dkeys d)" using dget_in_keys by fastforce
    then show ?thesis using IH Cons.prems(1) Some get[OF Some] by (auto simp: r total_dset)
  qed
qed simp

section \<open>Properties\<close>

text \<open>The exporter never counts an event twice, and it counts every event of the query exactly when no
  two groups have the same labels after cleaning: where they do, the events of all but the last
  are lost.\<close>

theorem ras_counts_lost:
  assumes "list_all (\<lambda>r. 0 < snd r) rows"
  shows "count_total (query_mc_events show (Some rows)) \<le> sum_list (map snd rows) \<and>
    (count_total (query_mc_events show (Some rows)) = sum_list (map snd rows) \<longleftrightarrow>
      distinct (map (row_key show \<circ> fst) rows))"
proof -
  have f: "fold (\<lambda>(cs, n) d. dset (row_key show cs) n d) rows [] =
      fold (\<lambda>(k, n). dset k n) (map (\<lambda>(cs, n). (row_key show cs, n)) rows) []"
    by (induction rows rule: rev_induct) auto
  have p: "list_all (\<lambda>r. 0 < snd r) (map (\<lambda>(cs, n). (row_key show cs, n)) rows)"
    using assms by (auto simp: list_all_iff)
  have m: "map snd (map (\<lambda>(cs, n). (row_key show cs, n)) rows) = map snd rows"
    "map fst (map (\<lambda>(cs, n). (row_key show cs, n)) rows) = map (row_key show \<circ> fst) rows"
    by (simp_all add: case_prod_beta)
  from total_overwrites[OF p, of "[]"] show ?thesis
    unfolding query_mc_events_def count_rows_def option.case f m by (simp add: count_total_def)
qed

definition quoted_rows :: "row list" where
  "quoted_rows = [([JStr [CHR 0x22], JNull, JNull, JNull], 5), ([JStr [CHR 0x27], JNull, JNull, JNull], 2)]"

theorem ras_counts_lost_witness:
  "count_total (query_mc_events (\<lambda>j. ''None'') (Some quoted_rows)) < 7"
proof -
  have pos: "list_all (\<lambda>r. 0 < snd r) quoted_rows" by (simp add: quoted_rows_def)
  have "\<not> distinct (map (row_key (\<lambda>j. ''None'') \<circ> fst) quoted_rows)" by code_simp
  moreover have "sum_list (map snd quoted_rows) = 7" by (simp add: quoted_rows_def)
  ultimately show ?thesis using ras_counts_lost[OF pos, of "\<lambda>j. ''None''"] by linarith
qed

end
