(* ===== verification/Anonymize.thy ===== *)
theory Anonymize
  imports PyRegex Prelude
begin

text \<open>
  The log anonymizer \<open>tools/anonymize_log.py\<close>: its six expressions, \<open>re.sub\<close> with a call-back that keeps
  a memo, and the passes in their order. The substitution maps it returns never give two values
  one placeholder.
\<close>

section \<open>The expressions\<close>

definition is_hexdigit :: "char \<Rightarrow> bool" where "is_hexdigit c \<longleftrightarrow> is_hex c"
abbreviation Hex :: regex where "Hex \<equiv> Cls is_hexdigit"

text \<open>\<open>r{m,n}\<close>, as many as there are\<close>

fun Upto :: "nat \<Rightarrow> regex \<Rightarrow> regex" where
  "Upto 0 r = Eps"
| "Upto (Suc n) r = Opt (Seq r (Upto n r))"

definition Between :: "nat \<Rightarrow> nat \<Rightarrow> regex \<Rightarrow> regex" where
  "Between m n r = Seq (Rep m r) (Upto (n - m) r)"

definition range_cls :: "char \<Rightarrow> char \<Rightarrow> regex" where
  "range_cls a b = Cls (\<lambda>c. cp a \<le> cp c \<and> cp c \<le> cp b)"

definition OCTET :: regex where
  "OCTET = Alt (Seqs [Lit ''25'', range_cls (CHR ''0'') (CHR ''5'')])
     (Alt (Seqs [Lit ''2'', range_cls (CHR ''0'') (CHR ''4''), Digit])
       (Seqs [Opt (range_cls (CHR ''0'') (CHR ''1'')), Digit, Opt Digit]))"

definition RE_IPV4 :: regex where
  "RE_IPV4 = Seqs [WordB, Rep 3 (Seq OCTET (Lit ''.'')), OCTET, WordB]"

definition RE_IPV6 :: regex where
  "RE_IPV6 = Alt (Seqs [WordB, Between 2 7 (Seq (Between 1 4 Hex) (Lit '':'')), Between 1 4 Hex, WordB])
     (Alt (Seqs [Lit ''::'', Between 0 6 (Seq (Between 1 4 Hex) (Lit '':'')), Between 1 4 Hex])
       (Seqs [Between 1 7 (Seq (Between 1 4 Hex) (Lit '':'')), Lit '':'']))"

definition RE_MAC :: regex where
  "RE_MAC = Seqs [WordB, Rep 5 (Seq (Rep 2 Hex) (Cls (\<lambda>c. c = CHR '':'' \<or> c = CHR ''-''))), Rep 2 Hex, WordB]"

definition RE_BDF :: regex where
  "RE_BDF = Seqs [WordB, Rep 4 Hex, Lit '':'', Rep 2 Hex, Lit '':'', Rep 2 Hex, Lit ''.'', Hex, WordB]"

definition RE_UUID :: regex where
  "RE_UUID = Seqs [WordB, Rep 8 Hex, Lit ''-'', Rep 4 Hex, Lit ''-'', Rep 4 Hex, Lit ''-'', Rep 4 Hex, Lit ''-'',
     Rep 12 Hex, WordB]"

text \<open>The syslog prefix, from the start of a line; the start is tested by the search.\<close>

definition RE_SYSLOG_HOST :: regex where
  "RE_SYSLOG_HOST = Seqs [
     Grp 1 (Seqs [Rep 3 Word, Plus Space, Between 1 2 Digit, Plus Space, Rep 2 Digit, Lit '':'', Rep 2 Digit, Lit '':'',
       Rep 2 Digit]),
     Plus Space, Grp 2 (Plus (Cls (\<lambda>c. \<not> is_space c))), Plus Space, Grp 3 (Lit ''kernel:'')]"

section \<open>Substitution\<close>

text \<open>A search from a position: the text before it, last character first, and the rest.\<close>

type_synonym finder = "string \<Rightarrow> string \<Rightarrow> rmatch_obj option"

text \<open>\<open>re.MULTILINE\<close>: an expression that begins with \<open>^\<close> is tried at the start of a line.\<close>

fun search_lines :: "regex \<Rightarrow> finder" where
  "search_lines r acc [] = None"
| "search_lines r acc (c # s) =
     (case (if acc = [] \<or> hd acc = CHR 0x0A then rmatch r (hd_opt acc, c # s, []) else []) of
        (_, t, cs) # _ \<Rightarrow> Some (rev acc, take (length (c # s) - length t) (c # s), cs)
      | [] \<Rightarrow> search_lines r (c # acc) s)"

text \<open>
  \<open>pattern.sub(f, text)\<close>, for patterns that match no empty text: the text before a match, what the
  call-back makes of the match in its state, and the same from the end of the match on.
\<close>

function re_sub :: "finder \<Rightarrow> (rmatch_obj \<Rightarrow> 's \<Rightarrow> string \<times> 's) \<Rightarrow> string \<Rightarrow> string \<Rightarrow> 's \<Rightarrow> string \<times> 's" where
  "re_sub search f acc s st =
     (case search acc s of
        None \<Rightarrow> (s, st)
      | Some m \<Rightarrow>
          let skipped = drop (length acc) (m_before m);
              n = max 1 (length skipped + length (m_text m));
              (new, st') = f m st
          in if s = [] then (new, st')
             else let (rest_text, st'') = re_sub search f (rev (take n s) @ acc) (drop n s) st'
                  in (skipped @ new @ rest_text, st''))"
  by pat_completeness auto
termination
  by (relation "measure (\<lambda>(search, f, acc, s, st). length s)") auto

declare re_sub.simps [simp del]

section \<open>The placeholders\<close>

type_synonym memo = "(string, string) dict"

text \<open>\<open>f"{n:03d}"\<close>\<close>

definition pad3 :: "int \<Rightarrow> string" where
  "pad3 n = replicate (3 - length (str_int n)) (CHR ''0'') @ str_int n"

text \<open>The replacer of a pass: its memo and its counter.\<close>

definition replacer :: "string \<Rightarrow> rmatch_obj \<Rightarrow> memo \<times> int \<Rightarrow> string \<times> memo \<times> int" where
  "replacer prefix m st =
     (let key = lower (m_text m); (memo, counter) = st in
      case dget memo key of
        Some p \<Rightarrow> (p, memo, counter)
      | None \<Rightarrow> (let p = prefix @ pad3 (counter + 1) in (p, dset key p memo, counter + 1)))"

definition group_or_empty :: "rmatch_obj \<Rightarrow> nat \<Rightarrow> string" where
  "group_or_empty m n = (case m_group m n of Some t \<Rightarrow> t | None \<Rightarrow> [])"

definition replace_syslog_host :: "rmatch_obj \<Rightarrow> memo \<Rightarrow> string \<times> memo" where
  "replace_syslog_host m hosts =
     (let key = lower (group_or_empty m 2);
          hosts' = (if key \<in> set (dkeys hosts) then hosts
                    else dset key (''arm64-node-'' @ pad3 (int (length hosts) + 1)) hosts)
      in (group_or_empty m 1 @ '' '' @ dgetd hosts' key [] @ '' '' @ group_or_empty m 3, hosts'))"

definition sub_pass :: "regex \<Rightarrow> string \<Rightarrow> string \<Rightarrow> string \<times> memo" where
  "sub_pass r prefix text =
     (let (t, memo, n) = re_sub (search_at r) (replacer prefix) [] text ([], 0) in (t, memo))"

record subs =
  sb_hostname :: memo
  sb_ipv4 :: memo
  sb_ipv6 :: memo
  sb_mac :: memo
  sb_bdf :: memo
  sb_uuid :: memo

definition anonymize :: "string \<Rightarrow> string \<times> subs" where
  "anonymize text =
     (let (t, hosts) = re_sub (search_lines RE_SYSLOG_HOST) replace_syslog_host [] text [];
          (t, mac) = sub_pass RE_MAC ''xx:xx:xx:xx:xx:'' t;
          (t, bdf) = sub_pass RE_BDF ''0000:aa:bb.'' t;
          (t, uuid) = sub_pass RE_UUID ''00000000-0000-0000-0000-'' t;
          (t, ipv6) = sub_pass RE_IPV6 ''fd00::'' t;
          (t, ipv4) = sub_pass RE_IPV4 ''192.0.2.'' t
      in (t, \<lparr>sb_hostname = hosts, sb_ipv4 = ipv4, sb_ipv6 = ipv6, sb_mac = mac, sb_bdf = bdf, sb_uuid = uuid\<rparr>))"

section \<open>Lemmas\<close>

lemma pad3_inj: "0 \<le> a \<Longrightarrow> 0 \<le> b \<Longrightarrow> pad3 a = pad3 b \<longleftrightarrow> a = b"
  by (metis option.inject pad3_def parse_str_int parse_zeros)

text \<open>What a memo of a pass holds after \<open>k\<close> new values: their placeholders, numbered from 1.\<close>

definition memo_ok :: "string \<Rightarrow> int \<Rightarrow> memo \<Rightarrow> bool" where
  "memo_ok prefix k memo \<longleftrightarrow> map snd memo = map (\<lambda>i. prefix @ pad3 (int i)) [1..<Suc (nat k)] \<and> dict_ok memo \<and> 0 \<le> k"

lemma memo_ok_empty: "memo_ok prefix 0 []"
  by (simp add: memo_ok_def dict_ok_def)

lemma memo_ok_new:
  assumes "memo_ok prefix k memo" "key \<notin> set (dkeys memo)"
  shows "memo_ok prefix (k + 1) (dset key (prefix @ pad3 (k + 1)) memo)"
proof -
  have n: "nat (k + 1) = Suc (nat k)" "0 \<le> k" using assms(1) by (auto simp: memo_ok_def)
  then show ?thesis using assms by (simp add: memo_ok_def dset_absent dict_ok_def dkeys_def add.commute)
qed

lemma memo_ok_length: "memo_ok prefix k memo \<Longrightarrow> k = int (length memo)"
  by (drule arg_cong[of _ _ length] | auto simp: memo_ok_def dest: arg_cong[of _ _ length])+

lemma memo_ok_distinct:
  assumes "memo_ok prefix k memo"
  shows "distinct (map fst memo) \<and> distinct (map snd memo)"
proof -
  have "inj_on (\<lambda>i. prefix @ pad3 (int i)) (set [1..<Suc (nat k)])" by (auto simp: inj_on_def pad3_inj)
  then show ?thesis using assms by (simp add: memo_ok_def distinct_map dict_ok_def dkeys_def)
qed

text \<open>\<open>re.sub\<close> keeps what its call-back keeps.\<close>

lemma re_sub_keeps:
  assumes "\<And>m st. P st \<Longrightarrow> P (snd (f m st))"
  shows "P st \<Longrightarrow> P (snd (re_sub search f acc s st))"
  using assms
proof (induction search f acc s st rule: re_sub.induct)
  case (1 search f acc s st)
  show ?case
  proof (cases "search acc s")
    case None
    then show ?thesis using "1.prems"(1) by (subst re_sub.simps) simp
  next
    case (Some m)
    obtain new st' where f: "f m st = (new, st')" by fastforce
    then have P: "P st'" using "1.prems"(2)[of st m] "1.prems"(1) by simp
    show ?thesis
    proof (cases "s = []")
      case True
      then show ?thesis using P Some f by (subst re_sub.simps) simp
    next
      case False
      have "P (snd (re_sub search f (rev (take n s) @ acc) (drop n s) st'))"
        if "n = max 1 (length (drop (length acc) (m_before m)) + length (m_text m))" for n
        using "1.IH"[OF Some refl that f[symmetric] refl False P] "1.prems"(2) by blast
      then show ?thesis using Some f False
        by (simp add: re_sub.simps[of search f acc s st] Let_def split: prod.splits) (metis snd_conv)
    qed
  qed
qed

lemma replacer_keeps:
  assumes "memo_ok prefix (snd st) (fst st)"
  shows "memo_ok prefix (snd (snd (replacer prefix m st))) (fst (snd (replacer prefix m st)))"
  using assms memo_ok_new[of prefix "snd st" "fst st" "lower (m_text m)"]
  by (auto simp: replacer_def Let_def dget_None_iff split: prod.splits option.splits)

lemma sub_pass_memo: "\<exists>k. memo_ok prefix k (snd (sub_pass r prefix text))"
  using re_sub_keeps[where P = "\<lambda>st. memo_ok prefix (snd st) (fst st)" and f = "replacer prefix"
      and st = "([], 0)" and search = "search_at r" and acc = "[]" and s = "text", OF replacer_keeps]
  by (auto simp: sub_pass_def memo_ok_empty split: prod.splits)

lemma host_keeps:
  assumes "memo_ok ''arm64-node-'' (int (length hosts)) hosts"
  shows "memo_ok ''arm64-node-'' (int (length (snd (replace_syslog_host m hosts)))) (snd (replace_syslog_host m hosts))"
proof -
  have "length (dset key v hosts) = length hosts + 1" if "key \<notin> set (dkeys hosts)" for key v
    using that by (simp add: dset_absent)
  then show ?thesis
    using assms memo_ok_new[OF assms, of "lower (group_or_empty m 2)"]
    by (simp add: replace_syslog_host_def Let_def add.commute)
qed

definition one_to_one :: "memo \<Rightarrow> bool" where
  "one_to_one memo \<longleftrightarrow> distinct (map fst memo) \<and> distinct (map snd memo)"

lemma sub_pass_one_to_one: "sub_pass r prefix t = (t', memo) \<Longrightarrow> one_to_one memo"
  using sub_pass_memo[of prefix r t] memo_ok_distinct by (auto simp: one_to_one_def)

lemma hosts_one_to_one:
  assumes "re_sub search replace_syslog_host [] t [] = (t', hosts)"
  shows "one_to_one hosts"
proof -
  have "memo_ok ''arm64-node-'' (int (length (snd (re_sub search replace_syslog_host [] t []))))
      (snd (re_sub search replace_syslog_host [] t []))"
    by (rule re_sub_keeps[where P = "\<lambda>h. memo_ok ''arm64-node-'' (int (length h)) h", OF host_keeps])
      (simp_all add: memo_ok_empty)
  then show ?thesis using assms memo_ok_distinct by (simp add: one_to_one_def)
qed

text \<open>C29: whatever the log is, each of the six substitution maps of the anonymizer gives every value
  one placeholder and no two values the same one, also past the three digits of the counter; the
  audit map can be read backwards.\<close>

theorem substitutions_one_to_one:
  "let s = snd (anonymize text) in
     list_all one_to_one [sb_hostname s, sb_ipv4 s, sb_ipv6 s, sb_mac s, sb_bdf s, sb_uuid s]"
  unfolding anonymize_def Let_def
  by (auto split: prod.split dest: sub_pass_one_to_one hosts_one_to_one)

text \<open>The clock of a syslog line is taken for an address, and a PCI placeholder is rewritten again.\<close>

lemma timestamp_replaced:
  "fst (anonymize ''Jan 15 08:00:01 node7 kernel: up'') = ''Jan 15 fd00::001 arm64-node-001 kernel: up''"
  by code_simp

lemma placeholder_replaced: "fst (anonymize ''at 0000:3b:00.0'') = ''at fd00::001.001''"
  by code_simp

end
