(* ===== verification/RegexSearch.thy ===== *)
theory RegexSearch
  imports PyRegex
begin

text \<open>
  Where a search finds an expression that begins with a literal, and more of the greedy matches: what
  the proofs about whole lines are made of.
\<close>

section \<open>Searching\<close>

lemma rmatch_Lit_other: "x \<noteq> k \<Longrightarrow> rmatch (Lit (k # s)) (c, x # t, cs) = []"
  by (simp add: Lit.simps Chr_def)

lemma rmatch_Lit_other2: "x \<noteq> k' \<Longrightarrow> rmatch (Lit (k # k' # s)) (c, k # x # t, cs) = []"
  by (simp add: Lit.simps Chr_def)

lemma rmatch_Lit_short: "rmatch (Lit (k # s)) (c, [], cs) = []" "rmatch (Lit (k # k' # s)) (c, [x], cs) = []"
  by (simp_all add: Lit.simps Chr_def)

lemma search_at_skip:
  assumes "\<And>x c t. x \<in> set u \<Longrightarrow> rmatch r (c, x # t, []) = []"
  shows "search_at r acc (u @ v) = search_at r (rev u @ acc) v"
  using assms
proof (induction u arbitrary: acc)
  case (Cons x u)
  then have "search_at r acc (x # u @ v) = search_at r (x # acc) (u @ v)" by (simp add: search_at.simps)
  then show ?case using Cons by simp
qed simp

text \<open>The first character of the literal occurs first where the match is.\<close>

lemma re_search_first:
  assumes "k \<notin> set u" "takes (Seq (Lit (k # l)) r) (hd_opt (rev u), v, []) (c, t, cs)"
  shows "re_search (Seq (Lit (k # l)) r) (u @ v) = Some (u, take (length v - length t) v, cs)"
proof -
  have "rmatch (Seq (Lit (k # l)) r) (c, x # t, []) = []" if "x \<in> set u" for x c t
  proof -
    have "x \<noteq> k" using that assms(1) by blast
    then show ?thesis by (simp add: rmatch_Lit_other)
  qed
  then have "re_search (Seq (Lit (k # l)) r) (u @ v) = search_at (Seq (Lit (k # l)) r) (rev u @ []) v"
    unfolding re_search_def by (rule search_at_skip)
  moreover obtain qs where "rmatch (Seq (Lit (k # l)) r) (hd_opt (rev u), v, []) = (c, t, cs) # qs"
    using assms(2) unfolding takes_def by blast
  ultimately show ?thesis by (simp add: search_at.simps[of _ "rev u" v])
qed

text \<open>No character \<open>a\<close> directly before a character \<open>b\<close>.\<close>

lemma hd_opt_simps [simp]: "hd_opt [] = None" "hd_opt (c # s) = Some c"
  by (simp_all add: hd_opt_def)

lemma hd_opt_append: "hd_opt (u @ v) = (if u = [] then hd_opt v else Some (hd u))"
  by (cases u) simp_all

lemma hd_opt_in: "hd_opt s = Some b \<Longrightarrow> b \<in> set s"
  by (cases s) simp_all

fun apart :: "char \<Rightarrow> char \<Rightarrow> string \<Rightarrow> bool" where
  "apart a b [] = True"
| "apart a b (c # s) = (\<not> (c = a \<and> hd_opt s = Some b) \<and> apart a b s)"

lemma apart_append:
  "apart a b (u @ v) \<longleftrightarrow> apart a b u \<and> apart a b v \<and> \<not> (u \<noteq> [] \<and> last u = a \<and> hd_opt v = Some b)"
proof (induction u)
  case (Cons x u)
  then show ?case by (cases u) (simp_all, blast)
qed simp

lemma apart_absent: "a \<notin> set s \<or> b \<notin> set s \<Longrightarrow> apart a b s"
  by (induction s) (auto dest: hd_opt_in)

lemma search_at_apart: "apart k k' s \<Longrightarrow> search_at (Seq (Lit (k # k' # l)) r) acc s = None"
proof (induction s arbitrary: acc)
  case Nil
  then show ?case by (simp add: search_at.simps rmatch_Lit_short)
next
  case (Cons x s)
  have "rmatch (Lit (k # k' # l)) (hd_opt acc, x # s, []) = []"
    using Cons.prems by (cases s; cases "x = k") (auto simp: rmatch_Lit_other rmatch_Lit_other2 rmatch_Lit_short hd_opt_def)
  then show ?case using Cons by (subst search_at.simps) simp
qed

section \<open>More greedy matches\<close>

lemma concat_map_concat: "concat (map f (concat xss)) = concat (map (\<lambda>xs. concat (map f xs)) xss)"
  by (induction xss) simp_all

lemma rmatch_Seqs: "rs \<noteq> [] \<Longrightarrow> ss \<noteq> [] \<Longrightarrow> rmatch (Seqs (rs @ ss)) p = concat (map (rmatch (Seqs ss)) (rmatch (Seqs rs) p))"
proof (induction rs arbitrary: p rule: Seqs.induct)
  case (2 a)
  then show ?case by (cases ss) simp_all
next
  case (3 a b rs)
  then have "rmatch (Seqs ((b # rs) @ ss)) = (\<lambda>p. concat (map (rmatch (Seqs ss)) (rmatch (Seqs (b # rs)) p)))" by auto
  then show ?case by (simp add: concat_map_concat o_def)
qed simp

lemma takes_Seqs: "takes (Seqs rs) p q \<Longrightarrow> takes (Seqs ss) q r \<Longrightarrow> rs \<noteq> [] \<Longrightarrow> ss \<noteq> [] \<Longrightarrow> takes (Seqs (rs @ ss)) p r"
  by (auto simp: takes_def rmatch_Seqs)

lemma takes_Rep: "length w = n \<Longrightarrow> \<forall>c \<in> set w. f c \<Longrightarrow> takes (Rep n (Cls f)) (c, w @ t, cs) (before c w, t, cs)"
proof (induction n arbitrary: w c)
  case 0
  then show ?case by (simp add: takes_def)
next
  case (Suc n)
  then obtain x v where w: "w = x # v" by (cases w) auto
  then have "takes (Rep n (Cls f)) (Some x, v @ t, cs) (before (Some x) v, t, cs)" using Suc.IH[of v "Some x"] Suc.prems w by simp
  then obtain qs where "rmatch (Rep n (Cls f)) (Some x, v @ t, cs) = (before (Some x) v, t, cs) # qs"
    unfolding takes_def by blast
  then show ?case using w Suc.prems by (simp add: takes_def before_def)
qed

lemma drop_takes: "takes r (None, x @ y, []) (c, y, cs) \<Longrightarrow> re_drop_prefix r (x @ y) = y"
  by (drule re_match_takes) (simp add: re_drop_prefix_def m_text_def)

lemma words_Rep_cls: "words (Rep n (Cls f)) w \<longleftrightarrow> length w = n \<and> (\<forall>c \<in> set w. f c)"
  by (induction n arbitrary: w) (auto simp: length_Suc_conv words_seq_cls simp del: words_simps(3))

lemma no_match: "(\<And>x v. x @ v = s \<Longrightarrow> \<not> words r x) \<Longrightarrow> rmatch r (c, s, cs) = []"
proof (rule ccontr)
  assume none: "\<And>x v. x @ v = s \<Longrightarrow> \<not> words r x" and "rmatch r (c, s, cs) \<noteq> []"
  then obtain q where "q \<in> set (rmatch r (c, s, cs))" by (cases "rmatch r (c, s, cs)") auto
  then have "sound_step r (c, s, cs) q" by (rule rmatch_sound)
  then show False using none by (auto simp: sound_step_def)
qed

lemma takes_Opt_none: "rmatch r p = [] \<Longrightarrow> takes (Opt r) p p"
  by (simp add: takes_def Opt_def)

end
