(* ===== verification/EdacLog.thy ===== *)
theory EdacLog
  imports ToolText "HOL-Library.Word"
begin

unbundle bit_operations_syntax

text \<open>
  The generator of synthetic logs \<open>tools/generate_edac_log.py\<close>. Random values are an argument, one record of draws per event; the calendar is that
  of \<open>datetime\<close>, with the microseconds of the day.
\<close>

section \<open>Dates\<close>

record datetime =
  dt_year :: int
  dt_month :: int
  dt_day :: int
  dt_us :: int

definition DAY_US :: int where "DAY_US = 86400000000"

definition leap_year :: "int \<Rightarrow> bool" where
  "leap_year y \<longleftrightarrow> y mod 4 = 0 \<and> (y mod 100 \<noteq> 0 \<or> y mod 400 = 0)"

definition days_in_month :: "int \<Rightarrow> int \<Rightarrow> int" where
  "days_in_month y m = (if m = 2 then (if leap_year y then 29 else 28) else if m \<in> {4, 6, 9, 11} then 30 else 31)"

definition next_day :: "datetime \<Rightarrow> datetime" where
  "next_day t =
     (if dt_day t < days_in_month (dt_year t) (dt_month t) then t\<lparr>dt_day := dt_day t + 1\<rparr>
      else if dt_month t < 12 then t\<lparr>dt_month := dt_month t + 1, dt_day := 1\<rparr>
      else t\<lparr>dt_year := dt_year t + 1, dt_month := 1, dt_day := 1\<rparr>)"

definition prev_day :: "datetime \<Rightarrow> datetime" where
  "prev_day t =
     (if 1 < dt_day t then t\<lparr>dt_day := dt_day t - 1\<rparr>
      else if 1 < dt_month t
      then t\<lparr>dt_month := dt_month t - 1, dt_day := days_in_month (dt_year t) (dt_month t - 1)\<rparr>
      else t\<lparr>dt_year := dt_year t - 1, dt_month := 12, dt_day := 31\<rparr>)"

text \<open>\<open>t + timedelta\<close>, for a difference in microseconds\<close>

definition dt_add :: "datetime \<Rightarrow> int \<Rightarrow> datetime py" where
  "dt_add t us =
     (let total = dt_us t + us; n = total div DAY_US;
          t' = (if 0 \<le> n then (next_day ^^ nat n) t else (prev_day ^^ nat (- n)) t)\<lparr>dt_us := total mod DAY_US\<rparr>
      in if 1 \<le> dt_year t' \<and> dt_year t' \<le> 9999 then Inr t' else Inl OverflowError)"

definition dt_hour :: "datetime \<Rightarrow> int" where "dt_hour t = dt_us t div 3600000000"
definition dt_minute :: "datetime \<Rightarrow> int" where "dt_minute t = dt_us t div 60000000 mod 60"
definition dt_second :: "datetime \<Rightarrow> int" where "dt_second t = dt_us t div 1000000 mod 60"

definition MONTHS :: "string list" where
  "MONTHS = [''Jan'', ''Feb'', ''Mar'', ''Apr'', ''May'', ''Jun'', ''Jul'', ''Aug'', ''Sep'', ''Oct'', ''Nov'', ''Dec'']"

definition two :: "int \<Rightarrow> string" where "two n = zpad 2 (str_int n)"

definition strftime :: "datetime \<Rightarrow> string" where
  "strftime t =
     MONTHS ! nat (dt_month t - 1) @ '' '' @ two (dt_day t) @ '' '' @ two (dt_hour t) @ '':'' @ two (dt_minute t) @
     '':'' @ two (dt_second t)"

definition syslog_ts :: "datetime \<Rightarrow> string" where
  "syslog_ts t = replace_sub '' 0'' ''  '' (strftime t)"

section \<open>Events\<close>

text \<open>What the generator draws for one event; the gap depends on the rate it is drawn with.\<close>

record draw =
  dr_gap :: "pf \<Rightarrow> int"
  dr_mc :: int
  dr_csrow :: int
  dr_channel :: int
  dr_page :: int
  dr_offset :: int
  dr_grain :: nat
  dr_count :: int
  dr_random :: rat
  dr_detail :: nat

definition GRAINS :: "int list" where "GRAINS = [8, 64, 128]"

definition offset_of :: "draw \<Rightarrow> int" where
  "offset_of d = dr_offset d AND NOT 0x3F"

definition CE_DETAILS :: "int \<Rightarrow> string list" where
  "CE_DETAILS csrow =
     [''memory read error'', ''ECC scrub corrected error'', ''CE on rank '' @ str_int csrow,
      ''single-bit ECC error on DIMM A'' @ str_int csrow]"

definition UE_DETAILS :: "string list" where
  "UE_DETAILS = [''multi-bit ECC error'', ''double-bit error detected on DIMM 0'']"

definition location_text :: "draw \<Rightarrow> string" where
  "location_text d =
     '' (mc#'' @ str_int (dr_mc d) @ '' page 0x'' @ digits_of 16 (dr_page d) @ '' offset 0x'' @ digits_of 16 (offset_of d) @
     '' grain '' @ str_int (GRAINS ! dr_grain d) @ '')''"

definition ce_line :: "string \<Rightarrow> datetime \<Rightarrow> draw \<Rightarrow> string" where
  "ce_line host t d =
     syslog_ts t @ '' '' @ host @ '' kernel: EDAC MC'' @ str_int (dr_mc d) @ '': '' @ str_int (dr_count d) @ '' CE '' @
     CE_DETAILS (dr_csrow d) ! dr_detail d @ '' on MC'' @ str_int (dr_mc d) @ '' csrow'' @ str_int (dr_csrow d) @
     '' channel'' @ str_int (dr_channel d) @ location_text d"

definition ue_line :: "string \<Rightarrow> datetime \<Rightarrow> draw \<Rightarrow> string" where
  "ue_line host t d =
     syslog_ts t @ '' '' @ host @ '' kernel: EDAC MC'' @ str_int (dr_mc d) @ '': '' @ str_int (dr_count d) @ '' UE '' @
     UE_DETAILS ! dr_detail d @ '' on MC'' @ str_int (dr_mc d) @ '' csrow'' @ str_int (dr_csrow d) @ location_text d"

text \<open>The rate an inter-arrival time is drawn with.\<close>

definition gap_rate :: "bool \<Rightarrow> rat \<Rightarrow> nat \<Rightarrow> pf" where
  "gap_rate burst rate i =
     (if burst then (if i mod 10 = 0 then pf_mul (Fin rate) (Fin 20) else pf_mul (Fin rate) (Fin 5)) else Fin rate)"

text \<open>\<open>rng.randint(0, n - 1)\<close> refuses an empty range.\<close>

definition rand_below :: "int \<Rightarrow> int \<Rightarrow> int py" where
  "rand_below n v = (if n < 1 then Inl (ValueError ''empty range'') else Inr v)"

record settings =
  gs_rate :: rat
  gs_controllers :: int
  gs_csrows :: int
  gs_channels :: int
  gs_burst :: bool
  gs_ue_rate :: rat
  gs_hostname :: string

text \<open>One round: the new time, and the line.\<close>

definition is_ue :: "settings \<Rightarrow> draw \<Rightarrow> bool" where
  "is_ue g d \<longleftrightarrow> dr_random d < gs_ue_rate g"

definition log_line :: "settings \<Rightarrow> datetime \<Rightarrow> draw \<Rightarrow> string" where
  "log_line g t d = (if is_ue g d then ue_line (gs_hostname g) t d else ce_line (gs_hostname g) t d)"

definition gen_event :: "settings \<Rightarrow> nat \<Rightarrow> datetime \<Rightarrow> draw \<Rightarrow> datetime py" where
  "gen_event g i t d =
     (let r = gap_rate (gs_burst g) (gs_rate g) i in
      if r = Fin 0 then Inl ZeroDivisionError
      else py_bind (dt_add t (dr_gap d r)) (\<lambda>t'.
        py_bind (rand_below (gs_controllers g) (dr_mc d)) (\<lambda>_.
        py_bind (rand_below (gs_csrows g) (dr_csrow d)) (\<lambda>_.
        py_bind (rand_below (gs_channels g) (dr_channel d)) (\<lambda>_. Inr t')))))"

text \<open>The times of the events from number \<open>i\<close> on, and the lines.\<close>

fun gen_times :: "settings \<Rightarrow> nat \<Rightarrow> datetime \<Rightarrow> draw list \<Rightarrow> datetime list py" where
  "gen_times g i t [] = Inr []"
| "gen_times g i t (d # ds) =
     py_bind (gen_event g i t d) (\<lambda>t'. py_bind (gen_times g (Suc i) t' ds) (\<lambda>ts. Inr (t' # ts)))"

definition generate_events :: "settings \<Rightarrow> datetime \<Rightarrow> draw list \<Rightarrow> string list py" where
  "generate_events g start draws =
     py_bind (gen_times g 0 start draws) (\<lambda>ts. Inr (map2 (log_line g) ts draws))"

text \<open>\<open>main\<close>: the text it writes, and its lines as a reader of the file sees them.\<close>

definition log_text :: "settings \<Rightarrow> datetime \<Rightarrow> draw list \<Rightarrow> string py" where
  "log_text g start draws =
     py_bind (generate_events g start draws) (\<lambda>lines. Inr (join [newline] lines @ [newline]))"

fun readlines_acc :: "string \<Rightarrow> string \<Rightarrow> string list" where
  "readlines_acc acc [] = (if acc = [] then [] else [rev acc])"
| "readlines_acc acc (c # s) =
     (if c = newline then rev (c # acc) # readlines_acc [] s else readlines_acc (c # acc) s)"

definition readlines :: "string \<Rightarrow> string list" where "readlines s = readlines_acc [] s"

end
