(* ===== verification/EdacLogProps.thy ===== *)
theory EdacLogProps
  imports EdacLog RegexSearch TraceParserProps
begin

text \<open>
  What the kernel log parser makes of a generated log: every line is an event of the type, controller
  and count that were drawn, and no more.
\<close>

section \<open>The time stamp\<close>

lemma char_zero: "char_of (48 :: int) = CHR ''0''" by code_simp

lemma digits_small: "0 \<le> n \<Longrightarrow> n < 10 \<Longrightarrow> str_int n = [digit_chr n]"
  by (simp add: str_int_def digits_of.simps)

lemma two_digits:
  assumes "0 \<le> n" "n < 100"
  shows "two n = [digit_chr (n div 10), digit_chr (n mod 10)]"
proof (cases "n < 10")
  case True
  then show ?thesis using assms by (simp add: two_def zpad_def digits_small) (simp add: digit_chr_def char_zero)
next
  case False
  then have "n div 10 < 10" "0 < n div 10" using assms by auto
  then have "str_int n = [digit_chr (n div 10), digit_chr (n mod 10)]"
    using False assms by (simp add: str_int_def digits_of.simps[of 10 n] digits_of.simps[of 10 "n div 10"])
  then show ?thesis by (simp add: two_def zpad_def)
qed

lemma digit_chr_digit: "0 \<le> v \<Longrightarrow> v < 10 \<Longrightarrow> is_digit (digit_chr v)"
  by (simp add: digit_chr_def is_digit_def)

lemma digit_chr_zero: "0 \<le> v \<Longrightarrow> v < 10 \<Longrightarrow> digit_chr v = CHR ''0'' \<longleftrightarrow> v = 0"
proof
  assume v: "0 \<le> v" "v < 10" "digit_chr v = CHR ''0''"
  then have "cp (digit_chr v) = 48" by (simp add: cp_def)
  then show "v = 0" using v by (simp add: digit_chr_def)
qed (simp add: digit_chr_def char_zero)

lemma replace_sub_skip: "k \<notin> set u \<Longrightarrow> replace_sub (k # l) new (u @ v) = u @ replace_sub (k # l) new v"
proof (induction u)
  case (Cons x u)
  then show ?case by (auto simp: replace_sub.simps[of "k # l" new "x # u @ v"] starts_with_def)
qed simp

lemma replace_sub_absent: "k \<notin> set u \<Longrightarrow> replace_sub (k # l) new u = u"
  using replace_sub_skip[of k u l new "[]"] by (simp add: replace_sub.simps)

lemma replace_pair:
  assumes "b \<noteq> CHR '' ''" "a \<noteq> CHR '' ''"
  shows "replace_sub '' 0'' ''  '' (CHR '' '' # a # b # s) =
     (if a = CHR ''0'' then ''  '' else [CHR '' '', a]) @ b # replace_sub '' 0'' ''  '' s"
  using assms by (simp add: replace_sub.simps[of "'' 0''" _ "_ # _"] starts_with_def)

lemma digit_not_space: "is_digit c \<Longrightarrow> c \<noteq> CHR '' '' \<and> c \<noteq> CHR '':'' \<and> c \<noteq> CHR ''E'' \<and> c \<noteq> CHR ''w''"
  by (auto simp: is_digit_def cp_def)

definition date_ok :: "datetime \<Rightarrow> bool" where
  "date_ok t \<longleftrightarrow> 1 \<le> dt_month t \<and> dt_month t \<le> 12 \<and> 1 \<le> dt_day t \<and> dt_day t \<le> days_in_month (dt_year t) (dt_month t)"

definition dt_ok :: "datetime \<Rightarrow> bool" where
  "dt_ok t \<longleftrightarrow> date_ok t \<and> 0 \<le> dt_us t \<and> dt_us t < DAY_US \<and> 1 \<le> dt_year t \<and> dt_year t \<le> 9999"

lemma days_bounds: "28 \<le> days_in_month y m" "days_in_month y m \<le> 31"
  by (auto simp: days_in_month_def)

lemma next_day_ok: "date_ok t \<Longrightarrow> date_ok (next_day t)"
  using days_bounds(1)[of "dt_year t" "dt_month t + 1"] days_bounds(1)[of "dt_year t + 1" 1]
  by (auto simp: date_ok_def next_day_def)

lemma prev_day_ok: "date_ok t \<Longrightarrow> date_ok (prev_day t)"
  using days_bounds(1)[of "dt_year t" "dt_month t - 1"]
  by (auto simp: date_ok_def prev_day_def) (simp add: days_in_month_def)

lemma funpow_keeps: "(\<And>x. P x \<Longrightarrow> P (f x)) \<Longrightarrow> P x \<Longrightarrow> P ((f ^^ n) x)"
  by (induction n) simp_all

lemma dt_add_ok:
  assumes "date_ok t" "dt_add t us = Inr t'"
  shows "dt_ok t'"
proof -
  have n: "date_ok ((next_day ^^ n) t)" "date_ok ((prev_day ^^ n) t)" for n
    using funpow_keeps[where P = date_ok and f = next_day, OF next_day_ok assms(1)]
      funpow_keeps[where P = date_ok and f = prev_day, OF prev_day_ok assms(1)] by blast+
  define u where "u = (if 0 \<le> (dt_us t + us) div DAY_US then (next_day ^^ nat ((dt_us t + us) div DAY_US)) t
    else (prev_day ^^ nat (- ((dt_us t + us) div DAY_US))) t)"
  have "date_ok u" using n by (simp add: u_def)
  moreover have "t' = u\<lparr>dt_us := (dt_us t + us) mod DAY_US\<rparr>" "1 \<le> dt_year t'" "dt_year t' \<le> 9999"
    using assms(2) unfolding dt_add_def Let_def u_def[symmetric] by (auto split: if_splits)
  moreover have "0 \<le> (dt_us t + us) mod DAY_US" "(dt_us t + us) mod DAY_US < DAY_US" by (simp_all add: DAY_US_def)
  ultimately show ?thesis by (simp add: dt_ok_def date_ok_def)
qed

text \<open>The stamp: only from ten o'clock on has the hour its two digits.\<close>

definition stamp_ok :: "bool \<Rightarrow> string \<Rightarrow> bool" where
  "stamp_ok late w \<longleftrightarrow> (\<exists>mon sp day hsp hh mm ss.
     w = mon @ sp @ day @ hsp @ hh @ '':'' @ mm @ '':'' @ ss \<and> length mon = 3 \<and> (\<forall>c \<in> set mon. is_word c) \<and>
     CHR ''E'' \<notin> set mon \<and> sp \<noteq> [] \<and> set sp \<subseteq> {CHR '' ''} \<and> digits day \<and> hsp \<noteq> [] \<and> set hsp \<subseteq> {CHR '' ''} \<and>
     digits hh \<and> length hh = (if late then 2 else 1) \<and> digits mm \<and> length mm = 2 \<and> digits ss \<and> length ss = 2)"

lemma months: "list_all (\<lambda>mon. length mon = 3 \<and> (\<forall>c \<in> set mon. is_word c \<and> \<not> is_space c \<and> c \<noteq> CHR ''E'')) MONTHS"
  by code_simp

lemma syslog_ts_shape:
  assumes "dt_ok t"
  shows "stamp_ok (10 \<le> dt_hour t) (syslog_ts t)"
proof -
  define mon where "mon = MONTHS ! nat (dt_month t - 1)"
  have "nat (dt_month t - 1) < length MONTHS" using assms by (auto simp: dt_ok_def date_ok_def MONTHS_def)
  then have "mon \<in> set MONTHS" by (simp add: mon_def)
  then have mon': "length mon = 3 \<and> (\<forall>c \<in> set mon. is_word c \<and> \<not> is_space c \<and> c \<noteq> CHR ''E'')"
    using months unfolding list_all_iff by blast
  have "is_space (CHR '' '')" by (simp add: is_space_def cp_def)
  then have mon: "length mon = 3" "\<forall>c \<in> set mon. is_word c" "CHR ''E'' \<notin> set mon" "CHR '' '' \<notin> set mon"
    using mon' by blast+
  have d: "0 \<le> dt_day t" "dt_day t < 100"
    using assms days_bounds(2)[of "dt_year t" "dt_month t"] unfolding dt_ok_def date_ok_def by linarith+
  have h: "0 \<le> dt_hour t" "dt_hour t < 24" using assms unfolding dt_ok_def dt_hour_def DAY_US_def by linarith+
  have m: "0 \<le> dt_minute t" "dt_minute t < 60" "0 \<le> dt_second t" "dt_second t < 60"
    by (simp_all add: dt_minute_def dt_second_def)
  define a b c e where "a = digit_chr (dt_day t div 10)" "b = digit_chr (dt_day t mod 10)"
    "c = digit_chr (dt_hour t div 10)" "e = digit_chr (dt_hour t mod 10)"
  note abce = this
  have ab: "is_digit a" "is_digit b" "is_digit c" "is_digit e" "c = CHR ''0'' \<longleftrightarrow> \<not> 10 \<le> dt_hour t"
    using d h unfolding abce by (auto intro!: digit_chr_digit simp: digit_chr_zero)
  have mm: "digits (two (dt_minute t))" "length (two (dt_minute t)) = 2"
    "digits (two (dt_second t))" "length (two (dt_second t)) = 2"
    using m by (auto simp: two_digits intro!: digit_chr_digit)
  let ?s = "'':'' @ two (dt_minute t) @ '':'' @ two (dt_second t)"
  have sp: "CHR '' '' \<notin> set ?s" using mm digit_not_space by fastforce
  have "syslog_ts t = mon @ replace_sub '' 0'' ''  '' (CHR '' '' # a # b # CHR '' '' # c # e # ?s)"
    using d h mon(4) by (simp add: syslog_ts_def strftime_def mon_def[symmetric] two_digits replace_sub_skip abce)
  also have "\<dots> = mon @ (if a = CHR ''0'' then ''  '' else [CHR '' '', a]) @ b #
      (if c = CHR ''0'' then ''  '' else [CHR '' '', c]) @ e # ?s"
    using ab(1-4)[THEN digit_not_space] replace_sub_absent[OF sp] by (simp add: replace_pair)
  finally have w: "syslog_ts t = mon @ (if a = CHR ''0'' then ''  '' else '' '') @ (if a = CHR ''0'' then [b] else [a, b]) @
      (if c = CHR ''0'' then ''  '' else '' '') @ (if c = CHR ''0'' then [e] else [c, e]) @ ?s"
    by simp
  show ?thesis
    unfolding stamp_ok_def w using mon ab mm by (intro exI conjI) (rule refl | simp)+
qed

section \<open>The stamp and the prefix of a line\<close>

definition stamp_parts :: "regex list" where
  "stamp_parts = [Rep 3 Word, Plus Space, Plus Digit, Plus Space, Rep 2 Digit, Lit '':'', Rep 2 Digit, Lit '':'', Rep 2 Digit]"

lemma re_stamps:
  "RE_SYSLOG_TS = Seqs [Bol, Grp 1 (Seqs stamp_parts), Space]"
  "RE_STRIP_SYSLOG = Seqs ([Bol] @ stamp_parts @
     [Plus Space, Plus (Cls (\<lambda>c. \<not> is_space c)), Plus Space, Lit ''kernel:'', Star Space])"
  by (simp_all add: RE_SYSLOG_TS_def RE_STRIP_SYSLOG_def stamp_parts_def)

lemma takes_spaces:
  "set w \<subseteq> {CHR '' ''} \<Longrightarrow> w \<noteq> [] \<Longrightarrow> t = [] \<or> \<not> is_space (hd t) \<Longrightarrow>
   takes (Plus Space) (c, w @ t, cs) (before c w, t, cs)"
  by (rule takes_plus_cls) (auto simp: is_space_def cp_def)

lemma digit_hd: "digits u \<Longrightarrow> \<not> is_space (hd (u @ t))"
  by (cases u) (auto simp: is_digit_def is_space_def)

lemma takes_stamp:
  assumes "stamp_ok True w"
  shows "\<exists>d. takes (Seqs stamp_parts) (c, w @ t, cs) (Some d, t, cs)"
proof -
  obtain mon sp day hsp hh mm ss where w: "w = mon @ sp @ day @ hsp @ hh @ '':'' @ mm @ '':'' @ ss"
    and m: "length mon = 3" "\<forall>c \<in> set mon. is_word c" "sp \<noteq> []" "set sp \<subseteq> {CHR '' ''}" "digits day" "hsp \<noteq> []"
      "set hsp \<subseteq> {CHR '' ''}" "digits hh" "length hh = 2" "digits mm" "length mm = 2" "digits ss" "length ss = 2"
    using assms unfolding stamp_ok_def by auto
  let ?t4 = "mm @ '':'' @ ss @ t"
  let ?t3 = "hh @ '':'' @ ?t4"
  let ?t2 = "hsp @ ?t3"
  let ?t1 = "day @ ?t2"
  let ?t0 = "sp @ ?t1"
  have nd: "\<not> is_digit (hd ?t2)" using m(6,7) by (cases hsp) (auto simp: is_digit_def cp_def)
  have p1: "takes (Rep 3 Word) (c, mon @ ?t0, cs) (before c mon, ?t0, cs)" using m(1,2) by (rule takes_Rep)
  have p2: "takes (Plus Space) (before c mon, ?t0, cs) (before (before c mon) sp, ?t1, cs)"
    using m(3-5) digit_hd by (intro takes_spaces) auto
  have p3: "takes (Plus Digit) (d, ?t1, cs) (before d day, ?t2, cs)" for d
    using m(5) nd by (intro takes_plus_cls) auto
  have p4: "takes (Plus Space) (d, ?t2, cs) (before d hsp, ?t3, cs)" for d
    using m(6-8) digit_hd by (intro takes_spaces) auto
  have p5: "takes (Rep 2 Digit) (d, ?t3, cs) (before d hh, '':'' @ ?t4, cs)" for d
    using m(8,9) by (intro takes_Rep) auto
  have p6: "takes (Rep 2 Digit) (d, ?t4, cs) (before d mm, '':'' @ ss @ t, cs)" for d
    using m(10,11) by (intro takes_Rep) auto
  have p7: "takes (Rep 2 Digit) (d, ss @ t, cs) (before d ss, t, cs)" for d
    using m(12,13) by (intro takes_Rep) auto
  have p8: "takes (Lit '':'') (d, '':'' @ u, cs) (before d '':'', u, cs)" for d u by (rule takes_Lit)
  note p = takes_Seq[OF p1 takes_Seq[OF p2 takes_Seq[OF p3 takes_Seq[OF p4 takes_Seq[OF p5 takes_Seq[OF p8
    takes_Seq[OF p6 takes_Seq[OF p8 p7]]]]]]]]
  show ?thesis unfolding stamp_parts_def Seqs.simps w using p m(12) by (simp add: before_def) blast
qed

text \<open>Host names in lower case.\<close>

definition host_ok :: "string \<Rightarrow> bool" where
  "host_ok host \<longleftrightarrow> host \<noteq> [] \<and> (\<forall>c \<in> set host. is_lower c \<or> is_digit c \<or> c = CHR ''-'' \<or> c = CHR ''.'')"

definition syslog_line :: "string \<Rightarrow> string \<Rightarrow> string \<Rightarrow> string" where
  "syslog_line w host body = w @ '' '' @ host @ '' kernel: '' @ body"

lemma host_chars:
  assumes "host_ok host" "c \<in> set host"
  shows "\<not> is_space c \<and> c \<noteq> CHR ''E'' \<and> c \<noteq> CHR ''('' \<and> c \<noteq> CHR '':'' \<and> c \<noteq> CHR 0x0A"
proof -
  have "is_lower c \<or> is_digit c \<or> c = CHR ''-'' \<or> c = CHR ''.''" using assms by (auto simp: host_ok_def)
  then show ?thesis by (auto simp: is_lower_def is_digit_def is_space_def cp_def)
qed

lemma spaces [simp]: "is_space (CHR '' '')" "\<not> is_space (CHR ''k'')" "\<not> is_space (CHR ''E'')"
  by (simp_all add: is_space_def cp_def)

lemma strip_late:
  assumes "stamp_ok True w" "host_ok host" "body \<noteq> []" "\<not> is_space (hd body)"
  shows "re_drop_prefix RE_STRIP_SYSLOG (syslog_line w host body) = body"
proof -
  let ?r = "\<lambda>c. \<not> is_space c"
  let ?t2 = "''kernel:'' @ '' '' @ body"
  let ?t1 = "host @ '' '' @ ?t2"
  obtain d where p1: "takes (Seqs stamp_parts) (None, w @ '' '' @ ?t1, []) (Some d, '' '' @ ?t1, [])"
    using takes_stamp[OF assms(1)] by blast
  have host: "host \<noteq> []" "\<forall>c \<in> set host. \<not> is_space c"
    using assms(2) host_chars by (auto simp: host_ok_def)
  then have "\<not> is_space (hd ?t1)" by (cases host) auto
  then have p2: "takes (Plus Space) (e, '' '' @ ?t1, []) (before e '' '', ?t1, [])" for e
    by (intro takes_spaces) auto
  have p3: "takes (Plus (Cls ?r)) (e, ?t1, []) (before e host, '' '' @ ?t2, [])" for e
    using host by (intro takes_plus_cls) auto
  have p4: "takes (Plus Space) (e, '' '' @ ?t2, []) (before e '' '', ?t2, [])" for e
    by (intro takes_spaces) auto
  have p5: "takes (Lit ''kernel:'') (e, ?t2, []) (before e ''kernel:'', '' '' @ body, [])" for e by (rule takes_Lit)
  have p6: "takes (Star Space) (e, '' '' @ body, []) (before e '' '', body, [])" for e
    using assms(3,4) by (intro takes_star_cls) auto
  note tail = takes_Seq[OF p2 takes_Seq[OF p3 takes_Seq[OF p4 takes_Seq[OF p5 p6]]]]
  have "\<exists>e. takes (Seqs [Plus Space, Plus (Cls ?r), Plus Space, Lit ''kernel:'', Star Space])
      (Some d, '' '' @ ?t1, []) (e, body, [])"
    unfolding Seqs.simps using tail by blast
  then have "\<exists>e. takes (Seqs (stamp_parts @ [Plus Space, Plus (Cls ?r), Plus Space, Lit ''kernel:'', Star Space]))
      (None, w @ '' '' @ ?t1, []) (e, body, [])"
    using takes_Seqs[OF p1] by (fastforce simp: stamp_parts_def)
  then obtain e where "takes RE_STRIP_SYSLOG (None, w @ '' '' @ ?t1, []) (e, body, [])"
    unfolding re_stamps(2) by (auto simp: takes_def rmatch_Seqs stamp_parts_def)
  then show ?thesis
    using drop_takes[of RE_STRIP_SYSLOG "w @ '' '' @ host @ '' kernel: ''" body e "[]"] by (simp add: syslog_line_def)
qed

lemma stamp_late:
  assumes "stamp_ok True w"
  shows "\<exists>m. re_match RE_SYSLOG_TS (syslog_line w host body) = Some m \<and> grp m 1 = w"
proof -
  let ?t = "'' '' @ host @ '' kernel: '' @ body"
  obtain d where p1: "takes (Seqs stamp_parts) (None, w @ ?t, []) (Some d, ?t, [])"
    using takes_stamp[OF assms] by blast
  have p2: "takes Space (Some d, ?t, [(1, w)]) (Some (CHR '' ''), host @ '' kernel: '' @ body, [(1, w)])"
    by (simp add: takes_def)
  have "takes RE_SYSLOG_TS (None, w @ ?t, []) (Some (CHR '' ''), host @ '' kernel: '' @ body, [(1, w)])"
    unfolding re_stamps(1) Seqs.simps using takes_Seq[OF takes_Bol takes_Seq[OF takes_Grp[OF p1] p2]] .
  from re_match_takes[OF this] show ?thesis by (simp add: syslog_line_def grp_def m_group_def)
qed

text \<open>Before ten o'clock neither expression matches: the hour has one digit and a blank before it.\<close>

lemma takeWhile_before: "c \<notin> set x \<Longrightarrow> takeWhile (\<lambda>d. d \<noteq> c) (x @ c # y) = x"
  by (induction x) auto

lemma words_Seqs_append: "words (Seqs ([Bol] @ rs @ ss)) x \<Longrightarrow> \<exists>u v. x = u @ v \<and> words (Seqs rs) u"
proof -
  have "\<exists>u v. x = u @ v \<and> words (Seqs rs) u" if "words (Seqs (rs @ ss)) x" for x
    using that
  proof (induction rs arbitrary: x rule: Seqs.induct)
    case (2 r)
    then show ?case by (cases ss) (auto intro: exI[of _ "[]"])
  next
    case (3 r r' rs)
    then show ?case by (simp del: words_simps) (metis append_assoc words_simps(3))
  qed auto
  then show "words (Seqs ([Bol] @ rs @ ss)) x \<Longrightarrow> \<exists>u v. x = u @ v \<and> words (Seqs rs) u"
    by (cases "rs @ ss") auto
qed

lemma no_stamp:
  assumes "stamp_ok False w" "w @ t = u @ v" "words (Seqs stamp_parts) u"
  shows False
proof -
  obtain m3 s1 dd s2 hh t2 where u: "u = m3 @ s1 @ dd @ s2 @ hh @ '':'' @ t2" "\<forall>c \<in> set m3. is_word c"
    "\<forall>c \<in> set s1. is_space c" "\<forall>c \<in> set dd. is_digit c" "\<forall>c \<in> set s2. is_space c" "\<forall>c \<in> set hh. is_digit c" "length hh = 2"
    using assms(3) by (auto simp: stamp_parts_def words_plus_cls words_Rep_cls)
  have colon: "\<not> is_word (CHR '':'')" "\<not> is_space (CHR '':'')" "\<not> is_digit (CHR '':'')"
    by (simp_all add: is_word_def is_space_def is_digit_def is_upper_def is_lower_def cp_def)
  have "CHR '':'' \<notin> set (m3 @ s1 @ dd @ s2 @ hh)" using u colon by auto
  then have 1: "takeWhile (\<lambda>c. c \<noteq> CHR '':'') (u @ v) = m3 @ s1 @ dd @ s2 @ hh"
    using takeWhile_before[of "CHR '':''" "m3 @ s1 @ dd @ s2 @ hh" "t2 @ v"] by (simp add: u(1))
  obtain mon sp day hsp h mm where w: "w = mon @ sp @ day @ hsp @ [h] @ '':'' @ mm" "\<forall>c \<in> set mon. is_word c"
    "set sp \<subseteq> {CHR '' ''}" "digits day" "hsp \<noteq> []" "set hsp \<subseteq> {CHR '' ''}" "is_digit h"
    using assms(1) by (auto simp: stamp_ok_def length_Suc_conv)
  have "CHR '':'' \<notin> set (mon @ sp @ day @ hsp @ [h])" using w colon by auto
  then have 2: "takeWhile (\<lambda>c. c \<noteq> CHR '':'') (w @ t) = mon @ sp @ day @ hsp @ [h]"
    using takeWhile_before[of "CHR '':''" "mon @ sp @ day @ hsp @ [h]" "mm @ t"] by (simp add: w(1))
  obtain a b where hh: "hh = [a, b]" using u(7) by (auto simp: length_Suc_conv numeral_2_eq_2)
  have "(m3 @ s1 @ dd @ s2 @ [a]) @ [b] = (mon @ sp @ day @ hsp) @ [h]"
    using 1 2 assms(2) hh by simp
  then have "m3 @ s1 @ dd @ s2 @ [a] = mon @ sp @ day @ hsp" by (simp only: append1_eq_conv)
  then have "a = last hsp" using w(5) by (metis append_assoc last_appendR last_snoc)
  then have "a = CHR '' ''" using w(5,6) last_in_set by blast
  then show False using u(6) hh digit_not_space by auto
qed

lemma early_none:
  assumes "stamp_ok False w"
  shows "re_match RE_SYSLOG_TS (syslog_line w host body) = None"
    "re_drop_prefix RE_STRIP_SYSLOG (syslog_line w host body) = syslog_line w host body"
proof -
  let ?l = "syslog_line w host body"
  have *: "\<not> words (Seqs stamp_parts) u" if "?l = u @ v" for u v
    using no_stamp[OF assms] that unfolding syslog_line_def by blast
  have "re_match r ?l = None" if r: "\<And>x. words r x \<Longrightarrow> \<exists>u v. x = u @ v \<and> words (Seqs stamp_parts) u" for r
  proof (rule ccontr)
    assume "re_match r ?l \<noteq> None"
    then obtain m where "match_ok r ?l m" "m_before m = []" using re_match_ok by blast
    then obtain x after where "?l = x @ after" "words r x" by (auto simp: match_ok_def)
    then show False using r * by (metis append_assoc)
  qed
  note none = this
  have "\<exists>u v. x = u @ v \<and> words (Seqs stamp_parts) u" if "words RE_SYSLOG_TS x" for x
    using that unfolding re_stamps(1) by auto
  then show "re_match RE_SYSLOG_TS ?l = None" by (rule none)
  have "\<exists>u v. x = u @ v \<and> words (Seqs stamp_parts) u" if "words RE_STRIP_SYSLOG x" for x
    using that unfolding re_stamps(2) by (rule words_Seqs_append)
  then have "re_match RE_STRIP_SYSLOG ?l = None" by (rule none)
  then show "re_drop_prefix RE_STRIP_SYSLOG ?l = ?l" by (simp add: re_drop_prefix_def)
qed

section \<open>What the parser finds in a line\<close>

definition edac_re :: "string \<Rightarrow> regex" where
  "edac_re k = Seqs [Lit ''EDAC'', Plus Space, Grp 1 (Seq (Lit ''MC'') (Plus Digit)), Lit '':'',
     Plus Space, Grp 2 (Plus Digit), Plus Space, Lit k, WordB]"

definition edac_body :: "string \<Rightarrow> string \<Rightarrow> string \<Rightarrow> string \<Rightarrow> string" where
  "edac_body k m n r = ''EDAC MC'' @ m @ '': '' @ n @ '' '' @ k @ '' '' @ r"

lemma re_edac: "RE_EDAC_CE = edac_re ''CE''" "RE_EDAC_UE = edac_re ''UE''"
  by (simp_all add: RE_EDAC_CE_def RE_EDAC_UE_def edac_re_def)

lemma word_not: "\<not> is_digit (CHR '':'')" "\<not> is_digit (CHR '' '')" "\<not> is_space (CHR ''M'')" "\<not> is_word (CHR '' '')"
  by (simp_all add: is_word_def is_space_def is_digit_def is_upper_def is_lower_def cp_def)

lemma takes_edac:
  assumes "digits m" "digits n" "k \<noteq> []" "is_word (last k)" "\<not> is_space (hd k)"
  shows "\<exists>d. takes (edac_re k) (c, edac_body k m n r, []) (d, '' '' @ r, [(2, n), (1, ''MC'' @ m)])"
proof -
  let ?t4 = "k @ '' '' @ r"
  let ?t3 = "n @ '' '' @ ?t4"
  let ?t2 = "'':'' @ '' '' @ ?t3"
  let ?t1 = "(''MC'' @ m) @ ?t2"
  let ?cs = "[(1, ''MC'' @ m)]"
  let ?cs' = "[(2, n), (1, ''MC'' @ m)]"
  have p1: "takes (Lit ''EDAC'') (c, ''EDAC'' @ '' '' @ ?t1, []) (before c ''EDAC'', '' '' @ ?t1, [])" by (rule takes_Lit)
  have p2: "takes (Plus Space) (d, '' '' @ ?t1, []) (before d '' '', ?t1, [])" for d
    using word_not by (intro takes_spaces) auto
  have a: "takes (Lit ''MC'') (d, ''MC'' @ m @ ?t2, []) (before d ''MC'', m @ ?t2, [])" for d by (rule takes_Lit)
  have b: "takes (Plus Digit) (d, m @ ?t2, []) (before d m, ?t2, [])" for d
    using assms(1) word_not by (intro takes_plus_cls) auto
  have p3: "takes (Grp 1 (Seq (Lit ''MC'') (Plus Digit))) (d, ?t1, []) (before (before d ''MC'') m, ?t2, ?cs)" for d
    using takes_Seq[OF a b] by (intro takes_Grp) (simp only: append_assoc)
  have p4: "takes (Lit '':'') (d, ?t2, ?cs) (before d '':'', '' '' @ ?t3, ?cs)" for d by (rule takes_Lit)
  have p5: "takes (Plus Space) (d, '' '' @ ?t3, ?cs) (before d '' '', ?t3, ?cs)" for d
    using assms(2) digit_hd by (intro takes_spaces) auto
  have p6: "takes (Grp 2 (Plus Digit)) (d, ?t3, ?cs) (before d n, '' '' @ ?t4, ?cs')" for d
    using assms(2) word_not by (intro takes_Grp takes_plus_cls) auto
  have p7: "takes (Plus Space) (d, '' '' @ ?t4, ?cs') (before d '' '', ?t4, ?cs')" for d
    using assms(3,5) by (intro takes_spaces) auto
  have p8: "takes (Lit k) (d, ?t4, ?cs') (before d k, '' '' @ r, ?cs')" for d by (rule takes_Lit)
  have p9: "takes WordB (before d k, '' '' @ r, ?cs') (before d k, '' '' @ r, ?cs')" for d
    using assms(3,4) word_not by (simp add: takes_def word_opt_def before_def)
  note p = takes_Seq[OF p1 takes_Seq[OF p2 takes_Seq[OF p3 takes_Seq[OF p4 takes_Seq[OF p5 takes_Seq[OF p6
    takes_Seq[OF p7 takes_Seq[OF p8 p9]]]]]]]]
  have "edac_body k m n r = ''EDAC'' @ '' '' @ ?t1" by (simp add: edac_body_def)
  then show ?thesis unfolding edac_re_def Seqs.simps using p by metis
qed

lemma found_edac:
  assumes "CHR ''E'' \<notin> set u" "digits m" "digits n" "k \<noteq> []" "is_word (last k)" "\<not> is_space (hd k)"
  shows "\<exists>t. re_search (edac_re k) (u @ edac_body k m n r) = Some (u, t, [(2, n), (1, ''MC'' @ m)])"
proof -
  obtain d where t: "takes (edac_re k) (hd_opt (rev u), edac_body k m n r, []) (d, '' '' @ r, [(2, n), (1, ''MC'' @ m)])"
    using takes_edac[OF assms(2-6)] by blast
  then show ?thesis unfolding edac_re_def Seqs.simps using re_search_first[OF assms(1)] by blast
qed

lemma dropWhile_run: "\<forall>c \<in> set w. P c \<Longrightarrow> s = [] \<or> \<not> P (hd s) \<Longrightarrow> dropWhile P (w @ s) = s"
  by (cases s) (simp_all add: dropWhile_all)

text \<open>Where the count is followed by another word there is no match.\<close>

lemma other_edac:
  assumes "digits m" "digits n" "words (edac_re (k # l)) x" "x @ v = edac_body (k' # l') m n r"
    "\<not> is_space k" "\<not> is_space k'" "\<not> is_digit k"
  shows "k = k'"
proof -
  obtain s1 m' s2 n' s3 where x: "x = ''EDAC'' @ s1 @ ''MC'' @ m' @ '':'' @ s2 @ n' @ s3 @ k # l"
    and p: "\<forall>c \<in> set s1. is_space c" "\<forall>c \<in> set m'. is_digit c" "\<forall>c \<in> set s2. is_space c" "digits n'"
      "s3 \<noteq> []" "\<forall>c \<in> set s3. is_space c"
    using assms(3) by (auto simp: edac_re_def words_plus_cls)
  have colon: "\<not> is_space (CHR '':'')" "\<not> is_digit (CHR '':'')"
    by (simp_all add: is_space_def is_digit_def cp_def)
  have e1: "x @ v = (''EDAC'' @ s1 @ ''MC'' @ m') @ CHR '':'' # s2 @ n' @ s3 @ k # l @ v" by (simp add: x)
  have 1: "dropWhile (\<lambda>c. c \<noteq> CHR '':'') (x @ v) = CHR '':'' # s2 @ n' @ s3 @ k # l @ v"
    unfolding e1 using p colon by (intro dropWhile_run) auto
  have e2: "x @ v = (''EDAC MC'' @ m) @ CHR '':'' # '' '' @ n @ '' '' @ k' # l' @ '' '' @ r"
    by (simp add: assms(4) edac_body_def)
  have 2: "dropWhile (\<lambda>c. c \<noteq> CHR '':'') (x @ v) = CHR '':'' # '' '' @ n @ '' '' @ k' # l' @ '' '' @ r"
    unfolding e2 using assms(1) colon by (intro dropWhile_run) auto
  have "s2 @ n' @ s3 @ k # l @ v = '' '' @ n @ '' '' @ k' # l' @ '' '' @ r" using 1 2 by simp
  then have "dropWhile is_space (s2 @ n' @ s3 @ k # l @ v) = dropWhile is_space ('' '' @ n @ '' '' @ k' # l' @ '' '' @ r)"
    by (rule arg_cong)
  then have "n' @ s3 @ k # l @ v = n @ '' '' @ k' # l' @ '' '' @ r"
    using dropWhile_run[of s2 is_space "n' @ s3 @ k # l @ v"] dropWhile_run[of "'' ''" is_space "n @ '' '' @ k' # l' @ '' '' @ r"]
      p(3) digit_hd[OF p(4)] digit_hd[OF assms(2)] by simp
  then have "dropWhile is_digit (n' @ s3 @ k # l @ v) = dropWhile is_digit (n @ '' '' @ k' # l' @ '' '' @ r)" by (rule arg_cong)
  moreover have "\<not> is_digit (hd (s3 @ k # l @ v))" using p(5,6) by (cases s3) (auto simp: is_digit_def is_space_def)
  ultimately have "s3 @ k # l @ v = '' '' @ k' # l' @ '' '' @ r"
    using dropWhile_run[of n' is_digit "s3 @ k # l @ v"] dropWhile_run[of n is_digit "'' '' @ k' # l' @ '' '' @ r"]
      p(4) assms(2) word_not by simp
  then have "dropWhile is_space (s3 @ k # l @ v) = dropWhile is_space ('' '' @ k' # l' @ '' '' @ r)" by (rule arg_cong)
  then show ?thesis
    using dropWhile_run[of s3 is_space "k # l @ v"] dropWhile_run[of "'' ''" is_space "k' # l' @ '' '' @ r"] p(6) assms(5,6)
    by simp
qed

lemma not_edac:
  assumes "CHR ''E'' \<notin> set u" "digits m" "digits n" "k \<noteq> k'" "\<not> is_space k" "\<not> is_space k'" "\<not> is_digit k"
    "apart (CHR ''E'') (CHR ''D'') (tl (edac_body (k' # l') m n r))"
  shows "re_search (edac_re (k # l)) (u @ edac_body (k' # l') m n r) = None"
proof -
  let ?r = "edac_re (k # l)" and ?b = "edac_body (k' # l') m n r"
  have r: "?r = Seq (Lit (CHR ''E'' # CHR ''D'' # ''AC'')) (Seqs [Plus Space, Grp 1 (Seq (Lit ''MC'') (Plus Digit)), Lit '':'',
     Plus Space, Grp 2 (Plus Digit), Plus Space, Lit (k # l), WordB])"
    by (simp add: edac_re_def)
  have "rmatch ?r (c, x # t, []) = []" if "x \<in> set u" for x c t
  proof -
    have "x \<noteq> CHR ''E''" using that assms(1) by blast
    then show ?thesis by (simp add: r rmatch_Lit_other)
  qed
  then have "re_search ?r (u @ ?b) = search_at ?r (rev u @ []) ?b"
    unfolding re_search_def by (rule search_at_skip)
  moreover have "rmatch ?r (c, ?b, []) = []" for c
    using other_edac[OF assms(2,3) _ _ assms(5-7)] assms(4) by (intro no_match) blast
  moreover have "?b = CHR ''E'' # tl ?b" by (simp add: edac_body_def)
  moreover have "search_at ?r acc (tl ?b) = None" for acc
    unfolding r by (rule search_at_apart) (rule assms(8))
  ultimately show ?thesis by (metis (no_types, lifting) list.simps(4,5) search_at.simps)
qed

text \<open>The parenthesis of the generator opens with \<open>mc#\<close>: no field is captured. No location is found.\<close>

lemma details_empty:
  assumes "CHR ''('' \<notin> set x"
  shows "\<exists>t. re_search RE_EDAC_DETAILS (x @ ''(mc#'' @ y) = Some (x, t, [])"
proof -
  have "takes RE_EDAC_DETAILS (hd_opt (rev x), ''('' @ ''mc#'' @ y, []) (before (hd_opt (rev x)) ''('', ''mc#'' @ y, [])"
    unfolding RE_EDAC_DETAILS_def Seqs.simps
    by (intro takes_Seq[OF takes_Lit] takes_Seq[OF takes_Opt_none] takes_Opt_none)
      (simp_all add: Lit.simps Chr_def)
  then show ?thesis
    using re_search_first[OF assms] unfolding RE_EDAC_DETAILS_def Seqs.simps
    by (metis append_Cons append_Nil)
qed

lemma location_none:
  assumes "apart (CHR ''w'') (CHR '':'') s"
  shows "re_search RE_EDAC_LOCATION s = None"
proof (rule ccontr)
  assume a: "re_search RE_EDAC_LOCATION s \<noteq> None"
  have "anchor_free RE_EDAC_LOCATION" by (simp add: RE_EDAC_LOCATION_def)
  then obtain u w v where "s = u @ w @ v" "words RE_EDAC_LOCATION w" using a re_search_iff by blast
  then obtain z where "s = (u @ ''csro'') @ ''w:'' @ z" by (auto simp: RE_EDAC_LOCATION_def)
  then show False using assms by (simp only: apart_append) simp
qed

section \<open>One line\<close>

lemma stamp_chars:
  assumes "stamp_ok late w"
  shows "w \<noteq> []" "is_word (hd w)" "CHR ''E'' \<notin> set w" "CHR ''('' \<notin> set w" "apart (CHR ''w'') (CHR '':'') w" "is_digit (last w)"
proof -
  obtain mon sp day hsp hh mm ss where w: "w = mon @ sp @ day @ hsp @ hh @ '':'' @ mm @ '':'' @ ss"
    and m: "length mon = 3" "\<forall>c \<in> set mon. is_word c" "CHR ''E'' \<notin> set mon" "set sp \<subseteq> {CHR '' ''}" "digits day"
      "set hsp \<subseteq> {CHR '' ''}" "digits hh" "digits mm" "digits ss" "sp \<noteq> []"
    using assms unfolding stamp_ok_def by blast
  have par: "\<not> is_word (CHR ''('')" "\<not> is_digit (CHR ''('')" "\<not> is_digit (CHR ''w'')" "\<not> is_digit (CHR ''E'')"
      "\<not> is_word (CHR '':'')" "\<not> is_digit (CHR '':'')"
    by (simp_all add: is_word_def is_digit_def is_upper_def is_lower_def cp_def)
  show "w \<noteq> []" "is_word (hd w)" using m(1,2) w by (cases mon; simp)+
  show "CHR ''E'' \<notin> set w" using m par unfolding w by auto
  show "CHR ''('' \<notin> set w" using m par unfolding w by auto
  show "is_digit (last w)" using m(9) unfolding w by simp
  have "CHR '':'' \<notin> set mon" using m par by blast
  then have "apart (CHR ''w'') (CHR '':'') mon" by (intro apart_absent) simp
  moreover have "CHR ''w'' \<notin> set (sp @ day @ hsp @ hh @ '':'' @ mm @ '':'' @ ss)" using m par by auto
  then have "apart (CHR ''w'') (CHR '':'') (sp @ day @ hsp @ hh @ '':'' @ mm @ '':'' @ ss)" by (intro apart_absent) simp
  moreover have "hd_opt (sp @ day @ hsp @ hh @ '':'' @ mm @ '':'' @ ss) = Some (CHR '' '')" using m by (cases sp) auto
  ultimately show "apart (CHR ''w'') (CHR '':'') w" unfolding w by (subst apart_append) simp
qed

lemma no_monotonic:
  assumes "is_word (hd s)" "s \<noteq> []"
  shows "re_match RE_MONOTONIC s = None" "re_drop_prefix RE_STRIP_MONO s = s"
proof -
  have "\<not> is_word (CHR ''['')" by (simp add: is_word_def is_digit_def is_upper_def is_lower_def cp_def)
  then obtain c t where s: "s = c # t" "c \<noteq> CHR ''[''" using assms by (cases s) auto
  then show "re_match RE_MONOTONIC s = None" "re_drop_prefix RE_STRIP_MONO s = s"
    by (simp_all add: re_drop_prefix_def re_match_def RE_MONOTONIC_def RE_STRIP_MONO_def rmatch_Lit_other)
qed

lemma body_facts:
  assumes "digits m" "digits n" "k = ''CE'' \<or> k = ''UE''"
  shows "edac_body k m n r \<noteq> []" "\<not> is_space (hd (edac_body k m n r))"
    "apart (CHR ''w'') (CHR '':'') r \<Longrightarrow> apart (CHR ''w'') (CHR '':'') (edac_body k m n r)"
    "apart (CHR ''E'') (CHR ''D'') r \<Longrightarrow> apart (CHR ''E'') (CHR ''D'') (tl (edac_body k m n r))"
    "CHR ''('' \<notin> set (''EDAC MC'' @ m @ '': '' @ n @ '' '' @ k @ '' '')"
proof -
  have nd: "CHR ''w'' \<notin> set m" "CHR ''w'' \<notin> set n" "CHR ''E'' \<notin> set m" "CHR ''E'' \<notin> set n"
      "CHR ''('' \<notin> set m" "CHR ''('' \<notin> set n"
    using assms by (auto simp: is_digit_def cp_def)
  show "edac_body k m n r \<noteq> []" "\<not> is_space (hd (edac_body k m n r))" by (simp_all add: edac_body_def)
  show "CHR ''('' \<notin> set (''EDAC MC'' @ m @ '': '' @ n @ '' '' @ k @ '' '')" using nd assms(3) by auto
  let ?u = "''EDAC MC'' @ m @ '': '' @ n @ '' '' @ k @ '' ''"
  have e: "edac_body k m n r = ?u @ r" by (simp add: edac_body_def)
  have "CHR ''w'' \<notin> set ?u" using nd assms(3) by auto
  then have "apart (CHR ''w'') (CHR '':'') ?u" by (intro apart_absent) simp
  then show "apart (CHR ''w'') (CHR '':'') r \<Longrightarrow> apart (CHR ''w'') (CHR '':'') (edac_body k m n r)"
    unfolding e by (subst apart_append) simp
  let ?v = "''DAC MC'' @ m @ '': '' @ n @ '' ''"
  have t: "tl (edac_body k m n r) = ?v @ (k @ '' '') @ r" by (simp add: edac_body_def)
  have "CHR ''E'' \<notin> set ?v" using nd by auto
  then have "apart (CHR ''E'') (CHR ''D'') ?v" by (intro apart_absent) simp
  moreover have "apart (CHR ''E'') (CHR ''D'') (k @ '' '')" using assms(3) by auto
  ultimately show "apart (CHR ''E'') (CHR ''D'') r \<Longrightarrow> apart (CHR ''E'') (CHR ''D'') (tl (edac_body k m n r))"
    unfolding t by (simp only: apart_append) simp
qed

lemma generated_clean:
  assumes "stamp_ok late w" "host_ok host" "body \<noteq> []" "\<not> is_space (hd body)"
  shows "\<exists>u. TraceParser.clean_line (syslog_line w host body) = u @ body \<and>
     CHR ''E'' \<notin> set u \<and> CHR ''('' \<notin> set u \<and> apart (CHR ''w'') (CHR '':'') u \<and> (u = [] \<or> last u = CHR '' '')"
proof -
  note w = stamp_chars[OF assms(1)]
  have mono: "re_drop_prefix RE_STRIP_MONO (syslog_line w host body) = syslog_line w host body"
    using w(1,2) by (intro no_monotonic) (simp_all add: syslog_line_def)
  show ?thesis
  proof (cases late)
    case True
    then show ?thesis
      using mono strip_late[of w host body] assms by (simp add: TraceParser.clean_line_def)
  next
    case False
    let ?u = "w @ '' '' @ host @ '' kernel: ''"
    have h: "CHR ''E'' \<notin> set host" "CHR ''('' \<notin> set host" "CHR '':'' \<notin> set host" using host_chars[OF assms(2)] by blast+
    have "apart (CHR ''w'') (CHR '':'') host" using h by (intro apart_absent) simp
    then have "apart (CHR ''w'') (CHR '':'') ?u" using w(5) by (simp add: apart_append)
    moreover have "TraceParser.clean_line (syslog_line w host body) = ?u @ body"
      using mono early_none(2)[of w host body] assms(1) False by (simp add: TraceParser.clean_line_def syslog_line_def)
    ultimately show ?thesis using w(3,4) h by (intro exI[of _ ?u]) simp
  qed
qed

text \<open>The event of a generated line: type, controller and count are kept, everything else is lost.\<close>

definition bare_event :: "int \<Rightarrow> string \<Rightarrow> event_type \<Rightarrow> string \<Rightarrow> int \<Rightarrow> string \<Rightarrow> hw_event" where
  "bare_event seq stamp ty controller count raw =
     \<lparr>ev_seq = seq, ev_timestamp_str = stamp, ev_timestamp_ns = 0, ev_monotonic_s = None, ev_type = ty,
      ev_subsystem = EDAC, ev_controller = controller, ev_csrow = None, ev_channel = None, ev_count = count,
      ev_page = None, ev_offset = None, ev_grain = None, ev_syndrome = None, ev_pci_device = None,
      ev_aer_error_type = None, ev_raw_message = raw\<rparr>"

lemma classify_generated:
  assumes "digits m" "digits n" "k = ''CE'' \<and> ty = CE \<or> k = ''UE'' \<and> ty = UE" "CHR ''E'' \<notin> set u"
    "apart (CHR ''E'') (CHR ''D'') r"
  shows "\<exists>t. classify (u @ edac_body k m n r) = Some (Edac ty (u, t, [(2, n), (1, ''MC'' @ m)]))"
proof -
  let ?c = "u @ edac_body k m n r"
  have "?c = u @ ''EDAC'' @ '' MC'' @ m @ '': '' @ n @ '' '' @ k @ '' '' @ r" by (simp add: edac_body_def)
  then have c: "contains ''EDAC'' ?c" unfolding contains_iff by blast
  have w: "is_word (CHR ''E'')" "\<not> is_space (CHR ''C'')" "\<not> is_space (CHR ''U'')" "\<not> is_digit (CHR ''C'')"
    by (simp_all add: is_word_def is_space_def is_digit_def is_upper_def cp_def)
  obtain t where t: "re_search (edac_re k) ?c = Some (u, t, [(2, n), (1, ''MC'' @ m)])"
    using found_edac[OF assms(4,1,2), of k r] assms(3) w by auto
  have "\<not> contains ''UE'' u" using assms(4) by (auto simp: contains_iff)
  moreover have "re_search (edac_re ''CE'') ?c = None" if "k = ''UE''"
    using not_edac[OF assms(4,1,2), of "CHR ''C''" "CHR ''U''" "''E''" r "''E''"] w that assms(3)
      body_facts(4)[OF assms(1,2) _ assms(5), of k]
    by simp
  ultimately show ?thesis
    using t c assms(3) by (auto simp: classify_def classify_edac_def or_else_def re_edac m_before_def)
qed

lemma generated_strip:
  assumes "stamp_ok late w" "r \<noteq> []" "last r = CHR '')''"
  shows "strip (syslog_line w host (edac_body k m n r)) = syslog_line w host (edac_body k m n r)"
proof (rule strip_id)
  let ?l = "syslog_line w host (edac_body k m n r)"
  have "is_word c \<Longrightarrow> \<not> is_space c" for c
    by (auto simp: is_word_def is_space_def is_digit_def is_upper_def is_lower_def)
  moreover have "hd ?l = hd w" "last ?l = CHR '')''"
    using stamp_chars(1)[OF assms(1)] assms(2,3) by (simp_all add: syslog_line_def edac_body_def)
  moreover have "\<not> is_space (CHR '')'')" by (simp add: is_space_def cp_def)
  ultimately show "?l = [] \<or> \<not> is_space (hd ?l) \<and> \<not> is_space (last ?l)"
    using stamp_chars(2)[OF assms(1)] by auto
qed

lemma parse_generated:
  fixes seq_state :: parser
  assumes "stamp_ok late w" "host_ok host" "digits m" "digits n" "k = ''CE'' \<and> ty = CE \<or> k = ''UE'' \<and> ty = UE"
    "r = x @ ''(mc#'' @ y" "CHR ''('' \<notin> set x" "apart (CHR ''E'') (CHR ''D'') r" "apart (CHR ''w'') (CHR '':'') r"
    "look_ahead_edac_location lines idx = []" "r \<noteq> []" "last r = CHR '')''"
  defines "line \<equiv> syslog_line w host (edac_body k m n r)"
  shows "parse_line seq_state line lines idx =
     py_bind (to_int n) (\<lambda>c.
       Inr (Some (bare_event (p_seq seq_state) (if late then w else []) ty (''MC'' @ m) c line), bump_seq seq_state))"
proof -
  have k: "k = ''CE'' \<or> k = ''UE''" using assms(5) by blast
  note b = body_facts[OF assms(3,4) k]
  obtain u where u: "TraceParser.clean_line line = u @ edac_body k m n r" "CHR ''E'' \<notin> set u" "CHR ''('' \<notin> set u"
      "apart (CHR ''w'') (CHR '':'') u" "u = [] \<or> last u = CHR '' ''"
    using generated_clean[OF assms(1,2) b(1,2)] unfolding line_def by blast
  have stamp: "extract_timestamp line = Inr (None, if late then w else [])"
  proof -
    have "re_match RE_MONOTONIC line = None"
      using stamp_chars(1,2)[OF assms(1)] by (intro no_monotonic) (simp_all add: line_def syslog_line_def)
    then show ?thesis
      using stamp_late[of w host "edac_body k m n r"] early_none(1)[of w host "edac_body k m n r"] assms(1)
      by (cases late) (auto simp: extract_timestamp_def line_def)
  qed
  obtain t where cl: "classify (u @ edac_body k m n r) = Some (Edac ty (u, t, [(2, n), (1, ''MC'' @ m)]))"
    using classify_generated[OF assms(3,4,5) u(2) assms(8)] by blast
  let ?all = "(u @ edac_body k m n r) @ '' ''"
  have "?all = (u @ ''EDAC MC'' @ m @ '': '' @ n @ '' '' @ k @ '' '' @ x) @ ''(mc#'' @ y @ '' ''"
    by (simp add: edac_body_def assms(6))
  moreover have "CHR ''('' \<notin> set (u @ ''EDAC MC'' @ m @ '': '' @ n @ '' '' @ k @ '' '' @ x)"
    using u(3) b(5) assms(7) by simp
  ultimately obtain td where d: "re_search RE_EDAC_DETAILS ?all = Some (u @ ''EDAC MC'' @ m @ '': '' @ n @ '' '' @ k @ '' '' @ x, td, [])"
    using details_empty by metis
  have "apart (CHR ''w'') (CHR '':'') ?all"
    using u(4,5) b(3)[OF assms(9)] by (auto simp: apart_append)
  then have l: "re_search RE_EDAC_LOCATION ?all = None" by (rule location_none)
  have "strip line = line" unfolding line_def by (rule generated_strip[OF assms(1,11,12)])
  then show ?thesis
    using stamp u(1) cl d l assms(10)
    by (cases "to_int n")
      (simp_all add: parse_line_def make_edac_event_def Let_def grp_def m_group_def opt_group_def
        timestamp_ns_def bare_event_def del: append_assoc)
qed

text \<open>The limit of \<open>int()\<close> is reached by the count of an otherwise normal line: more than 4300 digits raise
  out of the parser.\<close>

lemma long_count_raises:
  assumes "stamp_ok late w" "host_ok host" "digits m" "digits n" "MAX_STR_DIGITS < length n"
  shows "parse_line p (syslog_line w host (edac_body ''CE'' m n ''memory read error (mc#0)''))
     [syslog_line w host (edac_body ''CE'' m n ''memory read error (mc#0)'')] 0 = Inl (ValueError n)"
proof -
  let ?r = "''memory read error (mc#0)''"
  have r: "?r = ''memory read error '' @ ''(mc#'' @ ''0)''" "CHR ''('' \<notin> set ''memory read error ''"
    "?r \<noteq> []" "last ?r = CHR '')''" by simp_all
  have a: "apart (CHR ''E'') (CHR ''D'') ?r" "apart (CHR ''w'') (CHR '':'') ?r" by code_simp+
  have l: "look_ahead_edac_location [line] 0 = []" for line
    by (simp add: look_ahead_edac_location_def window_def)
  have "''CE'' = ''CE'' \<and> CE = CE \<or> ''CE'' = ''UE'' \<and> CE = UE" by simp
  from parse_generated[OF assms(1-4) this r(1,2) a l r(3,4)] to_int_long[OF assms(4,5)]
  show ?thesis by simp
qed

section \<open>A whole log\<close>

text \<open>What the random module promises of its draws.\<close>

definition draw_ok :: "settings \<Rightarrow> draw \<Rightarrow> bool" where
  "draw_ok g d \<longleftrightarrow>
     0 \<le> dr_mc d \<and> dr_mc d < gs_controllers g \<and> 0 \<le> dr_csrow d \<and> dr_csrow d < gs_csrows g \<and>
     0 \<le> dr_channel d \<and> dr_channel d < gs_channels g \<and> 0x10000 \<le> dr_page d \<and> dr_page d \<le> 0xFFFFFF \<and>
     0 \<le> dr_offset d \<and> dr_offset d \<le> 0x3FF \<and> dr_grain d < 3 \<and> 1 \<le> dr_count d \<and> dr_count d \<le> 3 \<and>
     dr_detail d < (if is_ue g d then 2 else 4)"

lemma hex_chars: "0 \<le> n \<Longrightarrow> c \<in> set (digits_of 16 n) \<Longrightarrow> is_digit c \<or> is_lower c"
proof (induction "16 :: int" n rule: digits_of.induct)
  case (1 n)
  have d: "is_digit (digit_chr v) \<or> is_lower (digit_chr v)" if "0 \<le> v" "v < 16" for v
    using that by (simp add: digit_chr_def is_digit_def is_lower_def)
  show ?case
  proof (cases "n < 16")
    case True
    then show ?thesis using 1 d by (simp add: digits_of.simps[of 16 n])
  next
    case False
    then have "c \<in> set (digits_of 16 (n div 16)) \<or> c = digit_chr (n mod 16)"
      using 1 False by (auto simp: digits_of.simps[of 16 n])
    then show ?thesis using 1 False d[of "n mod 16"] by auto
  qed
qed

definition tail_text :: "settings \<Rightarrow> draw \<Rightarrow> string" where
  "tail_text g d =
     (if is_ue g d then UE_DETAILS ! dr_detail d @ '' on MC'' @ str_int (dr_mc d) @ '' csrow'' @ str_int (dr_csrow d)
      else CE_DETAILS (dr_csrow d) ! dr_detail d @ '' on MC'' @ str_int (dr_mc d) @ '' csrow'' @ str_int (dr_csrow d) @
        '' channel'' @ str_int (dr_channel d)) @ location_text d"

lemma log_line_shape:
  "log_line g t d = syslog_line (syslog_ts t) (gs_hostname g)
     (edac_body (if is_ue g d then ''UE'' else ''CE'') (str_int (dr_mc d)) (str_int (dr_count d)) (tail_text g d))"
  by (simp add: log_line_def ue_line_def ce_line_def syslog_line_def edac_body_def tail_text_def)

lemma offset_nonneg: "draw_ok g d \<Longrightarrow> 0 \<le> offset_of d"
  by (simp add: draw_ok_def offset_of_def)

definition detail_text :: "settings \<Rightarrow> draw \<Rightarrow> string" where
  "detail_text g d = (if is_ue g d then UE_DETAILS ! dr_detail d else CE_DETAILS (dr_csrow d) ! dr_detail d)"

definition plain_text :: "string \<Rightarrow> bool" where
  "plain_text s \<longleftrightarrow> CHR ''('' \<notin> set s \<and> CHR '':'' \<notin> set s \<and> CHR 0x0A \<notin> set s"

lemma plain_text_append: "plain_text (u @ v) \<longleftrightarrow> plain_text u \<and> plain_text v"
  by (auto simp: plain_text_def)

lemma marks:
  "\<not> is_digit (CHR ''('')" "\<not> is_digit (CHR '':'')" "\<not> is_digit (CHR 0x0A)" "\<not> is_digit (CHR ''E'')"
  "\<not> is_lower (CHR ''('')" "\<not> is_lower (CHR '':'')" "\<not> is_lower (CHR 0x0A)" "\<not> is_lower (CHR ''E'')"
  by (simp_all add: is_digit_def is_lower_def cp_def)

lemma plain_number: "0 \<le> n \<Longrightarrow> plain_text (str_int n) \<and> CHR ''E'' \<notin> set (str_int n)"
  unfolding plain_text_def using str_int_digits[of n] marks by blast

lemma plain_hex: "0 \<le> n \<Longrightarrow> plain_text (digits_of 16 n) \<and> CHR ''E'' \<notin> set (digits_of 16 n)"
  unfolding plain_text_def using hex_chars[of n] marks by blast

lemma detail_ok:
  assumes "draw_ok g d"
  shows "plain_text (detail_text g d)" "apart (CHR ''E'') (CHR ''D'') (detail_text g d)"
proof -
  have n: "plain_text (str_int (dr_csrow d)) \<and> CHR ''E'' \<notin> set (str_int (dr_csrow d))"
    using plain_number assms by (simp add: draw_ok_def)
  then have a: "apart (CHR ''E'') (CHR ''D'') (str_int (dr_csrow d))" by (intro apart_absent) simp
  have "dr_detail d < 2 \<or> \<not> is_ue g d \<and> dr_detail d < 4" using assms by (auto simp: draw_ok_def split: if_splits)
  then have "dr_detail d = 0 \<or> dr_detail d = 1 \<or> \<not> is_ue g d \<and> (dr_detail d = 2 \<or> dr_detail d = 3)" by linarith
  then show "plain_text (detail_text g d)" "apart (CHR ''E'') (CHR ''D'') (detail_text g d)"
    using n a by (auto simp: detail_text_def UE_DETAILS_def CE_DETAILS_def plain_text_def numeral_2_eq_2 numeral_3_eq_3)
qed

definition place_text :: "settings \<Rightarrow> draw \<Rightarrow> string" where
  "place_text g d = '' on MC'' @ str_int (dr_mc d) @ '' csrow'' @ str_int (dr_csrow d) @
     (if is_ue g d then [] else '' channel'' @ str_int (dr_channel d)) @ '' ''"

definition paren_text :: "draw \<Rightarrow> string" where
  "paren_text d = str_int (dr_mc d) @ '' page 0x'' @ digits_of 16 (dr_page d) @ '' offset 0x'' @ digits_of 16 (offset_of d) @
     '' grain '' @ str_int (GRAINS ! dr_grain d)"

lemma tail_text_split: "tail_text g d = detail_text g d @ place_text g d @ ''(mc#'' @ paren_text d @ '')''"
  by (simp add: tail_text_def detail_text_def place_text_def paren_text_def location_text_def)

lemma grain_nonneg: "draw_ok g d \<Longrightarrow> 0 \<le> GRAINS ! dr_grain d"
proof -
  assume "draw_ok g d"
  then have "dr_grain d = 0 \<or> dr_grain d = 1 \<or> dr_grain d = 2" by (auto simp: draw_ok_def)
  then show ?thesis by (auto simp: GRAINS_def)
qed

lemma parts_plain:
  assumes "draw_ok g d"
  shows "plain_text (place_text g d) \<and> CHR ''E'' \<notin> set (place_text g d)"
    "plain_text (paren_text d) \<and> CHR ''E'' \<notin> set (paren_text d)"
proof -
  note n = plain_number plain_hex offset_nonneg[OF assms] grain_nonneg[OF assms]
  have d: "0 \<le> dr_mc d" "0 \<le> dr_csrow d" "0 \<le> dr_channel d" "0 \<le> dr_page d" using assms by (simp_all add: draw_ok_def)
  show "plain_text (place_text g d) \<and> CHR ''E'' \<notin> set (place_text g d)"
    using n(1)[OF d(1)] n(1)[OF d(2)] n(1)[OF d(3)] by (auto simp: place_text_def plain_text_def)
  show "plain_text (paren_text d) \<and> CHR ''E'' \<notin> set (paren_text d)"
    using n(1)[OF d(1)] n(2)[OF d(4)] n(2)[OF n(3)] n(1)[OF n(4)] by (auto simp: paren_text_def plain_text_def)
qed

lemma tail_text_shape:
  assumes "draw_ok g d"
  shows "tail_text g d = (detail_text g d @ place_text g d) @ ''(mc#'' @ paren_text d @ '')''"
    "CHR ''('' \<notin> set (detail_text g d @ place_text g d)" "apart (CHR ''E'') (CHR ''D'') (tail_text g d)"
    "apart (CHR ''w'') (CHR '':'') (tail_text g d)" "tail_text g d \<noteq> []" "last (tail_text g d) = CHR '')''"
    "CHR 0x0A \<notin> set (tail_text g d)"
proof -
  note p = parts_plain[OF assms] detail_ok[OF assms]
  let ?b = "place_text g d @ ''(mc#'' @ paren_text d @ '')''"
  have "CHR ''E'' \<notin> set ?b" using p(1,2) by simp
  then have "apart (CHR ''E'') (CHR ''D'') ?b" by (intro apart_absent) simp
  moreover have "hd_opt ?b = Some (CHR '' '')" by (simp add: place_text_def)
  ultimately show "apart (CHR ''E'') (CHR ''D'') (tail_text g d)"
    unfolding tail_text_split using p(4) by (subst apart_append) simp
  have "CHR '':'' \<notin> set (tail_text g d)" using p unfolding tail_text_split plain_text_def by simp
  then show "apart (CHR ''w'') (CHR '':'') (tail_text g d)" by (intro apart_absent) simp
qed (use parts_plain[OF assms] detail_ok[OF assms] in \<open>simp_all add: tail_text_split plain_text_def\<close>)

lemma log_line_apart:
  assumes "draw_ok g d" "dt_ok t" "host_ok (gs_hostname g)"
  shows "apart (CHR ''w'') (CHR '':'') (log_line g t d)" "CHR 0x0A \<notin> set (log_line g t d)" "log_line g t d \<noteq> []"
    "hd (log_line g t d) = hd (syslog_ts t)"
proof -
  let ?h = "gs_hostname g" and ?m = "str_int (dr_mc d)" and ?n = "str_int (dr_count d)"
  let ?k = "if is_ue g d then ''UE'' else ''CE''"
  note w = stamp_chars[OF syslog_ts_shape[OF assms(2)]]
  have h: "CHR '':'' \<notin> set ?h" "CHR 0x0A \<notin> set ?h" using host_chars[OF assms(3)] by blast+
  have mn: "0 \<le> dr_mc d" "0 \<le> dr_count d" using assms(1) by (simp_all add: draw_ok_def)
  have dg: "digits ?m" "digits ?n" using str_int_digits mn by (auto simp: str_int_def)
  have "apart (CHR ''w'') (CHR '':'') ?h" using h by (intro apart_absent) simp
  moreover have "apart (CHR ''w'') (CHR '':'') (edac_body ?k ?m ?n (tail_text g d))"
    using body_facts(3)[OF dg _ tail_text_shape(4)[OF assms(1)], of ?k] by simp
  ultimately show "apart (CHR ''w'') (CHR '':'') (log_line g t d)"
    using w(5) unfolding log_line_shape syslog_line_def by (simp add: apart_append)
  have "CHR 0x0A \<notin> set (syslog_ts t)"
  proof -
    obtain mon sp day hsp hh mm ss where e: "syslog_ts t = mon @ sp @ day @ hsp @ hh @ '':'' @ mm @ '':'' @ ss"
      and m: "\<forall>c \<in> set mon. is_word c" "set sp \<subseteq> {CHR '' ''}" "digits day" "set hsp \<subseteq> {CHR '' ''}" "digits hh" "digits mm" "digits ss"
      using syslog_ts_shape[OF assms(2)] unfolding stamp_ok_def by blast
    have "\<not> is_word (CHR 0x0A)" by (simp add: is_word_def is_digit_def is_upper_def is_lower_def cp_def)
    then show ?thesis using m marks(3) unfolding e by auto
  qed
  moreover have "CHR 0x0A \<notin> set ?m" "CHR 0x0A \<notin> set ?n" using plain_number mn by (auto simp: plain_text_def)
  ultimately show "CHR 0x0A \<notin> set (log_line g t d)"
    unfolding log_line_shape using h tail_text_shape(7)[OF assms(1)] by (auto simp: syslog_line_def edac_body_def)
  show "log_line g t d \<noteq> []" "hd (log_line g t d) = hd (syslog_ts t)"
    using w(1) by (simp_all add: log_line_shape syslog_line_def)
qed

text \<open>The lines of the file.\<close>

lemma readlines_acc_line: "newline \<notin> set l \<Longrightarrow> readlines_acc acc (l @ newline # s) = (rev acc @ l @ [newline]) # readlines_acc [] s"
  by (induction l arbitrary: acc) auto

lemma readlines_join:
  "list_all (\<lambda>l. newline \<notin> set l) ls \<Longrightarrow> ls \<noteq> [] \<Longrightarrow> readlines (join [newline] ls @ [newline]) = map (\<lambda>l. l @ [newline]) ls"
proof (induction ls rule: induct_list012)
  case (3 l l' ls)
  then show ?case using readlines_acc_line[of l "[]"] by (simp add: readlines_def)
qed (use readlines_acc_line[of _ "[]" "[]"] in \<open>auto simp: readlines_def\<close>)

lemma chomp_line: "newline \<notin> set l \<Longrightarrow> chomp (l @ [newline]) = l"
proof -
  assume l: "newline \<notin> set l"
  have n: "char_of (10 :: int) = newline" by code_simp
  have "rstrip_by (\<lambda>x. x = newline) l = l"
    using l by (intro rstrip_by_id) (metis last_in_set)
  then show ?thesis by (simp add: chomp_def rstrip_chr_def n rstrip_by_snoc)
qed

text \<open>What the parser returns for event number \<open>i\<close> of the log.\<close>

definition parsed_event :: "settings \<Rightarrow> nat \<Rightarrow> datetime \<Rightarrow> draw \<Rightarrow> hw_event" where
  "parsed_event g i t d =
     bare_event (int i) (if 10 \<le> dt_hour t then syslog_ts t else []) (if is_ue g d then UE else CE)
       (''MC'' @ str_int (dr_mc d)) (dr_count d) (log_line g t d)"

lemma first_location_none: "list_all (\<lambda>l. re_search RE_EDAC_LOCATION (chomp l) = None) ls \<Longrightarrow> first_location ls = []"
  by (induction ls) simp_all

lemma look_ahead_none:
  "list_all (\<lambda>l. re_search RE_EDAC_LOCATION (chomp l) = None) ls \<Longrightarrow> look_ahead_edac_location ls idx = []"
  unfolding look_ahead_edac_location_def window_def
  by (rule first_location_none) (auto simp: list_all_iff dest: in_set_takeD in_set_dropD)

lemma parse_log_line:
  assumes "draw_ok g d" "dt_ok t" "host_ok (gs_hostname g)" "look_ahead_edac_location lines idx = []" "p_seq p = int i"
  shows "parse_line p (log_line g t d) lines idx = Inr (Some (parsed_event g i t d), bump_seq p)"
proof -
  let ?k = "if is_ue g d then ''UE'' else ''CE''" and ?ty = "if is_ue g d then UE else CE"
  have mn: "0 \<le> dr_mc d" "0 \<le> dr_count d" using assms(1) by (simp_all add: draw_ok_def)
  have dg: "digits (str_int (dr_mc d))" "digits (str_int (dr_count d))" using str_int_digits mn by (auto simp: str_int_def)
  have k: "?k = ''CE'' \<and> ?ty = CE \<or> ?k = ''UE'' \<and> ?ty = UE" by simp
  note tt = tail_text_shape[OF assms(1)]
  have "small_int (dr_count d)" using assms(1) by (intro small_int_64) (simp add: draw_ok_def)
  then have "to_int (str_int (dr_count d)) = Inr (dr_count d)" by (simp add: to_int_def py_int_str_int)
  then show ?thesis
    using parse_generated[OF syslog_ts_shape[OF assms(2)] assms(3) dg k tt(1-4) assms(4) tt(5,6)] assms(5)
    unfolding log_line_shape parsed_event_def by simp
qed

lemma parse_lines_generated:
  fixes p :: parser
  assumes "list_all (draw_ok g) ds" "list_all dt_ok ts" "host_ok (gs_hostname g)" "length ts = length ds"
    "list_all (\<lambda>l. re_search RE_EDAC_LOCATION (chomp l) = None) lines"
    "p_seq p = int n" "p_event_types p = p_event_types (parser_init None)"
  shows "parse_lines p lines i (map (\<lambda>l. l @ [newline]) (map2 (log_line g) ts ds)) =
     Inr (map2 (\<lambda>j (t, d). parsed_event g j t d) [n..<n + length ds] (zip ts ds), p\<lparr>p_seq := int (n + length ds)\<rparr>)"
  using assms(1,2,4,6,7)
proof (induction ds arbitrary: ts p i n)
  case Nil
  then show ?case by simp
next
  case (Cons d ds)
  then obtain t ts' where ts: "ts = t # ts'" by (cases ts) auto
  let ?l = "log_line g t d"
  have d: "draw_ok g d" "dt_ok t" using Cons.prems ts by simp_all
  note l = log_line_apart[OF d assms(3)]
  have c: "chomp (?l @ [newline]) = ?l" using chomp_line l(2) by (simp add: newline_def)
  have "strip ?l = ?l"
    unfolding log_line_shape using generated_strip[OF syslog_ts_shape[OF d(2)] tail_text_shape(5,6)[OF d(1)]] .
  then have s: "strip ?l \<noteq> []" using l(3) by simp
  have pl: "parse_line p ?l lines i = Inr (Some (parsed_event g n t d), bump_seq p)"
    using parse_log_line[OF d assms(3) look_ahead_none[OF assms(5)]] Cons.prems(4) by blast
  have rest: "parse_lines (bump_seq p) lines (i + 1) (map (\<lambda>l. l @ [newline]) (map2 (log_line g) ts' ds)) =
     Inr (map2 (\<lambda>j (t, d). parsed_event g j t d) [Suc n..<Suc n + length ds] (zip ts' ds),
       (bump_seq p)\<lparr>p_seq := int (Suc n + length ds)\<rparr>)"
    using Cons.prems ts by (intro Cons.IH) (simp_all add: bump_seq_def)
  have ty: "event_type_name (ev_type (parsed_event g n t d)) \<in> set (p_event_types p)"
    using Cons.prems(5) by (simp add: parsed_event_def bare_event_def parser_init_def)
  have up: "[n..<n + length (d # ds)] = n # [Suc n..<Suc n + length ds]" by (subst upt_conv_Cons) (simp_all del: upt_Suc)
  show ?case
    unfolding ts up using c s pl rest ty by (simp add: bump_seq_def)
qed

lemma list_all_mapI: "(\<And>x. x \<in> set xs \<Longrightarrow> P (f x)) \<Longrightarrow> list_all P (map f xs)"
  by (simp add: list_all_iff)

lemma gen_times_ok: "gen_times g i t ds = Inr ts \<Longrightarrow> date_ok t \<Longrightarrow> length ts = length ds \<and> list_all dt_ok ts"
proof (induction ds arbitrary: i t ts)
  case (Cons d ds)
  then obtain t' ts' where t: "gen_event g i t d = Inr t'" "gen_times g (Suc i) t' ds = Inr ts'" "ts = t' # ts'"
    by (auto simp: py_bind_eq_Inr)
  then have "dt_ok t'"
    using dt_add_ok[OF Cons.prems(2)] by (auto simp: gen_event_def Let_def py_bind_eq_Inr split: if_splits)
  moreover from this have "length ts' = length ds \<and> list_all dt_ok ts'"
    using Cons.IH[OF t(2)] by (simp add: dt_ok_def[of t'])
  ultimately show ?case using t(3) by simp
qed simp

definition demo_settings :: settings where
  "demo_settings = \<lparr>gs_rate = 1, gs_controllers = 2, gs_csrows = 4, gs_channels = 2, gs_burst = False,
     gs_ue_rate = 1 / 50, gs_hostname = ''arm64-node-01''\<rparr>"

definition demo_start :: datetime where
  "demo_start = \<lparr>dt_year = 2024, dt_month = 1, dt_day = 15, dt_us = 28800000000\<rparr>"

definition demo_draw :: draw where
  "demo_draw = \<lparr>dr_gap = (\<lambda>r. 7199000000), dr_mc = 1, dr_csrow = 3, dr_channel = 0, dr_page = 0x1abcd,
     dr_offset = 0x155, dr_grain = 1, dr_count = 2, dr_random = 1 / 2, dr_detail = 1\<rparr>"

text \<open>C24: whatever the generator draws, its log is read back by the trace parser as one event per line,
  numbered in order, with the type, the controller and the count that were drawn - and with nothing
  else: csrow, channel, page, offset and grain are lost, because the generator writes \<open>csrow3\<close> and
  \<open>mc#1 page 0x\<close> where the parser reads \<open>csrow:3\<close> and \<open>mc:1 page:0x\<close>; and the time stamp is lost
  before ten o'clock, because the blank in the hour fits no expression of the parser.\<close>

theorem generated_log_parsed:
  assumes "host_ok (gs_hostname g)" "date_ok start" "list_all (draw_ok g) draws" "gen_times g 0 start draws = Inr ts"
  shows "py_bind (log_text g start draws) (\<lambda>s. parse_file (parser_init None) (readlines s)) =
     Inr (map2 (\<lambda>i (t, d). parsed_event g i t d) [0..<length draws] (zip ts draws),
       (parser_init None)\<lparr>p_seq := int (length draws)\<rparr>)"
proof (cases "draws = []")
  case True
  then have "ts = []" using assms(4) by simp
  have "strip (chomp [newline]) = []"
    using chomp_line[of "[]"] by (simp add: strip_def rstrip_def lstrip_def rstrip_by_def)
  with \<open>ts = []\<close> show ?thesis
    using True by (simp add: log_text_def generate_events_def readlines_def parse_file_def parser_init_def)
next
  case False
  let ?ls = "map2 (log_line g) ts draws"
  have ts: "length ts = length draws" "list_all dt_ok ts" using gen_times_ok[OF assms(4,2)] by simp_all
  have l: "apart (CHR ''w'') (CHR '':'') l \<and> newline \<notin> set l" if h: "l \<in> set ?ls" for l
  proof -
    obtain t d where td: "(t, d) \<in> set (zip ts draws)" "l = log_line g t d" using h by auto
    then have "draw_ok g d" "dt_ok t" using assms(3) ts(2) by (auto simp: list_all_iff dest: set_zip_leftD set_zip_rightD)
    then show ?thesis using log_line_apart assms(1) unfolding td(2) newline_def by blast
  qed
  have "re_search RE_EDAC_LOCATION (chomp (l @ [newline])) = None" if "l \<in> set ?ls" for l
    using l[OF that] location_none chomp_line by simp
  then have none: "list_all (\<lambda>l. re_search RE_EDAC_LOCATION (chomp l) = None) (map (\<lambda>l. l @ [newline]) ?ls)"
    by (rule list_all_mapI)
  have "?ls \<noteq> []" using False ts(1) by (cases draws; cases ts) auto
  then have r: "readlines (join [newline] ?ls @ [newline]) = map (\<lambda>l. l @ [newline]) ?ls"
    using list_all_mapI[of ?ls "\<lambda>l. newline \<notin> set l" "\<lambda>l. l"] l by (intro readlines_join) simp_all
  show ?thesis
    using parse_lines_generated[OF assms(3) ts(2) assms(1) ts(1) none, of "parser_init None" 0 0]
    by (simp add: log_text_def generate_events_def assms(4) parse_file_def r parser_init_def)
qed

lemma demo_times: "gen_times demo_settings 0 demo_start [demo_draw, demo_draw\<lparr>dr_random := 0\<rparr>] =
    Inr [demo_start\<lparr>dt_us := 35999000000\<rparr>, demo_start\<lparr>dt_us := 43198000000\<rparr>]"
  by code_simp

theorem generated_log_parsed_witness:
  "\<exists>evs p. py_bind (log_text demo_settings demo_start [demo_draw, demo_draw\<lparr>dr_random := 0\<rparr>])
      (\<lambda>s. parse_file (parser_init None) (readlines s)) = Inr (evs, p) \<and>
    map ev_type evs = [CE, UE] \<and> map ev_timestamp_str evs = [[], ''Jan 15 11:59:58''] \<and> map ev_page evs = [None, None]"
proof -
  have "host_ok (gs_hostname demo_settings)" "date_ok demo_start"
    "list_all (draw_ok demo_settings) [demo_draw, demo_draw\<lparr>dr_random := 0\<rparr>]"
    by code_simp+
  note g = generated_log_parsed[OF this demo_times]
  have "is_ue demo_settings demo_draw = False" "is_ue demo_settings (demo_draw\<lparr>dr_random := 0\<rparr>) = True"
    "syslog_ts (demo_start\<lparr>dt_us := 43198000000\<rparr>) = ''Jan 15 11:59:58''"
    "10 \<le> dt_hour (demo_start\<lparr>dt_us := 35999000000\<rparr>) = False" "10 \<le> dt_hour (demo_start\<lparr>dt_us := 43198000000\<rparr>) = True"
    by code_simp+
  then show ?thesis unfolding g by (simp add: parsed_event_def bare_event_def upt_rec)
qed

end
