(* ===== verification/Forecaster.thy ===== *)
theory Forecaster
  imports MlExporter
begin

text \<open>
  The forecaster \<open>ml/ce_forecaster.py\<close>: the answer of Prometheus, the failure probability of a forecast,
  the three files of a model, and the loop over the series. Prophet, pickle, the hash, the printing of
  JSON, the clocks and which files can be opened are fields of an environment; a time is in nanoseconds
  as pandas keeps it.
\<close>

section \<open>The answer of Prometheus\<close>

type_synonym points = "(int \<times> pf) list"

definition series_key :: "(json \<Rightarrow> string) \<Rightarrow> json \<Rightarrow> string py" where
  "series_key show s =
     py_bind (jitem s ''metric'') (\<lambda>metric.
     py_bind (jget metric ''mc'' (JStr ''0'')) (\<lambda>mc.
     py_bind (jget metric ''csrow'' (JStr ''0'')) (\<lambda>csrow.
     py_bind (jget metric ''instance'' (JStr ''unknown'')) (\<lambda>inst.
     Inr (''instance=\"'' @ jstr show inst @ ''\",mc=\"'' @ jstr show mc @ ''\",csrow=\"'' @ jstr show csrow @ ''\"'')))))"

text \<open>A row, unless its value is not a number; \<open>stamp\<close> is \<open>pd.Timestamp\<close>.\<close>

definition series_row :: "(pf \<Rightarrow> int py) \<Rightarrow> json \<Rightarrow> points py" where
  "series_row stamp v =
     py_bind (jnth v 1) (\<lambda>y.
     if y \<in> {JStr ''NaN'', JStr ''Inf'', JStr ''+Inf''} then Inr []
     else py_bind (jnth v 0) (\<lambda>t. py_bind (jfloat t) (\<lambda>t. py_bind (stamp t) (\<lambda>ds.
       py_bind (jfloat y) (\<lambda>y. Inr [(ds, y)])))))"

definition series_rows :: "(pf \<Rightarrow> int py) \<Rightarrow> json \<Rightarrow> points py" where
  "series_rows stamp s =
     py_bind (jitem s ''values'') (\<lambda>vs. py_bind (jiter vs) (\<lambda>vs.
     py_bind (py_mapM (series_row stamp) vs) (\<lambda>rows. Inr (concat rows))))"

fun series_loop :: "(json \<Rightarrow> string) \<Rightarrow> (pf \<Rightarrow> int py) \<Rightarrow> json list \<Rightarrow> (string, points) dict \<Rightarrow> (string, points) dict py" where
  "series_loop show stamp [] d = Inr d"
| "series_loop show stamp (s # ss) d =
     py_bind (series_key show s) (\<lambda>key. py_bind (series_rows stamp s) (\<lambda>rows.
     series_loop show stamp ss (if rows = [] then d else dset key rows d)))"

definition fetch_series :: "(json \<Rightarrow> string) \<Rightarrow> (pf \<Rightarrow> int py) \<Rightarrow> json \<Rightarrow> (string, points) dict py" where
  "fetch_series show stamp data =
     py_bind (jitem data ''status'') (\<lambda>status.
     if status \<noteq> JStr ''success''
     then py_bind (jget data ''error'' JNull) (\<lambda>e. Inl (RuntimeError (''Prometheus: '' @ jstr show e)))
     else py_bind (result_list data) (\<lambda>rs. series_loop show stamp rs []))"

section \<open>The probability of a failure\<close>

text \<open>The rows of a forecast: the time and the upper bound.\<close>

type_synonym forecast_rows = "(int \<times> pf) list"

definition DAY_NS :: int where "DAY_NS = 86400000000000"
definition THRESHOLD_RATE :: rat where "THRESHOLD_RATE = rnd (1 / 1000000)"

definition forecast_window :: "forecast_rows \<Rightarrow> int \<Rightarrow> int \<Rightarrow> forecast_rows" where
  "forecast_window fc now horizon_days = filter (\<lambda>(ds, _). now \<le> ds \<and> ds \<le> now + horizon_days * DAY_NS) fc"

definition failure_probability :: "forecast_rows \<Rightarrow> int \<Rightarrow> int \<Rightarrow> rat" where
  "failure_probability fc now horizon_days =
     (let window = forecast_window fc now horizon_days in
      if window = [] then 0
      else let above = length (filter (\<lambda>(_, upper). pf_less (Fin THRESHOLD_RATE) upper) window);
               prob = rnd (fint (int above) / fint (int (length window)))
           in min 1 prob)"

section \<open>The files of a model\<close>

type_synonym files = "(string, string) dict"

text \<open>\<open>str(model_dir / name)\<close>: empty parts and dots of the name are dropped.\<close>

definition path_join :: "string \<Rightarrow> string \<Rightarrow> string" where
  "path_join dir name =
     (let n = join ''/'' (filter (\<lambda>p. p \<noteq> [] \<and> p \<noteq> ''.'') (split_on (CHR ''/'') name))
      in if dir = ''.'' then n else if dir = ''/'' then ''/'' @ n else dir @ ''/'' @ n)"

definition safe_key :: "string \<Rightarrow> string" where
  "safe_key label_key = replace_chr (CHR ''='') ''-'' (replace_chr (CHR '','') ''_'' (replace_chr (CHR 0x22) [] label_key))"

definition model_path :: "string \<Rightarrow> string \<Rightarrow> string" where
  "model_path dir label_key = path_join dir (safe_key label_key @ ''.pkl'')"

definition meta_path :: "string \<Rightarrow> string \<Rightarrow> string" where
  "meta_path dir label_key = path_join dir (safe_key label_key @ ''.json'')"

text \<open>What the forecaster asks of its surroundings; a dump may stop half-way.\<close>

record 'm forecast_env =
  fe_fit :: "points \<Rightarrow> int \<Rightarrow> ('m \<times> forecast_rows) py"
  fe_dump :: "'m \<Rightarrow> string \<times> bool"
  fe_sha256 :: "string \<Rightarrow> string"
  fe_json_text :: "json \<Rightarrow> string"
  fe_opens :: "string \<Rightarrow> bool"
  fe_stamp_now :: "string \<Rightarrow> int \<Rightarrow> int"
  fe_time :: "string \<Rightarrow> rat"

definition metadata :: "rat \<Rightarrow> rat \<Rightarrow> nat \<Rightarrow> string \<Rightarrow> rat \<Rightarrow> nat \<Rightarrow> string \<Rightarrow> json" where
  "metadata p7 p30 n label_key trained_at rows path =
     JObj [(''failure_probability_7d'', JFloat p7), (''failure_probability_30d'', JFloat p30),
       (''data_points'', JInt (int n)), (''label_key'', JStr label_key), (''trained_at'', JFloat trained_at),
       (''forecast_rows'', JInt (int rows)), (''model_path'', JStr path)]"

definition save_model ::
    "'m forecast_env \<Rightarrow> string \<Rightarrow> 'm \<Rightarrow> nat \<Rightarrow> string \<Rightarrow> json \<Rightarrow> files \<Rightarrow> string py \<times> files" where
  "save_model env dir model rows label_key meta files =
     (let path = model_path dir label_key in
      if \<not> fe_opens env path then (Inl OSError, files)
      else let (bytes, done) = fe_dump env model; files = dset path bytes files in
      if \<not> done then (Inl (RuntimeError ''pickle''), files)
      else let digest = fe_sha256 env (dgetd files path []) in
      if \<not> fe_opens env (sha_path path) then (Inl OSError, files)
      else let files = dset (sha_path path) (digest @ [CHR 0x0A]) files in
      if \<not> fe_opens env (meta_path dir label_key) then (Inl OSError, files)
      else (Inr path, dset (meta_path dir label_key) (fe_json_text env meta) files))"

section \<open>The run\<close>

record forecast_args =
  fa_dir :: string
  fa_horizon :: int
  fa_min_points :: int
  fa_dry_run :: bool

record forecast_state =
  fs_files :: files
  fs_trained :: nat
  fs_skipped :: nat

definition train_series :: "'m forecast_env \<Rightarrow> forecast_args \<Rightarrow> string \<Rightarrow> points \<Rightarrow> forecast_state \<Rightarrow> forecast_state" where
  "train_series env a label_key df st =
     (if int (length df) < fa_min_points a then st\<lparr>fs_skipped := fs_skipped st + 1\<rparr>
      else case fe_fit env df (fa_horizon a * 24) of
        Inl e \<Rightarrow> st
      | Inr (model, fc) \<Rightarrow>
          (let p7 = failure_probability fc (fe_stamp_now env label_key 7) 7;
               p30 = failure_probability fc (fe_stamp_now env label_key 30) 30
           in if fa_dry_run a then st
              else let path = model_path (fa_dir a) label_key;
                       meta = metadata p7 p30 (length df) label_key (fe_time env label_key) (length fc) path;
                       (r, files) = save_model env (fa_dir a) model (length fc) label_key meta (fs_files st)
                   in case r of
                        Inl e \<Rightarrow> st\<lparr>fs_files := files\<rparr>
                      | Inr p \<Rightarrow> st\<lparr>fs_files := files, fs_trained := fs_trained st + 1\<rparr>))"

text \<open>\<open>main\<close>: an answer that cannot be read ends the run with status 1.\<close>

definition forecaster_main ::
    "(json \<Rightarrow> string) \<Rightarrow> (pf \<Rightarrow> int py) \<Rightarrow> 'm forecast_env \<Rightarrow> forecast_args \<Rightarrow> json py \<Rightarrow> files \<Rightarrow> forecast_state py" where
  "forecaster_main show stamp env a answer files =
     (case py_bind answer (fetch_series show stamp) of
        Inl e \<Rightarrow> Inl e
      | Inr series_map \<Rightarrow>
          Inr (fold (\<lambda>(key, df). train_series env a key df) series_map
            \<lparr>fs_files = files, fs_trained = 0, fs_skipped = 0\<rparr>))"

section \<open>Bounds\<close>

lemma fint_le: "n \<le> m \<Longrightarrow> fint n \<le> fint m"
  by (simp add: fint_def rnd_mono)

lemma fint_pos: "0 < n \<Longrightarrow> 1 \<le> fint n"
  using fint_le[of 1 n] fint_small[of 1] by simp

text \<open>The probability is one; it is 0 when no hour is above the threshold and 1 when all are.\<close>

lemma failure_probability_bounds: "0 \<le> failure_probability fc now days \<and> failure_probability fc now days \<le> 1"
proof (cases "forecast_window fc now days = []")
  case False
  let ?w = "forecast_window fc now days"
  let ?a = "length (filter (\<lambda>(_, upper). pf_less (Fin THRESHOLD_RATE) upper) ?w)"
  have "0 \<le> fint (int ?a)" using fint_le[of 0 "int ?a"] by (simp add: fint_def)
  moreover have "1 \<le> fint (int (length ?w))" using False by (intro fint_pos) simp
  ultimately have "0 \<le> fint (int ?a) / fint (int (length ?w))" by simp
  then have "0 \<le> rnd (fint (int ?a) / fint (int (length ?w)))" by (rule rnd_nonneg)
  with False show ?thesis by (simp add: failure_probability_def Let_def)
qed (simp add: failure_probability_def Let_def)

text \<open>It is the share of the hours, so a longer horizon can make the failure less likely.\<close>

lemma longer_horizon_less_likely:
  "failure_probability [(0, Fin 1), (10 * DAY_NS, Fin 0)] 0 30 < failure_probability [(0, Fin 1), (10 * DAY_NS, Fin 0)] 0 7"
  by code_simp

section \<open>The names of the files\<close>

lemma split_on_end: "c \<notin> set t \<Longrightarrow> \<exists>ps w. split_on c (s @ t) = ps @ [w @ t]"
proof (induction s)
  case Nil
  then show ?case using split_on_single[of c t] by (intro exI[of _ "[]"]) simp
next
  case (Cons x s)
  then obtain ps w where "split_on c (s @ t) = ps @ [w @ t]" by blast
  then show ?case by (cases ps) (auto intro: exI[of _ "[]"] exI[of _ "x # _"])
qed

lemma join_end: "\<exists>x. join sep (ps @ [w]) = x @ w"
proof (induction ps)
  case (Cons p ps)
  then obtain x where "join sep (ps @ [w]) = x @ w" by blast
  then have "join sep ((p # ps) @ [w]) = (p @ sep @ x) @ w" by (cases "ps @ [w]") simp_all
  then show ?case by blast
qed simp

lemma path_join_end:
  assumes "CHR ''/'' \<notin> set t" "2 \<le> length t"
  shows "\<exists>x. path_join dir (s @ t) = x @ t"
proof -
  obtain ps w where "split_on (CHR ''/'') (s @ t) = ps @ [w @ t]" using split_on_end[OF assms(1)] by blast
  moreover have "w @ t \<noteq> [] \<and> w @ t \<noteq> ''.''" using assms(2) by (cases w) auto
  ultimately have "filter (\<lambda>p. p \<noteq> [] \<and> p \<noteq> ''.'') (split_on (CHR ''/'') (s @ t)) =
      filter (\<lambda>p. p \<noteq> [] \<and> p \<noteq> ''.'') ps @ [w @ t]" by simp
  then obtain x where "join ''/'' (filter (\<lambda>p. p \<noteq> [] \<and> p \<noteq> ''.'') (split_on (CHR ''/'') (s @ t))) = x @ w @ t"
    using join_end by metis
  then show ?thesis by (auto simp: path_join_def Let_def)
qed

lemma replace_pkl: "\<exists>x. replace_sub ''.pkl'' ''.sha256'' (q @ ''.pkl'') = x @ ''.sha256''"
proof (induction q rule: length_induct)
  case (1 q)
  let ?r = "replace_sub ''.pkl'' ''.sha256''"
  show ?case
  proof (cases q)
    case Nil
    then show ?thesis
      by (intro exI[of _ "[]"]) (simp add: replace_sub.simps[of "''.pkl''" _ "''.pkl''"] starts_with_def replace_sub.simps[of _ _ "[]"])
  next
    case (Cons c s)
    show ?thesis
    proof (cases "\<exists>q'. q = ''.pkl'' @ q'")
      case True
      then obtain q' where q': "q = ''.pkl'' @ q'" by blast
      then obtain x where "?r (q' @ ''.pkl'') = x @ ''.sha256''" using 1 by force
      then have "?r (q @ ''.pkl'') = (''.sha256'' @ x) @ ''.sha256''"
        using q' by (simp add: replace_sub.simps[of "''.pkl''" _ "CHR ''.'' # _"] starts_with_def)
      then show ?thesis by blast
    next
      case False
      have "\<not> starts_with ''.pkl'' (q @ ''.pkl'')"
      proof
        assume "starts_with ''.pkl'' (q @ ''.pkl'')"
        then obtain u where "q @ ''.pkl'' = ''.pkl'' @ u" by (auto simp: starts_with_iff)
        then show False using False Cons by (auto simp: append_eq_append_conv2 append_eq_Cons_conv Cons_eq_append_conv)
      qed
      moreover obtain x where "?r (s @ ''.pkl'') = x @ ''.sha256''" using 1 Cons by force
      ultimately have "?r (q @ ''.pkl'') = (c # x) @ ''.sha256''"
        using Cons by (subst replace_sub.simps) simp
      then show ?thesis by blast
    qed
  qed
qed

lemma path_ends:
  "last (model_path dir k) = CHR ''l''" "last (sha_path (model_path dir k)) = CHR ''6''" "last (meta_path dir k) = CHR ''n''"
proof -
  obtain x where x: "model_path dir k = x @ ''.pkl''"
    using path_join_end[of "''.pkl''" dir "safe_key k"] by (auto simp: model_path_def)
  then show "last (model_path dir k) = CHR ''l''" by simp
  obtain y where "sha_path (model_path dir k) = y @ ''.sha256''" using replace_pkl[of x] by (auto simp: sha_path_def x)
  then show "last (sha_path (model_path dir k)) = CHR ''6''" by simp
  obtain z where "meta_path dir k = z @ ''.json''"
    using path_join_end[of "''.json''" dir "safe_key k"] by (auto simp: meta_path_def)
  then show "last (meta_path dir k) = CHR ''n''" by simp
qed

text \<open>Files of different kinds have different names, whatever the keys.\<close>

lemma kinds_differ [simp]:
  "model_path dir k \<noteq> sha_path (model_path dir k')" "sha_path (model_path dir k) \<noteq> model_path dir k'"
  "model_path dir k \<noteq> meta_path dir k'" "meta_path dir k \<noteq> model_path dir k'"
  "sha_path (model_path dir k) \<noteq> meta_path dir k'" "meta_path dir k \<noteq> sha_path (model_path dir k')"
  using path_ends[of dir k] path_ends[of dir k'] by auto

lemma strip_snoc: "is_space c \<Longrightarrow> strip (s @ [c]) = strip s"
proof (cases "\<forall>x \<in> set s. is_space x")
  case True
  assume "is_space c"
  then have "dropWhile is_space (s @ [c]) = []" "dropWhile is_space s = []"
    using True by (auto simp: dropWhile_eq_Nil_conv)
  then show ?thesis by (simp only: strip_def lstrip_def)
next
  case False
  assume "is_space c"
  moreover have "dropWhile is_space (s @ [c]) = dropWhile is_space s @ [c]" using False by (metis dropWhile_append1)
  ultimately show ?thesis by (simp add: strip_def lstrip_def rstrip_def rstrip_by_snoc)
qed

section \<open>A saved model is the one that is loaded\<close>

text \<open>What is on the disk of a model, and what the exporter makes of a disk that stays as it is.\<close>

definition saved_on :: "'m forecast_env \<Rightarrow> string \<Rightarrow> string \<Rightarrow> string \<Rightarrow> json \<Rightarrow> files \<Rightarrow> bool" where
  "saved_on env dir k bytes meta files \<longleftrightarrow>
     dget files (model_path dir k) = Some bytes \<and>
     dget files (sha_path (model_path dir k)) = Some (fe_sha256 env bytes @ [CHR 0x0A]) \<and>
     dget files (meta_path dir k) = Some (fe_json_text env meta)"

definition still_disk :: "files \<Rightarrow> disk" where
  "still_disk files = (\<lambda>step path. dget files path)"

lemma saved_on_loads:
  assumes "saved_on env dir k bytes meta files" "strip (fe_sha256 env bytes) = fe_sha256 env bytes"
  shows "unpickled (fe_sha256 env) (still_disk files) (JStr (model_path dir k)) = Some bytes"
proof -
  have "is_space (CHR 0x0A)" by (simp add: is_space_def cp_def)
  then show ?thesis using assms by (simp add: saved_on_def unpickled_def still_disk_def strip_snoc)
qed

definition all_open :: "'m forecast_env \<Rightarrow> string \<Rightarrow> string \<Rightarrow> bool" where
  "all_open env dir k \<longleftrightarrow>
     fe_opens env (model_path dir k) \<and> fe_opens env (sha_path (model_path dir k)) \<and> fe_opens env (meta_path dir k)"

lemma save_model_saves:
  assumes "all_open env dir k" "fe_dump env m = (bytes, True)"
  shows "fst (save_model env dir m rows k meta files) = Inr (model_path dir k)"
    "saved_on env dir k bytes meta (snd (save_model env dir m rows k meta files))"
  using assms by (simp_all add: save_model_def all_open_def saved_on_def Let_def dgetd_def)

text \<open>Two keys whose files are all different.\<close>

definition keys_apart :: "string \<Rightarrow> string \<Rightarrow> string \<Rightarrow> bool" where
  "keys_apart dir k k' \<longleftrightarrow>
     model_path dir k \<noteq> model_path dir k' \<and> sha_path (model_path dir k) \<noteq> sha_path (model_path dir k') \<and>
     meta_path dir k \<noteq> meta_path dir k'"

lemma save_model_keeps:
  assumes "saved_on env dir k bytes meta files" "keys_apart dir k k'"
  shows "saved_on env dir k bytes meta (snd (save_model env dir m rows k' meta' files))"
  using assms by (simp add: save_model_def saved_on_def keys_apart_def Let_def split: prod.split)

lemma train_series_keeps:
  assumes "saved_on env (fa_dir a) k bytes meta (fs_files st)" "keys_apart (fa_dir a) k k'"
  shows "saved_on env (fa_dir a) k bytes meta (fs_files (train_series env a k' df st))"
  using assms save_model_keeps[OF assms]
  by (auto simp: train_series_def Let_def split: sum.split prod.split) (metis snd_conv)+

lemma train_series_fold_keeps:
  assumes "saved_on env (fa_dir a) k bytes meta (fs_files st)" "\<forall>(k', df) \<in> set series. keys_apart (fa_dir a) k k'"
  shows "saved_on env (fa_dir a) k bytes meta (fs_files (fold (\<lambda>(key, df). train_series env a key df) series st))"
  using assms
proof (induction series arbitrary: st)
  case (Cons s series)
  obtain k' df where s: "s = (k', df)" by (cases s)
  then show ?case using Cons.prems Cons.IH[OF train_series_keeps[OF Cons.prems(1), of k' df]] by simp
qed simp

lemma series_loop_ok: "series_loop show stamp ss d = Inr d' \<Longrightarrow> dict_ok d \<Longrightarrow> dict_ok d'"
  by (induction ss arbitrary: d) (auto simp: py_bind_eq_Inr split: if_splits)

lemma fetch_series_ok: "fetch_series show stamp data = Inr series \<Longrightarrow> dict_ok series"
  by (auto simp: fetch_series_def py_bind_eq_Inr split: if_splits dest: series_loop_ok)

text \<open>What the run does for one key of the answer, at its turn.\<close>

lemma train_series_saves:
  assumes "\<not> fa_dry_run a" "fa_min_points a \<le> int (length df)" "fe_fit env df (fa_horizon a * 24) = Inr (m, fc)"
    "fe_dump env m = (bytes, True)" "all_open env (fa_dir a) k"
  shows "saved_on env (fa_dir a) k bytes
     (metadata (failure_probability fc (fe_stamp_now env k 7) 7) (failure_probability fc (fe_stamp_now env k 30) 30)
       (length df) k (fe_time env k) (length fc) (model_path (fa_dir a) k))
     (fs_files (train_series env a k df st))"
  using assms save_model_saves[OF assms(5,4)]
  by (auto simp: train_series_def Let_def split: sum.split prod.split) (metis fst_conv snd_conv sum.distinct(1))+

lemma split_dict: "(k, v) \<in> set d \<Longrightarrow> dict_ok d \<Longrightarrow> \<exists>d1 d2. d = d1 @ (k, v) # d2 \<and> k \<notin> set (dkeys d2)"
  by (auto simp: dict_ok_def dkeys_def dest!: split_list) blast

text \<open>C15: after a run of the forecaster every series that was fitted is on the disk with its metadata,
  and the exporter, on a disk that does not change under it, unpickles exactly the dump of that model -
  whatever was on the disk before, whatever the other series did, their failed fits, dumps and writes
  included - as long as the files can be opened and no other key of the answer has the same file names.\<close>

theorem saved_models_load:
  assumes "fetch_series show stamp data = Inr series" "(k, df) \<in> set series" "\<not> fa_dry_run a"
    "fa_min_points a \<le> int (length df)" "fe_fit env df (fa_horizon a * 24) = Inr (m, fc)"
    "fe_dump env m = (bytes, True)" "all_open env (fa_dir a) k"
    "\<forall>(k', df') \<in> set series. k' \<noteq> k \<longrightarrow> keys_apart (fa_dir a) k k'"
    "strip (fe_sha256 env bytes) = fe_sha256 env bytes"
  shows "\<exists>st. forecaster_main show stamp env a (Inr data) files = Inr st \<and>
     unpickled (fe_sha256 env) (still_disk (fs_files st)) (JStr (model_path (fa_dir a) k)) = Some bytes \<and>
     dget (fs_files st) (meta_path (fa_dir a) k) = Some (fe_json_text env
       (metadata (failure_probability fc (fe_stamp_now env k 7) 7) (failure_probability fc (fe_stamp_now env k 30) 30)
         (length df) k (fe_time env k) (length fc) (model_path (fa_dir a) k)))"
proof -
  let ?step = "\<lambda>(key, df). train_series env a key df" and ?s0 = "\<lparr>fs_files = files, fs_trained = 0, fs_skipped = 0\<rparr>"
  obtain s1 s2 where s: "series = s1 @ (k, df) # s2" "k \<notin> set (dkeys s2)"
    using split_dict[OF assms(2) fetch_series_ok[OF assms(1)]] by blast
  have "\<forall>(k', df') \<in> set s2. keys_apart (fa_dir a) k k'"
  proof clarify
    fix k' df' assume h: "(k', df') \<in> set s2"
    then have "k' \<in> set (dkeys s2)" by (force simp: dkeys_def)
    then have "k' \<noteq> k" using s(2) by blast
    moreover have "(k', df') \<in> set series" using h s(1) by simp
    ultimately show "keys_apart (fa_dir a) k k'" using assms(8) by blast
  qed
  then have "saved_on env (fa_dir a) k bytes
     (metadata (failure_probability fc (fe_stamp_now env k 7) 7) (failure_probability fc (fe_stamp_now env k 30) 30)
       (length df) k (fe_time env k) (length fc) (model_path (fa_dir a) k))
     (fs_files (fold ?step series ?s0))"
    unfolding s(1) using train_series_fold_keeps[OF train_series_saves[OF assms(3-7)]] by simp
  from this saved_on_loads[OF this assms(9)] show ?thesis
    using assms(1) by (simp add: forecaster_main_def saved_on_def)
qed

definition demo_series :: "string \<Rightarrow> json" where
  "demo_series inst = JObj [(''metric'', JObj [(''instance'', JStr inst), (''mc'', JStr ''0'')]),
     (''values'', JArr [JArr [JInt 3600, JStr ''2''], JArr [JInt 7200, JStr ''NaN''], JArr [JInt 7200, JStr ''3'']])]"

definition demo_answer :: json where
  "demo_answer = JObj [(''status'', JStr ''success''),
     (''data'', JObj [(''result'', JArr [demo_series ''a:9'', demo_series ''b:9''])])]"

definition demo_stamp :: "pf \<Rightarrow> int py" where
  "demo_stamp x = (case x of Fin q \<Rightarrow> Inr (floor q) | _ \<Rightarrow> Inl OverflowError)"

definition demo_points :: points where "demo_points = [(3600, Fin 2), (7200, Fin 3)]"

definition demo_env :: "string forecast_env" where
  "demo_env = \<lparr>fe_fit = (\<lambda>df h. Inr (''model'', [(0, Fin 1)])), fe_dump = (\<lambda>m. (m, True)),
     fe_sha256 = (\<lambda>s. str_int (int (length s))), fe_json_text = (\<lambda>j. ''{}''), fe_opens = (\<lambda>p. True),
     fe_stamp_now = (\<lambda>k d. 0), fe_time = (\<lambda>k. 0)\<rparr>"

definition demo_args :: forecast_args where
  "demo_args = \<lparr>fa_dir = ''/m'', fa_horizon = 30, fa_min_points = 2, fa_dry_run = False\<rparr>"

abbreviation demo_key :: "string \<Rightarrow> string" where
  "demo_key inst \<equiv> ''instance=\"'' @ inst @ ''\",mc=\"0\",csrow=\"0\"''"

lemma demo_fetch: "fetch_series (\<lambda>j. []) demo_stamp demo_answer = Inr [(demo_key ''a:9'', demo_points), (demo_key ''b:9'', demo_points)]"
  by code_simp

theorem saved_models_load_witness:
  "\<exists>st. forecaster_main (\<lambda>j. []) demo_stamp demo_env demo_args (Inr demo_answer) [] = Inr st \<and>
     unpickled (fe_sha256 demo_env) (still_disk (fs_files st)) (JStr ''/m/instance-a:9_mc-0_csrow-0.pkl'') = Some ''model''"
proof -
  have h: "(demo_key ''a:9'', demo_points) \<in> set [(demo_key ''a:9'', demo_points), (demo_key ''b:9'', demo_points)]"
    "\<not> fa_dry_run demo_args" "fa_min_points demo_args \<le> int (length demo_points)"
    "fe_fit demo_env demo_points (fa_horizon demo_args * 24) = Inr (''model'', [(0, Fin 1)])"
    "fe_dump demo_env ''model'' = (''model'', True)" "all_open demo_env (fa_dir demo_args) (demo_key ''a:9'')"
    by (simp_all add: demo_args_def demo_points_def demo_env_def all_open_def)
  have "keys_apart ''/m'' (demo_key ''a:9'') (demo_key ''b:9'')" by code_simp
  then have h7: "\<forall>(k', df') \<in> set [(demo_key ''a:9'', demo_points), (demo_key ''b:9'', demo_points)].
      k' \<noteq> demo_key ''a:9'' \<longrightarrow> keys_apart (fa_dir demo_args) (demo_key ''a:9'') k'"
    by (simp add: demo_args_def)
  have h8: "strip (fe_sha256 demo_env ''model'') = fe_sha256 demo_env ''model''" by code_simp
  have p: "model_path (fa_dir demo_args) (demo_key ''a:9'') = ''/m/instance-a:9_mc-0_csrow-0.pkl''" by code_simp
  show ?thesis using saved_models_load[OF demo_fetch h h7 h8, of "[]"] unfolding p by blast
qed

end
