(* ===== verification/GpuPredictor.thy ===== *)
theory GpuPredictor
  imports Anomaly
begin

text \<open>
  The predictor \<open>gpu/gpu_failure_predictor.py\<close>: the answer of Prometheus, the probability and the rate of
  a forecast, the metrics and a run. What pandas makes of the rows, Prophet, the normal distribution,
  the means of numpy and the clock are fields of an environment.
\<close>

section \<open>The answer of Prometheus\<close>

definition MIN_HOURS_HISTORY :: nat where "MIN_HOURS_HISTORY = 24"
definition THRESHOLD_DBE_RATE :: rat where "THRESHOLD_DBE_RATE = 1"
definition FORECAST_HOURS :: int where "FORECAST_HOURS = 7 * 24"
definition HOUR_NS :: int where "HOUR_NS = 3600000000000"

type_synonym raw_rows = "(int \<times> pf) list"

record gpu_row =
  gr_ds :: int
  gr_yhat :: pf
  gr_upper :: pf

text \<open>\<open>ge_hourly\<close> sorts by time, takes differences, clips them at zero and drops the first.\<close>

record gpu_env =
  ge_stamp :: "pf \<Rightarrow> int py"
  ge_hourly :: "raw_rows \<Rightarrow> raw_rows"
  ge_forecast :: "raw_rows \<Rightarrow> int \<Rightarrow> gpu_row list py"
  ge_sf :: "pf \<Rightarrow> pf"
  ge_mean :: "pf list \<Rightarrow> pf"
  ge_now :: "string \<Rightarrow> nat \<Rightarrow> int"

definition dbe_row :: "gpu_env \<Rightarrow> json \<Rightarrow> raw_rows py" where
  "dbe_row env v =
     py_bind (jnth v 0) (\<lambda>t. py_bind (jfloat t) (\<lambda>t. py_bind (jnth v 1) (\<lambda>raw.
     if raw \<in> {JStr ''NaN'', JStr ''Inf'', JStr ''+Inf'', JStr ''-Inf''} then Inr []
     else py_bind (ge_stamp env t) (\<lambda>ds. py_bind (jfloat raw) (\<lambda>x. Inr [(ds, x)])))))"

text \<open>
  One series: nothing without rows, \<open>None\<close> with too little history. Prometheus writes every label as a
  text; anything else as the index is refused here.
\<close>

definition dbe_entry :: "gpu_env \<Rightarrow> json \<Rightarrow> (string \<times> raw_rows option) list py" where
  "dbe_entry env s =
     py_bind (jitem s ''metric'') (\<lambda>metric. py_bind (jget metric ''gpu_index'' (JStr ''0'')) (\<lambda>index.
     py_bind (case index of JStr i \<Rightarrow> Inr i | _ \<Rightarrow> Inl TypeError) (\<lambda>gpu_index.
     py_bind (jitem s ''values'') (\<lambda>vs. py_bind (jiter vs) (\<lambda>vs.
     py_bind (py_mapM (dbe_row env) vs) (\<lambda>rows.
     if concat rows = [] then Inr []
     else let df = ge_hourly env (concat rows)
          in Inr [(gpu_index, if length df < MIN_HOURS_HISTORY then None else Some df)]))))))"

definition dbe_series :: "gpu_env \<Rightarrow> json list \<Rightarrow> (string, raw_rows option) dict py" where
  "dbe_series env results =
     py_bind (py_mapM (dbe_entry env) results) (\<lambda>es. Inr (fold (\<lambda>(k, v). dset k v) (concat es) []))"

definition fetch_dbe_series :: "(json \<Rightarrow> string) \<Rightarrow> gpu_env \<Rightarrow> json \<Rightarrow> (string, raw_rows option) dict py" where
  "fetch_dbe_series show env data =
     py_bind (jitem data ''status'') (\<lambda>status.
     if status \<noteq> JStr ''success''
     then py_bind (jget data ''error'' JNull) (\<lambda>e. Inl (RuntimeError (''Prometheus: '' @ jstr show e)))
     else py_bind (result_list data) (dbe_series env))"

section \<open>Probability and rate\<close>

text \<open>\<open>Series.clip(lower=l)\<close>: NaN stays.\<close>

definition pf_clip :: "rat \<Rightarrow> pf \<Rightarrow> pf" where
  "pf_clip l x = (if pf_less x (Fin l) then Fin l else x)"

definition gpu_window :: "gpu_row list \<Rightarrow> int \<Rightarrow> int \<Rightarrow> gpu_row list" where
  "gpu_window fc now hours = filter (\<lambda>r. now \<le> gr_ds r \<and> gr_ds r \<le> now + hours * HOUR_NS) fc"

definition exceedance :: "gpu_env \<Rightarrow> gpu_row \<Rightarrow> pf" where
  "exceedance env r =
     (let sigma = pf_clip (rnd (1 / 1000000000)) (pf_quot (pf_sub (gr_upper r) (gr_yhat r)) (Fin (rnd (196 / 100))));
          z = pf_quot (pf_sub (Fin THRESHOLD_DBE_RATE) (gr_yhat r)) sigma
      in ge_sf env z)"

definition compute_failure_probability :: "gpu_env \<Rightarrow> gpu_row list \<Rightarrow> int \<Rightarrow> pf" where
  "compute_failure_probability env fc now =
     (let window = gpu_window fc now FORECAST_HOURS
      in if window = [] then Fin 0 else ge_mean env (map (exceedance env) window))"

definition mean_next_24h_rate :: "gpu_env \<Rightarrow> gpu_row list \<Rightarrow> int \<Rightarrow> pf" where
  "mean_next_24h_rate env fc now =
     (let window = gpu_window fc now 24
      in if window = [] then Fin 0 else ge_mean env (map (\<lambda>r. pf_clip 0 (gr_yhat r)) window))"

section \<open>Metrics and run\<close>

definition gpu_lines :: "bool \<Rightarrow> (string, pf) dict \<Rightarrow> (string, pf) dict \<Rightarrow> rat \<Rightarrow> string list" where
  "gpu_lines up probabilities rates now =
     header_lines ''gpu_predictor_up'' ''1 if Prometheus reachable and predictor operational.'' ''gauge'' @
     [value_line ''gpu_predictor_up'' (if up then ''1'' else ''0'')] @
     (if probabilities = [] then []
      else header_lines ''gpu_failure_probability_7d'' ''Estimated probability of GPU failure within 7 days.'' ''gauge'' @
        map (\<lambda>(i, p). sample_line ''gpu_failure_probability_7d'' [(''gpu_index'', i)] (fmt_pf 6 p)) (sort_key fst probabilities)) @
     (if rates = [] then []
      else header_lines ''gpu_forecast_next_24h_dbe_rate'' ''Predicted mean DBE rate over the next 24 h.'' ''gauge'' @
        map (\<lambda>(i, r). sample_line ''gpu_forecast_next_24h_dbe_rate'' [(''gpu_index'', i)] (fmt_pf 6 r)) (sort_key fst rates)) @
     header_lines ''gpu_predictor_last_run_timestamp'' ''Unix timestamp of the last predictor run.'' ''gauge'' @
     [value_line ''gpu_predictor_last_run_timestamp'' (fmt_fixed 3 now)]"

text \<open>Probability and rate of one GPU; a fit that fails gives neither.\<close>

definition predict_gpu :: "gpu_env \<Rightarrow> string \<Rightarrow> raw_rows option \<Rightarrow> (pf \<times> pf) option" where
  "predict_gpu env gpu_index df =
     (case df of
        None \<Rightarrow> Some (Fin 0, Fin 0)
      | Some rows \<Rightarrow>
          (case ge_forecast env rows FORECAST_HOURS of
             Inl e \<Rightarrow> None
           | Inr fc \<Rightarrow> Some (compute_failure_probability env fc (ge_now env gpu_index 0),
               mean_next_24h_rate env fc (ge_now env gpu_index 1))))"

definition predictions :: "gpu_env \<Rightarrow> (string, raw_rows option) dict \<Rightarrow> (string \<times> pf \<times> pf) list" where
  "predictions env m = List.map_filter (\<lambda>(i, df). map_option (Pair i) (predict_gpu env i df)) m"

definition gpu_run :: "gpu_env \<Rightarrow> (string, raw_rows option) dict py \<Rightarrow> rat \<Rightarrow> string" where
  "gpu_run env fetched now =
     (case fetched of
        Inl e \<Rightarrow> render (gpu_lines False [] [] now)
      | Inr m \<Rightarrow>
          render (gpu_lines True (map (\<lambda>(i, p, r). (i, p)) (predictions env m))
            (map (\<lambda>(i, p, r). (i, r)) (predictions env m)) now))"

definition gpu_main :: "(json \<Rightarrow> string) \<Rightarrow> gpu_env \<Rightarrow> json py \<Rightarrow> rat \<Rightarrow> string" where
  "gpu_main show env answer now = gpu_run env (py_bind answer (fetch_dbe_series show env)) now"

section \<open>Lemmas\<close>

text \<open>The output depends on what the dictionary maps, not on the order of its keys.\<close>

lemma sort_key_dict:
  assumes "dict_ok d" "dict_ok e" "dget d = dget e"
  shows "sort_key fst d = sort_key (fst :: 'a :: linorder \<times> 'b \<Rightarrow> 'a) e"
proof -
  have s: "set d = set e"
  proof (rule set_eqI)
    fix x
    show "x \<in> set d \<longleftrightarrow> x \<in> set e"
      using dict_mem_iff[OF assms(1), of "fst x" "snd x"] dict_mem_iff[OF assms(2), of "fst x" "snd x"] assms(3) by simp
  qed
  have dd: "distinct (map fst d)" "distinct (map fst e)" using assms(1,2) by (simp_all add: dict_ok_def dkeys_def)
  then have "distinct (map fst (sort_key fst d))" "distinct (map fst (sort_key fst e))"
    by (simp_all add: distinct_map inj_on_def)
  moreover have "inj_on fst (set (sort_key fst d) \<union> set (sort_key fst e))"
    using dd(1) s by (simp add: distinct_map)
  ultimately show ?thesis using s by (intro map_sorted_distinct_set_unique) simp_all
qed

lemma predictions_Cons:
  "predictions env ((i, df) # m) = (case predict_gpu env i df of None \<Rightarrow> predictions env m | Some pr \<Rightarrow> (i, pr) # predictions env m)"
  by (simp add: predictions_def map_filter_simps split: option.split)

lemma predictions_Nil: "predictions env [] = []"
  by (simp add: predictions_def map_filter_simps)

lemma predictions_keys: "set (dkeys (predictions env m)) \<subseteq> set (dkeys m)"
  by (induction m) (auto simp: predictions_Cons predictions_Nil split: option.splits)

lemma predictions_ok: "dict_ok m \<Longrightarrow> dict_ok (predictions env m)"
proof (induction m)
  case (Cons x m)
  then show ?case using subsetD[OF predictions_keys[of env m]]
    by (cases x) (auto simp: predictions_Cons dict_ok_def split: option.splits)
qed (simp add: predictions_Nil)

lemma predictions_get: "dict_ok m \<Longrightarrow> dget (predictions env m) i = Option.bind (dget m i) (predict_gpu env i)"
proof (induction m)
  case (Cons x m)
  obtain k df where x: "x = (k, df)" by (cases x)
  have "dget (predictions env m) k = None" if "k \<notin> set (dkeys m)"
    using that predictions_keys[of env m] by (auto simp: dget_None_iff)
  moreover have "k \<notin> set (dkeys m)" "dict_ok m" using Cons.prems by (auto simp: x dict_ok_def)
  ultimately show ?case using Cons.IH by (auto simp: x predictions_Cons split: option.splits)
qed (simp add: predictions_Nil)

lemma predictions_columns:
  fixes f :: "pf \<times> pf \<Rightarrow> pf"
  assumes "dict_ok m" "dict_ok m'" "dget m = dget m'"
  shows "sort_key fst (map (\<lambda>(i, pr). (i, f pr)) (predictions env m)) =
    sort_key fst (map (\<lambda>(i, pr). (i, f pr)) (predictions env m'))"
    "predictions env m = [] \<longleftrightarrow> predictions env m' = []"
proof -
  have g: "dget (map (\<lambda>(i, pr). (i, f pr)) d) i = map_option f (dget d i)" for d :: "(string \<times> pf \<times> pf) list" and i
    by (induction d) auto
  have ok: "dict_ok (map (\<lambda>(i, pr). (i, f pr)) d)" if "dict_ok d" for d :: "(string \<times> pf \<times> pf) list"
    using that by (simp add: dict_ok_def dkeys_def comp_def case_prod_unfold)
  show "sort_key fst (map (\<lambda>(i, pr). (i, f pr)) (predictions env m)) =
    sort_key fst (map (\<lambda>(i, pr). (i, f pr)) (predictions env m'))"
    using assms predictions_ok by (intro sort_key_dict ok) (auto simp: g predictions_get)
  have "predictions env m = [] \<longleftrightarrow> (\<forall>i. dget (predictions env m) i = None)" for m
    by (cases "predictions env m") (auto intro: exI[of _ "fst (hd (predictions env m))"] split: if_splits)
  then show "predictions env m = [] \<longleftrightarrow> predictions env m' = []" using assms by (simp add: predictions_get)
qed

lemma gpu_run_cong:
  assumes "dict_ok m" "dict_ok m'" "dget m = dget m'"
  shows "gpu_run env (Inr m) now = gpu_run env (Inr m') now"
proof -
  have 1: "map (\<lambda>(i, p, r). (i, p)) d = map (\<lambda>(i, pr). (i, fst pr)) d"
    and 2: "map (\<lambda>(i, p, r). (i, r)) d = map (\<lambda>(i, pr). (i, snd pr)) d" for d :: "(string \<times> pf \<times> pf) list"
    by auto
  show ?thesis
    unfolding gpu_run_def gpu_lines_def 1 2
    using predictions_columns(1)[OF assms, where f = fst] predictions_columns(1)[OF assms, where f = snd]
      predictions_columns(2)[OF assms] by simp
qed

text \<open>An answer of Prometheus with these series.\<close>

definition answer_of :: "json list \<Rightarrow> json" where
  "answer_of results = JObj [(''status'', JStr ''success''), (''data'', JObj [(''result'', JArr results)])]"

lemma fetch_answer: "fetch_dbe_series show env (answer_of results) = dbe_series env results"
  by (simp add: fetch_dbe_series_def answer_of_def jitem_def result_list_def jiter_def)

text \<open>Of two series of the counter with one \<open>gpu_index\<close> - the first GPU of two hosts, say - the run
  reports as if the earlier one were not in the answer: the query is not told apart by host, so one of
  the two cards is never predicted, whatever its errors are.\<close>

theorem gpu_same_index_hidden:
  assumes "dbe_entry env a = Inr [(i, v)]" "dbe_entry env b = Inr [(i, w)]"
  shows "gpu_main show env (Inr (answer_of (xs @ a # ys @ b # zs))) now =
    gpu_main show env (Inr (answer_of (xs @ ys @ b # zs))) now"
proof -
  let ?M = "py_mapM (dbe_entry env)" and ?f = "fold (\<lambda>(k, v). dset k v)"
  consider e where "?M xs = Inl e" | us e where "?M xs = Inr us" "?M ys = Inl e"
    | us vs e where "?M xs = Inr us" "?M ys = Inr vs" "?M zs = Inl e"
    | us vs ws where "?M xs = Inr us" "?M ys = Inr vs" "?M zs = Inr ws"
    by (metis sum.exhaust)
  then show ?thesis
  proof cases
    case 4
    let ?d = "?f (concat us @ (i, v) # concat vs @ (i, w) # concat ws) []"
    let ?e = "?f (concat us @ concat vs @ (i, w) # concat ws) []"
    have "dbe_series env (xs @ a # ys @ b # zs) = Inr ?d" "dbe_series env (xs @ ys @ b # zs) = Inr ?e"
      using 4 assms by (simp_all add: dbe_series_def py_mapM_append)
    moreover have "gpu_run env (Inr ?d) now = gpu_run env (Inr ?e) now"
      by (intro gpu_run_cong fold_dset_ok ext) (simp_all only: dict_ok_Nil fold_dset_last)
    ultimately show ?thesis by (simp add: gpu_main_def fetch_answer)
  qed (use assms in \<open>simp_all add: gpu_main_def fetch_answer dbe_series_def py_mapM_append\<close>)
qed

definition demo_gpu :: "string \<Rightarrow> string \<Rightarrow> json" where
  "demo_gpu host count = JObj [(''metric'', JObj [(''instance'', JStr host), (''gpu_index'', JStr ''0'')]),
     (''values'', JArr [JArr [JInt 3600, JStr count]])]"

definition demo_gpu_env :: gpu_env where
  "demo_gpu_env = \<lparr>ge_stamp = (\<lambda>t. Inr 0), ge_hourly = (\<lambda>rows. replicate 24 (hd rows)),
     ge_forecast = (\<lambda>rows h. Inr [\<lparr>gr_ds = 0, gr_yhat = snd (hd rows), gr_upper = snd (hd rows)\<rparr>]),
     ge_sf = (\<lambda>z. z), ge_mean = hd, ge_now = (\<lambda>i n. 0)\<rparr>"

theorem gpu_same_index_hidden_witness:
  "gpu_main (\<lambda>j. []) demo_gpu_env (Inr (answer_of [demo_gpu ''a'' ''7'', demo_gpu ''b'' ''0''])) 1 =
     gpu_main (\<lambda>j. []) demo_gpu_env (Inr (answer_of [demo_gpu ''b'' ''0''])) 1"
proof -
  have "dbe_entry demo_gpu_env (demo_gpu ''a'' ''7'') = Inr [(''0'', Some (replicate 24 (0, Fin 7)))]"
    "dbe_entry demo_gpu_env (demo_gpu ''b'' ''0'') = Inr [(''0'', Some (replicate 24 (0, Fin 0)))]"
    by code_simp+
  from gpu_same_index_hidden[OF this, of _ "[]" "[]" "[]"] show ?thesis by simp
qed

end
