(* ===== verification/FleetForecast.thy ===== *)
theory FleetForecast
  imports Forecaster GpuPredictor
begin

text \<open>
  The forecaster \<open>ml/ce_forecaster.py\<close> on the series the EDAC exporter of the same repository writes
  (\<open>exporter/collectors/edac.go\<close>): they are labelled by controller, csrow and channel, and the database
  adds the instance; the forecaster looks for \<open>mc\<close>, \<open>csrow\<close> and \<open>instance\<close>.
\<close>

text \<open>A series of \<open>edac_correctable_errors_total\<close> in an answer of Prometheus.\<close>

definition edac_series :: "string \<Rightarrow> string \<Rightarrow> string \<Rightarrow> string \<Rightarrow> json \<Rightarrow> json" where
  "edac_series inst controller csrow channel vs =
     JObj [(''metric'', JObj [(''instance'', JStr inst), (''controller'', JStr controller), (''csrow'', JStr csrow),
       (''channel'', JStr channel)]), (''values'', vs)]"

text \<open>The entry a series makes in the map of \<open>fetch_series\<close>.\<close>

definition series_entry :: "(json \<Rightarrow> string) \<Rightarrow> (pf \<Rightarrow> int py) \<Rightarrow> json \<Rightarrow> (string \<times> points) list py" where
  "series_entry show stamp s =
     py_bind (series_key show s) (\<lambda>key. py_bind (series_rows stamp s) (\<lambda>rows.
       Inr (if rows = [] then [] else [(key, rows)])))"

lemma series_loop_entries:
  "series_loop sh stamp ss d =
     py_bind (py_mapM (series_entry sh stamp) ss) (\<lambda>es. Inr (fold (\<lambda>(k, v). dset k v) (concat es) d))"
proof (induction ss arbitrary: d)
  case (Cons s ss)
  show ?case
    by (cases "series_key sh s"; cases "series_rows stamp s"; cases "py_mapM (series_entry sh stamp) ss")
      (simp_all add: series_entry_def[of sh stamp s] Cons)
qed simp

lemma fetch_series_answer: "fetch_series sh stamp (answer_of results) = series_loop sh stamp results []"
  by (simp add: fetch_series_def answer_of_def jitem_def result_list_def jiter_def)

definition edac_key :: "string \<Rightarrow> string \<Rightarrow> string" where
  "edac_key inst csrow = ''instance=\"'' @ inst @ ''\",mc=\"0\",csrow=\"'' @ csrow @ ''\"''"

lemma edac_series_key: "series_key sh (edac_series inst controller csrow channel vs) = Inr (edac_key inst csrow)"
  by (simp add: series_key_def edac_series_def edac_key_def jitem_def jget_def dgetd_def jstr_def)

text \<open>C21: on the series of the EDAC exporter the forecaster cannot tell controllers and channels apart: every
  series gets the key of controller 0, and of two series of one host with one csrow number - two DIMMs on
  two controllers, say - the answer is read as if the earlier were not in it.\<close>

theorem controllers_collapse:
  assumes "series_rows stamp (edac_series inst c1 csrow ch1 v1) = Inr r1" "r1 \<noteq> []"
    "series_rows stamp (edac_series inst c2 csrow ch2 v2) = Inr r2" "r2 \<noteq> []"
  shows "series_key show (edac_series inst c1 csrow ch1 v1) = Inr (edac_key inst csrow) \<and>
     map_sum id dget (fetch_series show stamp (answer_of (xs @ edac_series inst c1 csrow ch1 v1 # ys @ edac_series inst c2 csrow ch2 v2 # zs))) =
     map_sum id dget (fetch_series show stamp (answer_of (xs @ ys @ edac_series inst c2 csrow ch2 v2 # zs)))"
proof
  let ?M = "py_mapM (series_entry show stamp)"
  have e: "series_entry show stamp (edac_series inst c1 csrow ch1 v1) = Inr [(edac_key inst csrow, r1)]"
    "series_entry show stamp (edac_series inst c2 csrow ch2 v2) = Inr [(edac_key inst csrow, r2)]"
    using assms by (simp_all add: series_entry_def edac_series_key)
  show "map_sum id dget (fetch_series show stamp (answer_of (xs @ edac_series inst c1 csrow ch1 v1 # ys @ edac_series inst c2 csrow ch2 v2 # zs))) =
     map_sum id dget (fetch_series show stamp (answer_of (xs @ ys @ edac_series inst c2 csrow ch2 v2 # zs)))"
    by (cases "?M xs"; cases "?M ys"; cases "?M zs")
      (simp_all add: fetch_series_answer series_loop_entries py_mapM_append e fold_dset_last[simplified])
qed (rule edac_series_key)

definition demo_values :: "string \<Rightarrow> json" where
  "demo_values v = JArr [JArr [JInt 3600, JStr v]]"

theorem controllers_collapse_witness:
  "map_sum id dget (fetch_series (\<lambda>j. []) (\<lambda>t. Inr 0) (answer_of [edac_series ''n1'' ''mc0'' ''0'' ''0'' (demo_values ''9''),
       edac_series ''n1'' ''mc1'' ''0'' ''1'' (demo_values ''0'')])) =
     map_sum id dget (fetch_series (\<lambda>j. []) (\<lambda>t. Inr 0) (answer_of [edac_series ''n1'' ''mc1'' ''0'' ''1'' (demo_values ''0'')]))"
proof -
  have "series_rows (\<lambda>t. Inr 0) (edac_series ''n1'' ''mc0'' ''0'' ''0'' (demo_values ''9'')) = Inr [(0, Fin 9)]"
    "series_rows (\<lambda>t. Inr 0) (edac_series ''n1'' ''mc1'' ''0'' ''1'' (demo_values ''0'')) = Inr [(0, Fin 0)]"
    by code_simp+
  from controllers_collapse[OF this(1) _ this(2), where xs = "[]" and ys = "[]" and zs = "[]"] show ?thesis by simp
qed

end
