(* ===== verification/WebCalls.thy ===== *)
theory WebCalls
  imports PyNum ToolText Exposition Correlation "HOL-Library.List_Lexorder"
begin

text \<open>
  Requests over HTTP, as data, and what is made of their answers: \<open>redfish_get\<close> of
  \<open>bmc/redfish_collector.py\<close>, \<open>query_prometheus_range\<close> of \<open>storage/wear_predictor.py\<close>,
  \<open>push_grafana_annotation\<close> of \<open>correlation/event_correlator.py\<close>, and the whole of
  \<open>tools/push-coverage-metrics.py\<close>. The servers, \<open>json.loads\<close>, \<open>json.dumps\<close> and the clock are arguments.
\<close>

section \<open>Requests\<close>

record request =
  rq_method :: string
  rq_url :: string
  rq_headers :: "(string \<times> string) list"
  rq_body :: string
  rq_verified :: bool

text \<open>A server: the text it answers, or \<open>None\<close> where \<open>urlopen\<close> or reading raises.\<close>

type_synonym server = "request \<Rightarrow> string option"

text \<open>UTF-8 of the characters of the model, as byte values.\<close>

definition utf8_chr :: "char \<Rightarrow> int list" where
  "utf8_chr c = (if cp c < 128 then [cp c] else [192 + cp c div 64, 128 + cp c mod 64])"

definition utf8 :: "string \<Rightarrow> int list" where
  "utf8 s = concat (map utf8_chr s)"

definition B64 :: string where
  "B64 = ''ABCDEFGHIJKLMNOPQRSTUVWXYZabcdefghijklmnopqrstuvwxyz0123456789+/''"

definition b64_digit :: "int \<Rightarrow> char" where
  "b64_digit n = B64 ! nat n"

fun b64encode :: "int list \<Rightarrow> string" where
  "b64encode [] = []"
| "b64encode [a] = [b64_digit (a div 4), b64_digit (a mod 4 * 16), CHR ''='', CHR ''='']"
| "b64encode [a, b] =
     [b64_digit (a div 4), b64_digit (a mod 4 * 16 + b div 16), b64_digit (b mod 16 * 4), CHR ''='']"
| "b64encode (a # b # c # bs) =
     [b64_digit (a div 4), b64_digit (a mod 4 * 16 + b div 16), b64_digit (b mod 16 * 4 + c div 64), b64_digit (c mod 64)] @
     b64encode bs"

section \<open>Redfish\<close>

text \<open>\<open>REDFISH_INSECURE\<close>: only the word \<open>true\<close>, in any case, turns the verification off.\<close>

definition redfish_verify :: "string option \<Rightarrow> bool" where
  "redfish_verify insecure = (lower (case insecure of Some v \<Rightarrow> v | None \<Rightarrow> ''false'') \<noteq> ''true'')"

definition redfish_request :: "string \<Rightarrow> string \<Rightarrow> string \<Rightarrow> string \<Rightarrow> bool \<Rightarrow> request" where
  "redfish_request host path user password verify =
     \<lparr>rq_method = ''GET'', rq_url = ''https://'' @ host @ path,
      rq_headers = [(''Authorization'', ''Basic '' @ b64encode (utf8 (user @ '':'' @ password))), (''Accept'', ''application/json'')],
      rq_body = [], rq_verified = verify\<rparr>"

definition redfish_get ::
    "server \<Rightarrow> (string \<Rightarrow> json option) \<Rightarrow> string \<Rightarrow> string \<Rightarrow> string \<Rightarrow> string \<Rightarrow> bool \<Rightarrow> json option" where
  "redfish_get web loads host path user password verify =
     (case web (redfish_request host path user password verify) of None \<Rightarrow> None | Some raw \<Rightarrow> loads raw)"

section \<open>Prometheus\<close>

text \<open>\<open>urllib.parse.urlencode\<close>\<close>

definition hex_byte :: "int \<Rightarrow> string" where
  "hex_byte n = [CHR ''%'', ''0123456789ABCDEF'' ! nat (n div 16), ''0123456789ABCDEF'' ! nat (n mod 16)]"

definition unreserved :: "char \<Rightarrow> bool" where
  "unreserved c \<longleftrightarrow> cp c < 128 \<and> (is_word c \<or> c \<in> set ''.-~'')"

definition quote_plus :: "string \<Rightarrow> string" where
  "quote_plus s = concat (map (\<lambda>c. if unreserved c then [c] else if c = CHR '' '' then ''+''
     else concat (map hex_byte (utf8_chr c))) s)"

definition urlencode :: "(string \<times> string) list \<Rightarrow> string" where
  "urlencode ps = join ''&'' (map (\<lambda>(k, v). quote_plus k @ ''='' @ quote_plus v) ps)"

definition range_request :: "string \<Rightarrow> string \<Rightarrow> rat \<Rightarrow> rat \<Rightarrow> int \<Rightarrow> request" where
  "range_request base_url query start end_t step =
     \<lparr>rq_method = ''GET'', rq_url = rstrip_chr (CHR ''/'') base_url @ ''/api/v1/query_range?'' @
        urlencode [(''query'', query), (''start'', fmt_fixed 0 start), (''end'', fmt_fixed 0 end_t), (''step'', str_int step)],
      rq_headers = [], rq_body = [], rq_verified = True\<rparr>"

text \<open>Every exception, one in looking into the answer included, gives the empty list.\<close>

definition range_answer :: "json \<Rightarrow> json py" where
  "range_answer data =
     py_bind (jget data ''status'' JNull) (\<lambda>st.
       if st \<noteq> JStr ''success'' then Inr (JArr [])
       else py_bind (jget data ''data'' (JObj [])) (\<lambda>d. jget d ''result'' (JArr [])))"

definition query_prometheus_range ::
    "server \<Rightarrow> (string \<Rightarrow> json option) \<Rightarrow> string \<Rightarrow> string \<Rightarrow> rat \<Rightarrow> rat \<Rightarrow> int \<Rightarrow> json" where
  "query_prometheus_range web loads base_url query start end_t step =
     (case web (range_request base_url query start end_t step) of
        None \<Rightarrow> JArr []
      | Some raw \<Rightarrow> (case loads raw of
          None \<Rightarrow> JArr []
        | Some data \<Rightarrow> (case range_answer data of Inr r \<Rightarrow> r | Inl e \<Rightarrow> JArr [])))"

section \<open>Grafana\<close>

definition annotation_request :: "(json \<Rightarrow> string) \<Rightarrow> rat \<Rightarrow> string \<Rightarrow> string \<Rightarrow> string \<Rightarrow> string \<Rightarrow> request" where
  "annotation_request dumps now grafana_url api_key tag txt =
     \<lparr>rq_method = ''POST'', rq_url = grafana_url @ ''/api/annotations'',
      rq_headers = [(''Content-Type'', ''application/json''), (''Authorization'', ''Bearer '' @ api_key)],
      rq_body = dumps (JObj [(''time'', JInt (ftrunc (fmul now 1000))),
        (''tags'', JArr [JStr ''hw-fault'', JStr tag]), (''text'', JStr txt)]), rq_verified = True\<rparr>"

text \<open>The requests made: none in a dry run, one otherwise, whose failure is only written to the log.\<close>

definition push_grafana_annotation ::
    "(json \<Rightarrow> string) \<Rightarrow> rat \<Rightarrow> string \<Rightarrow> string \<Rightarrow> bool \<Rightarrow> correlation \<Rightarrow> request list" where
  "push_grafana_annotation dumps now grafana_url api_key dry_run corr =
     (if dry_run then [] else [annotation_request dumps now grafana_url api_key (co_type corr) (co_description corr)])"

text \<open>What a correlator that found these correlations sends.\<close>

definition annotations_sent ::
    "(json \<Rightarrow> string) \<Rightarrow> (nat \<Rightarrow> rat) \<Rightarrow> string \<Rightarrow> string \<Rightarrow> bool \<Rightarrow> correlation list \<Rightarrow> request list" where
  "annotations_sent dumps clock grafana_url api_key dry_run corrs =
     concat (map (\<lambda>(i, c). push_grafana_annotation dumps (clock i) grafana_url api_key dry_run c) (enumerate 0 corrs))"

section \<open>Coverage\<close>

definition THRESHOLDS :: "(string, int) dict" where
  "THRESHOLDS =
     [(''ml'', 85), (''anomaly'', 85), (''aging'', 85), (''correlation'', 85), (''gpu'', 70), (''storage'', 70),
      (''bmc'', 70), (''network'', 70), (''power_cxl'', 70), (''remediation'', 70)]"

text \<open>A file of the report: its path, the covered lines and the statements (zero where they are absent).\<close>

type_synonym file_cover = "string \<times> int \<times> int"

definition package_of :: "string \<Rightarrow> string" where
  "package_of filepath = hd (split_on (CHR ''/'') (replace_chr (CHR 0x5C) ''/'' filepath))"

definition add_file :: "file_cover \<Rightarrow> (string, int \<times> int) dict \<Rightarrow> (string, int \<times> int) dict" where
  "add_file f d =
     (let pkg = package_of (fst f); (c, t) = dgetd d pkg (0, 0)
      in dset pkg (c + fst (snd f), t + snd (snd f)) d)"

definition percent :: "int \<times> int \<Rightarrow> rat" where
  "percent ct = (if snd ct > 0 then fmul (rnd (of_int (fst ct) / of_int (snd ct))) 100 else 0)"

definition parse_coverage_json :: "file_cover list \<Rightarrow> rat option \<Rightarrow> (string, rat) dict \<times> rat" where
  "parse_coverage_json files percent_covered =
     (map (\<lambda>(pkg, ct). (pkg, percent ct)) (fold add_file files []),
      case percent_covered of Some p \<Rightarrow> p | None \<Rightarrow> 0)"

definition build_prometheus_text :: "string \<Rightarrow> rat \<Rightarrow> (string, rat) dict \<Rightarrow> rat \<Rightarrow> string" where
  "build_prometheus_text commit now pkg_coverage overall = render
     (header_lines ''coverage_percent'' ''Test coverage percentage per package'' ''gauge'' @
      map (\<lambda>(pkg, pct). sample_line ''coverage_percent'' [(''package'', pkg), (''commit'', take 8 commit)] (fmt_fixed 1 pct)) pkg_coverage @
      header_lines ''coverage_overall'' ''Overall test coverage percentage'' ''gauge'' @
      [sample_line ''coverage_overall'' [(''commit'', take 8 commit)] (fmt_fixed 1 overall)] @
      header_lines ''coverage_threshold_met'' ''1 if package meets its coverage threshold'' ''gauge'' @
      map (\<lambda>(pkg, pct). sample_line ''coverage_threshold_met''
        [(''package'', pkg), (''threshold'', str_int (dgetd THRESHOLDS pkg 70))]
        (if pct \<ge> of_int (dgetd THRESHOLDS pkg 70) then ''1'' else ''0'')) pkg_coverage @
      header_lines ''coverage_last_updated'' ''Unix timestamp of last coverage push'' ''gauge'' @
      [value_line ''coverage_last_updated'' (str_int (ftrunc now))])"

definition push_to_gateway :: "string \<Rightarrow> string \<Rightarrow> string \<Rightarrow> request" where
  "push_to_gateway gateway job txt =
     \<lparr>rq_method = ''PUT'', rq_url = gateway @ ''/metrics/job/'' @ job, rq_headers = [(''Content-Type'', ''text/plain'')],
      rq_body = txt, rq_verified = True\<rparr>"

section \<open>Lemmas\<close>

text \<open>A dry run sends nothing; otherwise every correlation is sent once.\<close>

lemma annotations_sent_count:
  "length (annotations_sent dumps clock url key dry_run corrs) = (if dry_run then 0 else length corrs)"
proof -
  have "length (concat (map (\<lambda>(i, c). push_grafana_annotation dumps (clock i) url key dry_run c) (enumerate n corrs))) =
      (if dry_run then 0 else length corrs)" for n
    by (induction corrs arbitrary: n) (simp_all add: push_grafana_annotation_def)
  then show ?thesis by (simp add: annotations_sent_def)
qed

text \<open>A query to Prometheus gives its result list or nothing.\<close>

lemma range_request_safe: "range_answer data = Inr r \<Longrightarrow> jget data ''status'' JNull = Inr (JStr ''success'') \<or> r = JArr []"
  by (auto simp: range_answer_def py_bind_eq_Inr split: if_splits)

text \<open>Every file is counted once, under its package.\<close>

definition covered_of :: "string \<Rightarrow> file_cover list \<Rightarrow> int \<times> int" where
  "covered_of pkg files =
     (let fs = filter (\<lambda>f. package_of (fst f) = pkg) files
      in (sum_list (map (\<lambda>f. fst (snd f)) fs), sum_list (map (\<lambda>f. snd (snd f)) fs)))"

lemma add_files:
  "dgetd (fold add_file files d) pkg (0, 0) =
     (fst (dgetd d pkg (0, 0)) + fst (covered_of pkg files), snd (dgetd d pkg (0, 0)) + snd (covered_of pkg files))"
  by (induction files arbitrary: d) (auto simp: covered_of_def add_file_def Let_def split: prod.splits)

lemma add_files_keys: "set (dkeys (fold add_file files d)) = set (dkeys d) \<union> (package_of \<circ> fst) ` set files"
  by (induction files arbitrary: d) (auto simp: add_file_def Let_def split: prod.splits)

text \<open>With no more covered lines than statements no package exceeds a hundred percent.\<close>

lemma percent_bounds:
  assumes "0 \<le> c" "c \<le> t"
  shows "percent (c, t) \<le> 100"
proof (cases "t > 0")
  case True
  have "rnd (of_int c / of_int t) \<le> 1"
    using assms True by (intro rnd_le) (simp_all add: divide_le_eq)
  then have "rnd (of_int c / of_int t) * 100 \<le> 100" by simp
  then show ?thesis using True by (simp add: percent_def fmul_def) (rule rnd_le, simp_all)
qed (simp add: percent_def)

end
