(* ===== verification/PromClients.thy ===== *)
theory PromClients
  imports WebCalls FleetForecast Aging Runbook
begin

text \<open>
  The programs that ask Prometheus, as whole processes: from the URL over the answer to the output file and
  the exit status. \<open>gpu/gpu_failure_predictor.py\<close>, \<open>anomaly/zscore_detector.py\<close>,
  \<open>aging/dimm_aging_report.py\<close>, the fetching of \<open>ml/ce_forecaster.py\<close> and the queries of
  \<open>ml/ai_runbook.py\<close>. The server, \<open>json.loads\<close>, the printing of floats in a URL and the clocks are arguments.
\<close>

section \<open>Queries\<close>

text \<open>The surroundings a client asks through: server, JSON parser, \<open>str\<close> of a float, and which files can be written.\<close>

record prom_env =
  pe_web :: server
  pe_loads :: "string \<Rightarrow> json option"
  pe_repr :: "pf \<Rightarrow> string"
  pe_show :: "json \<Rightarrow> string"
  pe_opens :: "string \<Rightarrow> bool"

definition get_request :: "string \<Rightarrow> request" where
  "get_request url = \<lparr>rq_method = ''GET'', rq_url = url, rq_headers = [], rq_body = [], rq_verified = True\<rparr>"

definition prom_get :: "prom_env \<Rightarrow> string \<Rightarrow> json py" where
  "prom_get pe url =
     (case pe_web pe (get_request url) of
        None \<Rightarrow> Inl OSError
      | Some raw \<Rightarrow> (case pe_loads pe raw of None \<Rightarrow> Inl (ValueError raw) | Some data \<Rightarrow> Inr data))"

definition instant_url :: "string \<Rightarrow> string \<Rightarrow> string" where
  "instant_url prom query = prom @ ''/api/v1/query?'' @ urlencode [(''query'', query)]"

definition range_url :: "prom_env \<Rightarrow> string \<Rightarrow> string \<Rightarrow> pf \<Rightarrow> pf \<Rightarrow> int \<Rightarrow> string" where
  "range_url pe prom query start end_t step = prom @ ''/api/v1/query_range?'' @
     urlencode [(''query'', query), (''start'', pe_repr pe start), (''end'', pe_repr pe end_t), (''step'', str_int step)]"

text \<open>A range that ends now; the window is read before anything is asked.\<close>

definition window_get :: "prom_env \<Rightarrow> string \<Rightarrow> string \<Rightarrow> string \<Rightarrow> int \<Rightarrow> rat \<Rightarrow> json py" where
  "window_get pe prom query window step now =
     py_bind (window_to_seconds window) (\<lambda>w.
       prom_get pe (range_url pe prom query (pf_sub (Fin now) w) (Fin now) step))"

section \<open>The end of a process\<close>

text \<open>Standard output, the files and the exit status.\<close>

record process =
  pr_stdout :: string
  pr_files :: "(string, string) dict"
  pr_status :: int

text \<open>\<open>-\<close> stands for standard output; a file that cannot be written ends the process with a traceback.\<close>

definition deliver :: "prom_env \<Rightarrow> string \<Rightarrow> string \<Rightarrow> (string, string) dict \<Rightarrow> process" where
  "deliver pe sink txt files =
     (if sink = ''-'' then \<lparr>pr_stdout = txt, pr_files = files, pr_status = 0\<rparr>
      else if pe_opens pe sink then \<lparr>pr_stdout = [], pr_files = dset sink txt files, pr_status = 0\<rparr>
      else \<lparr>pr_stdout = [], pr_files = files, pr_status = 1\<rparr>)"

definition died :: "(string, string) dict \<Rightarrow> process" where
  "died files = \<lparr>pr_stdout = [], pr_files = files, pr_status = 1\<rparr>"

section \<open>The clients\<close>

text \<open>\<open>t0\<close> and \<open>t1\<close> are the clock at the two places it is read.\<close>

definition DBE_QUERY :: string where "DBE_QUERY = ''gpu_ecc_dbe_total''"
definition WINDOW_SECONDS :: rat where "WINDOW_SECONDS = 7 * 24 * 3600"
definition STEP_SECONDS :: int where "STEP_SECONDS = 3600"

definition gpu_request :: "prom_env \<Rightarrow> string \<Rightarrow> rat \<Rightarrow> string" where
  "gpu_request pe prom now = range_url pe prom DBE_QUERY (Fin (fsub now WINDOW_SECONDS)) (Fin now) STEP_SECONDS"

definition gpu_process :: "prom_env \<Rightarrow> gpu_env \<Rightarrow> string \<Rightarrow> string \<Rightarrow> rat \<Rightarrow> rat \<Rightarrow> (string, string) dict \<Rightarrow> process" where
  "gpu_process pe env prom sink t0 t1 files =
     deliver pe sink (gpu_main (pe_show pe) env (prom_get pe (gpu_request pe prom t1)) t0) files"

definition zscore_process ::
    "prom_env \<Rightarrow> (rat \<Rightarrow> rat) \<Rightarrow> string \<Rightarrow> string \<Rightarrow> string \<Rightarrow> pf \<Rightarrow> string \<Rightarrow> rat \<Rightarrow> rat \<Rightarrow> (string, string) dict \<Rightarrow> process" where
  "zscore_process pe sq prom query window threshold sink t0 t1 files =
     (case zscore_main sq (pe_show pe) window threshold t1 (window_get pe prom query window 300 t0) (prom_get pe (instant_url prom query)) of
        None \<Rightarrow> died files
      | Some txt \<Rightarrow> deliver pe sink txt files)"

text \<open>\<open>None\<close> of the report is its own exit, an exception the traceback: both leave with status 1.\<close>

definition aging_process ::
    "prom_env \<Rightarrow> (rat \<Rightarrow> rat) \<Rightarrow> string \<Rightarrow> string \<Rightarrow> string \<Rightarrow> pf \<Rightarrow> pf \<Rightarrow> string \<Rightarrow> rat \<Rightarrow> rat \<Rightarrow> (string, string) dict \<Rightarrow> process" where
  "aging_process pe sq prom query window warn critical sink t0 t1 files =
     (case aging_main sq (pe_show pe) warn critical t1 (window_get pe prom query window 86400 t0) of
        Inl e \<Rightarrow> died files
      | Inr None \<Rightarrow> died files
      | Inr (Some txt) \<Rightarrow> deliver pe sink txt files)"

definition CE_RATE :: string where "CE_RATE = ''rate(edac_correctable_errors_total[1h])''"

definition forecaster_process ::
    "prom_env \<Rightarrow> (pf \<Rightarrow> int py) \<Rightarrow> 'm forecast_env \<Rightarrow> forecast_args \<Rightarrow> string \<Rightarrow> string \<Rightarrow> rat \<Rightarrow> files \<Rightarrow> process" where
  "forecaster_process pe ts env a prom window now files =
     (case forecaster_main (pe_show pe) ts env a (window_get pe prom CE_RATE window 3600 now) files of
        Inl e \<Rightarrow> died files
      | Inr st \<Rightarrow> \<lparr>pr_stdout = [], pr_files = fs_files st, pr_status = 0\<rparr>)"

section \<open>The runbook's queries\<close>

definition instant_text :: "prom_env \<Rightarrow> json \<Rightarrow> string py" where
  "instant_text pe data =
     py_bind (jget data ''data'' (JObj [])) (\<lambda>d. py_bind (jget d ''result'' (JArr [])) (\<lambda>rs.
     if jtruthy rs
     then py_bind (jnth rs 0) (\<lambda>r. py_bind (jitem r ''value'') (\<lambda>v. py_bind (jnth v 1) (\<lambda>x.
       Inr (jstr (pe_show pe) x))))
     else Inr ''N/A''))"

definition query_prometheus_instant :: "prom_env \<Rightarrow> string \<Rightarrow> string \<Rightarrow> string" where
  "query_prometheus_instant pe prom metric_expr =
     (case py_bind (prom_get pe (instant_url prom metric_expr)) (instant_text pe) of Inl e \<Rightarrow> ''N/A'' | Inr t \<Rightarrow> t)"

section \<open>What a client asks\<close>

text \<open>A client as a process over a server: it sees the answers to its own URLs and nothing else.\<close>

locale prom_client =
  fixes run :: "server \<Rightarrow> process" and urls :: "string set"
  assumes asks: "\<forall>web web'. (\<forall>u \<in> urls. web (get_request u) = web' (get_request u)) \<longrightarrow> run web = run web'"
begin

lemma other_answers_unseen: "run web = run (\<lambda>r. if r \<in> get_request ` urls then web r else None)"
  by (rule asks[rule_format]) auto

lemma silent_server: "(\<forall>u \<in> urls. web (get_request u) = None) \<Longrightarrow> run web = run (\<lambda>r. None)"
  by (rule asks[rule_format]) auto

lemma asks_nobody: "urls = {} \<Longrightarrow> run web = run web'"
  by (rule asks[rule_format]) simp

end

definition window_urls :: "prom_env \<Rightarrow> string \<Rightarrow> string \<Rightarrow> string \<Rightarrow> int \<Rightarrow> rat \<Rightarrow> string set" where
  "window_urls pe prom query window step now =
     (case window_to_seconds window of Inl e \<Rightarrow> {} | Inr w \<Rightarrow> {range_url pe prom query (pf_sub (Fin now) w) (Fin now) step})"

lemma prom_get_web:
  "prom_get (pe\<lparr>pe_web := web\<rparr>) u =
     (case web (get_request u) of
        None \<Rightarrow> Inl OSError
      | Some raw \<Rightarrow> (case pe_loads pe raw of None \<Rightarrow> Inl (ValueError raw) | Some data \<Rightarrow> Inr data))"
  by (simp add: prom_get_def cong: option.case_cong)

lemma range_url_web [simp]: "range_url (pe\<lparr>pe_web := web\<rparr>) prom query start end_t step = range_url pe prom query start end_t step"
  by (simp add: range_url_def)

lemma window_get_cong:
  "\<forall>u \<in> window_urls pe prom query window step now. web (get_request u) = web' (get_request u) \<Longrightarrow>
   window_get (pe\<lparr>pe_web := web\<rparr>) prom query window step now = window_get (pe\<lparr>pe_web := web'\<rparr>) prom query window step now"
  by (cases "window_to_seconds window") (simp_all add: window_get_def window_urls_def prom_get_web)

lemma deliver_web [simp]: "deliver (pe\<lparr>pe_web := web\<rparr>) sink txt files = deliver pe sink txt files"
  by (simp add: deliver_def)

interpretation gp: prom_client "\<lambda>web. gpu_process (pe\<lparr>pe_web := web\<rparr>) env prom sink t0 t1 files" "{gpu_request pe prom t1}"
  for pe env prom sink t0 t1 files
  by unfold_locales (simp add: gpu_process_def gpu_request_def prom_get_web)

interpretation zp: prom_client "\<lambda>web. zscore_process (pe\<lparr>pe_web := web\<rparr>) sq prom query window threshold sink t0 t1 files"
  "insert (instant_url prom query) (window_urls pe prom query window 300 t0)"
  for pe sq prom query window threshold sink t0 t1 files
proof unfold_locales
  have "zscore_process (pe\<lparr>pe_web := web\<rparr>) sq prom query window threshold sink t0 t1 files =
      zscore_process (pe\<lparr>pe_web := web'\<rparr>) sq prom query window threshold sink t0 t1 files"
    if "\<forall>u \<in> insert (instant_url prom query) (window_urls pe prom query window 300 t0). web (get_request u) = web' (get_request u)"
    for web web'
  proof -
    have "window_get (pe\<lparr>pe_web := web\<rparr>) prom query window 300 t0 = window_get (pe\<lparr>pe_web := web'\<rparr>) prom query window 300 t0"
      using that by (intro window_get_cong) simp
    then show ?thesis using that by (simp add: zscore_process_def prom_get_web cong: option.case_cong)
  qed
  then show "\<forall>web web'. (\<forall>u \<in> insert (instant_url prom query) (window_urls pe prom query window 300 t0).
      web (get_request u) = web' (get_request u)) \<longrightarrow>
      zscore_process (pe\<lparr>pe_web := web\<rparr>) sq prom query window threshold sink t0 t1 files =
      zscore_process (pe\<lparr>pe_web := web'\<rparr>) sq prom query window threshold sink t0 t1 files" by blast
qed

interpretation ag: prom_client "\<lambda>web. aging_process (pe\<lparr>pe_web := web\<rparr>) sq prom query window warn critical sink t0 t1 files"
  "window_urls pe prom query window 86400 t0"
  for pe sq prom query window warn critical sink t0 t1 files
  by unfold_locales (intro allI impI, drule window_get_cong, simp add: aging_process_def cong: option.case_cong sum.case_cong)

interpretation fc: prom_client "\<lambda>web. forecaster_process (pe\<lparr>pe_web := web\<rparr>) ts env a prom window now files"
  "window_urls pe prom CE_RATE window 3600 now"
  for pe ts env a prom window now files
  by unfold_locales (intro allI impI, drule window_get_cong, simp add: forecaster_process_def)

section \<open>Outages and windows\<close>

lemma dead_get: "prom_get (pe\<lparr>pe_web := \<lambda>r. None\<rparr>) u = Inl OSError"
  by (simp add: prom_get_def)

lemma dead_window: "isl (window_get (pe\<lparr>pe_web := \<lambda>r. None\<rparr>) prom query window step now)"
  by (cases "window_to_seconds window") (simp_all add: window_get_def dead_get)

lemma window_unit:
  assumes "last window \<notin> set ''smhdw''"
  shows "isl (window_to_seconds window)"
  using assms by (cases "py_float (butlast window)") (auto simp: window_to_seconds_def)

lemma window_get_isl: "isl (window_to_seconds window) \<Longrightarrow> isl (window_get pe prom query window step now)"
  by (cases "window_to_seconds window") (simp_all add: window_get_def)

lemma window_urls_isl: "isl (window_to_seconds window) \<Longrightarrow> window_urls pe prom query window step now = {}"
  by (cases "window_to_seconds window") (simp_all add: window_urls_def)

lemma failed_window_dies:
  "isl (window_get pe prom query window 300 t0) \<Longrightarrow>
     zscore_process pe sq prom query window threshold sink t0 t1 files = died files"
  "isl (window_get pe prom query window 86400 t0) \<Longrightarrow>
     aging_process pe sq prom query window warn critical sink t0 t1 files = died files"
  "isl (window_get pe prom CE_RATE window 3600 t0) \<Longrightarrow> forecaster_process pe ts env a prom window t0 fs = died fs"
  by (auto simp: isl_def zscore_process_def zscore_main_def aging_process_def aging_main_def
    forecaster_process_def forecaster_main_def py_bind_eq_Inr split: sum.split)

text \<open>Prometheus takes a year and a compound duration; the clients die of them without asking.\<close>

lemma windows_refused:
  assumes "window \<in> {''1y'', ''500ms'', ''1h30m''}"
  shows "zscore_process pe sq prom query window threshold sink t0 t1 files = died files"
    "aging_process pe sq prom query window warn critical sink t0 t1 files = died files"
    "forecaster_process pe ts env a prom window t0 fs = died fs"
proof -
  have "isl (window_to_seconds ''1y'')" "isl (window_to_seconds ''500ms'')" "isl (window_to_seconds ''1h30m'')"
    by code_simp+
  then have "isl (window_to_seconds window)" using assms by auto
  then have refused: "isl (window_get pe prom q window step t)" for q step t by (rule window_get_isl)
  show "zscore_process pe sq prom query window threshold sink t0 t1 files = died files"
    "aging_process pe sq prom query window warn critical sink t0 t1 files = died files"
    "forecaster_process pe ts env a prom window t0 fs = died fs"
    by (rule failed_window_dies[OF refused])+
qed

lemma urls_at:
  "u \<in> window_urls pe prom query window step now \<Longrightarrow> \<exists>path. u = prom @ path"
  "\<exists>path. gpu_request pe prom t = prom @ path" "\<exists>path. instant_url prom query = prom @ path"
  by (auto simp: window_urls_def range_url_def gpu_request_def instant_url_def split: sum.splits)

text \<open>C26: while the database is down the GPU predictor replaces its report by one that says so, with no
  prediction in it; the anomaly detector, the aging report and the forecaster end with status 1 and leave
  the files of their last run as they are.\<close>

theorem outage_leaves_reports:
  assumes "\<And>path. pe_web pe (get_request (prom @ path)) = None"
  shows "gpu_process pe env prom sink t0 t1 files = deliver pe sink (render (gpu_lines False [] [] t0)) files \<and>
    zscore_process pe sq prom query window threshold sink t0 t1 files = died files \<and>
    aging_process pe sq prom query window warn critical sink t0 t1 files = died files \<and>
    forecaster_process pe ts fenv a prom window t0 models = died models"
proof -
  have same: "pe = pe\<lparr>pe_web := pe_web pe\<rparr>" by simp
  have down: "\<forall>u \<in> window_urls pe prom query' window' step now. pe_web pe (get_request u) = None" for query' window' step now
    using assms urls_at(1) by metis
  have ins: "pe_web pe (get_request (gpu_request pe prom t1)) = None" "pe_web pe (get_request (instant_url prom query)) = None"
    using assms urls_at(2,3) by metis+
  have "gpu_process pe env prom sink t0 t1 files = gpu_process (pe\<lparr>pe_web := \<lambda>r. None\<rparr>) env prom sink t0 t1 files"
    by (subst same) (rule gp.silent_server, simp add: ins)
  moreover have "zscore_process pe sq prom query window threshold sink t0 t1 files =
      zscore_process (pe\<lparr>pe_web := \<lambda>r. None\<rparr>) sq prom query window threshold sink t0 t1 files"
    by (subst same) (rule zp.silent_server, simp add: ins down)
  moreover have "aging_process pe sq prom query window warn critical sink t0 t1 files =
      aging_process (pe\<lparr>pe_web := \<lambda>r. None\<rparr>) sq prom query window warn critical sink t0 t1 files"
    by (subst same) (rule ag.silent_server[OF down])
  moreover have "forecaster_process pe ts fenv a prom window t0 models =
      forecaster_process (pe\<lparr>pe_web := \<lambda>r. None\<rparr>) ts fenv a prom window t0 models"
    by (subst same) (rule fc.silent_server[OF down])
  ultimately show ?thesis
    by (simp add: failed_window_dies dead_window) (simp add: gpu_process_def gpu_main_def gpu_run_def dead_get)
qed

definition demo_env_down :: prom_env where
  "demo_env_down = \<lparr>pe_web = \<lambda>r. if starts_with ''http://a'' (rq_url r) then None else Some ''[]'',
     pe_loads = \<lambda>t. Some (JArr []), pe_repr = fmt_pf 1, pe_show = \<lambda>j. [], pe_opens = \<lambda>f. True\<rparr>"

theorem outage_leaves_reports_witness:
  "zscore_process demo_env_down id ''http://a:9090'' ''up'' ''7d'' (Fin 3) ''z.prom'' 0 1 [(''z.prom'', ''old'')] = died [(''z.prom'', ''old'')]"
proof -
  have "pe_web demo_env_down (get_request (''http://a:9090'' @ path)) = None" for path
    by (simp add: demo_env_down_def get_request_def starts_with_def)
  from outage_leaves_reports[OF this] show ?thesis by blast
qed

section \<open>What the runbook knows\<close>

text \<open>A series: the name of its metric and its labels.\<close>

type_synonym series = "string \<times> (string, string) dict"

definition selected :: "string \<Rightarrow> (string \<times> string) list \<Rightarrow> series \<Rightarrow> bool" where
  "selected metric ls s \<longleftrightarrow> fst s = metric \<and> list_all (\<lambda>(k, v). dgetd (snd s) k [] = v) ls"

definition empty_vector :: json where
  "empty_vector = JObj [(''status'', JStr ''success''),
     (''data'', JObj [(''resultType'', JStr ''vector''), (''result'', JArr [])])]"

definition quotable :: "string \<Rightarrow> bool" where
  "quotable s \<longleftrightarrow> CHR 0x22 \<notin> set s \<and> CHR 0x5C \<notin> set s \<and> CHR 0x0A \<notin> set s"

text \<open>The documented answer of Prometheus to a selector that no series matches: the empty vector.\<close>

definition answers_for :: "prom_env \<Rightarrow> string \<Rightarrow> series list \<Rightarrow> bool" where
  "answers_for pe prom db \<longleftrightarrow>
     (\<forall>metric ls. list_all (quotable \<circ> snd) ls \<longrightarrow> \<not> list_ex (selected metric ls) db \<longrightarrow>
        (case pe_web pe (get_request (instant_url prom (selector metric ls))) of
           None \<Rightarrow> True | Some raw \<Rightarrow> pe_loads pe raw = Some empty_vector))"

lemma unmatched_unknown:
  assumes "answers_for pe prom db" "list_all (quotable \<circ> snd) ls" "\<not> list_ex (selected metric ls) db"
  shows "query_prometheus_instant pe prom (selector metric ls) = ''N/A''"
proof -
  have "case pe_web pe (get_request (instant_url prom (selector metric ls))) of
      None \<Rightarrow> True | Some raw \<Rightarrow> pe_loads pe raw = Some empty_vector"
    using assms unfolding answers_for_def by blast
  moreover have "instant_text pe empty_vector = Inr ''N/A''"
    by (simp add: instant_text_def empty_vector_def jget_def dgetd_def)
  ultimately show ?thesis
    by (cases "pe_web pe (get_request (instant_url prom (selector metric ls)))")
      (simp_all add: query_prometheus_instant_def prom_get_def)
qed

text \<open>Whatever errors the EDAC exporter has counted, the runbook's context says that the number of
  uncorrectable errors and the slope of the correctable ones are unknown: it asks for a label \<open>mc\<close>, which
  neither the exporter's series nor the aging report made from them carry.\<close>

theorem runbook_counts_unknown:
  assumes "answers_for pe prom db" "mc \<noteq> []" "quotable mc" "quotable inst"
    and "\<forall>s \<in> set db. fst s \<in> {''edac_uncorrectable_errors_total'', ''dimm_aging_ce_rate_slope''} \<longrightarrow>
      ''mc'' \<notin> set (dkeys (snd s))"
  shows "let ls = context_lines sha256 (query_prometheus_instant pe prom) time labels_text alertname inst mc csrow in
    ls ! 12 = ''CE rate slope (errors/day):  N/A'' \<and> ls ! 14 = ''UE count (all time):         N/A''"
proof -
  have "\<not> list_ex (selected metric [(''instance'', inst), (''mc'', mc)]) db"
    if "metric \<in> {''edac_uncorrectable_errors_total'', ''dimm_aging_ce_rate_slope''}" for metric
    using assms(2,5) that by (auto simp: list_ex_iff selected_def dgetd_def dget_None_iff[THEN iffD2])
  then have "query_prometheus_instant pe prom (selector metric [(''instance'', inst), (''mc'', mc)]) = ''N/A''"
    if "metric \<in> {''edac_uncorrectable_errors_total'', ''dimm_aging_ce_rate_slope''}" for metric
    using that assms(3,4) by (intro unmatched_unknown[OF assms(1)]) auto
  then show ?thesis by (simp add: context_lines_def)
qed

definition demo_prom :: prom_env where
  "demo_prom = \<lparr>pe_web = \<lambda>r. Some ''empty'', pe_loads = \<lambda>t. Some empty_vector, pe_repr = fmt_pf 1, pe_show = \<lambda>j. [],
     pe_opens = \<lambda>f. True\<rparr>"

definition demo_db :: "series list" where
  "demo_db = [(''edac_uncorrectable_errors_total'', [(''instance'', ''n1:9100''), (''controller'', ''mc0''), (''csrow'', ''0'')])]"

theorem runbook_counts_unknown_witness:
  "context_lines (\<lambda>s. ''0123456789'') (query_prometheus_instant demo_prom ''http://p:9090'') ''now'' None ''EDACUncorrectable''
     ''n1:9100'' ''0'' ''0'' ! 14 = ''UE count (all time):         N/A''"
proof -
  have "answers_for demo_prom ''http://p:9090'' demo_db" by (simp add: answers_for_def demo_prom_def)
  moreover have "quotable ''0''" "quotable ''n1:9100''"
    "\<forall>s \<in> set demo_db. fst s \<in> {''edac_uncorrectable_errors_total'', ''dimm_aging_ce_rate_slope''} \<longrightarrow>
      ''mc'' \<notin> set (dkeys (snd s))"
    by code_simp+
  ultimately show ?thesis using runbook_counts_unknown[of demo_prom "''http://p:9090''" demo_db "''0''" "''n1:9100''"]
    unfolding Let_def by blast
qed

end
