(* ===== verification/Chain.thy ===== *)
theory Chain
  imports FleetForecast MlExporter RemControllerProps
begin

text \<open>
  From the forecast to the cordon: the lines \<open>ml/probability_exporter.py\<close> writes for the series
  \<open>ml/ce_forecaster.py\<close> has trained, scraped by Prometheus from the host the exporter runs on, and
  polled by \<open>remediation/remediation-controller.py\<close>. Prometheus is an argument, with the documented
  law of its default \<open>honor_labels: false\<close>, which no configuration under \<open>deploy/\<close> changes.
\<close>

section \<open>Samples and their text\<close>

type_synonym exposed = "string \<times> (string, string) dict \<times> string"

fun text_of :: "exposed \<Rightarrow> string" where
  "text_of (name, ls, v) = (if ls = [] then value_line name v else sample_line name ls v)"

definition label_name :: "string \<Rightarrow> bool" where
  "label_name k \<longleftrightarrow> k \<noteq> [] \<and> CHR ''='' \<notin> set k \<and> CHR 0x7D \<notin> set k"

definition plain_value :: "string \<Rightarrow> bool" where
  "plain_value v \<longleftrightarrow> CHR 0x22 \<notin> set v \<and> CHR 0x5C \<notin> set v \<and> CHR 0x0A \<notin> set v"

definition wf_labels :: "(string, string) dict \<Rightarrow> bool" where
  "wf_labels ls \<longleftrightarrow> list_all (\<lambda>(k, v). label_name k \<and> plain_value v) ls"

definition wf_sample :: "exposed \<Rightarrow> bool" where
  "wf_sample s \<longleftrightarrow> metric_name (fst s) \<and> wf_labels (fst (snd s))"

text \<open>The lines that are no comments.\<close>

definition sample_lines :: "string list \<Rightarrow> string list" where
  "sample_lines lines = filter (\<lambda>l. \<not> starts_with ''#'' l) lines"

lemma until_char:
  "c \<notin> set u \<Longrightarrow> c \<notin> set v \<Longrightarrow> u @ c # x = v @ c # y \<Longrightarrow> u = v \<and> x = y"
proof -
  assume a: "c \<notin> set u" "c \<notin> set v" "u @ c # x = v @ c # y"
  have "takeWhile (\<lambda>d. d \<noteq> c) (w @ c # z) = w" if "c \<notin> set w" for w z
    using that by (subst takeWhile_append2) auto
  then have "u = v" using a by metis
  then show "u = v \<and> x = y" using a by simp
qed

lemma label_pair_prefix:
  assumes "label_name k" "plain_value v" "label_name k'" "plain_value v'" "label_pair (k, v) @ x = label_pair (k', v') @ y"
  shows "k = k' \<and> v = v' \<and> x = y"
proof -
  have "k @ CHR ''='' # (CHR 0x22 # v @ CHR 0x22 # x) = k' @ CHR ''='' # (CHR 0x22 # v' @ CHR 0x22 # y)"
    using assms(5) by (simp add: label_pair_def)
  from until_char[OF _ _ this] assms(1,3) have k: "k = k'" and "v @ CHR 0x22 # x = v' @ CHR 0x22 # y"
    by (auto simp: label_name_def)
  from until_char[OF _ _ this(2)] assms(2,4) have "v = v' \<and> x = y" by (auto simp: plain_value_def)
  with k show ?thesis by simp
qed

lemma join_pairs:
  "join '','' (map label_pair ((k, v) # ls)) @ CHR 0x7D # x = label_pair (k, v) @
     (if ls = [] then CHR 0x7D # x else CHR '','' # join '','' (map label_pair ls) @ CHR 0x7D # x)"
  by (cases ls) simp_all

lemma no_end_here: "label_name k \<Longrightarrow> label_pair (k, v) @ x \<noteq> CHR 0x7D # y"
  by (cases k) (auto simp: label_pair_def label_name_def)

lemma labels_text_inj:
  "wf_labels ls \<Longrightarrow> wf_labels ls' \<Longrightarrow>
   join '','' (map label_pair ls) @ CHR 0x7D # x = join '','' (map label_pair ls') @ CHR 0x7D # y \<Longrightarrow> ls = ls' \<and> x = y"
proof (induction ls arbitrary: ls')
  case Nil
  then show ?case
  proof (cases ls')
    case (Cons p ls'')
    obtain k v where p: "p = (k, v)" by (cases p)
    show ?thesis using Nil no_end_here[of k v] unfolding Cons p join_pairs by (simp add: wf_labels_def) metis
  qed simp
next
  case (Cons p ls)
  obtain k v where p: "p = (k, v)" by (cases p)
  show ?case
  proof (cases ls')
    case Nil
    show ?thesis using Cons.prems no_end_here[of k v] unfolding Nil p join_pairs by (simp add: wf_labels_def)
  next
    case (Cons p' ls'')
    obtain k' v' where p': "p' = (k', v')" by (cases p')
    let ?t = "\<lambda>ls x. if ls = [] then CHR 0x7D # x else CHR '','' # join '','' (map label_pair ls) @ CHR 0x7D # x"
    have w: "label_name k" "plain_value v" "wf_labels ls" "label_name k'" "plain_value v'" "wf_labels ls''"
      using Cons.prems(1,2) Cons p p' by (simp_all add: wf_labels_def)
    have "label_pair (k, v) @ ?t ls x = label_pair (k', v') @ ?t ls'' y"
      using Cons.prems(3) unfolding Cons p p' join_pairs .
    from label_pair_prefix[OF w(1,2,4,5) this] have kv: "k = k'" "v = v'" and t: "?t ls x = ?t ls'' y" by auto
    have "ls = ls'' \<and> x = y"
      using t Cons.IH[OF w(3) w(6)] by (cases "ls = []"; cases "ls'' = []") auto
    then show ?thesis using kv by (simp add: Cons p p')
  qed
qed

lemma text_of_inj:
  assumes "metric_name name" "wf_labels ls" "wf_labels ls'" "text_of (name, ls, v) = text_of (name, ls', v')"
  shows "ls = ls' \<and> v = v'"
proof (cases "ls = []"; cases "ls' = []")
  assume n: "ls \<noteq> []" "ls' \<noteq> []"
  then have "join '','' (map label_pair ls) @ CHR 0x7D # ('' '' @ v) = join '','' (map label_pair ls') @ CHR 0x7D # ('' '' @ v')"
    using assms(4) by (simp add: sample_line_def)
  from labels_text_inj[OF assms(2,3) this] show ?thesis by simp
qed (use assms(4) in \<open>auto simp: sample_line_def value_line_def\<close>)

section \<open>What the exporter writes\<close>

definition dimm_labels :: "string \<Rightarrow> string \<Rightarrow> (string, string) dict" where
  "dimm_labels inst csrow = [(''instance'', inst), (''mc'', ''0''), (''csrow'', csrow)]"

lemma labelled_edac: "labelled name (edac_key inst csrow) x = sample_line name (dimm_labels inst csrow) x"
  by (simp add: labelled_def edac_key_def sample_line_def dimm_labels_def label_pair_def)

text \<open>A metadata entry of a series the forecaster has trained.\<close>

definition trained_entry :: "(json \<Rightarrow> string) \<Rightarrow> json \<Rightarrow> bool" where
  "trained_entry show e \<longleftrightarrow>
     (\<exists>inst csrow. plain_value inst \<and> plain_value csrow \<and> entry_key show e = Inr (edac_key inst csrow))"

lemma field_lines_shape:
  "py_mapM (field_line sh name key) es = Inr ls \<Longrightarrow> list_all (trained_entry sh) es \<Longrightarrow> l \<in> set ls \<Longrightarrow>
   \<exists>inst csrow x. plain_value inst \<and> plain_value csrow \<and> l = sample_line name (dimm_labels inst csrow) x"
proof (induction es arbitrary: ls)
  case (Cons e es)
  from Cons.prems(1) obtain k ks where ls: "field_line sh name key e = Inr k" "py_mapM (field_line sh name key) es = Inr ks" "ls = k # ks"
    by (auto simp: py_bind_eq_Inr)
  from Cons.prems(2) obtain inst csrow where "plain_value inst" "plain_value csrow" "entry_key sh e = Inr (edac_key inst csrow)"
    by (auto simp: trained_entry_def)
  moreover from this(3) ls(1) obtain x where "k = labelled name (edac_key inst csrow) x"
    by (auto simp: field_line_def py_bind_eq_Inr)
  ultimately show ?case using Cons.prems(2,3) Cons.IH[OF ls(2)] ls(3) by (auto simp: labelled_edac)
qed simp

lemma mapM_each: "py_mapM f es = Inr ls \<Longrightarrow> l \<in> set ls \<Longrightarrow> \<exists>e. f e = Inr l"
  by (induction es arbitrary: ls) (auto simp: py_bind_eq_Inr)

lemma other_names:
  "tier_lines sh e = Inr ts \<Longrightarrow> l \<in> set ts \<Longrightarrow> series_name l = ''dimm_risk_tier''"
  "forecast_line sh sha256 predict disk e = Inr l \<Longrightarrow> series_name l = ''ce_forecast_next_24h''"
  "age_line sh now e = Inr l \<Longrightarrow> series_name l = ''ml_model_age_hours''"
  by (auto simp: tier_lines_def forecast_line_def age_line_def py_bind_eq_Inr labelled_def series_name_def)

lemma ml_lines_members:
  assumes "ml_lines sh sha256 predict disk es now = Inr lines" "l \<in> set lines"
  shows "(\<exists>ls. py_mapM (field_line sh ''failure_probability_7d'' ''failure_probability_7d'') es = Inr ls \<and> l \<in> set ls) \<or>
    (\<exists>ls. py_mapM (field_line sh ''failure_probability_30d'' ''failure_probability_30d'') es = Inr ls \<and> l \<in> set ls) \<or>
    (\<exists>ls. py_mapM (tier_lines sh) es = Inr ls \<and> (\<exists>t \<in> set ls. l \<in> set t)) \<or>
    (\<exists>ls. py_mapM (forecast_line sh sha256 predict disk) es = Inr ls \<and> l \<in> set ls) \<or>
    (\<exists>ls. py_mapM (age_line sh now) es = Inr ls \<and> l \<in> set ls) \<or>
    series_name l \<in> {''#'', ''ml_exporter_last_run_timestamp'', ''ml_models_loaded_total''}"
  using assms by (auto simp: ml_lines_def py_bind_eq_Inr series_name_value metric_name_def dest!: series_name_header)

text \<open>Every sample of the probability carries the three labels of its key and no other.\<close>

lemma probability_lines:
  assumes "ml_lines sh sha256 predict disk es now = Inr lines" "list_all (trained_entry sh) es"
    "l \<in> set lines" "series_name l = ''failure_probability_7d''"
  shows "\<exists>inst csrow x. plain_value inst \<and> plain_value csrow \<and>
    l = sample_line ''failure_probability_7d'' (dimm_labels inst csrow) x"
proof -
  have "series_name l = ''failure_probability_30d''" if "py_mapM (field_line sh ''failure_probability_30d'' ''failure_probability_30d'') es = Inr ls"
    "l \<in> set ls" for ls
    using field_lines_shape[OF that(1) assms(2) that(2)] by (auto simp: series_name_sample metric_name_def)
  moreover have "series_name l = ''dimm_risk_tier''" if "py_mapM (tier_lines sh) es = Inr ls" "t \<in> set ls" "l \<in> set t" for ls t
    using mapM_each[OF that(1,2)] other_names(1) that(3) by blast
  moreover have "series_name l = ''ce_forecast_next_24h''" if "py_mapM (forecast_line sh sha256 predict disk) es = Inr ls" "l \<in> set ls" for ls
    using mapM_each[OF that] other_names(2) by blast
  moreover have "series_name l = ''ml_model_age_hours''" if "py_mapM (age_line sh now) es = Inr ls" "l \<in> set ls" for ls
    using mapM_each[OF that] other_names(3) by blast
  ultimately obtain ls where "py_mapM (field_line sh ''failure_probability_7d'' ''failure_probability_7d'') es = Inr ls" "l \<in> set ls"
    using ml_lines_members[OF assms(1,3)] assms(4) by fastforce
  then show ?thesis using field_lines_shape[OF _ assms(2)] by blast
qed

section \<open>What the controller polls\<close>

text \<open>An instant query for the probability, under the default of Prometheus: every item comes from a sample of
  the scrape, has its labels, but its instance is the host that was scraped.\<close>

definition server_labels_win :: "(string \<Rightarrow> exposed list \<Rightarrow> prom_item list) \<Rightarrow> bool" where
  "server_labels_win scrape \<longleftrightarrow>
     (\<forall>target samples i. i \<in> set (scrape target samples) \<longrightarrow>
        pi_instance i = Some target \<and>
        (\<exists>ls v. (''failure_probability_7d'', ls, v) \<in> set samples \<and> pi_node i = dget ls ''node'' \<and> pi_value i = PvText v))"

lemma scraped_node:
  assumes "server_labels_win scrape" "ml_lines sh sha256 predict disk es now = Inr lines" "list_all (trained_entry sh) es"
    "sample_lines lines = map text_of samples" "list_all wf_sample samples" "i \<in> set (scrape target samples)"
  shows "item_node i = target"
proof -
  obtain ls v where i: "(''failure_probability_7d'', ls, v) \<in> set samples" "pi_node i = dget ls ''node''" "pi_instance i = Some target"
    using assms(1,6) unfolding server_labels_win_def by blast
  have m: "metric_name ''failure_probability_7d''" by (simp add: metric_name_def)
  let ?l = "text_of (''failure_probability_7d'', ls, v)"
  have "?l \<in> set (sample_lines lines)" using i(1) unfolding assms(4) by force
  then have "?l \<in> set lines" by (simp add: sample_lines_def)
  moreover have "series_name ?l = ''failure_probability_7d''"
    using series_name_value[OF m] series_name_sample[OF m] by simp
  ultimately obtain inst csrow x where x: "plain_value inst" "plain_value csrow"
    "?l = sample_line ''failure_probability_7d'' (dimm_labels inst csrow) x"
    using probability_lines[OF assms(2,3)] by blast
  have "wf_labels ls" using assms(5) i(1) by (auto simp: list_all_iff wf_sample_def)
  moreover have "wf_labels (dimm_labels inst csrow)"
    using x by (simp add: wf_labels_def dimm_labels_def label_name_def plain_value_def)
  moreover have "?l = text_of (''failure_probability_7d'', dimm_labels inst csrow, x)"
    using x(3) by (simp add: dimm_labels_def)
  ultimately have "ls = dimm_labels inst csrow"
    using text_of_inj[of "''failure_probability_7d''" ls "dimm_labels inst csrow" v x] m by blast
  then show ?thesis using i by (simp add: item_node_def dimm_labels_def)
qed

lemma query_items_nodes:
  "query_items is = Inr rs \<Longrightarrow> \<forall>i \<in> set is. item_node i = t \<Longrightarrow> list_all (\<lambda>r. fst r = t) rs"
  by (induction "is" arbitrary: rs) (auto simp: py_bind_eq_Inr split: if_splits prom_value.splits option.splits)

lemma turns_nodes:
  assumes "pl_response inp = Response st is" "\<forall>i \<in> set is. item_node i = t" "sm \<in> set (turns inp)"
  shows "sm_node sm = t"
proof -
  obtain rs where rs: "query_items is = Inr rs" "sm \<in> set (timed (pl_clock inp) rs)"
    using assms(1,3) by (cases "query_items is") (auto simp: turns_def query_prometheus_def split: if_splits)
  have "sm_node sm \<in> set (map fst rs)" using rs(2) unfolding timed_nodes[of "pl_clock inp" rs, symmetric] by simp
  then show ?thesis using query_items_nodes[OF rs(1) assms(2)] by (auto simp: list_all_iff)
qed

lemma fold_turns_others:
  "\<forall>sm \<in> set sms. sm_node sm \<noteq> n \<Longrightarrow> patches_of n (snd (fold (spec_turn cfg kube) sms sc)) = patches_of n (snd sc)"
proof (induction sms arbitrary: sc)
  case (Cons sm sms)
  have "patches_of n (snd (spec_turn cfg kube sm sc)) = patches_of n (snd sc)"
    using Cons.prems by (cases sc) (simp add: spec_turn_def Let_def patches_of_other)
  then show ?case using Cons by simp
qed simp

text \<open>C16: the controller never patches a node because of a DIMM of that node: every sample of the probability
  exporter reaches it under the name of the host the exporter's file was scraped from, so whatever the
  forecaster has found, a poll patches no other node than that host.\<close>

theorem exporter_host_cordoned:
  assumes "server_labels_win scrape" "ml_lines show sha256 predict disk entries now = Inr lines"
    "list_all (trained_entry show) entries" "sample_lines lines = map text_of samples" "list_all wf_sample samples"
    "pl_response inp = Response status (scrape target samples)"
    "names_ok w" "state_ok (file_state (w_file w))" "node \<noteq> target"
  shows "patches_of node (w_calls (snd (poll_once cfg kube inp w))) = patches_of node (w_calls w)"
proof -
  have "\<forall>i \<in> set (scrape target samples). item_node i = target"
    using scraped_node[OF assms(1-5)] by blast
  then have t: "\<forall>sm \<in> set (turns inp). sm_node sm \<noteq> node"
    using turns_nodes[OF assms(6)] assms(9) by blast
  obtain r w' where w': "poll_once cfg kube inp w = (r, w')" "file_view w' = snd (spec_poll cfg kube inp (file_view w))"
    using poll_once_spec[of w cfg kube inp] assms(7,8) by (auto simp: file_ok_def)
  have "patches_of node (snd (snd (spec_poll cfg kube inp (file_view w)))) = patches_of node (w_calls w)"
    using fold_turns_others[OF t, of cfg kube "file_view w"] by (auto simp: spec_poll_def split: prod.splits option.splits)
  then show ?thesis using w' by (metis snd_conv)
qed

text \<open>A DIMM of \<open>n7\<close> about to fail, exported on the host \<open>ml1\<close>.\<close>

definition demo_entry :: json where
  "demo_entry = JObj [(''failure_probability_7d'', JInt 1), (''failure_probability_30d'', JInt 1),
     (''label_key'', JStr (edac_key ''n7'' ''2'')), (''trained_at'', JInt 0), (''model_path'', JStr ''m.pkl'')]"

definition demo_samples :: "exposed list" where
  "demo_samples =
     (let d = dimm_labels ''n7'' ''2'' in
      [(''failure_probability_7d'', d, ''1.000000''), (''failure_probability_30d'', d, ''1.000000''),
       (''dimm_risk_tier'', d @ [(''tier'', ''critical'')], ''1''), (''dimm_risk_tier'', d @ [(''tier'', ''high'')], ''0''),
       (''dimm_risk_tier'', d @ [(''tier'', ''medium'')], ''0''), (''dimm_risk_tier'', d @ [(''tier'', ''low'')], ''0''),
       (''ce_forecast_next_24h'', d, ''0.00''), (''ml_model_age_hours'', d, ''1.00''),
       (''ml_exporter_last_run_timestamp'', [], ''3600.000''), (''ml_models_loaded_total'', [], ''1'')])"

definition demo_scrape :: "string \<Rightarrow> exposed list \<Rightarrow> prom_item list" where
  "demo_scrape target samples =
     map (\<lambda>(n, ls, v). \<lparr>pi_node = dget ls ''node'', pi_instance = Some target, pi_value = PvText v\<rparr>)
       (filter (\<lambda>s. fst s = ''failure_probability_7d'') samples)"

definition demo_poll_ml :: poll_input where
  "demo_poll_ml = \<lparr>pl_time = 0, pl_response = Response (Some ''success'') (demo_scrape ''ml1'' demo_samples),
     pl_clock = (\<lambda>i. (0, 0, 0)), pl_load = None, pl_save = None\<rparr>"

theorem exporter_host_cordoned_witness:
  "query_prometheus (pl_response demo_poll_ml) = Inr [(''ml1'', Fin 1)] \<and>
   patches_of ''n7'' (w_calls (snd (poll_once demo_cfg (\<lambda>cs c. True) demo_poll_ml demo_world))) = []"
proof
  show "query_prometheus (pl_response demo_poll_ml) = Inr [(''ml1'', Fin 1)]"
    unfolding demo_poll_ml_def poll_input.select_convs by code_simp
  have s: "server_labels_win demo_scrape" by (auto simp: server_labels_win_def demo_scrape_def)
  have "case ml_lines (\<lambda>j. []) (\<lambda>t. []) (\<lambda>b. Inr (Fin 0)) (\<lambda>i f. None) [demo_entry] 3600 of
      Inr lines \<Rightarrow> sample_lines lines = map text_of demo_samples | Inl e \<Rightarrow> False"
    by code_simp
  then obtain lines where l: "ml_lines (\<lambda>j. []) (\<lambda>t. []) (\<lambda>b. Inr (Fin 0)) (\<lambda>i f. None) [demo_entry] 3600 = Inr lines"
    "sample_lines lines = map text_of demo_samples" by (auto split: sum.splits)
  have e: "list_all (trained_entry (\<lambda>j. [])) [demo_entry]"
  proof -
    have "plain_value ''n7'' \<and> plain_value ''2'' \<and> entry_key (\<lambda>j. []) demo_entry = Inr (edac_key ''n7'' ''2'')"
      by (simp add: demo_entry_def entry_key_def jitem_def jstr_def plain_value_def)
    then show ?thesis unfolding trained_entry_def by auto
  qed
  have w: "list_all wf_sample demo_samples" by code_simp
  show "patches_of ''n7'' (w_calls (snd (poll_once demo_cfg (\<lambda>cs c. True) demo_poll_ml demo_world))) = []"
    using exporter_host_cordoned[OF s l(1) e l(2) w, of demo_poll_ml "Some ''success''" "''ml1''" demo_world "''n7''"] demo_ok
    by (simp add: demo_poll_ml_def demo_world_def patches_of_def)
qed

end
