(* ===== verification/DevTools.thy ===== *)
theory DevTools
  imports ToolText Exposition "HOL-Library.List_Lexorder"
begin

text \<open>
  The small tools: the DIMM map \<open>tools/dimm_topology_viz.py\<close>, the fleet map \<open>tools/fleet_heatmap.py\<close>, the
  terminal of \<open>tools/fault_inject_tui.py\<close>, the benchmark \<open>tools/benchmark_replay.py\<close> and the report
  \<open>chaos/chaos-report.py\<close>. The input files of the maps are records with the fields the code reads; the
  times, the commands and the printing of a float are arguments.
\<close>

section \<open>The DIMM map\<close>

record map_dimm =
  md_node :: string
  md_channel :: string
  md_slot :: string
  md_ce :: int
  md_ue :: int

definition get_color :: "int \<Rightarrow> int \<Rightarrow> string" where
  "get_color ce_count ue_count =
     (if ue_count > 0 then ''#e74c3c'' else if ce_count > 100 then ''#e67e22'' else if ce_count > 0 then ''#f1c40f''
      else ''#2ecc71'')"

definition cell_w :: int where "cell_w = 150"
definition cell_h :: int where "cell_h = 80"
definition cell_pad :: int where "cell_pad = 10"

text \<open>\<open>sorted(set(xs))\<close>, and the place of a value in it.\<close>

definition sorted_set :: "string list \<Rightarrow> string list" where
  "sorted_set xs = sort (remdups xs)"

definition place :: "string list \<Rightarrow> string \<Rightarrow> int" where
  "place xs x = int (length (takeWhile (\<lambda>y. y \<noteq> x) (sorted_set xs)))"

definition map_nodes :: "map_dimm list \<Rightarrow> string list" where "map_nodes dimms = map md_node dimms"
definition map_channels :: "map_dimm list \<Rightarrow> string list" where "map_channels dimms = map md_channel dimms"

definition map_width :: "map_dimm list \<Rightarrow> int" where
  "map_width dimms = int (length (sorted_set (map_channels dimms))) * (cell_w + cell_pad) + cell_pad"

definition map_height :: "map_dimm list \<Rightarrow> int" where
  "map_height dimms = int (length (sorted_set (map_nodes dimms))) * (cell_h + cell_pad) + cell_pad"

text \<open>The corner of a cell.\<close>

definition cell_x :: "map_dimm list \<Rightarrow> map_dimm \<Rightarrow> int" where
  "cell_x dimms d = cell_pad + place (map_channels dimms) (md_channel d) * (cell_w + cell_pad)"

definition cell_y :: "map_dimm list \<Rightarrow> map_dimm \<Rightarrow> int" where
  "cell_y dimms d = cell_pad + place (map_nodes dimms) (md_node d) * (cell_h + cell_pad)"

definition text_line :: "int \<Rightarrow> int \<Rightarrow> string \<Rightarrow> string \<Rightarrow> string" where
  "text_line x y fsize content =
     ''<text x=\"'' @ str_int x @ ''\" y=\"'' @ str_int y @ ''\" text-anchor=\"middle\" font-size=\"'' @ fsize @
     ''\" font-family=\"monospace\">'' @ content @ ''</text>''"

definition map_cell :: "map_dimm list \<Rightarrow> map_dimm \<Rightarrow> string list" where
  "map_cell dimms d =
     (let x = cell_x dimms d; y = cell_y dimms d in
      [''<rect x=\"'' @ str_int x @ ''\" y=\"'' @ str_int y @ ''\" width=\"'' @ str_int cell_w @ ''\" height=\"'' @
         str_int cell_h @ ''\" fill=\"'' @ get_color (md_ce d) (md_ue d) @ ''\" stroke=\"#333\" rx=\"4\"/>'',
       text_line (x + cell_w div 2) (y + 30) ''12'' (md_slot d),
       text_line (x + cell_w div 2) (y + 55) ''11'' (''CE:'' @ str_int (md_ce d) @ '' UE:'' @ str_int (md_ue d))])"

definition topology_svg :: "map_dimm list \<Rightarrow> string" where
  "topology_svg dimms =
     (if dimms = [] then ''<svg xmlns=\"http://www.w3.org/2000/svg\" width=\"100\" height=\"100\"></svg>''
      else join nl ([''<svg xmlns=\"http://www.w3.org/2000/svg\" width=\"'' @ str_int (map_width dimms) @ ''\" height=\"'' @
             str_int (map_height dimms) @ ''\">''] @ concat (map (map_cell dimms) dimms) @ [''</svg>'']))"

section \<open>The fleet map\<close>

record map_node =
  mn_rack :: string
  mn_position :: int
  mn_node :: string
  mn_ce_rate :: rat
  mn_ue :: int

definition color_for_node :: "rat \<Rightarrow> int \<Rightarrow> string" where
  "color_for_node ce_rate ue_count =
     (if ue_count > 0 then ''#8B0000'' else if ce_rate \<ge> 50 then ''#FF0000'' else if ce_rate \<ge> 10 then ''#FF8C00''
      else if ce_rate \<ge> 1 then ''#FFD700'' else ''#00AA00'')"

type_synonym fleet = "(string \<times> int, map_node) dict"

definition fleet_lookup :: "map_node list \<Rightarrow> fleet" where
  "fleet_lookup nodes = fold (\<lambda>n. dset (mn_rack n, mn_position n) n) nodes []"

definition two_digits :: "int \<Rightarrow> string" where "two_digits n = zpad 2 (str_int n)"

definition rack_name :: "int \<Rightarrow> string" where "rack_name i = ''rack'' @ two_digits i"

definition heat_cell :: "(rat \<Rightarrow> string) \<Rightarrow> fleet \<Rightarrow> int \<Rightarrow> int \<Rightarrow> string" where
  "heat_cell show_float lookup row_idx col =
     (let rack = rack_name (row_idx + 1); x = 60 + (col - 1) * 18; y = 30 + row_idx * 22;
          (fill, title) =
            (case dget lookup (rack, col) of
               Some n \<Rightarrow> (color_for_node (mn_ce_rate n) (mn_ue n), mn_node n @ '' CE:'' @ show_float (mn_ce_rate n) @ ''/hr'')
             | None \<Rightarrow> (''#EEEEEE'', rack @ ''-u'' @ two_digits col @ '' (empty)''))
      in ''<rect class=\"cell\" x=\"'' @ str_int x @ ''\" y=\"'' @ str_int y @ ''\" width=\"17\" height=\"21\" fill=\"'' @ fill @
         ''\"><title>'' @ title @ ''</title></rect>'')"

definition heat_row :: "(rat \<Rightarrow> string) \<Rightarrow> fleet \<Rightarrow> int \<Rightarrow> string list" where
  "heat_row show_float lookup row_idx =
     (''<text x=\"2\" y=\"'' @ str_int (30 + row_idx * 22 + 15) @ ''\" font-size=\"9\">'' @ rack_name (row_idx + 1) @ ''</text>'') #
     map (heat_cell show_float lookup row_idx) [1..42]"

definition heatmap_svg :: "(rat \<Rightarrow> string) \<Rightarrow> map_node list \<Rightarrow> string" where
  "heatmap_svg show_float nodes =
     join nl
       ([''<svg xmlns=\"http://www.w3.org/2000/svg\" width=\"'' @ str_int (60 + 42 * 18 + 10) @ ''\" height=\"'' @
           str_int (30 + 10 * 22 + 10) @ ''\">'',
         ''<style>text{font:10px sans-serif}rect.cell:hover{stroke:#000;stroke-width:2}</style>''] @
        map (\<lambda>col. ''<text x=\"'' @ str_int (60 + (col - 1) * 18 + 2) @ ''\" y=\"25\" font-size=\"7\">U'' @ str_int col @
          ''</text>'') [1..42] @
        concat (map (heat_row show_float (fleet_lookup nodes)) [0..9]) @ [''</svg>''])"

section \<open>The terminal\<close>

record tui =
  tu_lines :: "string list"
  tu_scroll :: nat
  tu_done :: bool

definition TUI_COMMANDS :: "string list" where "TUI_COMMANDS = [''1'', ''2'', ''3'', ''4'']"

text \<open>What a command printed on its two channels, or the text of the exception.\<close>

definition run_cmd :: "(string \<Rightarrow> string + string \<times> string) \<Rightarrow> string \<Rightarrow> string" where
  "run_cmd exec key =
     (case exec key of
        Inl e \<Rightarrow> ''Error: '' @ e
      | Inr (out, err) \<Rightarrow> if out @ err = [] then ''(no output)'' else out @ err)"

definition tui_init :: tui where
  "tui_init = \<lparr>tu_lines = [''Ready. Select an option.''], tu_scroll = 0, tu_done = False\<rparr>"

text \<open>A round of the loop; \<open>None\<close> when no key could be read.\<close>

definition tui_key :: "(string \<Rightarrow> string + string \<times> string) \<Rightarrow> string option \<Rightarrow> tui \<Rightarrow> tui" where
  "tui_key exec key t =
     (if tu_done t then t
      else case key of
        None \<Rightarrow> t
      | Some k \<Rightarrow>
          if k = ''5'' \<or> k = ''q'' then t\<lparr>tu_done := True\<rparr>
          else if k \<in> set TUI_COMMANDS
          then (let ls = splitlines (run_cmd exec k) in t\<lparr>tu_lines := if ls = [] then [''(empty)''] else ls, tu_scroll := 0\<rparr>)
          else if k = ''KEY_DOWN'' \<and> int (tu_scroll t) < int (length (tu_lines t)) - 1 then t\<lparr>tu_scroll := tu_scroll t + 1\<rparr>
          else if k = ''KEY_UP'' \<and> tu_scroll t > 0 then t\<lparr>tu_scroll := tu_scroll t - 1\<rparr>
          else t)"

text \<open>The rows below the menu on a screen of a height.\<close>

definition tui_rows :: "nat \<Rightarrow> tui \<Rightarrow> string list" where
  "tui_rows h t = take (h - 2) (drop (tu_scroll t) (tu_lines t))"

text \<open>Without curses: what is printed for each line typed, up to the one that ends it.\<close>

fun fallback_loop :: "(string \<Rightarrow> string + string \<times> string) \<Rightarrow> string list \<Rightarrow> string list" where
  "fallback_loop exec [] = []"
| "fallback_loop exec (line # ls) =
     (let choice = strip line in
      if choice = ''5'' then []
      else (if choice \<in> set TUI_COMMANDS then run_cmd exec choice else ''Invalid choice.'') # fallback_loop exec ls)"

section \<open>The benchmark\<close>

definition SLO_P95_S_PER_10K :: rat where "SLO_P95_S_PER_10K = 1"
definition BENCH_RUNS :: nat where "BENCH_RUNS = 5"
definition WARMUP_RUNS :: nat where "WARMUP_RUNS = 1"

text \<open>\<open>statistics.quantiles(data, n=20)[18]\<close>, by the default, exclusive method.\<close>

definition quantile_19 :: "rat list \<Rightarrow> rat" where
  "quantile_19 samples =
     (let data = sort samples; ld = int (length data); m = ld + 1; j = 19 * m div 20;
          j = (if j < 1 then 1 else if j > ld - 1 then ld - 1 else j); delta = 19 * m - j * 20
      in rnd (fadd (fmul (data ! nat (j - 1)) (fint (20 - delta))) (fmul (data ! nat j) (fint delta)) / 20))"

text \<open>\<open>round(x, 4)\<close>, and \<open>statistics.mean\<close>, which sums exactly.\<close>

definition round4 :: "rat \<Rightarrow> rat" where "round4 x = rnd (of_int (rne (x * 10000)) / 10000)"
definition exact_mean :: "rat list \<Rightarrow> rat" where "exact_mean xs = rnd (sum_list xs / of_nat (length xs))"

record bench_result =
  br_events :: int
  br_mean_s :: rat
  br_min_s :: rat
  br_max_s :: rat
  br_p95_s :: rat
  br_p95_s_per_10k :: rat
  br_slo_passed :: bool

text \<open>A timed run: exit status 1 stands for a log without events.\<close>

definition time_parse :: "int \<times> rat \<Rightarrow> rat py" where
  "time_parse run =
     (case run of (status, elapsed) \<Rightarrow>
        if status \<noteq> 0 \<and> status \<noteq> 1 then Inl (RuntimeError ''parse_edac_trace.py failed'') else Inr elapsed)"

definition benchmark_size :: "int \<Rightarrow> (nat \<Rightarrow> int \<times> rat) \<Rightarrow> bench_result py" where
  "benchmark_size n_events run =
     py_bind (py_mapM (\<lambda>i. time_parse (run i)) [0..<WARMUP_RUNS]) (\<lambda>_.
     py_bind (py_mapM (\<lambda>i. time_parse (run (WARMUP_RUNS + i))) [0..<BENCH_RUNS]) (\<lambda>samples.
     let p95 = (if 2 \<le> length samples then quantile_19 samples else hd samples) in
     if n_events = 0 then Inl ZeroDivisionError
     else let per = fmul (rnd (p95 / fint n_events)) 10000 in
       Inr \<lparr>br_events = n_events, br_mean_s = round4 (exact_mean samples), br_min_s = round4 (Min (set samples)),
            br_max_s = round4 (Max (set samples)), br_p95_s = round4 p95, br_p95_s_per_10k = round4 per,
            br_slo_passed = per < SLO_P95_S_PER_10K\<rparr>))"

text \<open>
  \<open>main\<close> over the sizes: the results and whether all passed. A log that cannot be generated ends the run.
\<close>

fun bench_sizes :: "(int \<Rightarrow> bool) \<Rightarrow> (int \<Rightarrow> nat \<Rightarrow> int \<times> rat) \<Rightarrow> int list \<Rightarrow> (bench_result list \<times> bool) py" where
  "bench_sizes generated run [] = Inr ([], True)"
| "bench_sizes generated run (n # ns) =
     (if \<not> generated n then Inl (RuntimeError ''generate_edac_log.py failed'')
      else py_bind (bench_sizes generated run ns) (\<lambda>(rs, ok).
        case benchmark_size n (run n) of
          Inl e \<Rightarrow> Inr (rs, False)
        | Inr r \<Rightarrow> Inr (r # rs, br_slo_passed r \<and> ok)))"

section \<open>The chaos report\<close>

record chaos_report =
  ch_passes :: "string list"
  ch_fails :: "string list"
  ch_total :: nat

definition parse_runner_output :: "string \<Rightarrow> chaos_report" where
  "parse_runner_output text =
     (let lines = splitlines text; passes = filter (starts_with ''[PASS]'') lines; fails = filter (starts_with ''[FAIL]'') lines
      in \<lparr>ch_passes = passes, ch_fails = fails, ch_total = length passes + length fails\<rparr>)"

text \<open>What is printed, and the exit status.\<close>

definition chaos_main :: "string \<Rightarrow> string list \<times> int" where
  "chaos_main output =
     (let report = parse_runner_output output;
          top = [''Chaos Report'', ''  Passed: '' @ str_int (int (length (ch_passes report))),
                 ''  Failed: '' @ str_int (int (length (ch_fails report)))]
      in if ch_fails report \<noteq> [] then (top @ [nl @ ''Failures:''] @ map (\<lambda>f. ''  '' @ f) (ch_fails report), 1)
         else (top @ [nl @ ''All chaos scenarios passed.''], 0))"

section \<open>The maps\<close>

lemma takeWhile_shorter: "x \<in> set ys \<Longrightarrow> length (takeWhile (\<lambda>y. y \<noteq> x) ys) < length ys"
  by (induction ys) auto

lemma place_lt: "x \<in> set xs \<Longrightarrow> 0 \<le> place xs x \<and> place xs x < int (length (sorted_set xs))"
proof -
  assume "x \<in> set xs"
  then have "x \<in> set (sorted_set xs)" by (simp add: sorted_set_def)
  then show ?thesis using takeWhile_shorter[of x "sorted_set xs"] by (simp add: place_def)
qed

lemma place_inj: "x \<in> set xs \<Longrightarrow> y \<in> set xs \<Longrightarrow> place xs x = place xs y \<longleftrightarrow> x = y"
proof -
  assume xy: "x \<in> set xs" "y \<in> set xs"
  have nth: "sorted_set xs ! nat (place xs z) = z" if "z \<in> set xs" for z
    using that nth_length_takeWhile[of "\<lambda>y. y \<noteq> z" "sorted_set xs"] place_lt[OF that] by (simp add: place_def)
  then show ?thesis using xy by metis
qed

text \<open>Two cells share a point.\<close>

definition cells_overlap :: "map_dimm list \<Rightarrow> map_dimm \<Rightarrow> map_dimm \<Rightarrow> bool" where
  "cells_overlap dimms d e \<longleftrightarrow>
     \<bar>cell_x dimms d - cell_x dimms e\<bar> \<le> cell_w \<and> \<bar>cell_y dimms d - cell_y dimms e\<bar> \<le> cell_h"

text \<open>Every cell lies inside the picture; two cells touch only when node and channel are the same, and
  then they cover each other, whatever the slots are.\<close>

lemma topology_cells:
  assumes "d \<in> set dimms" "e \<in> set dimms"
  shows "0 < cell_x dimms d" "cell_x dimms d + cell_w < map_width dimms"
    "0 < cell_y dimms d" "cell_y dimms d + cell_h < map_height dimms"
    "cells_overlap dimms d e \<longleftrightarrow> md_node d = md_node e \<and> md_channel d = md_channel e"
proof -
  let ?C = "map_channels dimms" and ?N = "map_nodes dimms"
  have in_sets: "md_channel d \<in> set ?C" "md_node d \<in> set ?N" "md_channel e \<in> set ?C" "md_node e \<in> set ?N"
    using assms by (auto simp: map_channels_def map_nodes_def)
  note p = place_lt[OF in_sets(1)] place_lt[OF in_sets(2)] place_lt[OF in_sets(3)] place_lt[OF in_sets(4)]
  show "0 < cell_x dimms d" "cell_x dimms d + cell_w < map_width dimms"
    "0 < cell_y dimms d" "cell_y dimms d + cell_h < map_height dimms"
    using p by (simp_all add: cell_x_def cell_y_def map_width_def map_height_def cell_w_def cell_h_def cell_pad_def)
  have near: "\<bar>(a - b) * k\<bar> \<le> l \<longleftrightarrow> a = b" if "0 \<le> l" "l < k" for a b k l :: int
  proof
    assume "\<bar>(a - b) * k\<bar> \<le> l"
    then have "\<bar>a - b\<bar> * k < 1 * k" using that unfolding abs_mult by linarith
    then have "\<bar>a - b\<bar> < 1" using that by (simp only: mult_less_cancel_right)
    then show "a = b" by simp
  qed (use that in simp)
  have x: "cell_x dimms d - cell_x dimms e = (place ?C (md_channel d) - place ?C (md_channel e)) * 160"
    and y: "cell_y dimms d - cell_y dimms e = (place ?N (md_node d) - place ?N (md_node e)) * 90"
    by (simp_all add: cell_x_def cell_y_def cell_w_def cell_h_def cell_pad_def)
  show "cells_overlap dimms d e \<longleftrightarrow> md_node d = md_node e \<and> md_channel d = md_channel e"
    unfolding cells_overlap_def x y using place_inj[OF in_sets(1,3)] place_inj[OF in_sets(2,4)] near[of cell_w 160] near[of cell_h 90]
    by (auto simp: cell_w_def cell_h_def)
qed

text \<open>A node is drawn only in the ten racks of 42 places the picture has; every other one is left out.\<close>

definition on_picture :: "map_node \<Rightarrow> bool" where
  "on_picture n \<longleftrightarrow> (\<exists>i \<in> {1..10}. mn_rack n = rack_name i) \<and> mn_position n \<in> {1..42}"

lemma fleet_lookup_cong:
  assumes "\<And>n. n \<in> set nodes \<Longrightarrow> (mn_rack n, mn_position n) = k \<Longrightarrow> P n" "dget d k = dget e k"
  shows "dget (fold (\<lambda>n. dset (mn_rack n, mn_position n) n) nodes d) k =
   dget (fold (\<lambda>n. dset (mn_rack n, mn_position n) n) (filter P nodes) e) k"
  using assms
proof (induction nodes arbitrary: d e)
  case (Cons n nodes)
  let ?d = "dset (mn_rack n, mn_position n) n"
  have "dget (?d d) k = dget (if P n then ?d e else e) k" using Cons.prems by auto
  from Cons.IH[OF _ this] Cons.prems(1) show ?case by auto
qed simp

lemma heatmap_shows: "heatmap_svg show_float (filter on_picture nodes) = heatmap_svg show_float nodes"
proof -
  have "dget (fleet_lookup (filter on_picture nodes)) (rack_name (r + 1), c) = dget (fleet_lookup nodes) (rack_name (r + 1), c)"
    if "r \<in> set [0..9]" "c \<in> set [1..42]" for r c
    using that unfolding fleet_lookup_def by (intro fleet_lookup_cong[symmetric]) (auto simp: on_picture_def)
  then have "heat_row show_float (fleet_lookup (filter on_picture nodes)) r = heat_row show_float (fleet_lookup nodes) r"
    if "r \<in> set [0..9]" for r
    using that by (auto simp: heat_row_def heat_cell_def Let_def simp del: set_upto)
  then have "map (heat_row show_float (fleet_lookup (filter on_picture nodes))) [0..9] =
      map (heat_row show_float (fleet_lookup nodes)) [0..9]"
    by (intro map_cong refl)
  then show ?thesis by (simp only: heatmap_svg_def)
qed

section \<open>Terminal, benchmark and report\<close>

lemma tui_key_ok: "tu_scroll t < length (tu_lines t) \<Longrightarrow> tu_scroll (tui_key exec key t) < length (tu_lines (tui_key exec key t))"
  by (auto simp: tui_key_def Let_def split: option.split)

text \<open>Whatever keys are pressed, a screen with room for it shows a line of the output.\<close>

lemma tui_shows:
  assumes "3 \<le> h"
  shows "tui_rows h (fold (tui_key exec) keys tui_init) \<noteq> []"
proof -
  have "tu_scroll (fold (tui_key exec) keys t) < length (tu_lines (fold (tui_key exec) keys t))"
    if "tu_scroll t < length (tu_lines t)" for t
    using that by (induction keys arbitrary: t) (simp_all add: tui_key_ok)
  from this[of tui_init] show ?thesis using assms by (simp add: tui_rows_def tui_init_def)
qed

text \<open>All sizes passed exactly when every size has a result and every result passed.\<close>

lemma bench_passed:
  "bench_sizes generated run ns = Inr (rs, ok) \<Longrightarrow>
   ok \<longleftrightarrow> (\<forall>n \<in> set ns. \<exists>r. benchmark_size n (run n) = Inr r \<and> br_slo_passed r)"
proof (induction ns arbitrary: rs ok)
  case (Cons n ns)
  then obtain rs' ok' where "bench_sizes generated run ns = Inr (rs', ok')"
    by (auto simp: py_bind_eq_Inr split: if_splits)
  then show ?case
    using Cons by (cases "benchmark_size n (run n)") (auto split: if_splits)
qed simp

text \<open>Of five runs the 95th percentile is no run: it lies above the slowest one.\<close>

lemma percentile_above_max: "quantile_19 [1, 1, 1, 1, 2] > 2"
  by code_simp

text \<open>The output of a runner that did nothing passes.\<close>

lemma empty_chaos_passes: "snd (chaos_main []) = 0"
  by code_simp

end
