(* ===== verification/Survival.thy ===== *)
theory Survival
  imports PyNum Exposition "HOL-Library.List_Lexorder"
begin

text \<open>
  The survival curves \<open>ml/survival_analysis.py\<close>: the rows of the events file, the cohorts, the metrics and
  a run. The Kaplan-Meier fit of the lifelines package - the curve and the median - and the random values
  behind the rows used without data are arguments.
\<close>

definition EVAL_DAYS :: "int list" where "EVAL_DAYS = [30, 60, 90, 180, 365, 730]"

record dimm_event =
  dv_cohort :: string
  dv_duration :: rat
  dv_observed :: bool

section \<open>The rows used without data\<close>

definition COHORTS :: "(string \<times> int \<times> rat) list" where
  "COHORTS =
     [(''ddr4_rank1_lt3yr'', 720, 85 / 100), (''ddr4_rank2_lt3yr'', 600, 80 / 100), (''ddr5_rank1_new'', 900, 70 / 100),
      (''ddr4_rank1_3to5yr'', 480, 90 / 100), (''ddr4_rank2_3to5yr'', 380, 92 / 100)]"

text \<open>\<open>draws\<close> gives for a cohort and the rate of its exponential distribution the values drawn, a
  duration and a uniform one for each row.\<close>

definition synthetic_row :: "string \<times> int \<times> rat \<Rightarrow> rat \<times> rat \<Rightarrow> dimm_event" where
  "synthetic_row cohort draw =
     \<lparr>dv_cohort = fst cohort, dv_duration = of_int (max 1 (ftrunc (fst draw))), dv_observed = snd draw < rnd (snd (snd cohort))\<rparr>"

definition build_synthetic_events :: "(string \<Rightarrow> rat \<Rightarrow> (rat \<times> rat) list) \<Rightarrow> dimm_event list" where
  "build_synthetic_events draws =
     concat (map (\<lambda>c. map (synthetic_row c) (draws (fst c) (rnd (1 / of_int (fst (snd c)))))) COHORTS)"

section \<open>The curves\<close>

text \<open>A fit: the curve, and the median.\<close>

type_synonym km_fit = "(int \<Rightarrow> pf) \<times> pf"

definition fit_km :: "((rat \<times> bool) list \<Rightarrow> km_fit) \<Rightarrow> dimm_event list \<Rightarrow> string \<Rightarrow> km_fit" where
  "fit_km km df cohort = km (map (\<lambda>e. (dv_duration e, dv_observed e)) (filter (\<lambda>e. dv_cohort e = cohort) df))"

definition median_lifetime :: "km_fit \<Rightarrow> pf" where
  "median_lifetime kmf = (if snd kmf = NaN then Fin (- 1) else snd kmf)"

definition cohorts_of :: "dimm_event list \<Rightarrow> string list" where
  "cohorts_of df = sort (remdups (map dv_cohort df))"

definition cohort_size :: "dimm_event list \<Rightarrow> string \<Rightarrow> nat" where
  "cohort_size df cohort = length (filter (\<lambda>e. dv_cohort e = cohort) df)"

definition survival_lines ::
    "((rat \<times> bool) list \<Rightarrow> km_fit) \<Rightarrow> dimm_event list \<Rightarrow> rat \<Rightarrow> string \<Rightarrow> string list" where
  "survival_lines km df now data_source =
     header_lines ''dimm_survival_probability'' ''KM survival probability at given day for cohort.'' ''gauge'' @
     concat (map (\<lambda>c. map (\<lambda>day. sample_line ''dimm_survival_probability''
         [(''cohort'', c), (''days'', str_int day), (''source'', data_source)] (fmt_pf 6 (fst (fit_km km df c) day)))
       EVAL_DAYS) (cohorts_of df)) @
     header_lines ''dimm_median_lifetime_days'' ''Estimated median DIMM lifetime in days by cohort.'' ''gauge'' @
     map (\<lambda>c. sample_line ''dimm_median_lifetime_days'' [(''cohort'', c)] (fmt_pf 1 (median_lifetime (fit_km km df c))))
       (cohorts_of df) @
     header_lines ''dimm_cohort_size'' ''Number of DIMMs in each survival cohort.'' ''gauge'' @
     map (\<lambda>c. sample_line ''dimm_cohort_size'' [(''cohort'', c)] (str_int (int (cohort_size df c)))) (cohorts_of df) @
     header_lines ''survival_analysis_last_run_timestamp'' ''Unix timestamp of last survival analysis run.'' ''gauge'' @
     [value_line ''survival_analysis_last_run_timestamp'' (fmt_fixed 3 now)]"

text \<open>\<open>main\<close>: the rows of the file, if it exists and the synthetic ones were not asked for. A frame
  without rows has no column \<open>cohort\<close>.\<close>

definition survival_output ::
    "((rat \<times> bool) list \<Rightarrow> km_fit) \<Rightarrow> dimm_event list \<Rightarrow> rat \<Rightarrow> string \<Rightarrow> string py" where
  "survival_output km df now data_source =
     (if df = [] then Inl (KeyError ''cohort'') else Inr (render (survival_lines km df now data_source)))"

definition survival_main ::
    "((rat \<times> bool) list \<Rightarrow> km_fit) \<Rightarrow> (string \<Rightarrow> rat \<Rightarrow> (rat \<times> rat) list) \<Rightarrow> bool \<Rightarrow> dimm_event list option \<Rightarrow> rat \<Rightarrow> string py" where
  "survival_main km draws synthetic events_file now =
     (case events_file of
        Some df \<Rightarrow> if synthetic then survival_output km (build_synthetic_events draws) now ''synthetic''
          else survival_output km df now ''observed''
      | None \<Rightarrow> survival_output km (build_synthetic_events draws) now ''synthetic'')"

text \<open>The sizes of the cohorts add up to the number of DIMMs.\<close>

lemma cohort_sizes: "sum_list (map (cohort_size df) (cohorts_of df)) = length df"
proof -
  have d: "distinct (cohorts_of df)" "set (cohorts_of df) = dv_cohort ` set df" by (simp_all add: cohorts_of_def)
  have size: "cohort_size df c = count_list (map dv_cohort df) c" for c
    by (induction df) (simp_all add: cohort_size_def)
  have "sum_list (map (cohort_size df) (cohorts_of df)) = (\<Sum>c \<in> dv_cohort ` set df. cohort_size df c)"
    using sum_list_distinct_conv_sum_set[OF d(1), of "cohort_size df"] d(2) by simp
  also have "\<dots> = (\<Sum>c \<in> dv_cohort ` set df. count_list (map dv_cohort df) c)"
    by (simp add: size)
  also have "\<dots> = length df" using sum_count_set[of "map dv_cohort df" "dv_cohort ` set df"] by simp
  finally show ?thesis .
qed

text \<open>Synthetic rows fall into the five cohorts, last at least a day, and are as many as were drawn.\<close>

lemma synthetic_rows_ok:
  "e \<in> set (build_synthetic_events draws) \<Longrightarrow> dv_cohort e \<in> fst ` set COHORTS \<and> 1 \<le> dv_duration e"
  by (force simp: build_synthetic_events_def synthetic_row_def)

text \<open>The lines of the median do not say where the rows came from: the two sources differ only in the
  lines of the probabilities.\<close>

lemma medians_unmarked:
  "\<exists>us vs rest. survival_lines km df now a = us @ rest \<and> survival_lines km df now b = vs @ rest \<and>
     length us = length vs \<and>
     (\<forall>c \<in> set (cohorts_of df). sample_line ''dimm_median_lifetime_days'' [(''cohort'', c)]
        (fmt_pf 1 (median_lifetime (fit_km km df c))) \<in> set rest)"
  unfolding survival_lines_def append_assoc[symmetric]
  by (rule exI, rule exI, rule exI, unfold append_assoc, intro conjI, rule append_assoc[symmetric], rule append_assoc[symmetric])
    (auto simp: length_concat o_def split_def)

end
