(* ===== verification/ToolRun.thy ===== *)
theory ToolRun
  imports IpmiSel Sensors Network Gpu Storage RaidController PciPmem
begin

text \<open>
  How the collectors run their tools: \<open>subprocess.run\<close> with a time limit, the wrappers around it
  (\<open>run_ipmitool_sel\<close>, \<open>run_ipmitool_sdr\<close>, \<open>_run\<close>, \<open>run_command\<close>, \<open>run_ndctl\<close>), and each collector as a
  process over a machine with its tools. How a tool ends and after how long, and the decoding of
  what it prints, are fields of that machine.
\<close>

section \<open>Running a tool\<close>

text \<open>\<open>Refused\<close> is any failure to start the tool but its absence, with the text of the exception.\<close>

datatype ending = Exited string string int | Missing | Refused string

datatype finished = Done string string int | NotThere | CannotRun string | TimeUp

record machine =
  mc_end :: "string list \<Rightarrow> ending"
  mc_secs :: "string list \<Rightarrow> rat"
  mc_replace :: "string \<Rightarrow> string"
  mc_text :: "string \<Rightarrow> string + string"

definition subprocess_run :: "machine \<Rightarrow> rat \<Rightarrow> string list \<Rightarrow> finished" where
  "subprocess_run mc timeout cmd =
     (case mc_end mc cmd of
        Missing \<Rightarrow> NotThere
      | Refused m \<Rightarrow> CannotRun m
      | Exited out err rc \<Rightarrow> if mc_secs mc cmd \<le> timeout then Done out err rc else TimeUp)"

text \<open>\<open>text=True\<close>: strict decoding, then universal newlines; \<open>Inr\<close> is the text of the exception.\<close>

definition universal_newlines :: "string \<Rightarrow> string" where
  "universal_newlines s = replace_chr (CHR 0x0D) [CHR 0x0A] (replace_sub [CHR 0x0D, CHR 0x0A] [CHR 0x0A] s)"

definition text_output :: "machine \<Rightarrow> string \<Rightarrow> string + string" where
  "text_output mc s = (case mc_text mc s of Inl t \<Rightarrow> Inl (universal_newlines t) | Inr m \<Rightarrow> Inr m)"

section \<open>The wrappers\<close>

definition ipmitool_cmd :: "string list \<Rightarrow> string \<Rightarrow> string \<Rightarrow> string \<Rightarrow> string list" where
  "ipmitool_cmd sub ip user pass =
     [''ipmitool'', ''-H'', ip, ''-U'', user, ''-P'', pass, ''-I'', ''lanplus''] @ sub"

definition ipmitool_answer :: "machine \<Rightarrow> finished \<Rightarrow> string + string" where
  "ipmitool_answer mc f =
     (case f of
        Done out err rc \<Rightarrow>
          (case text_output mc out of
             Inr m \<Rightarrow> Inr m
           | Inl stdout \<Rightarrow> (case text_output mc err of
               Inr m \<Rightarrow> Inr m
             | Inl stderr \<Rightarrow>
                 if rc \<noteq> 0 then Inr (if strip stderr \<noteq> [] then strip stderr else ''exit code '' @ str_int rc)
                 else Inl stdout))
      | TimeUp \<Rightarrow> Inr ''timeout''
      | NotThere \<Rightarrow> Inr ''ipmitool not found''
      | CannotRun m \<Rightarrow> Inr m)"

definition SEL_WORDS :: "string list" where "SEL_WORDS = [''sel'', ''list'', ''-c'']"
definition SDR_WORDS :: "string list" where "SDR_WORDS = [''sdr'', ''list'', ''full'']"

definition run_ipmitool_sel :: "machine \<Rightarrow> rat \<Rightarrow> ipmitool" where
  "run_ipmitool_sel mc timeout ip user pass =
     ipmitool_answer mc (subprocess_run mc timeout (ipmitool_cmd SEL_WORDS ip user pass))"

definition run_ipmitool_sdr :: "machine \<Rightarrow> rat \<Rightarrow> ipmitool" where
  "run_ipmitool_sdr mc timeout ip user pass =
     ipmitool_answer mc (subprocess_run mc timeout (ipmitool_cmd SDR_WORDS ip user pass))"

text \<open>\<open>_run\<close>, the same text in four collectors but for the default time limit: only an absent tool and
  a time-out are caught.\<close>

definition run_tool :: "machine \<Rightarrow> rat \<Rightarrow> string list \<Rightarrow> Network.tool_run py" where
  "run_tool mc timeout cmd =
     (case subprocess_run mc timeout cmd of
        Done out err rc \<Rightarrow> Inr (mc_replace mc out, rc)
      | NotThere \<Rightarrow> Inr ([], -1)
      | TimeUp \<Rightarrow> Inr ([], -2)
      | CannotRun m \<Rightarrow> Inl OSError)"

definition ib_run :: "machine \<Rightarrow> string list \<Rightarrow> Network.tool_run py" where "ib_run mc = run_tool mc 10"
definition nic_run :: "machine \<Rightarrow> string list \<Rightarrow> Network.tool_run py" where "nic_run mc = run_tool mc 10"
definition xid_run :: "machine \<Rightarrow> rat \<Rightarrow> string list \<Rightarrow> Gpu.tool_run py" where "xid_run mc timeout = run_tool mc timeout"
definition throttle_run :: "machine \<Rightarrow> string list \<Rightarrow> Gpu.tool_run py" where "throttle_run mc = run_tool mc 15"

text \<open>\<open>run_command\<close> of the storage collectors: the exit status is not looked at.\<close>

definition run_command :: "machine \<Rightarrow> rat \<Rightarrow> string list \<Rightarrow> string" where
  "run_command mc timeout cmd =
     (case subprocess_run mc timeout cmd of Done out err rc \<Rightarrow> mc_replace mc out | _ \<Rightarrow> [])"

definition nvme_command :: "machine \<Rightarrow> string list \<Rightarrow> string" where "nvme_command mc = run_command mc 10"
definition sata_command :: "machine \<Rightarrow> string list \<Rightarrow> string" where "sata_command mc = run_command mc 15"
definition controller_command :: "machine \<Rightarrow> string list \<Rightarrow> string" where "controller_command mc = run_command mc 30"

definition run_ndctl :: "machine \<Rightarrow> string list \<Rightarrow> string" where
  "run_ndctl mc args =
     (case subprocess_run mc 15 (''ndctl'' # args) of
        Done out err rc \<Rightarrow> if rc \<noteq> 0 then [] else mc_replace mc out
      | _ \<Rightarrow> [])"

section \<open>The collectors as processes\<close>

text \<open>The two IPMI programs: their option \<open>--timeout\<close>, the list of targets (\<open>None\<close> where it is no JSON),
  whether \<open>ipmitool\<close> is on the path.\<close>

definition sel_process ::
    "machine \<Rightarrow> clock_reader \<Rightarrow> rat \<Rightarrow> int \<Rightarrow> bool \<Rightarrow> target list option \<Rightarrow> sel_state \<Rightarrow> (sel_state \<times> string) py" where
  "sel_process mc clk now timeout_option present targets state =
     sel_main clk now (if present then Some (run_ipmitool_sel mc 30) else None)
       (case targets of Some tgs \<Rightarrow> tgs | None \<Rightarrow> []) state"

definition sensor_process ::
    "machine \<Rightarrow> (pf \<Rightarrow> string) \<Rightarrow> rat \<Rightarrow> int \<Rightarrow> bool \<Rightarrow> target list option \<Rightarrow> string py" where
  "sensor_process mc fl now timeout_option present targets =
     sensor_main fl now (if present then Some (run_ipmitool_sdr mc 60) else None)
       (case targets of Some tgs \<Rightarrow> tgs | None \<Rightarrow> [])"

text \<open>What a run gave, once it is known not to have raised.\<close>

definition the_run :: "Network.tool_run py \<Rightarrow> Network.tool_run" where
  "the_run r = (case r of Inr x \<Rightarrow> x | Inl e \<Rightarrow> ([], 0))"

definition ethtool :: "machine \<Rightarrow> string \<Rightarrow> Network.tool_run py" where
  "ethtool mc iface = nic_run mc [''ethtool'', ''-S'', iface]"

definition nic_process :: "machine \<Rightarrow> rat \<Rightarrow> (string \<times> net_if) list option \<Rightarrow> string list py" where
  "nic_process mc now ifs =
     py_bind (py_mapM (\<lambda>f. if is_roce_interface (snd f) then ethtool mc (fst f) else Inr ([], 0))
               (list_physical_interfaces ifs)) (\<lambda>_.
     Inr (nic_main now ifs (\<lambda>i. the_run (ethtool mc i))))"

definition ibstat :: "machine \<Rightarrow> string \<Rightarrow> Network.tool_run py" where
  "ibstat mc device = ib_run mc [''ibstat'', device]"

definition perfquery :: "machine \<Rightarrow> string \<Rightarrow> string \<Rightarrow> Network.tool_run py" where
  "perfquery mc device port_num = ib_run mc [''perfquery'', ''-x'', device, port_num]"

text \<open>The calls \<open>collect_device_metrics\<close> makes, in order.\<close>

definition ib_calls :: "machine \<Rightarrow> string \<Rightarrow> Network.tool_run list py" where
  "ib_calls mc device =
     py_bind (ibstat mc device) (\<lambda>run.
       if snd run \<noteq> 0 then Inr []
       else case dget (parse_ibstat (fst run)) device of
         None \<Rightarrow> Inr []
       | Some info \<Rightarrow> py_mapM (\<lambda>p. if ip_state (snd p) = ''Active'' then perfquery mc device (fst p) else Inr ([], 0))
           (id_ports info))"

definition ib_process :: "machine \<Rightarrow> rat \<Rightarrow> string list option \<Rightarrow> string list py" where
  "ib_process mc now listing =
     py_bind (py_mapM (ib_calls mc) (case listing of Some names \<Rightarrow> sort names | None \<Rightarrow> [])) (\<lambda>_.
     Inr (ib_main now listing (\<lambda>d. the_run (ibstat mc d)) (\<lambda>d p. the_run (perfquery mc d p))))"

text \<open>\<open>detect_ib\<close>: whether the sysfs directory exists, and its names if it can be listed.\<close>

definition detect_ib :: "bool \<Rightarrow> string list option \<Rightarrow> bool" where
  "detect_ib isdir entries = (isdir \<and> (case entries of None \<Rightarrow> False | Some ns \<Rightarrow> length ns > 0))"

definition GPU_NAMES :: "string list" where
  "GPU_NAMES = [''nvidia-smi'', ''--query-gpu=name'', ''--format=csv,noheader'']"

definition xid_process :: "machine \<Rightarrow> rat \<Rightarrow> string option list \<Rightarrow> string py" where
  "xid_process mc now files =
     py_bind (xid_run mc 10 GPU_NAMES) (\<lambda>names.
     if detect_gpus names = [] then Inr (xid_main now names ([], 0) files ([], 0))
     else py_bind (xid_run mc 15 [''nvidia-smi'', ''dmon'', ''-s'', ''u'', ''-d'', ''1'', ''-c'', ''1'']) (\<lambda>dmon.
       py_bind (xid_run mc 10 [''nvidia-smi'',
           ''--query-gpu=index,ecc.errors.corrected.volatile.total,ecc.errors.uncorrected.volatile.total'',
           ''--format=csv,noheader,nounits'']) (\<lambda>ecc.
       Inr (xid_main now names dmon files ecc))))"

definition QUERY_FIELDS :: string where
  "QUERY_FIELDS = ''index,clocks_throttle_reasons.hw_thermal_slowdown,clocks_throttle_reasons.sw_thermal_slowdown,clocks_throttle_reasons.hw_power_brake_slowdown,clocks.current.graphics,power.draw,temperature.gpu''"

definition throttle_detect :: "Gpu.tool_run \<Rightarrow> bool" where
  "throttle_detect run = (snd run = 0 \<and> length (filter (\<lambda>l. l \<noteq> []) (map strip (splitlines (fst run)))) > 0)"

definition throttle_process :: "machine \<Rightarrow> rat \<Rightarrow> string py" where
  "throttle_process mc now =
     py_bind (throttle_run mc GPU_NAMES) (\<lambda>names.
     if \<not> throttle_detect names then Inr (throttle_main now names ([], 0))
     else py_bind (throttle_run mc [''nvidia-smi'', ''--query-gpu='' @ QUERY_FIELDS, ''--format=csv,noheader,nounits'']) (\<lambda>query.
       Inr (throttle_main now names query)))"

text \<open>A text a storage tool printed, after parsing: \<open>loads\<close> is \<open>json.loads\<close>, \<open>None\<close> where it raises.\<close>

definition answer_of :: "(string \<Rightarrow> json option) \<Rightarrow> string \<Rightarrow> answer" where
  "answer_of loads raw =
     (if raw = [] then Silent else case loads raw of None \<Rightarrow> NoJson | Some data \<Rightarrow> Parsed data)"

definition nvme_call :: "machine \<Rightarrow> (string \<Rightarrow> json option) \<Rightarrow> string \<Rightarrow> string \<Rightarrow> answer" where
  "nvme_call mc loads subcommand dev_path =
     answer_of loads (nvme_command mc [''nvme'', subcommand, dev_path, ''--output-format=json''])"

definition nvme_process :: "machine \<Rightarrow> (string \<Rightarrow> json option) \<Rightarrow> rat \<Rightarrow> bool \<Rightarrow> string list option \<Rightarrow> string list" where
  "nvme_process mc loads now present listing =
     nvme_main now present listing (nvme_call mc loads ''smart-log'') (nvme_call mc loads ''error-log'')"

definition smartctl :: "machine \<Rightarrow> (string \<Rightarrow> json option) \<Rightarrow> string \<Rightarrow> string \<Rightarrow> answer" where
  "smartctl mc loads opt dev_path = answer_of loads (sata_command mc [''smartctl'', opt, ''-j'', dev_path])"

definition sata_process ::
    "machine \<Rightarrow> (string \<Rightarrow> json option) \<Rightarrow> rat \<Rightarrow> bool \<Rightarrow> string list option \<Rightarrow> (string \<Rightarrow> string option) \<Rightarrow> string list" where
  "sata_process mc loads now present listing rotational =
     sata_main now present listing rotational (smartctl mc loads ''-A'') (smartctl mc loads ''-H'')"

definition parsed :: "(string \<Rightarrow> json option) \<Rightarrow> string \<Rightarrow> json option" where
  "parsed loads raw = (if raw = [] then None else loads raw)"

definition controller_process ::
    "machine \<Rightarrow> (string \<Rightarrow> json option) \<Rightarrow> (json \<Rightarrow> string) \<Rightarrow> rat \<Rightarrow> (string \<Rightarrow> string list option) \<Rightarrow> string list" where
  "controller_process mc loads show now dirs =
     controller_main show now dirs (parsed loads (controller_command mc [''storcli'', ''/cALL'', ''show'', ''J'']))"

definition pmem_process :: "machine \<Rightarrow> (string \<Rightarrow> json option) \<Rightarrow> (json \<Rightarrow> string) \<Rightarrow> rat \<Rightarrow> string py" where
  "pmem_process mc loads show now =
     pmem_main show now (parsed loads (run_ndctl mc [''list'', ''--health'', ''--json'']))
       (parsed loads (run_ndctl mc [''list'', ''--media-errors'', ''--json'']))"

section \<open>The interface of a quiet runner\<close>

text \<open>
  What the storage collectors and the persistent-memory collector rely on: a call that was not finished,
  for whatever reason, gives the empty text. \<open>full\<close> is the command line of the arguments.
\<close>

locale quiet_runner =
  fixes run :: "machine \<Rightarrow> string list \<Rightarrow> string"
    and limit :: rat
    and full :: "string list \<Rightarrow> string list"
  assumes unfinished_empty: "(\<And>out err rc. subprocess_run mc limit (full args) \<noteq> Done out err rc) \<Longrightarrow> run mc args = []"
begin

lemma hung_empty: "subprocess_run mc limit (full args) = TimeUp \<Longrightarrow> run mc args = []"
  by (rule unfinished_empty) simp

lemma absent_empty: "mc_end mc (full args) = Missing \<Longrightarrow> run mc args = []"
  by (rule unfinished_empty) (simp add: subprocess_run_def)

lemma hung_silent: "subprocess_run mc limit (full args) = TimeUp \<Longrightarrow> answer_of loads (run mc args) = Silent"
  by (simp add: hung_empty answer_of_def)

lemma hung_unparsed: "subprocess_run mc limit (full args) = TimeUp \<Longrightarrow> parsed loads (run mc args) = None"
  by (simp add: hung_empty parsed_def)

end

interpretation nv: quiet_runner nvme_command 10 "\<lambda>args. args"
  by unfold_locales (auto simp: nvme_command_def run_command_def split: finished.split)

interpretation sa: quiet_runner sata_command 15 "\<lambda>args. args"
  by unfold_locales (auto simp: sata_command_def run_command_def split: finished.split)

interpretation ct: quiet_runner controller_command 30 "\<lambda>args. args"
  by unfold_locales (auto simp: controller_command_def run_command_def split: finished.split)

interpretation nd: quiet_runner run_ndctl 15 "\<lambda>args. ''ndctl'' # args"
  by unfold_locales (auto simp: run_ndctl_def split: finished.split)

section \<open>Lemmas\<close>

text \<open>What a hanging tool does to three of the collectors: the NVMe collector counts as up and has no value
  of the device, the RAID collector has no controller, the persistent-memory collector is down.\<close>

lemma nvme_hung:
  assumes "\<And>log. subprocess_run mc 10 [''nvme'', log, ''/dev/'' @ d, ''--output-format=json''] = TimeUp"
  shows "collect_nvme (nvme_call mc loads ''smart-log'') (nvme_call mc loads ''error-log'') d =
    Inr \<lparr>nv_device = d, nv_smart = smart_defaults, nv_error_log_count = 0\<rparr>"
  using assms by (simp add: collect_nvme_def nvme_call_def nv.hung_silent parse_smart_log_def count_error_log_entries_def)

lemma controller_hung:
  assumes "subprocess_run mc 30 [''storcli'', ''/cALL'', ''show'', ''J''] = TimeUp"
  shows "controller_process mc loads sh now dirs = controller_lines now (detect_drivers dirs) []"
  using assms by (simp add: controller_process_def ct.hung_unparsed controller_main_def collect_megaraid_def Let_def)

lemma pmem_hung:
  assumes "subprocess_run mc 15 [''ndctl'', ''list'', ''--health'', ''--json''] = TimeUp"
  shows "pmem_process mc loads sh now = py_bind (pmem_lines sh now [] [] 0) (\<lambda>ls. Inr (render ls))"
  using assms by (simp add: pmem_process_def nd.hung_unparsed pmem_main_def parse_health_output_def Let_def)

text \<open>The call came back in time with exit status zero and output that can be decoded.\<close>

definition answered :: "machine \<Rightarrow> finished \<Rightarrow> bool" where
  "answered mc f =
     (case f of
        Done out err rc \<Rightarrow> rc = 0 \<and> (case mc_text mc out of Inl _ \<Rightarrow> True | Inr _ \<Rightarrow> False) \<and>
          (case mc_text mc err of Inl _ \<Rightarrow> True | Inr _ \<Rightarrow> False)
      | _ \<Rightarrow> False)"

definition sel_answers :: "machine \<Rightarrow> target \<Rightarrow> bool" where
  "sel_answers mc tg =
     (case (tg_ip tg, tg_user tg, tg_pass tg) of
        (Some ip, Some user, Some pass) \<Rightarrow> answered mc (subprocess_run mc 30 (ipmitool_cmd SEL_WORDS ip user pass))
      | _ \<Rightarrow> False)"

lemma answered_text: "answered mc f \<Longrightarrow> \<exists>out. ipmitool_answer mc f = Inl out"
  by (auto simp: answered_def ipmitool_answer_def text_output_def split: finished.splits sum.splits)

lemma not_answered_error:
  assumes "\<And>m. f = CannotRun m \<Longrightarrow> m \<noteq> []" "\<And>s m. mc_text mc s = Inr m \<Longrightarrow> m \<noteq> []" "\<not> answered mc f"
  shows "\<exists>m. ipmitool_answer mc f = Inr m \<and> m \<noteq> []"
  using assms
  by (auto simp: answered_def ipmitool_answer_def text_output_def split: finished.splits sum.splits)

lemma subprocess_refused: "subprocess_run mc t cmd = CannotRun m \<longleftrightarrow> mc_end mc cmd = Refused m"
  by (simp add: subprocess_run_def split: ending.split)

lemma run_tool_raises: "run_tool mc t cmd = Inl e \<longleftrightarrow> e = OSError \<and> (\<exists>m. mc_end mc cmd = Refused m)"
  by (auto simp: run_tool_def subprocess_run_def split: ending.split)

lemma run_tool_returns: "run_tool mc t cmd = Inr (the_run (run_tool mc t cmd)) \<longleftrightarrow> (\<nexists>m. mc_end mc cmd = Refused m)"
  using run_tool_raises[of mc t cmd] by (cases "run_tool mc t cmd") (auto simp: the_run_def)

lemma py_mapM_raises_only:
  assumes "\<And>x e'. x \<in> set xs \<Longrightarrow> f x = Inl e' \<longleftrightarrow> e' = e \<and> P x"
  shows "py_mapM f xs = Inl e' \<longleftrightarrow> e' = e \<and> (\<exists>x \<in> set xs. P x)"
  using assms
proof (induction xs)
  case (Cons a xs)
  have ih: "py_mapM f xs = Inl e' \<longleftrightarrow> e' = e \<and> (\<exists>x \<in> set xs. P x)" by (rule Cons.IH) (simp add: Cons.prems)
  show ?case
  proof (cases "f a")
    case (Inl e0)
    then have "e0 = e" "P a" using Cons.prems[of a e0] by simp_all
    then show ?thesis using Inl by auto
  next
    case (Inr v)
    then have "\<not> P a" using Cons.prems[of a e] by simp
    then show ?thesis using Inr ih by (cases "py_mapM f xs") auto
  qed
qed simp

lemma py_mapM_Inr_map: "py_mapM f xs = Inr ys \<longleftrightarrow> list_all2 (\<lambda>x y. f x = Inr y) xs ys"
  by (induction xs arbitrary: ys) (auto simp: py_bind_eq_Inr list_all2_Cons1)

text \<open>What polling one target leaves, when it does not raise.\<close>

lemma poll_target_up:
  assumes "poll_target clk (Some (run_ipmitool_sel mc 30)) tg s = Inr s'"
    "\<forall>cmd m. mc_end mc cmd = Refused m \<longrightarrow> m \<noteq> []" "\<forall>t m. mc_text mc t = Inr m \<longrightarrow> m \<noteq> []"
  shows "\<exists>r. sn_results s' = sn_results s @ [r] \<and> sr_node r = node_name tg \<and> sr_up r = sel_answers mc tg \<and>
     (\<forall>n. n \<noteq> node_name tg \<or> \<not> sel_answers mc tg \<longrightarrow> dget (sn_state s') n = dget (sn_state s) n)"
proof -
  let ?run = "run_ipmitool_sel mc 30"
  obtain r where r: "collect_node_sel clk ?run tg (dgetd (sn_state s) (node_name tg) 0) = Inr r"
    using assms(1) by (auto simp: poll_target_def Let_def py_bind_eq_Inr)
  obtain node ip user pass where f: "tg_node tg = Some node" "tg_ip tg = Some ip" "tg_user tg = Some user" "tg_pass tg = Some pass"
    using r by (auto simp: collect_node_sel_def field_def py_bind_eq_Inr split: option.splits)
  let ?f = "subprocess_run mc 30 (ipmitool_cmd SEL_WORDS ip user pass)"
  have up: "sr_up r = sel_answers mc tg \<and> sr_node r = node_name tg"
  proof (cases "answered mc ?f")
    case True
    then show ?thesis using r answered_text[OF True] f
      by (auto simp: collect_node_sel_def field_def run_ipmitool_sel_def sel_answers_def py_bind_eq_Inr Let_def node_name_def)
  next
    case False
    obtain m where "ipmitool_answer mc ?f = Inr m" "m \<noteq> []"
      using not_answered_error[of ?f mc] False assms(2,3) by (auto simp: subprocess_refused)
    then show ?thesis using r f False
      by (auto simp: collect_node_sel_def field_def run_ipmitool_sel_def sel_answers_def node_name_def down_def)
  qed
  then show ?thesis
    using assms(1) r by (auto simp: poll_target_def Let_def dget_dset split: if_splits)
qed

lemma poll_targets_up:
  assumes "poll_targets clk (Some (run_ipmitool_sel mc 30)) tgs s = Inr s'"
    "\<forall>cmd m. mc_end mc cmd = Refused m \<longrightarrow> m \<noteq> []" "\<forall>t m. mc_text mc t = Inr m \<longrightarrow> m \<noteq> []"
  shows "\<exists>rs. sn_results s' = sn_results s @ rs \<and> map sr_node rs = map node_name tgs \<and>
     map sr_up rs = map (sel_answers mc) tgs \<and>
     (\<forall>n. (\<forall>tg \<in> set tgs. node_name tg = n \<longrightarrow> \<not> sel_answers mc tg) \<longrightarrow> dget (sn_state s') n = dget (sn_state s) n)"
  using assms(1)
proof (induction tgs arbitrary: s)
  case (Cons tg tgs)
  obtain s1 where s1: "poll_target clk (Some (run_ipmitool_sel mc 30)) tg s = Inr s1"
    "poll_targets clk (Some (run_ipmitool_sel mc 30)) tgs s1 = Inr s'"
    using Cons.prems by (auto simp: py_bind_eq_Inr)
  obtain r where r: "sn_results s1 = sn_results s @ [r]" "sr_node r = node_name tg" "sr_up r = sel_answers mc tg"
    "\<forall>n. n \<noteq> node_name tg \<or> \<not> sel_answers mc tg \<longrightarrow> dget (sn_state s1) n = dget (sn_state s) n"
    using poll_target_up[OF s1(1) assms(2,3)] by blast
  obtain rs where rs: "sn_results s' = sn_results s1 @ rs" "map sr_node rs = map node_name tgs"
    "map sr_up rs = map (sel_answers mc) tgs"
    "\<forall>n. (\<forall>tg \<in> set tgs. node_name tg = n \<longrightarrow> \<not> sel_answers mc tg) \<longrightarrow> dget (sn_state s') n = dget (sn_state s1) n"
    using Cons.IH[OF s1(2)] by blast
  show ?case using r rs by (intro exI[of _ "r # rs"]) auto
qed simp

lemma str_int_0: "str_int 0 = ''0''" and str_int_1: "str_int 1 = ''1''"
  by code_simp+

text \<open>The run of \<open>Gpu\<close> and the test of the throttling collector agree on whether there is a GPU.\<close>

lemma throttle_detect_gpus: "throttle_detect run \<longleftrightarrow> detect_gpus run \<noteq> []"
  by (simp add: throttle_detect_def detect_gpus_def text_lines_of_def filter_map o_def)

lemma ib_main_absent: "\<not> detect_ib True listing \<Longrightarrow> ib_main now listing ibs perf = ib_lines False [] now"
  by (auto simp: detect_ib_def ib_main_def split: option.splits)

section \<open>Properties\<close>

text \<open>Whatever \<open>--timeout\<close> was given, the SEL program reports a node up exactly when \<open>ipmitool\<close> came
  back with exit status zero within thirty seconds, and forgets or moves no record id of a node
  that gave no answer.\<close>

theorem sel_up_exactly:
  assumes "sel_process mc clk now timeout_option True (Some tgs) st = Inr (st', out)"
    "\<forall>cmd m. mc_end mc cmd = Refused m \<longrightarrow> m \<noteq> []" "\<forall>t m. mc_text mc t = Inr m \<longrightarrow> m \<noteq> []"
  shows "\<exists>rs errors. out = IpmiSel.emit_metrics now rs errors \<and>
     map (\<lambda>r. (sr_node r, sr_up r)) rs = map (\<lambda>tg. (node_name tg, sel_answers mc tg)) tgs \<and>
     (\<forall>n. (\<forall>tg \<in> set tgs. node_name tg = n \<longrightarrow> \<not> sel_answers mc tg) \<longrightarrow> dget st' n = dget st n)"
proof -
  obtain s where s: "poll_targets clk (Some (run_ipmitool_sel mc 30)) tgs \<lparr>sn_state = st, sn_results = [], sn_errors = []\<rparr> = Inr s"
    "st' = (if list_ex sr_up (sn_results s) then sn_state s else st)"
    "out = IpmiSel.emit_metrics now (sn_results s) (sn_errors s)"
    using assms(1) by (auto simp: sel_process_def sel_main_def py_bind_eq_Inr)
  obtain rs where rs: "sn_results s = rs" "map sr_node rs = map node_name tgs" "map sr_up rs = map (sel_answers mc) tgs"
    "\<forall>n. (\<forall>tg \<in> set tgs. node_name tg = n \<longrightarrow> \<not> sel_answers mc tg) \<longrightarrow> dget (sn_state s) n = dget st n"
    using poll_targets_up[OF s(1) assms(2,3)] by auto
  have "map (\<lambda>r. (sr_node r, sr_up r)) rs = zip (map sr_node rs) (map sr_up rs)" by (induction rs) auto
  also have "\<dots> = map (\<lambda>tg. (node_name tg, sel_answers mc tg)) tgs" unfolding rs(2,3) by (induction tgs) auto
  finally show ?thesis using s rs by (intro exI[of _ rs] exI[of _ "sn_errors s"]) auto
qed

text \<open>A machine on which a call takes two seconds, those to the BMC \<open>b\<close> and the disk \<open>sdb\<close> a minute.\<close>

definition slow_machine :: machine where
  "slow_machine = \<lparr>mc_end = (\<lambda>cmd. Exited [] [] 0),
     mc_secs = (\<lambda>cmd. if ''b'' \<in> set cmd \<or> ''/dev/sdb'' \<in> set cmd then 60 else 2),
     mc_replace = (\<lambda>s. s), mc_text = Inl\<rparr>"

definition bmc :: "string \<Rightarrow> target" where
  "bmc n = \<lparr>tg_node = Some n, tg_ip = Some n, tg_user = Some ''u'', tg_pass = Some ''p''\<rparr>"

lemma slow_polls:
  "poll_targets (\<lambda>s. None) (Some (run_ipmitool_sel slow_machine 30)) [bmc ''a'', bmc ''b'']
     \<lparr>sn_state = [(''b'', 7)], sn_results = [], sn_errors = []\<rparr> =
   Inr \<lparr>sn_state = [(''b'', 7), (''a'', 0)],
     sn_results = [\<lparr>sr_node = ''a'', sr_up = True, sr_error = None, sr_new_events = [], sr_last_record_id = 0, sr_last_event_ts = None\<rparr>,
       down ''b'' ''timeout'' 7],
     sn_errors = [(''a'', 0), (''b'', 1)]\<rparr>"
  by code_simp

theorem sel_up_exactly_witness:
  "\<exists>st' out rs errors. sel_process slow_machine (\<lambda>s. None) 0 90 True (Some [bmc ''a'', bmc ''b'']) [(''b'', 7)] = Inr (st', out) \<and>
     out = IpmiSel.emit_metrics 0 rs errors \<and>
     map (\<lambda>r. (sr_node r, sr_up r)) rs = [(''a'', True), (''b'', False)] \<and> dget st' ''b'' = Some 7"
proof -
  obtain st' out where r: "sel_process slow_machine (\<lambda>s. None) 0 90 True (Some [bmc ''a'', bmc ''b'']) [(''b'', 7)] = Inr (st', out)"
    by (simp add: sel_process_def sel_main_def slow_polls del: poll_targets.simps)
  have a: "sel_answers slow_machine (bmc ''a'')" "\<not> sel_answers slow_machine (bmc ''b'')"
    "node_name (bmc ''a'') = ''a''" "node_name (bmc ''b'') = ''b''"
    by code_simp+
  have h: "\<forall>cmd m. mc_end slow_machine cmd = Refused m \<longrightarrow> m \<noteq> []" "\<forall>t m. mc_text slow_machine t = Inr m \<longrightarrow> m \<noteq> []"
    by (simp_all add: slow_machine_def)
  from sel_up_exactly[OF r h] a r show ?thesis by auto
qed

text \<open>The NIC collector dies exactly when \<open>ethtool\<close> is there but cannot be started, and an interface
  with a RoCE driver makes it be called; otherwise it writes its report.\<close>

theorem nic_dies_exactly:
  "nic_process mc now ifs = Inl e \<longleftrightarrow>
     e = OSError \<and> (\<exists>f \<in> set (list_physical_interfaces ifs). is_roce_interface (snd f) \<and>
        (\<exists>m. mc_end mc [''ethtool'', ''-S'', fst f] = Refused m))"
proof -
  have "py_mapM (\<lambda>f. if is_roce_interface (snd f) then ethtool mc (fst f) else Inr ([], 0)) (list_physical_interfaces ifs) = Inl e \<longleftrightarrow>
      e = OSError \<and> (\<exists>f \<in> set (list_physical_interfaces ifs). is_roce_interface (snd f) \<and>
        (\<exists>m. mc_end mc [''ethtool'', ''-S'', fst f] = Refused m))"
    by (rule py_mapM_raises_only) (simp add: ethtool_def nic_run_def run_tool_raises)
  then show ?thesis
    by (cases "py_mapM (\<lambda>f. if is_roce_interface (snd f) then ethtool mc (fst f) else Inr ([], 0)) (list_physical_interfaces ifs)")
      (simp_all add: nic_process_def)
qed

text \<open>A disk whose \<open>smartctl\<close> calls do not come back within fifteen seconds is reported as one that
  failed its self-assessment: the collector counts as up and writes the very report of a run in which
  \<open>smartctl\<close> said so.\<close>

theorem hung_disk_reads_failed:
  assumes "d \<in> set (find_sata_devices listing)"
    "subprocess_run mc 15 [''smartctl'', ''-A'', ''-j'', ''/dev/'' @ d] = TimeUp"
    "subprocess_run mc 15 [''smartctl'', ''-H'', ''-j'', ''/dev/'' @ d] = TimeUp"
  shows "sample_line ''sata_smart_passed'' [(''device'', d)] ''0'' \<in> set (sata_process mc loads now True listing rotational) \<and>
     value_line ''sata_collector_up'' ''1'' \<in> set (sata_process mc loads now True listing rotational) \<and>
     sata_process mc loads now True listing rotational =
       sata_main now True listing rotational (smartctl mc loads ''-A'')
         ((smartctl mc loads ''-H'')(''/dev/'' @ d := Parsed (JObj [(''smart_status'', JObj [(''passed'', JBool False)])])))"
proof -
  let ?A = "smartctl mc loads ''-A''" and ?H = "smartctl mc loads ''-H''"
  let ?c = "collect_sata rotational ?A ?H"
  define r where "r = \<lparr>sa_device = d, sa_attributes = [], sa_passed = 0, sa_rotational = read_rotational (rotational d)\<rparr>"
  have silent: "?A (''/dev/'' @ d) = Silent" "?H (''/dev/'' @ d) = Silent"
    using assms(2,3) by (simp_all add: smartctl_def sa.hung_silent)
  then have r: "?c d = Inr r"
    by (simp add: collect_sata_def parse_smart_attributes_def parse_smart_health_def r_def)
  let ?rs = "collect_all ?c (find_sata_devices listing)"
  have mem: "r \<in> set ?rs"
    unfolding collect_all_def using assms(1) r
    by (auto simp: map_filter_def intro!: image_eqI[of _ _ d])
  then have ne: "?rs \<noteq> []" "find_sata_devices listing \<noteq> []" using assms(1) by auto
  then have out: "sata_process mc loads now True listing rotational = sata_lines now ?rs 1"
    by (simp add: sata_process_def sata_main_def Let_def)
  let ?H' = "?H(''/dev/'' @ d := Parsed (JObj [(''smart_status'', JObj [(''passed'', JBool False)])]))"
  have "collect_sata rotational ?A ?H' x = ?c x" for x
    using silent by (cases "x = d")
      (simp_all add: collect_sata_def parse_smart_attributes_def parse_smart_health_def jget_def dgetd_def)
  then have "collect_sata rotational ?A ?H' = ?c" by auto
  then have "sata_process mc loads now True listing rotational = sata_main now True listing rotational ?A ?H'"
    by (simp add: sata_process_def sata_main_def Let_def)
  moreover have "sample_line ''sata_smart_passed'' [(''device'', d)] ''0'' \<in>
      set (map (\<lambda>r. sample_line ''sata_smart_passed'' [(''device'', sa_device r)] (str_int (sa_passed r))) ?rs)"
    using mem by (auto simp: r_def str_int_0 intro!: rev_image_eqI[of r])
  then have "sample_line ''sata_smart_passed'' [(''device'', d)] ''0'' \<in> set (sata_lines now ?rs 1)"
    unfolding sata_lines_def set_append by blast
  moreover have "value_line ''sata_collector_up'' ''1'' \<in> set (sata_lines now ?rs 1)"
    unfolding sata_lines_def by (simp add: str_int_1)
  ultimately show ?thesis using out by simp
qed

theorem hung_disk_reads_failed_witness:
  "sample_line ''sata_smart_passed'' [(''device'', ''sdb'')] ''0'' \<in>
     set (sata_process slow_machine (\<lambda>s. None) 0 True (Some [''sda'', ''sdb'']) (\<lambda>d. None))"
proof -
  have "''sdb'' \<in> set (find_sata_devices (Some [''sda'', ''sdb'']))"
    "subprocess_run slow_machine 15 [''smartctl'', ''-A'', ''-j'', ''/dev/'' @ ''sdb''] = TimeUp"
    "subprocess_run slow_machine 15 [''smartctl'', ''-H'', ''-j'', ''/dev/'' @ ''sdb''] = TimeUp"
    by code_simp+
  then show ?thesis by (rule hung_disk_reads_failed[THEN conjunct1])
qed

end
