(* ===== verification/ParserCli.thy ===== *)
theory ParserCli
  imports TraceParserProps EdacLogProps DevTools PyNum
begin

text \<open>
  The command line of \<open>replay/parse_edac_trace.py\<close>: the statistics it prints, the objects it writes, its
  exit status, and what the benchmark of \<open>tools/benchmark_replay.py\<close> makes of that status. The arrow in
  one line of the statistics is written as \<open>->\<close>; the writing of JSON text is left to the library.
\<close>

section \<open>Statistics\<close>

text \<open>A \<open>Counter\<close> in sorted order, one line per key.\<close>

definition counter_lines :: "string list \<Rightarrow> string list" where
  "counter_lines keys =
     map (\<lambda>(k, n). ''  '' @ k @ '': '' @ str_int n) (sort_key fst (fold dbump keys []))"

text \<open>\<open>e.monotonic_s\<close> when it is truthy: neither \<open>None\<close> nor zero.\<close>

definition stamped :: "hw_event \<Rightarrow> pf option" where
  "stamped e = (case ev_monotonic_s e of Some m \<Rightarrow> if m = Fin 0 then None else Some m | None \<Rightarrow> None)"

fun first_stamp :: "hw_event list \<Rightarrow> pf option" where
  "first_stamp [] = None"
| "first_stamp (e # es) = (case stamped e of Some m \<Rightarrow> Some m | None \<Rightarrow> first_stamp es)"

definition span_lines :: "hw_event list \<Rightarrow> string list" where
  "span_lines events =
     (case (first_stamp events, first_stamp (rev events)) of
        (Some a, Some b) \<Rightarrow>
          [''Time span: '' @ fmt_pf 3 (pf_sub b a) @ ''s ('' @ fmt_pf 3 a @ ''s -> '' @ fmt_pf 3 b @ ''s monotonic)'']
      | _ \<Rightarrow> [])"

definition print_stats :: "hw_event list \<Rightarrow> string list" where
  "print_stats events =
     (let controllers = filter (\<lambda>c. c \<noteq> []) (map ev_controller events) in
      [[], ''=== Parse Statistics ==='', ''Total events parsed: '' @ str_int (int (length events))] @
      counter_lines (map (\<lambda>e. event_type_name (ev_type e)) events) @
      (if controllers \<noteq> [] then ''By controller:'' # counter_lines controllers else []) @
      span_lines events)"

section \<open>The program\<close>

datatype field_value = VNone | VInt int | VFloat pf | VStr string

definition v_opt :: "('a \<Rightarrow> field_value) \<Rightarrow> 'a option \<Rightarrow> field_value" where
  "v_opt f v = (case v of None \<Rightarrow> VNone | Some x \<Rightarrow> f x)"

fun subsystem_name :: "subsystem \<Rightarrow> string" where
  "subsystem_name EDAC = ''EDAC''"
| "subsystem_name AER = ''AER''"
| "subsystem_name MCE_sub = ''MCE''"

definition asdict :: "hw_event \<Rightarrow> (string \<times> field_value) list" where
  "asdict e =
     [(''seq'', VInt (ev_seq e)), (''timestamp_str'', VStr (ev_timestamp_str e)),
      (''timestamp_ns'', VInt (ev_timestamp_ns e)), (''monotonic_s'', v_opt VFloat (ev_monotonic_s e)),
      (''event_type'', VStr (event_type_name (ev_type e))), (''subsystem'', VStr (subsystem_name (ev_subsystem e))),
      (''controller'', VStr (ev_controller e)), (''csrow'', v_opt VInt (ev_csrow e)),
      (''channel'', v_opt VInt (ev_channel e)), (''count'', VInt (ev_count e)), (''page'', v_opt VInt (ev_page e)),
      (''offset'', v_opt VInt (ev_offset e)), (''grain'', v_opt VInt (ev_grain e)),
      (''syndrome'', v_opt VStr (ev_syndrome e)), (''pci_device'', v_opt VStr (ev_pci_device e)),
      (''aer_error_type'', v_opt VStr (ev_aer_error_type e)), (''raw_message'', VStr (ev_raw_message e))]"

text \<open>The lines of the input (\<open>None\<close> when it cannot be opened) and the two options that matter.\<close>

record cli_args =
  ca_input :: "string list option"
  ca_event_types :: string
  ca_stats :: bool

definition DEFAULT_EVENT_TYPES :: string where "DEFAULT_EVENT_TYPES = ''CE,UE,AER_CE,AER_UE,MCE''"

text \<open>What goes to standard error and to the output file.\<close>

definition parse_main :: "cli_args \<Rightarrow> (string list \<times> (string \<times> field_value) list list) py" where
  "parse_main args =
     (let event_types = map strip (split_on (CHR '','') (ca_event_types args)) in
      case ca_input args of
        None \<Rightarrow> Inl OSError
      | Some lines \<Rightarrow> py_bind (parse_file (parser_init (Some event_types)) lines) (\<lambda>(events, p).
          Inr (if ca_stats args then print_stats events else [], map asdict events)))"

text \<open>The exit status of a Python program: 1 after an exception nobody caught.\<close>

definition exit_status :: "'a py \<Rightarrow> int" where
  "exit_status r = (case r of Inl e \<Rightarrow> 1 | Inr x \<Rightarrow> 0)"

section \<open>Lemmas\<close>

lemma v_opt_inj: "inj f \<Longrightarrow> (\<And>x. f x \<noteq> VNone) \<Longrightarrow> v_opt f a = v_opt f b \<longleftrightarrow> a = b"
  by (cases a; cases b) (auto simp: v_opt_def inj_eq dest: sym)

lemma v_opt_eq [simp]:
  "v_opt VInt a = v_opt VInt b \<longleftrightarrow> a = b" "v_opt VStr c = v_opt VStr d \<longleftrightarrow> c = d" "v_opt VFloat x = v_opt VFloat y \<longleftrightarrow> x = y"
  by (simp_all add: v_opt_inj inj_def)

lemma names_inj [simp]:
  "event_type_name a = event_type_name b \<longleftrightarrow> a = b" "subsystem_name s = subsystem_name t \<longleftrightarrow> s = t"
  by (cases a; cases b; simp) (cases s; cases t; simp)

text \<open>Nothing of an event is lost in what is written.\<close>

lemma asdict_inj: "asdict e = asdict e' \<longleftrightarrow> e = e'"
  by (auto simp: asdict_def intro: hw_event.equality)

lemma default_types: "map strip (split_on (CHR '','') DEFAULT_EVENT_TYPES) = [''CE'', ''UE'', ''AER_CE'', ''AER_UE'', ''MCE'']"
  by code_simp

lemma parse_main_default:
  "parse_main \<lparr>ca_input = Some lines, ca_event_types = DEFAULT_EVENT_TYPES, ca_stats = st\<rparr> =
     py_bind (parse_file (parser_init None) lines) (\<lambda>(events, p).
       Inr (if st then print_stats events else [], map asdict events))"
  by (simp add: parse_main_def default_types parser_init_def)

text \<open>The statistics by type account for every event.\<close>

lemma count_types: "count_list (map (\<lambda>e. event_type_name (ev_type e)) es) (event_type_name t) = count_list (map ev_type es) t"
  by (induction es) simp_all

lemma types_total:
  "(\<Sum>t \<in> UNIV. dgetd (fold dbump (map (\<lambda>e. event_type_name (ev_type e)) es) []) (event_type_name t) 0) = int (length es)"
proof -
  have "(\<Sum>t \<in> UNIV. dgetd (fold dbump (map (\<lambda>e. event_type_name (ev_type e)) es) []) (event_type_name t) 0) =
      (\<Sum>t \<in> UNIV. int (count_list (map ev_type es) t))"
    by (simp add: dt.count_run count_types)
  also have "\<dots> = int (length es)"
    using sum_count_set[of "map ev_type es" UNIV] by (simp flip: of_nat_sum)
  finally show ?thesis .
qed

lemma benchmark_size_status:
  "benchmark_size n (\<lambda>i. (exit_status (r i), secs i)) = benchmark_size n (\<lambda>i. (0, secs i))"
proof -
  have "time_parse (exit_status (r i), secs i) = time_parse (0, secs i)" for i
    by (auto simp: time_parse_def exit_status_def split: sum.split)
  then show ?thesis by (simp add: benchmark_size_def)
qed

section \<open>Properties\<close>

text \<open>Whatever event types are asked for, the program ends normally and writes exactly the events of
  those types, each with the number it has among all events of the log, counted from zero; the
  default types leave nothing out, and the counts by type it prints then add up to the total.\<close>

theorem selected_events_written:
  assumes "numbers_short lines"
  shows "\<exists>events p. parse_file (parser_init None) lines = Inr (events, p) \<and>
     map ev_seq events = map int [0..<length events] \<and>
     (\<forall>types stats. \<exists>err. parse_main \<lparr>ca_input = Some lines, ca_event_types = types, ca_stats = stats\<rparr> =
        Inr (err, map asdict (filter (\<lambda>e. event_type_name (ev_type e) \<in> strip ` set (split_on (CHR '','') types)) events))) \<and>
     parse_main \<lparr>ca_input = Some lines, ca_event_types = DEFAULT_EVENT_TYPES, ca_stats = True\<rparr> =
       Inr (print_stats events, map asdict events) \<and>
     (\<Sum>t \<in> UNIV. dgetd (fold dbump (map (\<lambda>e. event_type_name (ev_type e)) events) []) (event_type_name t) 0) =
       int (length events)"
proof -
  obtain events p where e: "parse_file (parser_init None) lines = Inr (events, p)"
    "map ev_seq events = map int [0..<length events]"
    using parse_file_numbering[OF assms] by blast
  have "parse_main \<lparr>ca_input = Some lines, ca_event_types = types, ca_stats = st\<rparr> =
      Inr (if st then print_stats (filter (\<lambda>e. event_type_name (ev_type e) \<in> strip ` set (split_on (CHR '','') types)) events) else [],
        map asdict (filter (\<lambda>e. event_type_name (ev_type e) \<in> strip ` set (split_on (CHR '','') types)) events))" for types st
    by (simp add: parse_main_def parse_file_filter[OF assms] e)
  then show ?thesis using e
    by (intro exI[of _ events] exI[of _ p]) (simp add: parse_main_default types_total)
qed

theorem selected_events_written_witness:
  "\<exists>events p err. parse_file (parser_init None) demo_log = Inr (events, p) \<and>
     parse_main \<lparr>ca_input = Some demo_log, ca_event_types = '' UE, MCE'', ca_stats = False\<rparr> =
       Inr (err, map asdict (filter (\<lambda>e. event_type_name (ev_type e) \<in> {''UE'', ''MCE''}) events))"
proof -
  have "strip ` set (split_on (CHR '','') '' UE, MCE'') = {''UE'', ''MCE''}" by code_simp
  then show ?thesis using selected_events_written[OF demo_log_short] by metis
qed

text \<open>The benchmark cannot tell a parser that works from one that crashes: whatever any of its parser
  runs gives, an exception included, its results and verdict are those of runs that succeeded in the
  same time.\<close>

theorem benchmark_blind_to_crashes:
  "bench_sizes generated (\<lambda>n i. (exit_status (parse_main (args n i)), secs n i)) ns =
     bench_sizes generated (\<lambda>n i. (0, secs n i)) ns"
  by (induction ns) (simp_all add: benchmark_size_status)

text \<open>A log that cannot be opened crashes the parser.\<close>

lemma crash_status: "exit_status (parse_main \<lparr>ca_input = None, ca_event_types = types, ca_stats = st\<rparr>) = 1"
  by (simp add: parse_main_def exit_status_def)

end
