(* ===== verification/WatchPipe.thy ===== *)
theory WatchPipe
  imports Correlation RegexSearch
begin

text \<open>
  The pipe of \<open>correlation/dmesg_watcher.py\<close> into \<open>correlation/event_correlator.py\<close>: the command the
  watcher runs, what it prints, and what the correlator makes of it. What \<open>dmesg\<close> prints for a command
  line, and the clocks, are arguments; JSON between the two is modelled after parsing.
\<close>

section \<open>The watcher\<close>

definition dmesg_cmd :: "bool \<Rightarrow> string option \<Rightarrow> string list" where
  "dmesg_cmd follow since =
     [''dmesg'', ''--time-format=reltime''] @ (if follow then [''--follow''] else []) @
     (case since of Some s \<Rightarrow> if s \<noteq> [] then [''--since'', s] else [] | None \<Rightarrow> [])"

definition stream_dmesg :: "(string list \<Rightarrow> string list) \<Rightarrow> bool \<Rightarrow> string option \<Rightarrow> string list" where
  "stream_dmesg dmesg follow since = map rstrip (dmesg (dmesg_cmd follow since))"

datatype watch_out = EventLine dmesg_event | RawLine string rat

definition watch_line :: "bool \<Rightarrow> rat \<Rightarrow> string \<Rightarrow> watch_out list py" where
  "watch_line all_lines now line =
     py_bind (parse_dmesg_line now line) (\<lambda>event.
       Inr (case event of
          Some e \<Rightarrow> [EventLine e]
        | None \<Rightarrow> if all_lines \<and> line \<noteq> [] then [RawLine line now] else []))"

text \<open>The loop of \<open>main\<close>: what has been printed when it ends, and whether an exception ended it.\<close>

fun watch :: "bool \<Rightarrow> (nat \<Rightarrow> rat) \<Rightarrow> nat \<Rightarrow> string list \<Rightarrow> watch_out list \<times> unit py" where
  "watch all_lines clock i [] = ([], Inr ())"
| "watch all_lines clock i (l # ls) =
     (case watch_line all_lines (clock i) l of
        Inl e \<Rightarrow> ([], Inl e)
      | Inr out \<Rightarrow> (let (out', r) = watch all_lines clock (Suc i) ls in (out @ out', r)))"

definition watch_main ::
    "(string list \<Rightarrow> string list) \<Rightarrow> (nat \<Rightarrow> rat) \<Rightarrow> bool \<Rightarrow> string option \<Rightarrow> bool \<Rightarrow> watch_out list \<times> unit py" where
  "watch_main dmesg clock follow since all_lines = watch all_lines clock 0 (stream_dmesg dmesg follow since)"

section \<open>The pipe\<close>

text \<open>A raw line has no \<open>event_type\<close>; the two times are the clocks of the correlator.\<close>

definition to_input :: "rat \<times> rat \<Rightarrow> watch_out \<Rightarrow> input_line" where
  "to_input t out =
     (case out of
        EventLine e \<Rightarrow> Got (fst t) (snd t) \<lparr>evt_timestamp = Some (de_timestamp e), evt_type = de_type e\<rparr>
      | RawLine l now \<Rightarrow> Skipped)"

definition pipe ::
    "(string list \<Rightarrow> string list) \<Rightarrow> (nat \<Rightarrow> rat) \<Rightarrow> (nat \<Rightarrow> rat \<times> rat) \<Rightarrow> bool \<Rightarrow> string option \<Rightarrow> bool \<Rightarrow> rat \<Rightarrow> correlation list" where
  "pipe dmesg clock ticks follow since all_lines window =
     snd (correlate (map (\<lambda>(i, out). to_input (ticks i) out)
         (enumerate 0 (fst (watch_main dmesg clock follow since all_lines))))
       (new_buffer window, []))"

section \<open>Lemmas\<close>

text \<open>What \<open>dmesg\<close> writes with this time format: a date or a signed difference in the brackets.\<close>

definition reltime_line :: "string \<Rightarrow> bool" where
  "reltime_line l =
     (case l of
        [] \<Rightarrow> True
      | c # r \<Rightarrow> c = CHR ''['' \<longrightarrow> (case dropWhile is_space r of d # _ \<Rightarrow> \<not> is_digit d | [] \<Rightarrow> True))"

lemma dmesg_match_shape:
  assumes "re_match RE_DMESG s = Some m"
  shows "\<exists>sp d u. s = CHR ''['' # sp @ d # u \<and> (\<forall>c \<in> set sp. is_space c) \<and> is_digit d"
proof -
  obtain after where m: "s = m_text m @ after" "words RE_DMESG (m_text m)"
    using re_match_ok[OF assms] by (auto simp: match_ok_def)
  then show ?thesis
    by (fastforce simp: RE_DMESG_def words_star_cls words_plus_cls neq_Nil_conv)
qed

lemma digit_is_no_space: "is_digit d \<Longrightarrow> \<not> is_space d"
  by (auto simp: is_digit_def is_space_def)

lemma reltime_no_match:
  assumes "reltime_line l"
  shows "re_match RE_DMESG (rstrip l) = None"
proof (rule ccontr)
  assume "re_match RE_DMESG (rstrip l) \<noteq> None"
  then obtain m where "re_match RE_DMESG (rstrip l) = Some m" by blast
  then obtain sp d u where s: "rstrip l = CHR ''['' # sp @ d # u" "\<forall>c \<in> set sp. is_space c" "is_digit d"
    using dmesg_match_shape by blast
  have "\<exists>t. l = rstrip l @ t"
    unfolding rstrip_def rstrip_by_def by (metis rev_append rev_rev_ident takeWhile_dropWhile_id)
  then obtain t where "l = CHR ''['' # sp @ d # u @ t" using s(1) by auto
  moreover have "dropWhile is_space (sp @ d # u @ t) = d # u @ t"
    using s(2,3) by (simp add: dropWhile_append3 digit_is_no_space dropWhile_append2)
  ultimately show False using assms s(3) by (simp add: reltime_line_def)
qed

lemma reltime_watch:
  assumes "list_all reltime_line ls"
  shows "snd (watch al clock i (map rstrip ls)) = Inr () \<and>
    list_all (\<lambda>o'. \<exists>l t. o' = RawLine l t) (fst (watch al clock i (map rstrip ls)))"
  using assms
proof (induction ls arbitrary: i)
  case (Cons l ls)
  then have "watch_line al (clock i) (rstrip l) = Inr (if al \<and> rstrip l \<noteq> [] then [RawLine (rstrip l) (clock i)] else [])"
    by (simp add: watch_line_def parse_dmesg_line_def reltime_no_match)
  then show ?case using Cons.IH[of "Suc i"] Cons.prems by (auto split: prod.splits)
qed simp

lemma raw_skipped:
  "list_all (\<lambda>o'. \<exists>l t. o' = RawLine l t) outs \<Longrightarrow>
   list_all (\<lambda>l. l = Skipped) (map (\<lambda>(i, out). to_input (ticks i) out) (enumerate n outs))"
  by (induction outs arbitrary: n) (auto simp: to_input_def)

lemma correlate_skipped: "list_all (\<lambda>l. l = Skipped) ls \<Longrightarrow> correlate ls st = (st, [])"
  by (induction ls arbitrary: st) (auto simp: correlate_line_def split: prod.splits)

section \<open>Properties\<close>

text \<open>C22: the law of \<open>dmesg\<close>: asked for relative times, it puts a date or a signed difference in the brackets
  of every line, whatever the other options. For every such \<open>dmesg\<close> the watcher, which asks for them
  in every mode, prints no event and ends normally, and the correlator behind it never annotates
  anything.\<close>

theorem watcher_pipe_silent:
  assumes "\<forall>cmd. ''--time-format=reltime'' \<in> set cmd \<longrightarrow> list_all reltime_line (dmesg cmd)"
  shows "snd (watch_main dmesg clock follow since all_lines) = Inr () \<and>
     (\<forall>e. EventLine e \<notin> set (fst (watch_main dmesg clock follow since all_lines))) \<and>
     pipe dmesg clock ticks follow since all_lines window = []"
proof -
  have "''--time-format=reltime'' \<in> set (dmesg_cmd follow since)" by (simp add: dmesg_cmd_def)
  then have law: "list_all reltime_line (dmesg (dmesg_cmd follow since))" using assms by blast
  have w: "snd (watch_main dmesg clock follow since all_lines) = Inr ()"
    "list_all (\<lambda>o'. \<exists>l t. o' = RawLine l t) (fst (watch_main dmesg clock follow since all_lines))"
    using reltime_watch[OF law, of all_lines clock 0] by (simp_all add: watch_main_def stream_dmesg_def)
  note raw_skipped[OF w(2), of ticks 0]
  then show ?thesis using w
    by (auto simp: pipe_def correlate_skipped list_all_iff)
qed

text \<open>A kernel that logs an uncorrectable error, as \<open>dmesg\<close> prints it for each time format: it keeps the
  law, the watcher is silent on it, and on the same log in the default format the same loop prints
  both errors.\<close>

definition sample_dmesg :: "string list \<Rightarrow> string list" where
  "sample_dmesg cmd =
     (if ''--time-format=reltime'' \<in> set cmd
      then [''[Jun  5 12:34] EDAC MC0: 1 UE'', ''[  +0.000012] EDAC MC0: 1 CE'']
      else [''[  100.000000] EDAC MC0: 1 UE'', ''[  100.000012] EDAC MC0: 1 CE''])"

theorem watcher_pipe_silent_witness:
  "fst (watch_main sample_dmesg (\<lambda>i. 0) True None False) = [] \<and>
   pipe sample_dmesg (\<lambda>i. 0) (\<lambda>i. (0, 0)) True None True 60 = [] \<and>
   map (\<lambda>out. case out of EventLine e \<Rightarrow> de_type e | RawLine l t \<Rightarrow> [])
     (fst (watch False (\<lambda>i. 0) 0 (map rstrip (sample_dmesg [''dmesg'', ''--follow''])))) = [''edac_ue'', ''edac_ce'']"
proof -
  have "list_all reltime_line (sample_dmesg [''--time-format=reltime''])" by code_simp
  then have law: "\<forall>cmd. ''--time-format=reltime'' \<in> set cmd \<longrightarrow> list_all reltime_line (sample_dmesg cmd)"
    by (simp add: sample_dmesg_def)
  note silent = watcher_pipe_silent[OF law, where since = None]
  have "fst (watch_main sample_dmesg (\<lambda>i. 0) True None False) = []" by code_simp
  moreover have "pipe sample_dmesg (\<lambda>i. 0) (\<lambda>i. (0, 0)) True None True 60 = []" using silent by simp
  moreover have "map (\<lambda>out. case out of EventLine e \<Rightarrow> de_type e | RawLine l t \<Rightarrow> [])
     (fst (watch False (\<lambda>i. 0) 0 (map rstrip (sample_dmesg [''dmesg'', ''--follow''])))) = [''edac_ue'', ''edac_ce'']"
    by code_simp
  ultimately show ?thesis by simp
qed

end
