(* ===== verification/AnonCli.thy ===== *)
theory AnonCli
  imports Anonymize
begin

text \<open>
  The command line of \<open>tools/anonymize_log.py\<close>: reading, the in-place rewriting with its backup, and the
  summary. The file system maps paths to texts, as \<open>read_text\<close> gives them; a Unix \<open>rename\<close> replaces what
  was there. The arrow in one message is written as \<open>->\<close>.
\<close>

type_synonym files = "string \<Rightarrow> string option"

record anon_args =
  an_input :: string
  an_inplace :: bool
  an_summary :: bool

record anon_out =
  ao_files :: files
  ao_stdout :: string
  ao_stderr :: "string list"

text \<open>\<open>orig.with_suffix(orig.suffix + ".orig")\<close>\<close>

definition backup_of :: "string \<Rightarrow> string" where
  "backup_of path = path @ ''.orig''"

definition summary_lines :: "subs \<Rightarrow> string list" where
  "summary_lines s =
     (let ms = [(''hostname'', sb_hostname s), (''ipv4'', sb_ipv4 s), (''ipv6'', sb_ipv6 s), (''mac'', sb_mac s),
                (''bdf'', sb_bdf s), (''uuid'', sb_uuid s)] in
      [[], ''=== Anonymization summary ('' @ str_int (int (sum_list (map (length \<circ> snd) ms))) @ '' substitutions) ==='' ] @
      map (\<lambda>(category, m). ''  '' @ category @ '': '' @ str_int (int (length m)) @ '' unique values replaced'')
        (filter (\<lambda>(category, m). m \<noteq> []) ms))"

definition rename :: "string \<Rightarrow> string \<Rightarrow> files \<Rightarrow> files" where
  "rename a b fs = fs(b := fs a, a := None)"

definition anon_main :: "anon_args \<Rightarrow> string \<Rightarrow> files \<Rightarrow> anon_out py" where
  "anon_main args stdin fs =
     (case (if an_input args = ''-'' then Some stdin else fs (an_input args)) of
        None \<Rightarrow> Inl OSError
      | Some txt \<Rightarrow>
          (let (cleaned, s) = anonymize txt; path = an_input args; inplace = an_inplace args \<and> path \<noteq> ''-'' in
           Inr \<lparr>ao_files = (if inplace then (rename path (backup_of path) fs)(path := Some cleaned) else fs),
             ao_stdout = (if inplace then [] else cleaned),
             ao_stderr = (if inplace then [''Anonymized: '' @ path @ ''  (original -> '' @ backup_of path @ '')''] else []) @
               (if an_summary args then summary_lines s else [])\<rparr>))"

text \<open>Rewriting a log in place keeps the original beside it - once. After a second run the original is
  nowhere any more: the backup holds the anonymized text, and no other file was touched.\<close>

theorem second_inplace_run_loses_original:
  assumes "fs path = Some txt" "path \<noteq> ''-''" "an_input args = path" "an_inplace args"
  shows "\<exists>out1 out2. anon_main args stdin fs = Inr out1 \<and> anon_main args stdin (ao_files out1) = Inr out2 \<and>
     ao_files out1 = fs(path := Some (fst (anonymize txt)), backup_of path := Some txt) \<and>
     ao_files out2 = fs(path := Some (fst (anonymize (fst (anonymize txt)))), backup_of path := Some (fst (anonymize txt)))"
proof -
  have ne: "backup_of path \<noteq> path" by (simp add: backup_of_def)
  have run: "\<exists>out. anon_main args stdin fs' = Inr out \<and>
      ao_files out = fs'(path := Some (fst (anonymize t)), backup_of path := Some t)" if "fs' path = Some t" for fs' t
    using that assms(2-4) ne by (auto simp: anon_main_def rename_def Let_def fun_upd_twist split: prod.split)
  obtain out1 where o1: "anon_main args stdin fs = Inr out1"
    "ao_files out1 = fs(path := Some (fst (anonymize txt)), backup_of path := Some txt)" using run[where fs' = fs and t = "txt", OF assms(1)] by blast
  then have "ao_files out1 path = Some (fst (anonymize txt))" using ne by simp
  from run[where fs' = "ao_files out1" and t = "fst (anonymize txt)", OF this] obtain out2 where "anon_main args stdin (ao_files out1) = Inr out2"
    "ao_files out2 = (ao_files out1)(path := Some (fst (anonymize (fst (anonymize txt)))), backup_of path := Some (fst (anonymize txt)))"
    by blast
  then show ?thesis using o1 ne by (auto simp: fun_upd_twist)
qed

theorem second_inplace_run_loses_original_witness:
  "\<exists>out. anon_main \<lparr>an_input = ''k.log'', an_inplace = True, an_summary = False\<rparr> [] [''k.log'' \<mapsto> ''from 10.1.2.3''] = Inr out \<and>
     ao_files out (backup_of ''k.log'') = Some ''from 10.1.2.3''"
  using second_inplace_run_loses_original[of "[''k.log'' \<mapsto> ''from 10.1.2.3'']" "''k.log''" "''from 10.1.2.3''"
      "\<lparr>an_input = ''k.log'', an_inplace = True, an_summary = False\<rparr>" "[]"]
  by (auto simp: backup_of_def)

end
