(* ===== verification/BertMain.thy ===== *)
theory BertMain
  imports BertReader
begin

text \<open>
  The command line of \<open>apei/bert_reader.py\<close>: the table file, the region taken from it, the three forms of
  output and the exit status. The table file is a list of bytes, absent or present; the text of a JSON
  document is left to the library.
\<close>

datatype bert_mode = JsonMode | TextMode | PromMode

text \<open>Printed lines, or the document with the records and their number.\<close>

datatype bert_out = Lines "string list" | Document "cper_record list" nat

definition absent_lines :: "string \<Rightarrow> string list" where
  "absent_lines now =
     [''# HELP apei_bert_record_total ACPI BERT boot error records.'', ''# TYPE apei_bert_record_total gauge'',
      ''apei_bert_record_total{severity=\"none\"} 0'', ''apei_bert_last_read_timestamp '' @ now]"

definition record_lines :: "nat \<times> cper_record \<Rightarrow> string list" where
  "record_lines ir =
     (''  ['' @ str_int (int (fst ir)) @ ''] severity='' @ cr_severity (snd ir) @ '' sections='' @ str_int (cr_section_count (snd ir))) #
     map (\<lambda>s. ''       type='' @ cs_type s @ '' length='' @ str_int (cs_length s)) (cr_sections (snd ir))"

text \<open>\<open>print\<close> ends the text of the metrics with a second line feed.\<close>

definition bert_output :: "string \<Rightarrow> bert_mode \<Rightarrow> cper_record list \<Rightarrow> bert_out" where
  "bert_output now mode records =
     (case mode of
        JsonMode \<Rightarrow> Document records (length records)
      | PromMode \<Rightarrow> Lines (emit_lines now records @ [[]])
      | TextMode \<Rightarrow> Lines ((''BERT records found: '' @ str_int (int (length records))) #
          concat (map record_lines (enumerate 0 records))))"

text \<open>What is printed, and the exit status.\<close>

definition bert_main :: "string \<Rightarrow> bert_mode \<Rightarrow> int list option \<Rightarrow> (bert_out \<times> int) py" where
  "bert_main now mode table =
     (case table of
        None \<Rightarrow> Inr (Lines (if mode = PromMode then absent_lines now else []), 0)
      | Some raw \<Rightarrow>
          (case parse_bert_table raw of
             Inl (ValueError m) \<Rightarrow> Inr (Lines [], 1)
           | Inl e \<Rightarrow> Inl e
           | Inr lo \<Rightarrow> py_bind (parse_cper_records (bert_region raw lo)) (\<lambda>rs. Inr (bert_output now mode rs, 0))))"

section \<open>Lemmas\<close>

lemma parse_table_cases:
  "parse_bert_table raw = Inr (le_int (take 4 (drop 36 raw)), le_int (take 8 (drop 40 raw))) \<or>
   (\<exists>m. parse_bert_table raw = Inl (ValueError m)) \<and> length raw < 48"
  by (auto simp: parse_bert_table_def BERT_BODY_FMT_def)

lemma parse_region: "\<exists>rs. parse_cper_records region = Inr rs"
  using parse_from_total[of region 0] by (auto simp: parse_cper_records_def)

text \<open>The program always comes to its end; the status is 1 exactly for a table that is too short.\<close>

lemma bert_main_ends: "\<exists>out. bert_main now mode table = Inr (out, if (\<exists>raw. table = Some raw \<and> length raw < 48) then 1 else 0)"
proof (cases table)
  case (Some raw)
  obtain rs where rs: "parse_cper_records (bert_region raw (le_int (take 4 (drop 36 raw)), le_int (take 8 (drop 40 raw)))) = Inr rs"
    using parse_region by blast
  consider "length raw < 48" | "48 \<le> length raw" by linarith
  then show ?thesis
  proof cases
    case 1
    then show ?thesis using Some by (auto simp: bert_main_def parse_bert_table_def)
  next
    case 2
    then have "parse_bert_table raw = Inr (le_int (take 4 (drop 36 raw)), le_int (take 8 (drop 40 raw)))"
      using parse_table_cases[of raw] by auto
    then show ?thesis using Some rs 2 by (simp add: bert_main_def)
  qed
qed (auto simp: bert_main_def)

lemma no_region:
  assumes "parse_bert_table raw = Inr (len, addr)" "int (length raw) \<le> addr"
  shows "bert_region raw (len, addr) = []"
proof -
  have "0 < addr" using assms by (cases "raw = []") (auto simp: parse_bert_table_def split: if_splits)
  then show ?thesis using assms(2) by (simp add: bert_region_def slice_def)
qed

section \<open>Properties\<close>

text \<open>C12: the reader takes the address of the boot error region, a physical address, for a place in the table
  file: wherever the region lies beyond the length of that file, the report says that there was no
  boot error, whatever the firmware recorded.\<close>

theorem boot_errors_never_read:
  assumes "parse_bert_table raw = Inr (len, addr)" "int (length raw) \<le> addr"
  shows "bert_main now mode (Some raw) = Inr (bert_output now mode [], 0) \<and>
     bert_output now PromMode [] = Lines (emit_lines now [] @ [[]]) \<and>
     ''apei_bert_record_total{severity=\"none\"} 0'' \<in> set (emit_lines now []) \<and>
     bert_output now TextMode [] = Lines [''BERT records found: 0'']"
proof -
  have "parse_cper_records [] = Inr []" by (simp add: parse_cper_records_def parse_from.simps)
  moreover have "str_int 0 = ''0''" by code_simp
  ultimately show ?thesis
    using assms(1) no_region[OF assms] by (simp add: bert_main_def bert_output_def emit_lines_def counts_by_severity_def)
qed

text \<open>The table of a machine: a region of 4096 bytes at \<open>0x7A000000\<close>.\<close>

definition real_table :: "int list" where
  "real_table = replicate 36 0 @ [0, 16, 0, 0] @ [0, 0, 0, 122, 0, 0, 0, 0]"

theorem boot_errors_never_read_witness:
  "parse_bert_table real_table = Inr (4096, 0x7A000000) \<and>
   bert_main ''1.000'' TextMode (Some real_table) = Inr (Lines [''BERT records found: 0''], 0)"
proof
  show p: "parse_bert_table real_table = Inr (4096, 0x7A000000)" by code_simp
  have "int (length real_table) \<le> 0x7A000000" by code_simp
  from boot_errors_never_read[OF p this] show "bert_main ''1.000'' TextMode (Some real_table) = Inr (Lines [''BERT records found: 0''], 0)"
    by simp
qed

end
