(* ===== verification/Files.thy ===== *)
theory Files
  imports Prelude
begin

text \<open>
  Files as the operating system keeps them, as far as the saving of a state depends on it: names, the
  contents they stand for, and the calls by which a process changes them one after the other. A process that is
  stopped leaves a beginning of its calls behind; two processes interleave theirs.
\<close>

section \<open>Calls\<close>

text \<open>Names stand for numbered contents; opening for writing empties the content or makes a new one.\<close>

record fs =
  fs_names :: "(string, nat) dict"
  fs_data :: "nat \<Rightarrow> string"
  fs_next :: nat

definition fs_read :: "string \<Rightarrow> fs \<Rightarrow> string option" where
  "fs_read path s = map_option (fs_data s) (dget (fs_names s) path)"

definition fs_open :: "string \<Rightarrow> fs \<Rightarrow> nat \<times> fs" where
  "fs_open path s =
     (case dget (fs_names s) path of
        Some i \<Rightarrow> (i, s\<lparr>fs_data := (fs_data s)(i := [])\<rparr>)
      | None \<Rightarrow> (fs_next s, s\<lparr>fs_names := dset path (fs_next s) (fs_names s), fs_data := (fs_data s)(fs_next s := []),
          fs_next := Suc (fs_next s)\<rparr>))"

text \<open>Writing at an offset; a hole is filled with zero bytes.\<close>

definition put_at :: "nat \<Rightarrow> string \<Rightarrow> string \<Rightarrow> string" where
  "put_at off txt content =
     take off (content @ replicate (off - length content) (CHR 0x00)) @ txt @ drop (off + length txt) content"

definition fs_write :: "nat \<Rightarrow> nat \<Rightarrow> string \<Rightarrow> fs \<Rightarrow> fs" where
  "fs_write i off txt s = s\<lparr>fs_data := (fs_data s)(i := put_at off txt (fs_data s i))\<rparr>"

definition fs_replace :: "string \<Rightarrow> string \<Rightarrow> fs \<Rightarrow> fs py" where
  "fs_replace a b s =
     (case dget (fs_names s) a of
        None \<Rightarrow> Inl OSError
      | Some i \<Rightarrow> Inr (s\<lparr>fs_names := dset b i (ddel a (fs_names s))\<rparr>))"

datatype sys_call = OpenFile string | WriteText string | ReplaceFile string string

text \<open>The file a process has open, with its offset.\<close>

type_synonym handle = "(nat \<times> nat) option"

fun do_call :: "sys_call \<Rightarrow> handle \<Rightarrow> fs \<Rightarrow> (handle \<times> fs) py" where
  "do_call (OpenFile path) h s = (let (i, s') = fs_open path s in Inr (Some (i, 0), s'))"
| "do_call (WriteText txt) None s = Inl OSError"
| "do_call (WriteText txt) (Some (i, off)) s = Inr (Some (i, off + length txt), fs_write i off txt s)"
| "do_call (ReplaceFile a b) h s = py_bind (fs_replace a b s) (\<lambda>s'. Inr (h, s'))"

text \<open>A process on its own: the first call that fails ends it.\<close>

fun calls :: "sys_call list \<Rightarrow> handle \<Rightarrow> fs \<Rightarrow> fs" where
  "calls [] h s = s"
| "calls (c # cs) h s = (case do_call c h s of Inl e \<Rightarrow> s | Inr (h', s') \<Rightarrow> calls cs h' s')"

text \<open>Stopped after \<open>k\<close> calls.\<close>

definition stopped :: "nat \<Rightarrow> sys_call list \<Rightarrow> fs \<Rightarrow> fs" where
  "stopped k cs s = calls (take k cs) None s"

text \<open>Two processes, \<open>True\<close> and \<open>False\<close>: which failed, and the files.\<close>

record two =
  tw_handle :: "bool \<Rightarrow> handle"
  tw_failed :: "bool \<Rightarrow> bool"
  tw_fs :: fs

definition two_step :: "bool \<times> sys_call \<Rightarrow> two \<Rightarrow> two" where
  "two_step e t =
     (let (p, c) = e in
      if tw_failed t p then t
      else case do_call c (tw_handle t p) (tw_fs t) of
          Inl err \<Rightarrow> t\<lparr>tw_failed := (tw_failed t)(p := True)\<rparr>
        | Inr (h, s) \<Rightarrow> t\<lparr>tw_handle := (tw_handle t)(p := h), tw_fs := s\<rparr>)"

definition two_run :: "(bool \<times> sys_call) list \<Rightarrow> fs \<Rightarrow> two" where
  "two_run es s = fold two_step es \<lparr>tw_handle = \<lambda>p. None, tw_failed = \<lambda>p. False, tw_fs = s\<rparr>"

section \<open>Two ways to save\<close>

text \<open>Into a temporary file that then takes the place of the old one, and in place; the text reaches the
  file in one or more pieces.\<close>

definition tmp_name :: "string \<Rightarrow> string" where
  "tmp_name path = path @ ''.tmp''"

definition replacing_save :: "string \<Rightarrow> string list \<Rightarrow> sys_call list" where
  "replacing_save path pieces = OpenFile (tmp_name path) # map WriteText pieces @ [ReplaceFile (tmp_name path) path]"

definition direct_save :: "string \<Rightarrow> string list \<Rightarrow> sys_call list" where
  "direct_save path pieces = OpenFile path # map WriteText pieces"

section \<open>Laws\<close>

text \<open>No two names stand for one content.\<close>

definition fs_ok :: "fs \<Rightarrow> bool" where
  "fs_ok s \<longleftrightarrow> dict_ok (fs_names s) \<and>
     (\<forall>p i. dget (fs_names s) p = Some i \<longrightarrow> i < fs_next s) \<and>
     (\<forall>p q i. dget (fs_names s) p = Some i \<longrightarrow> dget (fs_names s) q = Some i \<longrightarrow> p = q)"

lemma tmp_name_other [simp]: "tmp_name path \<noteq> path" "path \<noteq> tmp_name path"
  by (simp_all add: tmp_name_def)

lemma put_at_end: "length content = off \<Longrightarrow> put_at off txt content = content @ txt"
  by (simp add: put_at_def)

lemma put_at_start: "put_at 0 txt content = txt @ drop (length txt) content"
  by (simp add: put_at_def)

lemma fs_open_ok:
  assumes "fs_ok s" "fs_open path s = (i, s')"
  shows "fs_ok s'" "dget (fs_names s') path = Some i" "fs_data s' i = []"
    "q \<noteq> path \<Longrightarrow> fs_read q s' = fs_read q s"
proof -
  have inj: "\<And>p q i. dget (fs_names s) p = Some i \<Longrightarrow> dget (fs_names s) q = Some i \<Longrightarrow> p = q"
    and less: "\<And>p i. dget (fs_names s) p = Some i \<Longrightarrow> i < fs_next s"
    using assms(1) by (auto simp: fs_ok_def)
  have "fs_ok s' \<and> dget (fs_names s') path = Some i \<and> fs_data s' i = [] \<and> (q \<noteq> path \<longrightarrow> fs_read q s' = fs_read q s)"
  proof (cases "dget (fs_names s) path")
    case (Some j)
    have s': "i = j" "s' = s\<lparr>fs_data := (fs_data s)(j := [])\<rparr>" using assms(2) Some by (auto simp: fs_open_def)
    show ?thesis
      using assms(1) Some inj by (cases "dget (fs_names s) q") (auto simp: s' fs_ok_def fs_read_def)
  next
    case None
    have s': "i = fs_next s" "s' = s\<lparr>fs_names := dset path (fs_next s) (fs_names s), fs_data := (fs_data s)(fs_next s := []),
        fs_next := Suc (fs_next s)\<rparr>" using assms(2) None by (auto simp: fs_open_def)
    have fresh: "dget (fs_names s) p \<noteq> Some (fs_next s)" for p using less[of p "fs_next s"] by auto
    have "fs_ok s'"
      using assms(1) inj less fresh by (auto simp: s' fs_ok_def intro: less_SucI)
    then show ?thesis using less by (cases "dget (fs_names s) q") (auto simp: s' fs_read_def)
  qed
  then show "fs_ok s'" "dget (fs_names s') path = Some i" "fs_data s' i = []" "q \<noteq> path \<Longrightarrow> fs_read q s' = fs_read q s"
    by simp_all
qed

lemma write_ok: "fs_ok s \<Longrightarrow> fs_ok (fs_write i off txt s)"
  by (simp add: fs_ok_def fs_write_def)

lemma write_other: "fs_ok s \<Longrightarrow> dget (fs_names s) path = Some i \<Longrightarrow> q \<noteq> path \<Longrightarrow> fs_read q (fs_write i off txt s) = fs_read q s"
  by (cases "dget (fs_names s) q") (auto simp: fs_read_def fs_write_def fs_ok_def)

lemma replace_ok:
  assumes "fs_ok s" "dget (fs_names s) a = Some i"
  shows "\<exists>s'. fs_replace a b s = Inr s' \<and> fs_ok s' \<and> fs_read b s' = Some (fs_data s i)"
proof -
  have "fs_ok (s\<lparr>fs_names := dset b i (ddel a (fs_names s))\<rparr>)"
    using assms unfolding fs_ok_def by (auto split: if_splits)
  then show ?thesis using assms(2) by (simp add: fs_replace_def fs_read_def)
qed

text \<open>The writes of a process into one file whose end it is at.\<close>

lemma writes:
  "calls (map WriteText ps @ cs) (Some (i, length (fs_data s i))) s =
     calls cs (Some (i, length (fs_data s i @ concat ps))) (s\<lparr>fs_data := (fs_data s)(i := fs_data s i @ concat ps)\<rparr>)"
proof (induction ps arbitrary: s)
  case (Cons p ps)
  show ?case using Cons[of "fs_write i (length (fs_data s i)) p s"] by (simp add: fs_write_def put_at_end fun_upd_def if_distrib cong: if_cong)
qed simp

text \<open>What the save into a temporary file leaves behind when it is stopped.\<close>

lemma take_replacing:
  "take k (replacing_save path ps) =
     (if k = 0 then []
      else if k \<le> Suc (length ps) then OpenFile (tmp_name path) # map WriteText (take (k - 1) ps)
      else replacing_save path ps)"
  by (cases k) (auto simp: replacing_save_def take_map)

lemma replacing_save_stopped:
  assumes "fs_ok s"
  shows "fs_ok (stopped k (replacing_save path ps) s)"
    "fs_read path (stopped k (replacing_save path ps) s) = (if k < length ps + 2 then fs_read path s else Some (concat ps))"
proof -
  let ?tmp = "tmp_name path"
  obtain i s1 where o: "fs_open ?tmp s = (i, s1)" by (cases "fs_open ?tmp s")
  note o1 = fs_open_ok[OF assms o]
  let ?w = "\<lambda>ps. s1\<lparr>fs_data := (fs_data s1)(i := concat ps)\<rparr>"
  have w: "fs_ok (?w qs) \<and> dget (fs_names (?w qs)) ?tmp = Some i \<and> fs_read path (?w qs) = fs_read path s" for qs
    using o1(1,2) o1(4)[of path] write_ok[OF o1(1), of i 0 "concat qs"] write_other[OF o1(1,2), of path 0 "concat qs"]
    by (simp add: fs_write_def put_at_def o1(3))
  have run: "calls (OpenFile ?tmp # map WriteText qs @ cs) None s = calls cs (Some (i, length (concat qs))) (?w qs)" for qs cs
    using writes[of qs cs i s1] o o1(3) by simp
  obtain s2 where s2: "fs_replace ?tmp path (?w ps) = Inr s2" "fs_ok s2" "fs_read path s2 = Some (concat ps)"
    using replace_ok[of "?w ps" ?tmp i path] w[of ps] by auto
  have "calls (replacing_save path ps) None s = s2"
    using run[of ps "[ReplaceFile ?tmp path]"] s2(1) by (simp add: replacing_save_def)
  moreover have "calls (OpenFile ?tmp # map WriteText qs) None s = ?w qs" for qs using run[of qs "[]"] by simp
  ultimately show "fs_ok (stopped k (replacing_save path ps) s)"
    "fs_read path (stopped k (replacing_save path ps) s) = (if k < length ps + 2 then fs_read path s else Some (concat ps))"
    using assms w s2(2,3) by (auto simp: stopped_def take_replacing)
qed

text \<open>What the save in place leaves behind: the old text is gone with the first call.\<close>

lemma direct_save_stopped:
  assumes "fs_ok s" "0 < k"
  shows "fs_ok (stopped k (direct_save path ps) s)" "fs_read path (stopped k (direct_save path ps) s) = Some (concat (take (k - 1) ps))"
proof -
  obtain i s1 where o: "fs_open path s = (i, s1)" by (cases "fs_open path s")
  note o1 = fs_open_ok[OF assms(1) o]
  let ?qs = "take (k - 1) ps"
  have t: "take k (direct_save path ps) = OpenFile path # map WriteText ?qs"
    using assms(2) by (cases k) (simp_all add: direct_save_def take_map)
  have r: "stopped k (direct_save path ps) s = s1\<lparr>fs_data := (fs_data s1)(i := concat ?qs)\<rparr>"
    unfolding stopped_def t using writes[of ?qs "[]" i s1] o o1(3) by simp
  show "fs_ok (stopped k (direct_save path ps) s)" unfolding r
    using write_ok[OF o1(1), of i 0 "concat ?qs"] by (simp add: fs_write_def put_at_def o1(3))
  show "fs_read path (stopped k (direct_save path ps) s) = Some (concat ?qs)" unfolding r using o1(2) by (simp add: fs_read_def)
qed

section \<open>Two saves through one temporary file\<close>

text \<open>Where an interleaving of two saves has the opening, writing and renaming calls.\<close>

fun is_open :: "sys_call \<Rightarrow> bool" where
  "is_open (OpenFile path) = True"
| "is_open _ = False"

fun is_write :: "sys_call \<Rightarrow> bool" where
  "is_write (WriteText txt) = True"
| "is_write _ = False"

fun is_replace :: "sys_call \<Rightarrow> bool" where
  "is_replace (ReplaceFile a b) = True"
| "is_replace _ = False"

text \<open>The saves overlap when both have opened the file before one has renamed it; the texts mix when both
  have opened it before one has written.\<close>

definition saves_overlap :: "(bool \<times> sys_call) list \<Rightarrow> bool" where
  "saves_overlap es \<longleftrightarrow> length (filter (is_open \<circ> snd) (takeWhile (Not \<circ> is_replace \<circ> snd) es)) = 2"

definition texts_mix :: "(bool \<times> sys_call) list \<Rightarrow> bool" where
  "texts_mix es \<longleftrightarrow> length (filter (is_open \<circ> snd) (takeWhile (Not \<circ> is_write \<circ> snd) es)) = 2"

definition last_writer :: "(bool \<times> sys_call) list \<Rightarrow> bool" where
  "last_writer es = fst (last (filter (is_write \<circ> snd) es))"

lemma shuffles_three:
  "shuffles [x1, x2, x3] [y1, y2, y3] =
     {[x1, x2, x3, y1, y2, y3], [x1, x2, y1, x3, y2, y3], [x1, x2, y1, y2, x3, y3], [x1, x2, y1, y2, y3, x3],
      [x1, y1, x2, x3, y2, y3], [x1, y1, x2, y2, x3, y3], [x1, y1, x2, y2, y3, x3], [x1, y1, y2, x2, x3, y3],
      [x1, y1, y2, x2, y3, x3], [x1, y1, y2, y3, x2, x3], [y1, x1, x2, x3, y2, y3], [y1, x1, x2, y2, x3, y3],
      [y1, x1, x2, y2, y3, x3], [y1, x1, y2, x2, x3, y3], [y1, x1, y2, x2, y3, x3], [y1, x1, y2, y3, x2, x3],
      [y1, y2, x1, x2, x3, y3], [y1, y2, x1, x2, y3, x3], [y1, y2, x1, y3, x2, x3], [y1, y2, y3, x1, x2, x3]}"
  by (simp add: insert_commute image_Un)

text \<open>Every interleaving of two saves in one piece each: what the file holds, and who fails.\<close>

lemma two_saves:
  assumes "fs_ok s" "es \<in> shuffles (map (Pair True) (replacing_save path [a])) (map (Pair False) (replacing_save path [b]))"
  defines "x \<equiv> if last_writer es then a else b" and "y \<equiv> if last_writer es then b else a"
  shows "fs_read path (tw_fs (two_run es s)) = Some (if texts_mix es then x @ drop (length x) y else x) \<and>
     {p. tw_failed (two_run es s) p} = (if saves_overlap es then {fst (last es)} else {})"
proof -
  let ?tmp = "tmp_name path"
  obtain i s1 where o: "fs_open ?tmp s = (i, s1)" by (cases "fs_open ?tmp s")
  note o1 = fs_open_ok[OF assms(1) o]
  define A where "A = fs_names s1"
  define B where "B = dset path i (ddel ?tmp A)"
  define S where "S = (\<lambda>c m. s1\<lparr>fs_data := (fs_data s1)(i := c), fs_names := m\<rparr>)"
  have s1: "s1 = S [] A" using o1(3) by (simp add: S_def A_def fun_upd_idem)
  have tA: "dget A ?tmp = Some i" using o1(2) by (simp add: A_def)
  have tB: "dget B ?tmp = None" by (simp add: B_def)
  have op: "fs_open ?tmp (S c A) = (i, S [] A)" for c using tA by (simp add: fs_open_def S_def)
  have wr: "fs_write i 0 t (S c m) = S (t @ drop (length t) c) m" for t c m
    by (simp add: fs_write_def S_def put_at_start)
  have reA: "fs_replace ?tmp path (S c A) = Inr (S c B)" for c
    using tA by (simp add: fs_replace_def S_def B_def)
  have reB: "fs_replace ?tmp path (S c B) = Inl OSError" for c
    using tB by (simp add: fs_replace_def S_def)
  have rd: "fs_read path (S c B) = Some c" for c by (simp add: fs_read_def S_def B_def)
  have okB: "fs_ok (S c B)" for c
  proof -
    obtain s2 where "fs_replace ?tmp path (fs_write i 0 c s1) = Inr s2" "fs_ok s2"
      using replace_ok[OF write_ok[OF o1(1)], of i 0 c ?tmp i path] o1(2) by (auto simp: fs_write_def)
    then show ?thesis using wr[of c "[]" A] reA by (simp add: s1)
  qed
  have seq: "\<exists>j s3 s4. fs_open ?tmp (S c B) = (j, s3) \<and> fs_replace ?tmp path (fs_write j 0 t s3) = Inr s4 \<and> fs_read path s4 = Some t" for c t
  proof -
    obtain j s3 where o2: "fs_open ?tmp (S c B) = (j, s3)" by (cases "fs_open ?tmp (S c B)")
    note o3 = fs_open_ok[OF okB o2]
    have "fs_data (fs_write j 0 t s3) j = t" by (simp add: fs_write_def put_at_start o3(3))
    then show ?thesis
      using o2 replace_ok[OF write_ok[OF o3(1)], of j 0 t ?tmp j path] o3(2) by (auto simp: fs_write_def)
  qed
  obtain j1 s31 s41 where q1: "fs_open ?tmp (S a B) = (j1, s31)" "fs_replace ?tmp path (fs_write j1 0 b s31) = Inr s41"
    "fs_read path s41 = Some b" using seq[of a b] by blast
  obtain j2 s32 s42 where q2: "fs_open ?tmp (S b B) = (j2, s32)" "fs_replace ?tmp path (fs_write j2 0 a s32) = Inr s42"
    "fs_read path s42 = Some a" using seq[of b a] by blast
  note rules = two_run_def two_step_def o op wr reA reB rd q1 q2 texts_mix_def saves_overlap_def last_writer_def x_def y_def
  have "es \<in> shuffles [(True, OpenFile ?tmp), (True, WriteText a), (True, ReplaceFile ?tmp path)]
      [(False, OpenFile ?tmp), (False, WriteText b), (False, ReplaceFile ?tmp path)]"
    using assms(2) by (simp add: replacing_save_def del: shuffles.simps)
  then show ?thesis
    unfolding shuffles_three
    by (elim insertE emptyE; simp add: rules s1; auto)
qed

section \<open>The contract of a save that can be stopped\<close>

text \<open>What the last save that was completed wrote.\<close>

definition last_complete :: "('s \<Rightarrow> nat) \<Rightarrow> ('s \<Rightarrow> 'v) \<Rightarrow> 'v \<Rightarrow> ('s \<times> nat) list \<Rightarrow> 'v" where
  "last_complete steps doc v xs = fold (\<lambda>(x, k) v. if k < steps x then v else doc x) xs v"

text \<open>\<open>save x k\<close> is the save of \<open>x\<close> stopped after \<open>k\<close> calls, \<open>view\<close> what a reader finds.\<close>

locale crash_safe =
  fixes save :: "'s \<Rightarrow> nat \<Rightarrow> fs \<Rightarrow> fs" and steps :: "'s \<Rightarrow> nat" and view :: "fs \<Rightarrow> 'v" and doc :: "'s \<Rightarrow> 'v"
  assumes keeps: "fs_ok s \<Longrightarrow> fs_ok (save x k s)"
    and old_or_new: "fs_ok s \<Longrightarrow> view (save x k s) = (if k < steps x then view s else doc x)"
begin

text \<open>After any saves, each stopped somewhere or not, the reader finds what the last complete one wrote.\<close>

lemma history: "fs_ok s \<Longrightarrow> fs_ok (fold (\<lambda>(x, k). save x k) xs s) \<and>
  view (fold (\<lambda>(x, k). save x k) xs s) = last_complete steps doc (view s) xs"
proof (induction xs arbitrary: s)
  case (Cons xk xs)
  obtain x k where xk: "xk = (x, k)" by (cases xk)
  show ?case using Cons.IH[OF keeps[OF Cons.prems, of x k]] old_or_new[OF Cons.prems, of x k] by (simp add: xk last_complete_def)
qed (simp add: last_complete_def)

end

interpretation rp: crash_safe "\<lambda>ps k. stopped k (replacing_save path ps)" "\<lambda>ps. length ps + 2" "fs_read path"
    "\<lambda>ps. Some (concat ps)" for path
  by unfold_locales (simp_all add: replacing_save_stopped)

end
