(* ===== verification/StateFiles.thy ===== *)
theory StateFiles
  imports Files JsonRound RemState IpmiSel Redfish
begin

text \<open>
  The state files as text on the disk: what \<open>_save_state\<close> of the remediation controller and of its webhook,
  and \<open>save_state\<close> of the two pollers of event logs, leave behind when they are stopped or overlap, and what
  the next start makes of it. The first two write a temporary file and rename it, the others write in place.
\<close>

section \<open>The remediation state\<close>

text \<open>An entry as \<open>_cooldown_active\<close> looks at it; \<open>fromiso\<close> is \<open>datetime.fromisoformat\<close>.\<close>

definition number_of :: "json \<Rightarrow> pf" where
  "number_of j = (case j of JFloat q \<Rightarrow> Fin q | JInt n \<Rightarrow> Fin (of_int n) | _ \<Rightarrow> NaN)"

definition entry_of :: "(string \<Rightarrow> int option) \<Rightarrow> json \<Rightarrow> entry" where
  "entry_of fromiso j =
     (if \<not> jtruthy j then FalsyEntry
      else case j of
          JObj kvs \<Rightarrow>
            (let since = dgetd kvs ''last_action'' JNull in
             Entry (if \<not> jtruthy since then NoAction
                    else case since of JStr s \<Rightarrow> (case fromiso s of Some t \<Rightarrow> IsoTime t | None \<Rightarrow> NotIso) | _ \<Rightarrow> NotText)
               (number_of (dgetd kvs ''probability'' JNull)) (dgetd kvs ''dry_run'' JNull = JBool True))
        | _ \<Rightarrow> NotDict)"

definition state_of :: "(string \<Rightarrow> int option) \<Rightarrow> (string, json) dict \<Rightarrow> node_state" where
  "state_of fromiso kvs = map (\<lambda>(k, v). (k, entry_of fromiso v)) kvs"

text \<open>\<open>_load_state\<close>: a missing file and one that is no JSON are the empty state; a document that is no object
  fails when a node is looked up in it, which is counted as failing here.\<close>

definition load_text :: "(string \<Rightarrow> int option) \<Rightarrow> string option \<Rightarrow> node_state py" where
  "load_text fromiso f =
     (case f of
        None \<Rightarrow> Inr []
      | Some t \<Rightarrow> (case loads t of
          None \<Rightarrow> Inr []
        | Some (JObj kvs) \<Rightarrow> Inr (state_of fromiso kvs)
        | Some _ \<Rightarrow> Inl AttributeError))"

text \<open>The text of \<open>json.dump(state, f, indent=2)\<close>, and the entry \<open>_update_state_entry\<close> puts into the state.\<close>

definition state_text :: "(rat \<Rightarrow> string) \<Rightarrow> (string, json) dict \<Rightarrow> string" where
  "state_text repr doc = dumps repr (Some 2) (JObj doc)"

definition entry_json :: "(int \<Rightarrow> string) \<Rightarrow> int \<Rightarrow> rat \<Rightarrow> bool \<Rightarrow> json" where
  "entry_json show_time t q d = JObj [(''last_action'', JStr (show_time t)), (''probability'', JFloat q), (''dry_run'', JBool d)]"

definition doc_ok :: "(rat \<Rightarrow> string) \<Rightarrow> (string, json) dict \<Rightarrow> bool" where
  "doc_ok repr doc \<longleftrightarrow> json_ok (float_text repr) (JObj doc)"

lemma entry_of_json:
  "show_time t \<noteq> [] \<Longrightarrow> fromiso (show_time t) = Some t \<Longrightarrow> entry_of fromiso (entry_json show_time t q d) = Entry (IsoTime t) (Fin q) d"
  by (simp add: entry_of_def entry_json_def dgetd_def number_of_def)

lemma load_state_text: "doc_ok repr doc \<Longrightarrow> load_text fromiso (Some (state_text repr doc)) = Inr (state_of fromiso doc)"
  by (simp add: load_text_def state_text_def doc_ok_def loads_dumps)

lemma list_all_dset: "list_all P d \<Longrightarrow> P (k, v) \<Longrightarrow> list_all P (dset k v d)"
  by (induction d) auto

text \<open>C19: an action recorded by the controller is there when the state is read from its file again, with the instant
  the cooldown is counted from, and the entries of the other nodes are as they were: the document the code keeps and its
  text stand for the abstract state. \<open>isoformat\<close> and \<open>fromisoformat\<close> are taken to be inverse at that instant, and \<open>repr\<close> to
  print the probability so that it reads as the same number.\<close>

theorem action_read_back:
  assumes "doc_ok repr doc" "float_text repr q" "show_time t \<noteq> []" "fromiso (show_time t) = Some t"
  shows "load_text fromiso (Some (state_text repr (dset node (entry_json show_time t q d) doc))) =
    Inr (update_state_entry (state_of fromiso doc) node (Fin q) d t)"
proof -
  have "doc_ok repr (dset node (entry_json show_time t q d) doc)"
    using assms(1,2) by (auto simp: doc_ok_def entry_json_def intro!: list_all_dset) (simp add: dict_ok_def dkeys_def)
  moreover have "state_of fromiso (dset node j doc) = dset node (entry_of fromiso j) (state_of fromiso doc)" for j
    by (induction doc) (auto simp: state_of_def)
  ultimately show ?thesis using assms(3,4) by (simp add: load_state_text update_state_entry_def entry_of_json)
qed

interpretation rs: crash_safe "\<lambda>ps k. stopped k (replacing_save path ps)" "\<lambda>ps. length ps + 2"
    "\<lambda>s. load_text fromiso (fs_read path s)" "\<lambda>ps. load_text fromiso (Some (concat ps))" for path fromiso
  by unfold_locales (simp_all add: replacing_save_stopped)

text \<open>C18: saving through a temporary file is all or nothing: after any number of saves, in any pieces and each
  stopped after any number of calls, the state read from the file is that of the last save that was completed,
  or the one read before all of them.\<close>

theorem state_saves_atomic:
  assumes "fs_ok s" "\<forall>(doc, pieces, k) \<in> set saves. doc_ok repr doc \<and> concat pieces = state_text repr doc"
  shows "load_text fromiso (fs_read path (fold (\<lambda>(doc, pieces, k). stopped k (replacing_save path pieces)) saves s)) =
    fold (\<lambda>(doc, pieces, k) st. if k < length pieces + 2 then st else Inr (state_of fromiso doc)) saves (load_text fromiso (fs_read path s))"
proof -
  have a: "fold (\<lambda>(doc, pieces, k). stopped k (replacing_save path pieces)) saves s =
      fold (\<lambda>(ps, k). stopped k (replacing_save path ps)) (map snd saves) s"
    by (simp add: fold_map comp_def case_prod_unfold)
  have "last_complete (\<lambda>ps. length ps + 2) (\<lambda>ps. load_text fromiso (Some (concat ps))) v (map snd saves) =
      fold (\<lambda>(doc, pieces, k) st. if k < length pieces + 2 then st else Inr (state_of fromiso doc)) saves v" for v
    using assms(2)
  proof (induction saves arbitrary: v)
    case (Cons x saves)
    obtain doc pieces k where x: "x = (doc, pieces, k)" by (cases x)
    have "load_text fromiso (Some (concat pieces)) = Inr (state_of fromiso doc)"
      using Cons.prems load_state_text[of repr doc fromiso] by (simp add: x)
    then show ?case using Cons by (simp add: x last_complete_def)
  qed (simp add: last_complete_def)
  then show ?thesis unfolding a using rs.history[OF assms(1)] by simp
qed

section \<open>Two savers with one temporary file\<close>

text \<open>A document behind a longer one: no JSON.\<close>

lemma shorter_over_longer:
  assumes "doc_ok repr mine" "length (state_text repr mine) < length (state_text repr other)"
  shows "loads (state_text repr mine @ drop (length (state_text repr mine)) (state_text repr other)) = None"
proof -
  let ?a = "state_text repr other" and ?b = "state_text repr mine"
  obtain t where t: "?a = CHR 0x7B # t @ [CHR 0x7D]" using object_text[of repr "Some 2" other] by (auto simp: state_text_def)
  have "last (drop (length ?b) ?a) = CHR 0x7D" using assms(2) unfolding t by (simp add: last_drop)
  then have "jws (drop (length ?b) ?a) \<noteq> []"
    using assms(2) last_in_set[of "drop (length ?b) ?a"] not_ws(3) by (fastforce simp: jws_def dropWhile_eq_Nil_conv)
  then show ?thesis using loads_behind[of repr mine] assms(1) by (simp add: doc_ok_def state_text_def)
qed

text \<open>C17: the controller (\<open>True\<close>) and the webhook (\<open>False\<close>) use one temporary file and no lock. Over every
  interleaving of the calls of two saves, each of whose texts is written in one piece: if both have opened the file
  before either has written it, and the text written last is the shorter one, the state file ends up as that
  text with the end of the other one; it is no JSON and reads as the empty state, so every node may be acted on
  again. In every other interleaving the state of the last writer is read. Whenever both have opened
  the file before one has renamed it, the save of the other fails in its renaming.\<close>

theorem overlapping_saves_lose_state:
  assumes "fs_ok s" "doc_ok repr ctl" "doc_ok repr hook"
    "es \<in> shuffles (map (Pair True) (replacing_save path [state_text repr ctl]))
       (map (Pair False) (replacing_save path [state_text repr hook]))"
  shows "let late = (if last_writer es then ctl else hook); early = (if last_writer es then hook else ctl); run = two_run es s in
     load_text fromiso (fs_read path (tw_fs run)) =
       Inr (if texts_mix es \<and> length (state_text repr late) < length (state_text repr early) then [] else state_of fromiso late) \<and>
     {p. tw_failed run p} = (if saves_overlap es then {fst (last es)} else {})"
proof -
  define late where "late = (if last_writer es then ctl else hook)"
  define early where "early = (if last_writer es then hook else ctl)"
  have ok: "doc_ok repr late" using assms(2,3) by (simp add: late_def)
  let ?x = "state_text repr late" and ?y = "state_text repr early"
  have x: "?x = (if last_writer es then state_text repr ctl else state_text repr hook)"
    and y: "?y = (if last_writer es then state_text repr hook else state_text repr ctl)"
    by (simp_all add: late_def early_def)
  note r = two_saves[OF assms(1,4), folded x y]
  have "load_text fromiso (Some (if texts_mix es then ?x @ drop (length ?x) ?y else ?x)) =
      Inr (if texts_mix es \<and> length ?x < length ?y then [] else state_of fromiso late)"
    using shorter_over_longer[OF ok, of early] load_state_text[OF ok] by (auto simp: load_text_def)
  then show ?thesis using r by (simp add: Let_def flip: late_def early_def)
qed

section \<open>Ledgers saved in place\<close>

text \<open>What \<open>load_state\<close> of a poller makes of its file: whatever cannot be read is the empty state.\<close>

definition ledger_load :: "((string, json) dict \<Rightarrow> 's py) \<Rightarrow> 's \<Rightarrow> string option \<Rightarrow> 's py" where
  "ledger_load dec init f =
     (case f of
        None \<Rightarrow> Inr init
      | Some t \<Rightarrow> (case loads t of None \<Rightarrow> Inr init | Some (JObj kvs) \<Rightarrow> dec kvs | Some _ \<Rightarrow> Inl AttributeError))"

definition ledger_text :: "('s \<Rightarrow> (string, json) dict) \<Rightarrow> 's \<Rightarrow> string" where
  "ledger_text enc st = dumps (\<lambda>q. []) None (JObj (enc st))"

text \<open>A ledger whose state is kept as a JSON object that holds no float.\<close>

locale file_ledger = ledger step known for step :: "'i \<Rightarrow> 's \<Rightarrow> 's \<times> 'o list" and known :: "'s \<Rightarrow> 'o set" +
  fixes enc :: "'s \<Rightarrow> (string, json) dict" and dec :: "(string, json) dict \<Rightarrow> 's py" and init :: 's and wf :: "'s \<Rightarrow> bool"
  assumes enc_ok: "wf st \<Longrightarrow> json_ok (\<lambda>q. False) (JObj (enc st))"
    and dec_enc: "wf st \<Longrightarrow> dec (enc st) = Inr st"
    and wf_step: "wf st \<Longrightarrow> wf (fst (step i st))"
begin

lemma text_ok: "wf st \<Longrightarrow> json_ok (float_text repr) (JObj (enc st))"
  by (rule json_ok_mono[OF enc_ok]) auto

lemma saved_whole: "wf st \<Longrightarrow> ledger_load dec init (Some (ledger_text enc st)) = Inr st"
  using loads_dumps[OF text_ok, of st "\<lambda>q. []" None] by (simp add: ledger_load_def ledger_text_def dec_enc)

lemma saved_cut: "wf st \<Longrightarrow> ledger_text enc st = p @ q \<Longrightarrow> q \<noteq> [] \<Longrightarrow> ledger_load dec init (Some p) = Inr init"
  using loads_cut[OF text_ok, of st "\<lambda>q. []" None p q] by (simp add: ledger_load_def ledger_text_def)

text \<open>A complete save and the next run reports nothing again; a save that was stopped once it had opened the
  file, and before the last of the text was written, and the next run is like the first ever.\<close>

lemma stopped_save:
  assumes "fs_ok s" "wf st" "concat pieces = ledger_text enc st" "0 < k" "concat (take (k - 1) pieces) \<noteq> concat pieces"
  shows "ledger_load dec init (fs_read path (stopped k (direct_save path pieces) s)) = Inr init"
proof -
  have "concat pieces = concat (take (k - 1) pieces) @ concat (drop (k - 1) pieces)"
    by (metis append_take_drop_id concat_append)
  then show ?thesis
    using saved_cut[OF assms(2), of "concat (take (k - 1) pieces)" "concat (drop (k - 1) pieces)"] assms(3,5)
    by (simp add: direct_save_stopped[OF assms(1,4)])
qed

lemma complete_save:
  assumes "fs_ok s" "wf st" "concat pieces = ledger_text enc st"
  shows "ledger_load dec init (fs_read path (stopped (length pieces + 1) (direct_save path pieces) s)) = Inr st"
  using saved_whole[OF assms(2)] by (simp add: direct_save_stopped[OF assms(1)] assms(3))

text \<open>However far a save in place gets, the next load finds one of the three outcomes that the ledgers count with.\<close>

lemma stopped_save_result:
  assumes "fs_ok s" "wf old" "wf new" "concat pieces = ledger_text enc new" "fs_read path s = Some (ledger_text enc old)"
  shows "ledger_load dec init (fs_read path (stopped k (direct_save path pieces) s)) =
    Inr (saved init (if k = 0 then Untouched else if concat (take (k - 1) pieces) = concat pieces then Written else CutShort) old new)"
proof (cases "k = 0")
  case True
  then show ?thesis using saved_whole[OF assms(2)] assms(5) by (simp add: stopped_def)
next
  case False
  then show ?thesis
    using stopped_save[OF assms(1,3,4), of k] saved_whole[OF assms(3)] assms(4) by (simp add: direct_save_stopped[OF assms(1)])
qed

lemma again_after_stop:
  assumes "fs_ok s" "wf st" "wf init" "concat pieces = ledger_text enc (fst (step i st))" "0 < k"
    "concat (take (k - 1) pieces) \<noteq> concat pieces"
  shows "ledger_load dec init (fs_read path (stopped (length pieces + 1) (direct_save path pieces) s)) = Inr (fst (step i st)) \<and>
    set (snd (step i st)) \<inter> set (snd (step later (fst (step i st)))) = {} \<and>
    ledger_load dec init (fs_read path (stopped k (direct_save path pieces) s)) = Inr init"
  using complete_save[OF assms(1) wf_step[OF assms(2)] assms(4)] stopped_save[OF assms(1) wf_step[OF assms(2)] assms(4-6)]
    reports_new[of later "fst (step i st)"] remembers[of i st] by blast

end

text \<open>The ids per node of the SEL poller; a value that is no integer, which it never writes, fails in the comparison
  and is counted as failing here.\<close>

definition sel_enc :: "sel_state \<Rightarrow> (string, json) dict" where
  "sel_enc st = map (\<lambda>(k, n). (k, JInt n)) st"

definition sel_dec :: "(string, json) dict \<Rightarrow> sel_state py" where
  "sel_dec kvs = py_mapM (\<lambda>(k, j). case j of JInt n \<Rightarrow> Inr (k, n) | _ \<Rightarrow> Inl TypeError) kvs"

text \<open>The ids of the Redfish collector, the only key it ever writes; ids that are no strings, which it never writes
  either, are counted as failing.\<close>

definition redfish_enc :: "string list \<Rightarrow> (string, json) dict" where
  "redfish_enc seen = [(''seen_sel_ids'', JArr (map JStr seen))]"

definition redfish_dec :: "(string, json) dict \<Rightarrow> string list py" where
  "redfish_dec kvs =
     (case dgetd kvs ''seen_sel_ids'' (JArr []) of
        JArr vs \<Rightarrow> py_mapM (\<lambda>j. case j of JStr t \<Rightarrow> Inr t | _ \<Rightarrow> Inl TypeError) vs
      | _ \<Rightarrow> Inl TypeError)"

lemma poll_targets_dict_ok: "poll_targets clk tool tgs s = Inr s' \<Longrightarrow> dict_ok (sn_state s) \<Longrightarrow> dict_ok (sn_state s')"
  by (induction tgs arbitrary: s)
    (fastforce simp: poll_target_def Let_def py_bind_eq_Inr split: option.splits if_splits)+

lemma sel_report_dict_ok: "dict_ok st \<Longrightarrow> dict_ok (fst (sel_report inp st))"
  by (auto simp: sel_report_def split: sum.split dest: poll_targets_dict_ok)

lemma sel_dec_enc: "sel_dec (sel_enc st) = Inr st"
  by (induction st) (auto simp: sel_dec_def sel_enc_def)

lemma redfish_dec_enc: "redfish_dec (redfish_enc seen) = Inr seen"
proof -
  have "py_mapM (\<lambda>j. case j of JStr t \<Rightarrow> Inr t | _ \<Rightarrow> Inl TypeError) (map JStr seen) = Inr seen" by (induction seen) simp_all
  then show ?thesis by (simp add: redfish_dec_def redfish_enc_def dgetd_def)
qed

lemma sel_enc_ok: "dict_ok st \<Longrightarrow> json_ok (\<lambda>q. False) (JObj (sel_enc st))"
  by (auto simp: sel_enc_def dict_ok_def dkeys_def comp_def case_prod_unfold list_all_iff)

lemma redfish_enc_ok: "json_ok (\<lambda>q. False) (JObj (redfish_enc seen))"
  by (simp add: redfish_enc_def dict_ok_def dkeys_def list_all_iff)

interpretation sf: file_ledger sel_report sel_known sel_enc sel_dec "[]" dict_ok
  by unfold_locales (use sel_enc_ok in \<open>simp_all add: sel_dec_enc sel_report_dict_ok del: json_ok.simps\<close>)

interpretation rf: file_ledger "redfish_report sh" set redfish_enc redfish_dec "[]" "\<lambda>seen. True" for sh
  by unfold_locales (use redfish_enc_ok in \<open>simp_all add: redfish_dec_enc del: json_ok.simps\<close>)

text \<open>C20: a run of the SEL poller saves its state in place. When the save is complete, no later run, whatever its targets and
  logs, reports one of the records of this run again; when it is stopped after it has opened the file and before all of
  the text is in it, the next run starts from the empty state, as if no record of any node had been reported.\<close>

theorem sel_cut_save_forgets:
  assumes "fs_ok s" "dict_ok st" "concat pieces = ledger_text sel_enc (fst (sel_report inp st))" "0 < k"
    "concat (take (k - 1) pieces) \<noteq> concat pieces"
  shows "ledger_load sel_dec [] (fs_read path (stopped (length pieces + 1) (direct_save path pieces) s)) = Inr (fst (sel_report inp st)) \<and>
    set (snd (sel_report inp st)) \<inter> set (snd (sel_report later (fst (sel_report inp st)))) = {} \<and>
    ledger_load sel_dec [] (fs_read path (stopped k (direct_save path pieces) s)) = Inr []"
  using assms by (intro sf.again_after_stop) simp_all

text \<open>The same of the Redfish collector and its ids.\<close>

theorem redfish_cut_save_forgets:
  assumes "fs_ok s" "concat pieces = ledger_text redfish_enc (fst (redfish_report sh inp seen))" "0 < k"
    "concat (take (k - 1) pieces) \<noteq> concat pieces"
  shows "ledger_load redfish_dec [] (fs_read path (stopped (length pieces + 1) (direct_save path pieces) s)) = Inr (fst (redfish_report sh inp seen)) \<and>
    set (snd (redfish_report sh inp seen)) \<inter> set (snd (redfish_report sh later (fst (redfish_report sh inp seen)))) = {} \<and>
    ledger_load redfish_dec [] (fs_read path (stopped k (direct_save path pieces) s)) = Inr []"
  using assms by (intro rf.again_after_stop) simp_all

section \<open>Instances\<close>

definition no_files :: fs where
  "no_files = \<lparr>fs_names = [], fs_data = (\<lambda>i. []), fs_next = 0\<rparr>"

lemma no_files_ok: "fs_ok no_files"
  by (simp add: fs_ok_def no_files_def dict_ok_def dkeys_def)

definition held :: "(string, json) dict" where
  "held = [(''n1'', JObj [(''last_action'', JStr ''2026''), (''probability'', JInt 1), (''dry_run'', JBool False)])]"

lemma held_ok: "doc_ok repr held" "doc_ok repr []"
  by (simp_all add: doc_ok_def held_def dict_ok_def dkeys_def)

theorem action_read_back_witness:
  "load_text (\<lambda>t. Some 7) (Some (state_text (\<lambda>q. ''0.75'') (dset ''n2'' (entry_json (\<lambda>t. ''2026'') 7 (3 / 4) True) held))) =
     Inr [(''n1'', Entry (IsoTime 7) (Fin 1) False), (''n2'', Entry (IsoTime 7) (Fin (3 / 4)) True)]"
proof -
  have st: "state_of (\<lambda>t. Some 7) held = [(''n1'', Entry (IsoTime 7) (Fin 1) False)]"
    by (simp add: state_of_def held_def entry_of_def dgetd_def number_of_def)
  show ?thesis
    using action_read_back[OF held_ok(1) three_quarters, of "\<lambda>t. ''2026''" 7 "\<lambda>t. Some 7" "''n2''" True]
    by (simp add: st update_state_entry_def)
qed

text \<open>Two saves, the second stopped before the renaming: the first is what is read.\<close>

theorem state_saves_atomic_witness:
  "load_text (\<lambda>t. Some 7) (fs_read ''s'' (fold (\<lambda>(doc, pieces, k). stopped k (replacing_save ''s'' pieces))
     [(held, [state_text (\<lambda>q. []) held], 3), ([], [''{'', ''}''], 3)] no_files)) = Inr [(''n1'', Entry (IsoTime 7) (Fin 1) False)]"
proof -
  have e: "state_text (\<lambda>q. []) [] = ''{}''" by code_simp
  have st: "state_of (\<lambda>t. Some 7) held = [(''n1'', Entry (IsoTime 7) (Fin 1) False)]"
    by (simp add: state_of_def held_def entry_of_def dgetd_def number_of_def)
  have "\<forall>(doc, pieces, k) \<in> set [(held, [state_text (\<lambda>q. []) held], 3 :: nat), ([], [''{'', ''}''], 3)].
      doc_ok (\<lambda>q. []) doc \<and> concat pieces = state_text (\<lambda>q. []) doc"
    using held_ok e by simp
  from state_saves_atomic[OF no_files_ok this, of "\<lambda>t. Some 7" "''s''"] show ?thesis by (simp add: st)
qed

text \<open>The controller has two nodes to write, the webhook one: the outcome depends on who writes last.\<close>

definition held_two :: "(string, json) dict" where
  "held_two = held @ [(''n2'', JObj [(''last_action'', JStr ''2026''), (''probability'', JInt 1), (''dry_run'', JBool False)])]"

theorem overlapping_saves_lose_state_witness:
  "let C = Pair True; H = Pair False; tmp = tmp_name ''s''; a = state_text (\<lambda>q. []) held_two; b = state_text (\<lambda>q. []) held;
       read = (\<lambda>es. load_text (\<lambda>t. Some 7) (fs_read ''s'' (tw_fs (two_run es no_files))))
   in read [C (OpenFile tmp), H (OpenFile tmp), C (WriteText a), H (WriteText b), C (ReplaceFile tmp ''s''), H (ReplaceFile tmp ''s'')] = Inr [] \<and>
      read [C (OpenFile tmp), H (OpenFile tmp), H (WriteText b), C (WriteText a), C (ReplaceFile tmp ''s''), H (ReplaceFile tmp ''s'')] =
        Inr [(''n1'', Entry (IsoTime 7) (Fin 1) False), (''n2'', Entry (IsoTime 7) (Fin 1) False)]"
proof -
  have l: "length (state_text (\<lambda>q. []) held) < length (state_text (\<lambda>q. []) held_two)"
    unfolding held_two_def held_def by code_simp
  have ok: "doc_ok (\<lambda>q. []) held_two" by (simp add: doc_ok_def held_two_def held_def dict_ok_def dkeys_def)
  have st: "state_of (\<lambda>t. Some 7) held_two = [(''n1'', Entry (IsoTime 7) (Fin 1) False), (''n2'', Entry (IsoTime 7) (Fin 1) False)]"
    by (simp add: state_of_def held_two_def held_def entry_of_def dgetd_def number_of_def)
  define a where "a = state_text (\<lambda>q. []) held_two"
  define b where "b = state_text (\<lambda>q. []) held"
  have m: "load_text (\<lambda>t. Some 7) (fs_read ''s'' (tw_fs (two_run es no_files))) =
        Inr (if last_writer es then state_of (\<lambda>t. Some 7) held_two else if texts_mix es then [] else state_of (\<lambda>t. Some 7) held)"
    if "es \<in> shuffles (map (Pair True) (replacing_save ''s'' [a])) (map (Pair False) (replacing_save ''s'' [b]))" for es
    using overlapping_saves_lose_state[OF no_files_ok ok held_ok(1) that[unfolded a_def b_def], of "\<lambda>t. Some 7"] l
    by (auto simp: Let_def split: if_splits)
  show ?thesis
    unfolding Let_def a_def[symmetric] b_def[symmetric]
    by (intro conjI; subst m; simp add: replacing_save_def texts_mix_def last_writer_def st)
qed

text \<open>A poll that finds the records 3 and 5, with a save cut within its text.\<close>

theorem sel_cut_save_forgets_witness:
  "snd (sel_report sel_run []) = [(''n1'', 3), (''n1'', 5)] \<and>
   ledger_load sel_dec [] (fs_read ''s'' (stopped 2 (direct_save ''s'' [''{\"n1\": 5}'']) no_files)) = Inr [(''n1'', 5)] \<and>
   snd (sel_report sel_run [(''n1'', 5)]) = [] \<and>
   ledger_load sel_dec [] (fs_read ''s'' (stopped 1 (direct_save ''s'' [''{\"n1\": 5}'']) no_files)) = Inr []"
proof -
  have d: "dict_ok ([] :: sel_state)" by (simp add: dict_ok_def dkeys_def)
  have t: "ledger_text sel_enc [(''n1'', 5)] = ''{\"n1\": 5}''" by code_simp
  have c: "concat [''{\"n1\": 5}''] = ledger_text sel_enc (fst (sel_report sel_run []))" by (simp add: sel_run_report t)
  show ?thesis
    using sel_cut_save_forgets[OF no_files_ok d c, of 1 "''s''" sel_run]
    by (simp add: sel_run_report numeral_2_eq_2)
qed

end
