(* ===== verification/PipeText.thy ===== *)
theory PipeText
  imports WatchPipe JsonRound EdacLogProps ToolRun
begin

text \<open>
  The text between \<open>correlation/dmesg_watcher.py\<close> and \<open>correlation/event_correlator.py\<close>: the lines the one
  prints, and what the other makes of any line of its input. \<open>WatchPipe\<close> and \<open>Correlation\<close> have both after parsing.
  A float without a finite value has no JSON text in the model, and an event type that is a number,
  a truth value or \<open>null\<close> is outside of it: \<open>None\<close>.
\<close>

section \<open>The watcher prints\<close>

definition group_json :: "string option \<Rightarrow> json" where
  "group_json g = (case g of Some t \<Rightarrow> JStr t | None \<Rightarrow> JNull)"

definition event_json :: "dmesg_event \<Rightarrow> json option" where
  "event_json e =
     (case de_kernel_ts e of
        Fin q \<Rightarrow> Some (JObj [(''timestamp'', JFloat (de_timestamp e)), (''kernel_ts'', JFloat q), (''event_type'', JStr (de_type e)),
          (''severity'', JStr (de_severity e)), (''message'', JStr (de_message e)), (''groups'', JArr (map group_json (de_groups e)))])
      | _ \<Rightarrow> None)"

definition wire_json :: "watch_out \<Rightarrow> json option" where
  "wire_json out =
     (case out of
        EventLine e \<Rightarrow> event_json e
      | RawLine line now \<Rightarrow> Some (JObj [(''raw'', JStr line), (''timestamp'', JFloat now)]))"

definition printed :: "(rat \<Rightarrow> string) \<Rightarrow> watch_out list \<Rightarrow> string option" where
  "printed repr outs = map_option (\<lambda>js. concat (map (\<lambda>j. dumps repr None j @ [newline]) js)) (those (map wire_json outs))"

section \<open>The correlator reads\<close>

definition stdin_lines :: "string \<Rightarrow> string list" where
  "stdin_lines s = readlines (universal_newlines s)"

text \<open>The time stamp of an event as \<open>_expire\<close> compares it.\<close>

definition stamp_of :: "json option \<Rightarrow> rat option py" where
  "stamp_of j =
     (case j of
        None \<Rightarrow> Inr None
      | Some (JFloat q) \<Rightarrow> Inr (Some q)
      | Some (JInt n) \<Rightarrow> Inr (Some (of_int n))
      | Some (JBool b) \<Rightarrow> Inr (Some (of_bool b))
      | _ \<Rightarrow> Inl TypeError)"

text \<open>A value that was read: \<open>"event_type" in event\<close>, which fails on a number, a truth value and \<open>null\<close>, then \<open>add\<close>,
  which fails on what is no object, and the count, which fails on a type that cannot be hashed.\<close>

definition read_event :: "rat \<times> rat \<Rightarrow> json \<Rightarrow> input_line py option" where
  "read_event t j =
     (case j of
        JObj kvs \<Rightarrow>
          (case dget kvs ''event_type'' of
             None \<Rightarrow> Some (Inr Skipped)
           | Some (JStr ty) \<Rightarrow>
               Some (py_bind (stamp_of (dget kvs ''timestamp'')) (\<lambda>ts.
                 Inr (Got (fst t) (snd t) \<lparr>evt_timestamp = ts, evt_type = ty\<rparr>)))
           | Some (JArr vs) \<Rightarrow> Some (Inl TypeError)
           | Some (JObj vs) \<Rightarrow> Some (Inl TypeError)
           | _ \<Rightarrow> None)
      | JStr s \<Rightarrow> Some (if contains ''event_type'' s then Inl AttributeError else Inr Skipped)
      | JArr vs \<Rightarrow> Some (if JStr ''event_type'' \<in> set vs then Inl AttributeError else Inr Skipped)
      | _ \<Rightarrow> Some (Inl TypeError))"

definition read_line :: "rat \<times> rat \<Rightarrow> string \<Rightarrow> input_line py option" where
  "read_line t line =
     (let line = strip line in
      if line = [] then Some (Inr Skipped)
      else case loads line of None \<Rightarrow> Some (Inr Skipped) | Some j \<Rightarrow> read_event t j)"

text \<open>The loop: what has been pushed when it ends, and whether an exception ended it.\<close>

fun correlate_text ::
    "(nat \<Rightarrow> rat \<times> rat) \<Rightarrow> nat \<Rightarrow> string list \<Rightarrow> event_buffer \<times> corr_key list \<Rightarrow> (correlation list \<times> unit py) option" where
  "correlate_text ticks i [] st = Some ([], Inr ())"
| "correlate_text ticks i (l # ls) st =
     (case read_line (ticks i) l of
        None \<Rightarrow> None
      | Some (Inl e) \<Rightarrow> Some ([], Inl e)
      | Some (Inr inp) \<Rightarrow>
          (let (st', out) = correlate_line inp st in
           map_option (\<lambda>(out', r). (out @ out', r)) (correlate_text ticks (Suc i) ls st')))"

section \<open>A printed value is one line\<close>

definition number_text :: "(rat \<Rightarrow> string) \<Rightarrow> rat \<Rightarrow> bool" where
  "number_text repr q \<longleftrightarrow> float_text repr q \<and> list_all (\<lambda>c. is_digit c \<or> c \<in> set ''.eE+-'') (repr q)"

definition one_line :: "string \<Rightarrow> bool" where
  "one_line s \<longleftrightarrow> (\<forall>c \<in> set s. 32 \<le> cp c)"

lemma one_line_simps [simp]: "one_line []" "one_line (c # s) \<longleftrightarrow> 32 \<le> cp c \<and> one_line s" "one_line (s @ t) \<longleftrightarrow> one_line s \<and> one_line t"
  by (auto simp: one_line_def)

lemma one_line_join: "one_line sep \<Longrightarrow> \<forall>x \<in> set xs. one_line x \<Longrightarrow> one_line (join sep xs)"
  by (induction sep xs rule: join.induct) auto

lemma one_line_items: "\<forall>x \<in> set xs. one_line x \<Longrightarrow> 32 \<le> cp a \<Longrightarrow> 32 \<le> cp b \<Longrightarrow> one_line (items None l a b xs)"
  by (auto simp: items_def gap_def item_sep_def cp_def intro!: one_line_join)

lemma one_line_esc: "one_line (esc_chr c)"
proof -
  have "list_all (\<lambda>c. list_all (\<lambda>d. 32 \<le> cp d) (esc_chr c)) (enum_class.enum :: char list)" by code_simp
  then show ?thesis by (simp add: list_all_iff one_line_def enum_UNIV)
qed

lemma one_line_quoted: "one_line (quoted s)"
  using one_line_esc by (auto simp: quoted_def one_line_def cp_def)

lemma one_line_int: "one_line (str_int n)"
  using digits10_digit[of "abs n"] by (force simp: str_int_def one_line_def is_digit_def cp_def)

lemma one_line_text: "json_ok (number_text repr) j \<Longrightarrow> one_line (jtext repr None l j)"
proof (induction j arbitrary: l)
  case (JFloat q)
  then show ?case by (force simp: number_text_def one_line_def list_all_iff is_digit_def cp_def)
next
  case (JArr vs)
  then show ?case by (auto simp: list_all_iff cp_def intro!: one_line_items)
next
  case (JObj kvs)
  then show ?case by (auto simp: list_all_iff cp_def one_line_quoted snds.simps intro!: one_line_items)
qed (auto simp: one_line_quoted one_line_int cp_def)

lemma replace_chr_absent: "c \<notin> set s \<Longrightarrow> replace_chr c new s = s"
  by (induction s) (auto simp: replace_chr_def)

lemma universal_newlines_id: "CHR 0x0D \<notin> set s \<Longrightarrow> universal_newlines s = s"
  by (simp add: universal_newlines_def replace_sub_absent replace_chr_absent)

lemma breaks: "cp newline = 10" "cp (CHR 0x0D) = 13"
  by code_simp+

lemma one_line_no_break: "one_line s \<Longrightarrow> newline \<notin> set s \<and> CHR 0x0D \<notin> set s"
  using breaks by (fastforce simp: one_line_def)

lemma newline_other: "newline \<noteq> CHR 0x0D"
  using breaks by auto

lemma stdin_printed:
  "\<forall>l \<in> set ls. one_line l \<Longrightarrow> stdin_lines (concat (map (\<lambda>l. l @ [newline]) ls)) = map (\<lambda>l. l @ [newline]) ls"
proof -
  assume a: "\<forall>l \<in> set ls. one_line l"
  have "CHR 0x0D \<notin> set (concat (map (\<lambda>l. l @ [newline]) ls))"
    using a one_line_no_break newline_other by auto
  moreover have "readlines (concat (map (\<lambda>l. l @ [newline]) ls)) = map (\<lambda>l. l @ [newline]) ls"
    using a
  proof (induction ls)
    case (Cons l ls)
    then have "newline \<notin> set l" using one_line_no_break by simp
    then show ?case using Cons readlines_acc_line[of l "[]"] by (simp add: readlines_def)
  qed (simp add: readlines_def)
  ultimately show ?thesis by (simp add: stdin_lines_def universal_newlines_id)
qed

lemma strip_line: "\<exists>t. s = CHR 0x7B # t @ [CHR 0x7D] \<Longrightarrow> strip (s @ [newline]) = s"
proof -
  assume "\<exists>t. s = CHR 0x7B # t @ [CHR 0x7D]"
  then obtain t where s: "s = CHR 0x7B # t @ [CHR 0x7D]" by blast
  have sp: "\<not> is_space (CHR 0x7B)" "\<not> is_space (CHR 0x7D)" "is_space newline" by code_simp+
  have "strip (s @ [newline]) = strip s"
    using sp by (simp add: s strip_def rstrip_def lstrip_def rstrip_by_def)
  then show ?thesis using strip_id[of s] sp by (simp add: s)
qed

lemma read_printed:
  assumes "json_ok (number_text repr) (JObj kvs)"
  shows "read_line t (dumps repr None (JObj kvs) @ [newline]) = read_event t (JObj kvs)"
proof -
  have ok: "json_ok (float_text repr) (JObj kvs)" by (rule json_ok_mono[OF assms]) (simp add: number_text_def)
  have "dumps repr None (JObj kvs) \<noteq> []" using object_text[of repr None kvs] by auto
  then show ?thesis
    using strip_line[OF object_text[of repr None kvs]] loads_dumps[OF ok, of None] by (simp add: read_line_def)
qed

section \<open>Properties\<close>

text \<open>The numbers of an output are finite and print as such.\<close>

definition printable :: "(rat \<Rightarrow> string) \<Rightarrow> watch_out \<Rightarrow> bool" where
  "printable repr out =
     (case out of
        EventLine e \<Rightarrow> number_text repr (de_timestamp e) \<and> (case de_kernel_ts e of Fin q \<Rightarrow> number_text repr q | _ \<Rightarrow> False)
      | RawLine line now \<Rightarrow> number_text repr now)"

lemma wire_object:
  assumes "printable repr out"
  shows "\<exists>kvs. wire_json out = Some (JObj kvs) \<and> json_ok (number_text repr) (JObj kvs) \<and> read_event t (JObj kvs) = Some (Inr (to_input t out))"
proof (cases out)
  case (EventLine e)
  obtain q where q: "de_kernel_ts e = Fin q" "number_text repr q" "number_text repr (de_timestamp e)"
    using assms EventLine by (auto simp: printable_def split: pf.splits)
  then show ?thesis
    by (auto simp: EventLine wire_json_def event_json_def read_event_def to_input_def stamp_of_def dict_ok_def dkeys_def group_json_def
        list_all_iff split: option.splits)
next
  case (RawLine line now)
  then show ?thesis using assms
    by (simp add: printable_def wire_json_def read_event_def to_input_def dict_ok_def dkeys_def)
qed

lemma correlate_printed:
  assumes "list_all (printable repr) outs"
  shows "\<exists>js. those (map wire_json outs) = Some js \<and> (\<forall>j \<in> set js. one_line (dumps repr None j)) \<and>
    correlate_text ticks i (map (\<lambda>j. dumps repr None j @ [newline]) js) st =
      Some (snd (correlate (map (\<lambda>(i, out). to_input (ticks i) out) (enumerate i outs)) st), Inr ())"
  using assms
proof (induction outs arbitrary: i st)
  case (Cons out outs)
  obtain kvs where k: "wire_json out = Some (JObj kvs)" "json_ok (number_text repr) (JObj kvs)"
    "read_event (ticks i) (JObj kvs) = Some (Inr (to_input (ticks i) out))"
    using wire_object[of repr out "ticks i"] Cons.prems by auto
  obtain st' o1 where l: "correlate_line (to_input (ticks i) out) st = (st', o1)" by (cases "correlate_line (to_input (ticks i) out) st")
  obtain js where js: "those (map wire_json outs) = Some js" "\<forall>j \<in> set js. one_line (dumps repr None j)"
    "correlate_text ticks (Suc i) (map (\<lambda>j. dumps repr None j @ [newline]) js) st' =
      Some (snd (correlate (map (\<lambda>(i, out). to_input (ticks i) out) (enumerate (Suc i) outs)) st'), Inr ())"
    using Cons.IH[of "Suc i" st'] Cons.prems by auto
  show ?case
    using k(1,3) js l one_line_text[OF k(2), of 0] read_printed[OF k(2), of "ticks i"]
    by (auto simp: dumps_def split: prod.splits)
qed simp

text \<open>C23: what the watcher prints is read by the correlator, as text and line by line, as what the model of the pipe passes
  from one to the other: over the text, too, the same annotations are pushed and the loop ends normally, whatever
  characters the kernel has logged.\<close>

theorem pipe_over_text:
  assumes "list_all (printable repr) (fst (watch_main dmesg clock follow since all_lines))"
  shows "\<exists>t. printed repr (fst (watch_main dmesg clock follow since all_lines)) = Some t \<and>
     correlate_text ticks 0 (stdin_lines t) (new_buffer w, []) =
       Some (pipe dmesg clock ticks follow since all_lines w, Inr ())"
proof -
  obtain js where js: "those (map wire_json (fst (watch_main dmesg clock follow since all_lines))) = Some js"
    "\<forall>j \<in> set js. one_line (dumps repr None j)"
    "correlate_text ticks 0 (map (\<lambda>j. dumps repr None j @ [newline]) js) (new_buffer w, []) =
      Some (pipe dmesg clock ticks follow since all_lines w, Inr ())"
    using correlate_printed[OF assms, of ticks 0 "(new_buffer w, [])"] by (auto simp: pipe_def)
  have "stdin_lines (concat (map (\<lambda>j. dumps repr None j @ [newline]) js)) = map (\<lambda>j. dumps repr None j @ [newline]) js"
    using stdin_printed[of "map (dumps repr None) js"] js(2) by (simp add: comp_def)
  then show ?thesis using js(1,3) by (simp add: printed_def)
qed

text \<open>A line that is a bare number, truth value or \<open>null\<close> ends the correlator; nothing behind it is read.\<close>

lemma bare_value_ends:
  assumes "strip l \<noteq> []" "loads (strip l) = Some j" "case j of JInt n \<Rightarrow> True | JFloat q \<Rightarrow> True | JBool b \<Rightarrow> True | JNull \<Rightarrow> True | _ \<Rightarrow> False"
  shows "correlate_text ticks i (l # ls) st = Some ([], Inl TypeError)"
  using assms by (auto simp: read_line_def read_event_def split: json.splits)

section \<open>An instance\<close>

text \<open>Three uncorrectable errors: a storm.\<close>

definition three_errors :: "string list \<Rightarrow> string list" where
  "three_errors cmd = replicate 3 ''[    0.750000] EDAC MC0: 1 UE''"

lemma three_quarters_number: "number_text (\<lambda>q. ''0.75'') (3 / 4)"
proof -
  have "list_all (\<lambda>c. is_digit c \<or> c \<in> set ''.eE+-'') ''0.75''" by code_simp
  then show ?thesis using three_quarters by (simp add: number_text_def)
qed

lemma three_events:
  "fst (watch_main three_errors (\<lambda>i. 3 / 4) True None False) =
     replicate 3 (EventLine \<lparr>de_timestamp = 3 / 4, de_kernel_ts = Fin (3 / 4), de_type = ''edac_ue'', de_severity = ''critical'',
       de_message = ''EDAC MC0: 1 UE'', de_groups = [Some ''0'', Some ''1'']\<rparr>)"
  by code_simp

theorem pipe_over_text_witness:
  "\<exists>t. printed (\<lambda>q. ''0.75'') (fst (watch_main three_errors (\<lambda>i. 3 / 4) True None False)) = Some t \<and>
     (\<exists>c. correlate_text (\<lambda>i. (1, 1)) 0 (stdin_lines t) (new_buffer 60, []) = Some ([c], Inr ()) \<and> co_type c = ''event_storm'')"
proof -
  have p: "list_all (printable (\<lambda>q. ''0.75'')) (fst (watch_main three_errors (\<lambda>i. 3 / 4) True None False))"
    by (simp add: three_events printable_def three_quarters_number list_all_iff)
  have "map co_type (pipe three_errors (\<lambda>i. 3 / 4) (\<lambda>i. (1, 1)) True None False 60) = [''event_storm'']" by code_simp
  then obtain c where "pipe three_errors (\<lambda>i. 3 / 4) (\<lambda>i. (1, 1)) True None False 60 = [c]" "co_type c = ''event_storm''" by auto
  then show ?thesis using pipe_over_text[OF p, of "\<lambda>i. (1, 1)" 60] by auto
qed

end
