(* ===== verification/Spec2Isabelle.thy ===== *)
theory Spec2Isabelle
  imports Prelude Ledger PyStr PyFloat PyNum PyRegex Json Exposition ToolText TraceParser TraceParserProps Heartbeat BertReader Bitflip DimmHealth Metrics Cooldown Effects RemState RemController RemControllerProps RemWebhook RemShared AlertWebhook Correlation Integrations IpmiSel Wear Redfish Storage Gpu Rapl PciPmem KubeClient Network Sensors Anomaly Aging MlExporter RaidController Workload Annotations Runbook Rasdaemon Anonymize RegexSearch EdacLog EdacLogProps Forecaster GpuPredictor FleetForecast PromClients Chain DevTools Survival ToolRun ParserCli WatchPipe WebCalls AnonCli BertMain JsonText JsonTextProps JsonRound Files StateFiles PipeText
begin

text \<open>
  A verification library for the Python part of a hardware-fault monitoring suite: programs that run on
  the nodes of a fleet, read what kernel, controllers and vendor tools report, write metrics for
  Prometheus, predict failures, and drain the nodes that are about to fail.

  \<^bold>\<open>The program and how its parts interact.\<close> Collectors (\<open>bmc\<close>, \<open>storage\<close>, \<open>gpu\<close>, \<open>network\<close>, \<open>power_cxl\<close>,
  \<open>ras\<close>, \<open>apei\<close>) run a tool or read sysfs and print samples in the text format; a database scrapes them;
  predictors and detectors (\<open>ml\<close>, \<open>aging\<close>, \<open>anomaly\<close>, \<open>storage/wear_predictor.py\<close>,
  \<open>gpu/gpu_failure_predictor.py\<close>) query that database and print samples of their own; the controller of
  \<open>remediation\<close> polls the failure probability and cordons nodes, sharing one state file with the webhook
  by which operators confirm a replacement; alerts go to the receiver in \<open>recovery\<close>, to annotations and
  runbooks; \<open>correlation\<close> watches the kernel log, and \<open>replay\<close> and \<open>tools\<close> parse, generate, anonymize and
  benchmark such logs.

  \<^bold>\<open>The theories.\<close>

  \<^item> Shared: \<open>Prelude\<close> (exceptions as values of the sum \<open>py\<close>, insertion-ordered dictionaries, counting and
    its interface \<open>tally\<close>), \<open>PyStr\<close> (strings), \<open>PyFloat\<close> and \<open>PyNum\<close> (binary64 arithmetic on
    the finite floats and on all), \<open>PyRegex\<close> and \<open>RegexSearch\<close> (the backtracking matcher, its language, when a
    search finds something), \<open>Json\<close>, \<open>ToolText\<close>, \<open>Exposition\<close> (the text format and its interface
    \<open>sanitizer\<close>), \<open>Effects\<close> (state that survives an exception), \<open>Cooldown\<close> (the interface of every
    cooldown, with two interpretations), \<open>Ledger\<close> (the interfaces of programs that report nothing twice and of
    those whose save may fail, interpreted by the two pollers of event logs), \<open>JsonText\<close>, \<open>JsonTextProps\<close> and \<open>JsonRound\<close> (reading and
    printing JSON, that more fuel and more text change nothing, the round trip), \<open>Files\<close> (the calls by which
    processes change files, stopped or in overlap, and the interface \<open>crash_safe\<close>).
  \<^item> Remediation: \<open>Metrics\<close> (the registry), \<open>RemState\<close>, \<open>RemController\<close> and \<open>RemControllerProps\<close>,
    \<open>KubeClient\<close> (\<open>remediation-controller.py\<close>), \<open>RemWebhook\<close> (\<open>webhook-server.py\<close>), \<open>RemShared\<close> (the two
    processes over one file, call by call), \<open>Integrations\<close> (tickets, cloud events, the lease); \<open>AlertWebhook\<close>
    (\<open>recovery/webhook-server.py\<close>), \<open>Annotations\<close>, \<open>Runbook\<close>.
  \<^item> Logs: \<open>TraceParser\<close>, \<open>TraceParserProps\<close>, \<open>ParserCli\<close> (\<open>replay/parse_edac_trace.py\<close>), \<open>EdacLog\<close> and
    \<open>EdacLogProps\<close> (\<open>tools/generate_edac_log.py\<close> and what the parser makes of its output), \<open>Anonymize\<close> and
    \<open>AnonCli\<close> (\<open>tools/anonymize_log.py\<close>), \<open>Correlation\<close> and \<open>WatchPipe\<close> (\<open>correlation\<close>, the two processes and
    the pipe between them), \<open>Workload\<close>, \<open>BertReader\<close> and
    \<open>BertMain\<close> (\<open>apei/bert_reader.py\<close>).
  \<^item> Collectors: \<open>IpmiSel\<close>, \<open>Sensors\<close>, \<open>Redfish\<close> (\<open>bmc\<close>), \<open>Storage\<close>, \<open>RaidController\<close> (\<open>storage\<close>), \<open>Gpu\<close>,
    \<open>Network\<close>, \<open>Rapl\<close>, \<open>PciPmem\<close> (\<open>power_cxl\<close>), \<open>Rasdaemon\<close>, \<open>Heartbeat\<close>
    (\<open>network-resilience/oob-heartbeat.py\<close>); \<open>ToolRun\<close> (how they run their tools, and each as a process on a
    machine, over the interface \<open>quiet_runner\<close>), \<open>WebCalls\<close> (the requests they send).
  \<^item> Analysis: \<open>Bitflip\<close>, \<open>Forecaster\<close>, \<open>MlExporter\<close>, \<open>Survival\<close> (\<open>ml\<close>), \<open>DimmHealth\<close>, \<open>Aging\<close>,
    \<open>Anomaly\<close>, \<open>Wear\<close>, \<open>GpuPredictor\<close>; the small tools are in \<open>DevTools\<close>, and \<open>FleetForecast\<close>
    runs the forecaster on the series of the EDAC exporter; \<open>PromClients\<close> has the programs that query
    Prometheus as whole processes, and what the runbook learns from it.
  \<^item> Compositions: \<open>Chain\<close>, from the trained models over the probability exporter and the database to the
    polls of the controller; \<open>StateFiles\<close>, the state files as text on the disk, when a save is stopped
    or meets another one, over \<open>crash_safe\<close> and the interface \<open>file_ledger\<close> of the pollers; \<open>PipeText\<close>, the text on the
    pipe from the watcher to the correlator; this theory, the storage collectors, the database and the wear predictor.

  In each of them a record has the fields of the code's object or dictionary, a definition the name of the
  function it models (with a prefix where two modules use one name), and \<open>x_main\<close> or \<open>x_process\<close> is the body
  of a \<open>main\<close> between reading the options and writing the output.

  \<^bold>\<open>What is proved.\<close> Remediation: a poll refines a small specification over node state and API calls, acts
  exactly on the nodes over the threshold, never inside the cooldown, never in a dry run; it returns exactly
  when the state file can be read and written; which requests leave verified, unverified, without TLS or not at
  all; and, over all interleavings of the file calls of the two processes, what a
  confirmed replacement does and how one can be lost. Parsers: framing, round trips and totality (error
  records, sensor tables, frames with their checksum, kernel logs, the composition of generator and
  parser). State files: a text is read back as the document it was printed from, cut
  short it is refused; saving over a temporary file is all or nothing, in place it is not, and two saves over one
  temporary file can destroy it. Reporting: after a save that succeeded no log entry twice, and after one that failed the same
  again; handler runs spaced and exactly those that are due, annotations attempted exactly once, the sliding window exact.
  Arithmetic: bounds and exactness of the predictions in binary64. Composition: what a hanging tool, a
  time format, or the name of a series does to the programs behind it. Several of these theorems show
  what the code does where its documentation says otherwise; they are listed as findings.

  \<^bold>\<open>Modelling choices.\<close> Exceptions are values (\<open>Inl\<close>); a loop that may raise ends with the first. Text is a
  list of characters with code points below 256, and the few characters above it in messages are written
  in ASCII. A finite float is the rational it denotes and every operation is correctly rounded; the sign
  of zero is left out; sums are the plain sums of Python 3.11; \<open>pow\<close> of the C library is an argument
  where \<open>x ** 2\<close> calls it. Integers are unbounded, as in Python; \<open>int()\<close> of a text
  refuses more than 4300 digits to a base that is no power of two, as CPython 3.11 does, while the printing of longer integers,
  which it refuses as well, is not limited in the model; the checksum, the flags and the
  syndromes use bit operations on them and are compared with a register of eight bits. Binary data is a list of byte values,
  little-endian as the formats say. Instants are microseconds, or nanoseconds where pandas keeps them.
  Every loop of the code is structural in its input or has a decreasing measure, so no fuel is used, with one exception:
  the reader of JSON takes twice the length of the text and one as fuel, and \<open>JsonTextProps\<close> shows that no
  amount reads more than that; the loops that never end (polling, heartbeats) are functions of the list of their inputs. Clocks, random
  values, hashes, what files and sysfs hold, the answers of servers, and packages outside the repository
  (Prophet, pandas, lifelines, pickle) are arguments; JSON is modelled after
  parsing, but for the state files and the pipe of the watcher, whose text is modelled too; where a theorem needs a law
  of one of them it is a named hypothesis, and the witness has an instance.

  \<^bold>\<open>Files that fail.\<close> \<open>RemState\<close>, \<open>RemController\<close> and \<open>RemWebhook\<close> take the error that each read or write of a
  file raises as an argument (\<open>pl_load\<close>, \<open>pl_save\<close> and the fields of the webhook's \<open>io\<close>), and it leaves the poll or the
  handler where the code lets it. In \<open>RemShared\<close> every call of a save is a step of its own that may be the last;
  the two processes share the temporary file, and a text is written in one call. The pollers of event logs
  catch a failing save after their report is made: \<open>Ledger\<close> gives every start one of three outcomes of its save
  (written, not begun, cut short), \<open>sel_start\<close> and \<open>redfish_start\<close> follow the code on each, and
  \<open>StateFiles\<close> shows on the texts and calls that these are the outcomes of a save in place that gets to any point.
  \<open>StateFiles\<close> also has all interleavings of the calls of two saves.

  \<^bold>\<open>Not modelled.\<close> Option parsing and the writing of the output file at the end of each \<open>main\<close>; logging;
  sockets and HTTP serving below the handlers; the drawing of the terminal. The hyphenated modules of
  \<open>power_cxl\<close> are copies of the importable ones, which are modelled, and the other hyphenated modules are
  shims of a few lines. The Go programs (\<open>exporter\<close>, \<open>operator\<close>), the C, eBPF and P4 code, the shell tools
  and the deployment files are not Python and are left aside.
\<close>

section \<open>Collectors and predictor\<close>

text \<open>What any number of runs of the two storage collectors have left in the time-series database: their lines.\<close>

type_synonym nvme_run = "rat \<times> bool \<times> string list option \<times> (string \<Rightarrow> Storage.answer) \<times> (string \<Rightarrow> Storage.answer)"
type_synonym sata_run =
  "rat \<times> bool \<times> string list option \<times> (string \<Rightarrow> string option) \<times> (string \<Rightarrow> Storage.answer) \<times> (string \<Rightarrow> Storage.answer)"

definition scraped :: "nvme_run list \<Rightarrow> sata_run list \<Rightarrow> string list" where
  "scraped nvme sata =
     concat (map (\<lambda>(now, cli, listing, smart, errors). nvme_main now cli listing smart errors) nvme) @
     concat (map (\<lambda>(now, cli, listing, rotational, attrs, health). sata_main now cli listing rotational attrs health) sata)"

lemma nvme_main_series: "series_name ` set (nvme_main now cli listing smart errors) \<subseteq> nvme_series"
  by (simp add: nvme_main_def Let_def nvme_lines_series)

lemma sata_main_series: "series_name ` set (sata_main now cli listing rotational attrs health) \<subseteq> sata_series"
  by (simp add: sata_main_def Let_def sata_lines_series)

lemma scraped_series: "series_name ` set (scraped nvme sata) \<subseteq> nvme_series \<union> sata_series"
proof -
  have "series_name l \<in> nvme_series \<union> sata_series" if "l \<in> set (scraped nvme sata)" for l
    using that nvme_main_series sata_main_series unfolding scraped_def by (fastforce simp: image_subset_iff)
  then show ?thesis by blast
qed

lemma queries_not_series:
  "series_name NVME_QUERY \<notin> nvme_series \<union> sata_series" "series_name SATA_QUERY \<notin> nvme_series \<union> sata_series"
  by code_simp+

text \<open>C13: on what the two storage collectors export the wear predictor never sees a device: both of
  its queries name series that no run of either collector writes, so with a database that answers a
  query for an unknown series with the empty result it reports that it is up and predicts nothing.\<close>

theorem wear_never_predicts:
  assumes "\<And>lines query. series_name query \<notin> series_name ` set lines \<Longrightarrow> prometheus lines query = []"
  shows "wear_main now (prometheus (scraped nvme sata) NVME_QUERY) (prometheus (scraped nvme sata) SATA_QUERY) =
    emit_wear_metrics now [] 1"
proof -
  have "prometheus (scraped nvme sata) NVME_QUERY = []" "prometheus (scraped nvme sata) SATA_QUERY = []"
    using scraped_series queries_not_series by (intro assms; blast)+
  then show ?thesis
    by (simp add: wear_main_def run_query_def extract_device_series_def)
qed

text \<open>A database that answers with one device for every series it knows, asked after a run of the
  NVMe collector on a worn disk.\<close>

definition sample_database :: "string list \<Rightarrow> string \<Rightarrow> range_result list" where
  "sample_database lines query =
     (if series_name query \<in> set (map series_name lines)
      then [\<lparr>rr_metric = [(''device'', ''nvme0n1'')], rr_values = [(JInt 0, JStr ''97'')]\<rparr>] else [])"

theorem wear_never_predicts_witness:
  "sample_database (scraped [(0, True, Some [''nvme0n1''], \<lambda>d. Parsed (JObj [(''percent_used'', JInt 97)]), \<lambda>d. Silent)] []) ''nvme_smart_percentage_used'' \<noteq> [] \<and>
   wear_main 5 (sample_database (scraped [(0, True, Some [''nvme0n1''], \<lambda>d. Parsed (JObj [(''percent_used'', JInt 97)]), \<lambda>d. Silent)] []) NVME_QUERY)
     (sample_database (scraped [(0, True, Some [''nvme0n1''], \<lambda>d. Parsed (JObj [(''percent_used'', JInt 97)]), \<lambda>d. Silent)] []) SATA_QUERY) = emit_wear_metrics 5 [] 1"
proof
  show "sample_database (scraped [(0, True, Some [''nvme0n1''], \<lambda>d. Parsed (JObj [(''percent_used'', JInt 97)]), \<lambda>d. Silent)] []) ''nvme_smart_percentage_used'' \<noteq> []"
    by code_simp
  show "wear_main 5 (sample_database (scraped [(0, True, Some [''nvme0n1''], \<lambda>d. Parsed (JObj [(''percent_used'', JInt 97)]), \<lambda>d. Silent)] []) NVME_QUERY)
     (sample_database (scraped [(0, True, Some [''nvme0n1''], \<lambda>d. Parsed (JObj [(''percent_used'', JInt 97)]), \<lambda>d. Silent)] []) SATA_QUERY) = emit_wear_metrics 5 [] 1"
    by (rule wear_never_predicts) (simp add: sample_database_def)
qed

end
